(* ===== verification/Prelude.thy ===== *)
theory Prelude
  imports Main "HOL-Library.Word"
begin

text \<open>
  Shared vocabulary of the development: machine-integer synonyms, the errno values of
  Linux that the sources name, C strings as byte lists, the little-endian image of
  unsigned integers, and the effect type of code that allocates memory and can fail
  (\<open>'a am\<close>), with the collection \<open>am_rule\<close> of its reasoning rules.
\<close>

named_theorems am_rule \<open>rules for \<open>ensures\<close> statements\<close>
named_theorems am_eval \<open>evaluation of allocating computations\<close>

unbundle bit_operations_syntax

type_synonym u8 = "8 word"
type_synonym u16 = "16 word"
type_synonym u32 = "32 word"
type_synonym u64 = "64 word"

subsection \<open>errno values\<close>

abbreviation (input) EPERM :: int where "EPERM \<equiv> 1"
abbreviation (input) ENOENT :: int where "ENOENT \<equiv> 2"
abbreviation (input) ESRCH :: int where "ESRCH \<equiv> 3"
abbreviation (input) EINTR :: int where "EINTR \<equiv> 4"
abbreviation (input) EIO :: int where "EIO \<equiv> 5"
abbreviation (input) E2BIG :: int where "E2BIG \<equiv> 7"
abbreviation (input) EBADF :: int where "EBADF \<equiv> 9"
abbreviation (input) ECHILD :: int where "ECHILD \<equiv> 10"
abbreviation (input) EAGAIN :: int where "EAGAIN \<equiv> 11"
abbreviation (input) ENOMEM :: int where "ENOMEM \<equiv> 12"
abbreviation (input) EACCES :: int where "EACCES \<equiv> 13"
abbreviation (input) EFAULT :: int where "EFAULT \<equiv> 14"
abbreviation (input) EEXIST :: int where "EEXIST \<equiv> 17"
abbreviation (input) ENODEV :: int where "ENODEV \<equiv> 19"
abbreviation (input) ENOTDIR :: int where "ENOTDIR \<equiv> 20"
abbreviation (input) EISDIR :: int where "EISDIR \<equiv> 21"
abbreviation (input) EINVAL :: int where "EINVAL \<equiv> 22"
abbreviation (input) ENOSPC :: int where "ENOSPC \<equiv> 28"
abbreviation (input) EPIPE :: int where "EPIPE \<equiv> 32"
abbreviation (input) ERANGE :: int where "ERANGE \<equiv> 34"
abbreviation (input) ENAMETOOLONG :: int where "ENAMETOOLONG \<equiv> 36"
abbreviation (input) ENOSYS :: int where "ENOSYS \<equiv> 38"
abbreviation (input) EPROTO :: int where "EPROTO \<equiv> 71"
abbreviation (input) EOVERFLOW :: int where "EOVERFLOW \<equiv> 75"
abbreviation (input) EMSGSIZE :: int where "EMSGSIZE \<equiv> 90"
abbreviation (input) EOPNOTSUPP :: int where "EOPNOTSUPP \<equiv> 95"

text \<open>
  A C function that returns -1 either assigned errno (\<open>Err e\<close>) or left the value of
  errno it found (\<open>Stale\<close>).
\<close>

datatype failure = Err int | Stale

type_synonym 'a res = "failure + 'a"

subsection \<open>C strings and little-endian integers\<close>

definition NUL :: char where
  "NUL = CHR 0x00"

text \<open>What a \<open>const char *\<close> pointing at the start of a buffer denotes.\<close>

definition cstr :: "string \<Rightarrow> string" where
  "cstr s = takeWhile (\<lambda>c. c \<noteq> NUL) s"

definition is_cstr :: "string \<Rightarrow> bool" where
  "is_cstr s \<longleftrightarrow> NUL \<notin> set s"

lemma cstr_idem [simp]: "is_cstr s \<Longrightarrow> cstr s = s"
  unfolding cstr_def is_cstr_def by (induction s) auto

lemma is_cstr_cstr [simp]: "is_cstr (cstr s)"
  unfolding cstr_def is_cstr_def by (auto dest: set_takeWhileD)

lemma is_cstr_append [simp]: "is_cstr (s @ t) \<longleftrightarrow> is_cstr s \<and> is_cstr t"
  by (auto simp: is_cstr_def)

lemma is_cstr_Nil [simp]: "is_cstr []"
  by (simp add: is_cstr_def)

lemma is_cstr_Cons [simp]: "is_cstr (c # s) \<longleftrightarrow> c \<noteq> NUL \<and> is_cstr s"
  by (auto simp: is_cstr_def)

lemma cstr_append_NUL [simp]: "is_cstr s \<Longrightarrow> cstr (s @ [NUL]) = s"
  unfolding cstr_def is_cstr_def by (induction s) auto

lemma length_cstr_le: "length (cstr s) \<le> length s"
  unfolding cstr_def by (rule length_takeWhile_le)

fun le_bytes :: "nat \<Rightarrow> nat \<Rightarrow> string" where
  "le_bytes 0 x = []"
| "le_bytes (Suc k) x = char_of (x mod 256) # le_bytes k (x div 256)"

fun le_val :: "string \<Rightarrow> nat" where
  "le_val [] = 0"
| "le_val (c # cs) = of_char c + 256 * le_val cs"

lemma length_le_bytes [simp]: "length (le_bytes k x) = k"
  by (induction k arbitrary: x) auto

lemma le_val_le_bytes: "x < 256 ^ k \<Longrightarrow> le_val (le_bytes k x) = x"
proof (induction k arbitrary: x)
  case (Suc k)
  have "x div 256 < 256 ^ k"
    using Suc.prems by (simp add: less_mult_imp_div_less mult.commute)
  then show ?case
    using Suc.IH[of "x div 256"] by (simp add: of_char_of)
qed simp

lemma le_val_less: "le_val s < 256 ^ length s"
proof (induction s)
  case (Cons c s)
  define P :: nat where "P = 256 ^ length s"
  have "of_char c < (256 :: nat)"
    by (rule nat_of_char_less_256)
  moreover have "le_val s < P"
    using Cons.IH by (simp add: P_def)
  ultimately have "of_char c + 256 * le_val s < 256 * P"
    by linarith
  then show ?case by (simp add: P_def)
qed simp

lemma le_val_le_bytes_u32 [simp]: "le_val (le_bytes 4 (unat (x :: u32))) = unat x"
  by (rule le_val_le_bytes) (use unsigned_less[of x, where ?'a = nat] in simp)

lemma le_val_le_bytes_u64 [simp]: "le_val (le_bytes 8 (unat (x :: u64))) = unat x"
  by (rule le_val_le_bytes) (use unsigned_less[of x, where ?'a = nat] in simp)

subsection \<open>Allocating, fallible computations\<close>

text \<open>
  The outcome of each successive call of malloc, calloc, realloc or strdup is read
  from a list; the empty list stands for an allocator that never fails.
\<close>

type_synonym alloc = "bool list"
type_synonym 'a am = "alloc \<Rightarrow> 'a res \<times> alloc"

definition returnM :: "'a \<Rightarrow> 'a am" where
  "returnM a = (\<lambda>m. (Inr a, m))"

definition failM :: "failure \<Rightarrow> 'a am" where
  "failM e = (\<lambda>m. (Inl e, m))"

definition bindM :: "'a am \<Rightarrow> ('a \<Rightarrow> 'b am) \<Rightarrow> 'b am" where
  "bindM f g = (\<lambda>m. case f m of (Inl e, m') \<Rightarrow> (Inl e, m') | (Inr a, m') \<Rightarrow> g a m')"

definition allocM :: "unit am" where
  "allocM = (\<lambda>m. case m of [] \<Rightarrow> (Inr (), [])
      | b # bs \<Rightarrow> (if b then Inr () else Inl (Err ENOMEM), bs))"

definition guardM :: "bool \<Rightarrow> failure \<Rightarrow> unit am" where
  "guardM b e = (if b then returnM () else failM e)"

definition liftM :: "'a res \<Rightarrow> 'a am" where
  "liftM r = (\<lambda>m. (r, m))"

primrec foldM :: "('a \<Rightarrow> 's \<Rightarrow> 's am) \<Rightarrow> 'a list \<Rightarrow> 's \<Rightarrow> 's am" where
  "foldM f [] s = returnM s"
| "foldM f (x # xs) s = bindM (f x s) (foldM f xs)"

definition ensures :: "'a am \<Rightarrow> ('a \<Rightarrow> bool) \<Rightarrow> bool" where
  "ensures f Q \<longleftrightarrow> (\<forall>m a m'. f m = (Inr a, m') \<longrightarrow> Q a)"

lemma ensuresI: "(\<And>m a m'. f m = (Inr a, m') \<Longrightarrow> Q a) \<Longrightarrow> ensures f Q"
  by (simp add: ensures_def)

lemma ensuresD: "ensures f Q \<Longrightarrow> f m = (Inr a, m') \<Longrightarrow> Q a"
  by (auto simp: ensures_def)

lemma ensures_return [am_rule]: "Q a \<Longrightarrow> ensures (returnM a) Q"
  by (simp add: ensures_def returnM_def)

lemma ensures_fail [am_rule]: "ensures (failM e) Q"
  by (simp add: ensures_def failM_def)

lemma ensures_bind [am_rule]:
  "ensures f (\<lambda>a. ensures (g a) Q) \<Longrightarrow> ensures (bindM f g) Q"
  unfolding ensures_def bindM_def by (clarsimp split: prod.splits sum.splits) blast

lemma ensures_alloc [am_rule]: "Q () \<Longrightarrow> ensures allocM Q"
  by (simp add: ensures_def)

lemma ensures_guard [am_rule]: "(b \<Longrightarrow> Q ()) \<Longrightarrow> ensures (guardM b e) Q"
  by (simp add: ensures_def guardM_def returnM_def failM_def)

lemma ensures_lift [am_rule]: "(\<And>a. r = Inr a \<Longrightarrow> Q a) \<Longrightarrow> ensures (liftM r) Q"
  by (auto simp: ensures_def liftM_def)

lemma ensures_if [am_rule]:
  "(b \<Longrightarrow> ensures f Q) \<Longrightarrow> (\<not> b \<Longrightarrow> ensures g Q) \<Longrightarrow> ensures (if b then f else g) Q"
  by simp

lemma ensures_mono: "ensures f P \<Longrightarrow> (\<And>a. P a \<Longrightarrow> Q a) \<Longrightarrow> ensures f Q"
  by (auto simp: ensures_def)

lemma ensures_foldM:
  assumes "I s" and "\<And>x s. x \<in> set xs \<Longrightarrow> I s \<Longrightarrow> ensures (f x s) I"
  shows "ensures (foldM f xs s) I"
  using assms
proof (induction xs arbitrary: s)
  case Nil
  then show ?case by (auto intro: am_rule)
next
  case (Cons x xs)
  have "ensures (f x s) I" using Cons.prems by simp
  then have "ensures (f x s) (\<lambda>s. ensures (foldM f xs s) I)"
    by (rule ensures_mono) (use Cons in simp)
  then show ?case by (auto intro: ensures_bind)
qed

text \<open>With an allocator that does not fail, \<open>f []\<close> is the value of the computation.\<close>

lemma returnM_eval [am_eval]: "returnM a m = (Inr a, m)"
  by (simp add: returnM_def)

lemma failM_eval [am_eval]: "failM e m = (Inl e, m)"
  by (simp add: failM_def)

lemma bindM_app [am_eval]:
  "bindM f g m = (case f m of (Inl e, m') \<Rightarrow> (Inl e, m') | (Inr a, m') \<Rightarrow> g a m')"
  by (simp add: bindM_def)

lemma allocM_eval [am_eval]: "allocM [] = (Inr (), [])"
  by (simp add: allocM_def)

lemma guardM_True [am_eval]: "b \<Longrightarrow> guardM b e m = (Inr (), m)"
  by (simp add: guardM_def returnM_def)

lemma guardM_False [am_eval]: "\<not> b \<Longrightarrow> guardM b e m = (Inl e, m)"
  by (simp add: guardM_def failM_def)

lemma liftM_eval [am_eval]: "liftM r m = (r, m)"
  by (simp add: liftM_def)

lemma foldM_append: "foldM f (xs @ ys) s = bindM (foldM f xs s) (foldM f ys)"
proof (induction xs arbitrary: s)
  case (Cons x xs)
  then show ?case
    by (auto simp: bindM_def fun_eq_iff split: prod.splits sum.splits)
qed (simp add: bindM_def returnM_def)

end
