(* ===== verification/Policy_IR.thy ===== *)
theory Policy_IR
  imports Prelude
begin

text \<open>
  \<open>src/src/landlock_policy_ir.h\<close> and \<open>landlock_policy_ir.c\<close>: the in-memory policy. A counted,
  heap-allocated array is a list; a \<open>char *\<close> argument is an option (\<open>None\<close> is NULL); the
  \<open>struct landlockd_policy_ir\<close> itself is passed as a value, and a failing operation leaves it as it
  was, so operations return the new value in the allocating effect of the prelude.
\<close>

subsection \<open>Data\<close>

record fs_rule =
  r_path :: string
  r_allowed :: u64

record fs_layer =
  l_handled :: u64
  l_rules :: "fs_rule list"

record net_rule =
  n_port :: u16
  n_allowed :: u64

record bind_rule =
  b_source :: string
  b_target :: string
  b_read_only :: bool

record object_rule =
  o_name :: string
  o_fs_type :: string
  o_attach :: "string list"
  o_attrs :: u64

record addfd_rule =
  a_action :: string
  a_target :: string
  a_mode :: "string option"

record ir =
  fs_layers :: "fs_layer list"
  net_enabled :: bool
  net_handled :: u64
  net_rules :: "net_rule list"
  broker_open_read :: "string list"
  broker_open_write :: "string list"
  broker_scratch :: "string list"
  broker_export :: "string list"
  broker_mount_tmpfs :: "string list"
  broker_mount_bind :: "bind_rule list"
  broker_mount_object :: "object_rule list"
  broker_addfd :: "addfd_rule list"
  mount_tmpfs :: "string list"
  mount_bind :: "bind_rule list"
  mount_proc :: "string list"
  runtime_root :: "string option"
  runtime_cwd :: "string option"
  seccomp_enabled :: bool
  seccomp_errno :: u16
  seccomp_deny :: "int list"

subsection \<open>Operations\<close>

definition ir_init :: ir where
  "ir_init = \<lparr>fs_layers = [], net_enabled = False, net_handled = 0, net_rules = [],
     broker_open_read = [], broker_open_write = [], broker_scratch = [], broker_export = [],
     broker_mount_tmpfs = [], broker_mount_bind = [], broker_mount_object = [], broker_addfd = [],
     mount_tmpfs = [], mount_bind = [], mount_proc = [], runtime_root = None, runtime_cwd = None,
     seccomp_enabled = False, seccomp_errno = 0, seccomp_deny = []\<rparr>"

text \<open>Everything is freed and the structure zeroed.\<close>

definition ir_reset :: "ir \<Rightarrow> ir" where
  "ir_reset i = ir_init"

text \<open>The guard \<open>s == NULL || s[0] == 0\<close>, and \<open>strdup\<close>, which copies up to the first NUL.\<close>

definition nonempty :: "string option \<Rightarrow> bool" where
  "nonempty s = (case s of None \<Rightarrow> False | Some s \<Rightarrow> cstr s \<noteq> '''')"

definition strdup :: "string \<Rightarrow> string am" where
  "strdup s = bindM allocM (\<lambda>_. returnM (cstr s))"

definition add_fs_layer :: "u64 \<Rightarrow> ir \<Rightarrow> (ir \<times> nat) am" where
  "add_fs_layer h i =
     bindM (guardM (h \<noteq> 0) (Err EINVAL)) (\<lambda>_.
     bindM allocM (\<lambda>_.
     returnM (i\<lparr>fs_layers := fs_layers i @ [\<lparr>l_handled = h, l_rules = []\<rparr>]\<rparr>, length (fs_layers i))))"

definition add_fs_rule :: "nat \<Rightarrow> string option \<Rightarrow> u64 \<Rightarrow> ir \<Rightarrow> ir am" where
  "add_fs_rule layer_index p acc i =
     bindM (guardM (p \<noteq> None \<and> acc \<noteq> 0 \<and> layer_index < length (fs_layers i)) (Err EINVAL)) (\<lambda>_.
     bindM (strdup (the p)) (\<lambda>path_copy.
     bindM allocM (\<lambda>_.
     let layer = fs_layers i ! layer_index in
     returnM (i\<lparr>fs_layers := (fs_layers i)[layer_index :=
       layer\<lparr>l_rules := l_rules layer @ [\<lparr>r_path = path_copy, r_allowed = acc\<rparr>]\<rparr>]\<rparr>))))"

definition enable_net :: "u64 \<Rightarrow> ir \<Rightarrow> ir am" where
  "enable_net h i = bindM (guardM (h \<noteq> 0) (Err EINVAL)) (\<lambda>_.
     returnM (i\<lparr>net_enabled := True, net_handled := h\<rparr>))"

definition add_net_rule :: "u16 \<Rightarrow> u64 \<Rightarrow> ir \<Rightarrow> ir am" where
  "add_net_rule p acc i =
     bindM (guardM (acc \<noteq> 0 \<and> net_enabled i) (Err EINVAL)) (\<lambda>_.
     bindM allocM (\<lambda>_.
     returnM (i\<lparr>net_rules := net_rules i @ [\<lparr>n_port = p, n_allowed = acc\<rparr>]\<rparr>)))"

text \<open>The common body of the seven operations that append one path to a list.\<close>

definition append_path :: "string option \<Rightarrow> (string \<Rightarrow> ir) \<Rightarrow> ir am" where
  "append_path p store =
     bindM (guardM (nonempty p) (Err EINVAL)) (\<lambda>_.
     bindM (strdup (the p)) (\<lambda>path_copy.
     bindM allocM (\<lambda>_. returnM (store path_copy))))"

definition add_broker_open_read_rule :: "string option \<Rightarrow> ir \<Rightarrow> ir am" where
  "add_broker_open_read_rule p i =
     append_path p (\<lambda>c. i\<lparr>broker_open_read := broker_open_read i @ [c]\<rparr>)"

definition add_broker_open_write_rule :: "string option \<Rightarrow> ir \<Rightarrow> ir am" where
  "add_broker_open_write_rule p i =
     append_path p (\<lambda>c. i\<lparr>broker_open_write := broker_open_write i @ [c]\<rparr>)"

definition add_broker_scratch_rule :: "string option \<Rightarrow> ir \<Rightarrow> ir am" where
  "add_broker_scratch_rule p i =
     append_path p (\<lambda>c. i\<lparr>broker_scratch := broker_scratch i @ [c]\<rparr>)"

definition add_broker_export_rule :: "string option \<Rightarrow> ir \<Rightarrow> ir am" where
  "add_broker_export_rule p i =
     append_path p (\<lambda>c. i\<lparr>broker_export := broker_export i @ [c]\<rparr>)"

definition add_broker_mount_tmpfs_rule :: "string option \<Rightarrow> ir \<Rightarrow> ir am" where
  "add_broker_mount_tmpfs_rule p i =
     append_path p (\<lambda>c. i\<lparr>broker_mount_tmpfs := broker_mount_tmpfs i @ [c]\<rparr>)"

text \<open>The common body of the two bind-mount operations.\<close>

definition append_bind :: "string option \<Rightarrow> string option \<Rightarrow> bool \<Rightarrow> (bind_rule \<Rightarrow> ir) \<Rightarrow> ir am" where
  "append_bind src tgt ro store =
     bindM (guardM (nonempty src \<and> nonempty tgt) (Err EINVAL)) (\<lambda>_.
     bindM (strdup (the src)) (\<lambda>source_copy.
     bindM (strdup (the tgt)) (\<lambda>target_copy.
     bindM allocM (\<lambda>_.
     returnM (store \<lparr>b_source = source_copy, b_target = target_copy, b_read_only = ro\<rparr>)))))"

definition add_broker_mount_bind_rule :: "string option \<Rightarrow> string option \<Rightarrow> bool \<Rightarrow> ir \<Rightarrow> ir am" where
  "add_broker_mount_bind_rule src tgt ro i =
     append_bind src tgt ro (\<lambda>r. i\<lparr>broker_mount_bind := broker_mount_bind i @ [r]\<rparr>)"

text \<open>The copying loop over the attach paths.\<close>

fun copy_attach_paths :: "string option list \<Rightarrow> string list am" where
  "copy_attach_paths [] = returnM []"
| "copy_attach_paths (p # ps) =
     bindM (guardM (nonempty p) (Err EINVAL)) (\<lambda>_.
     bindM (strdup (the p)) (\<lambda>c.
     bindM (copy_attach_paths ps) (\<lambda>cs. returnM (c # cs))))"

definition add_broker_mount_object_rule ::
    "string option \<Rightarrow> string option \<Rightarrow> string option list option \<Rightarrow> u64 \<Rightarrow> ir \<Rightarrow> ir am" where
  "add_broker_mount_object_rule name ty attach attrs i =
     bindM (guardM (nonempty name \<and> nonempty ty \<and> attach \<noteq> None \<and> attach \<noteq> Some []) (Err EINVAL)) (\<lambda>_.
     bindM (strdup (the name)) (\<lambda>name_copy.
     bindM (strdup (the ty)) (\<lambda>fs_type_copy.
     bindM allocM (\<lambda>_.
     bindM (copy_attach_paths (the attach)) (\<lambda>attach_copies.
     bindM allocM (\<lambda>_.
     returnM (i\<lparr>broker_mount_object := broker_mount_object i @
       [\<lparr>o_name = name_copy, o_fs_type = fs_type_copy, o_attach = attach_copies,
         o_attrs = attrs\<rparr>]\<rparr>)))))))"

definition add_broker_addfd_rule ::
    "string option \<Rightarrow> string option \<Rightarrow> string option \<Rightarrow> ir \<Rightarrow> ir am" where
  "add_broker_addfd_rule act tgt md i =
     bindM (guardM (nonempty act \<and> nonempty tgt) (Err EINVAL)) (\<lambda>_.
     bindM (strdup (the act)) (\<lambda>action_copy.
     bindM (strdup (the tgt)) (\<lambda>target_copy.
     bindM (if nonempty md then bindM (strdup (the md)) (\<lambda>c. returnM (Some c)) else returnM None)
       (\<lambda>mode_copy.
     bindM allocM (\<lambda>_.
     returnM (i\<lparr>broker_addfd := broker_addfd i @
       [\<lparr>a_action = action_copy, a_target = target_copy, a_mode = mode_copy\<rparr>]\<rparr>))))))"

definition add_mount_tmpfs_rule :: "string option \<Rightarrow> ir \<Rightarrow> ir am" where
  "add_mount_tmpfs_rule p i =
     append_path p (\<lambda>c. i\<lparr>mount_tmpfs := mount_tmpfs i @ [c]\<rparr>)"

definition add_mount_bind_rule :: "string option \<Rightarrow> string option \<Rightarrow> bool \<Rightarrow> ir \<Rightarrow> ir am" where
  "add_mount_bind_rule src tgt ro i =
     append_bind src tgt ro (\<lambda>r. i\<lparr>mount_bind := mount_bind i @ [r]\<rparr>)"

definition add_mount_proc_rule :: "string option \<Rightarrow> ir \<Rightarrow> ir am" where
  "add_mount_proc_rule p i =
     append_path p (\<lambda>c. i\<lparr>mount_proc := mount_proc i @ [c]\<rparr>)"

definition set_runtime_root :: "string option \<Rightarrow> ir \<Rightarrow> ir am" where
  "set_runtime_root p i =
     bindM (guardM (nonempty p \<and> runtime_root i = None) (Err EINVAL)) (\<lambda>_.
     bindM (strdup (the p)) (\<lambda>c. returnM (i\<lparr>runtime_root := Some c\<rparr>)))"

definition set_runtime_cwd :: "string option \<Rightarrow> ir \<Rightarrow> ir am" where
  "set_runtime_cwd p i =
     bindM (guardM (nonempty p \<and> runtime_cwd i = None) (Err EINVAL)) (\<lambda>_.
     bindM (strdup (the p)) (\<lambda>c. returnM (i\<lparr>runtime_cwd := Some c\<rparr>)))"

definition enable_seccomp :: "u16 \<Rightarrow> ir \<Rightarrow> ir am" where
  "enable_seccomp e i = bindM (guardM (e \<noteq> 0) (Err EINVAL)) (\<lambda>_.
     returnM (i\<lparr>seccomp_enabled := True, seccomp_errno := e\<rparr>))"

definition add_seccomp_deny_rule :: "int \<Rightarrow> ir \<Rightarrow> ir am" where
  "add_seccomp_deny_rule nr i =
     bindM (guardM (seccomp_enabled i \<and> \<not> nr < 0) (Err EINVAL)) (\<lambda>_.
     bindM allocM (\<lambda>_. returnM (i\<lparr>seccomp_deny := seccomp_deny i @ [nr]\<rparr>)))"

subsection \<open>Deep copy\<close>

text \<open>\<open>calloc\<close> for a non-empty array, then one copy per element.\<close>

fun mapM :: "('a \<Rightarrow> 'b am) \<Rightarrow> 'a list \<Rightarrow> 'b list am" where
  "mapM f [] = returnM []"
| "mapM f (x # xs) = bindM (f x) (\<lambda>y. bindM (mapM f xs) (\<lambda>ys. returnM (y # ys)))"

definition copy_array :: "('a \<Rightarrow> 'a am) \<Rightarrow> 'a list \<Rightarrow> 'a list am" where
  "copy_array f xs = (if xs = [] then returnM [] else bindM allocM (\<lambda>_. mapM f xs))"

definition copy_fs_rule :: "fs_rule \<Rightarrow> fs_rule am" where
  "copy_fs_rule r = bindM (strdup (r_path r)) (\<lambda>c. returnM (r\<lparr>r_path := c\<rparr>))"

definition copy_fs_layer :: "fs_layer \<Rightarrow> fs_layer am" where
  "copy_fs_layer l = bindM (copy_array copy_fs_rule (l_rules l)) (\<lambda>rs. returnM (l\<lparr>l_rules := rs\<rparr>))"

definition copy_fs :: "ir \<Rightarrow> ir \<Rightarrow> ir am" where
  "copy_fs src dst = bindM (mapM copy_fs_layer (fs_layers src)) (\<lambda>ls. returnM (dst\<lparr>fs_layers := ls\<rparr>))"

definition copy_net :: "ir \<Rightarrow> ir \<Rightarrow> ir am" where
  "copy_net src dst = (if net_enabled src
     then bindM (copy_array returnM (net_rules src)) (\<lambda>rs.
       returnM (dst\<lparr>net_enabled := True, net_handled := net_handled src, net_rules := rs\<rparr>))
     else returnM dst)"

definition copy_broker_paths :: "ir \<Rightarrow> ir \<Rightarrow> ir am" where
  "copy_broker_paths src dst =
     bindM (copy_array strdup (broker_open_read src)) (\<lambda>r.
     bindM (copy_array strdup (broker_open_write src)) (\<lambda>w.
     bindM (copy_array strdup (broker_scratch src)) (\<lambda>s.
     bindM (copy_array strdup (broker_export src)) (\<lambda>e.
     bindM (copy_array strdup (broker_mount_tmpfs src)) (\<lambda>t.
     returnM (dst\<lparr>broker_open_read := r, broker_open_write := w, broker_scratch := s,
       broker_export := e, broker_mount_tmpfs := t\<rparr>))))))"

definition copy_bind_rule :: "bind_rule \<Rightarrow> bind_rule am" where
  "copy_bind_rule b =
     bindM (strdup (b_source b)) (\<lambda>s. bindM (strdup (b_target b)) (\<lambda>t.
     returnM \<lparr>b_source = s, b_target = t, b_read_only = b_read_only b\<rparr>))"

definition copy_object_rule :: "object_rule \<Rightarrow> object_rule am" where
  "copy_object_rule r =
     bindM (strdup (o_name r)) (\<lambda>n. bindM (strdup (o_fs_type r)) (\<lambda>t.
     bindM allocM (\<lambda>_. bindM (mapM strdup (o_attach r)) (\<lambda>ps.
     returnM \<lparr>o_name = n, o_fs_type = t, o_attach = ps, o_attrs = o_attrs r\<rparr>))))"

definition copy_broker_mounts :: "ir \<Rightarrow> ir \<Rightarrow> ir am" where
  "copy_broker_mounts src dst =
     bindM (copy_array copy_bind_rule (broker_mount_bind src)) (\<lambda>b.
     bindM (copy_array copy_object_rule (broker_mount_object src)) (\<lambda>r.
     returnM (dst\<lparr>broker_mount_bind := b, broker_mount_object := r\<rparr>)))"

definition copy_addfd_rule :: "addfd_rule \<Rightarrow> addfd_rule am" where
  "copy_addfd_rule a =
     bindM (strdup (a_action a)) (\<lambda>c. bindM (strdup (a_target a)) (\<lambda>t.
     bindM (case a_mode a of None \<Rightarrow> returnM None
            | Some md \<Rightarrow> bindM (strdup md) (\<lambda>d. returnM (Some d))) (\<lambda>md.
     returnM \<lparr>a_action = c, a_target = t, a_mode = md\<rparr>)))"

definition copy_mounts :: "ir \<Rightarrow> ir \<Rightarrow> ir am" where
  "copy_mounts src dst =
     bindM (copy_array copy_addfd_rule (broker_addfd src)) (\<lambda>a.
     bindM (copy_array strdup (mount_tmpfs src)) (\<lambda>t.
     bindM (copy_array copy_bind_rule (mount_bind src)) (\<lambda>b.
     bindM (copy_array strdup (mount_proc src)) (\<lambda>p.
     returnM (dst\<lparr>broker_addfd := a, mount_tmpfs := t, mount_bind := b, mount_proc := p\<rparr>)))))"

definition copy_opt_string :: "string option \<Rightarrow> string option \<Rightarrow> string option am" where
  "copy_opt_string s d = (case s of None \<Rightarrow> returnM d
     | Some p \<Rightarrow> bindM (strdup p) (\<lambda>c. returnM (Some c)))"

definition copy_runtime :: "ir \<Rightarrow> ir \<Rightarrow> ir am" where
  "copy_runtime src dst =
     bindM (copy_opt_string (runtime_root src) (runtime_root dst)) (\<lambda>r.
     bindM (copy_opt_string (runtime_cwd src) (runtime_cwd dst)) (\<lambda>c.
     returnM (dst\<lparr>runtime_root := r, runtime_cwd := c\<rparr>)))"

definition copy_seccomp :: "ir \<Rightarrow> ir \<Rightarrow> ir am" where
  "copy_seccomp src dst = (if seccomp_enabled src
     then bindM (enable_seccomp (seccomp_errno src) dst) (\<lambda>d.
          bindM (copy_array returnM (seccomp_deny src)) (\<lambda>ns.
          returnM (d\<lparr>seccomp_deny := ns\<rparr>)))
     else returnM dst)"

definition copy_rest :: "ir \<Rightarrow> ir \<Rightarrow> ir am" where
  "copy_rest src dst =
     bindM (copy_fs src dst) (\<lambda>d. bindM (copy_net src d) (\<lambda>d.
     bindM (copy_broker_paths src d) (\<lambda>d. bindM (copy_broker_mounts src d) (\<lambda>d.
     bindM (copy_mounts src d) (\<lambda>d. bindM (copy_runtime src d) (copy_seccomp src))))))"

text \<open>The check that the destination is empty; it does not look at \<open>net_handled_access\<close>.\<close>

definition copy_dst_empty :: "ir \<Rightarrow> bool" where
  "copy_dst_empty d \<longleftrightarrow> d\<lparr>net_handled := 0\<rparr> = ir_init"

text \<open>The result of the call with the destination the caller is left with.\<close>

definition ir_copy :: "ir \<Rightarrow> ir \<Rightarrow> alloc \<Rightarrow> (unit res \<times> ir) \<times> alloc" where
  "ir_copy src dst m =
     (if \<not> copy_dst_empty dst then ((Inl (Err EINVAL), dst), m)
      else case (if fs_layers src = [] then (Inr (), m) else allocM m) of
        (Inl e, m) \<Rightarrow> ((Inl e, dst), m)
      | (Inr _, m) \<Rightarrow> (case copy_rest src dst m of
          (Inl e, m) \<Rightarrow> ((Inl e, ir_reset dst), m)
        | (Inr d, m) \<Rightarrow> ((Inr (), d), m)))"

subsection \<open>Well-formed policies\<close>

definition good_path :: "string \<Rightarrow> bool" where
  "good_path p \<longleftrightarrow> p \<noteq> [] \<and> is_cstr p"

definition layer_wf :: "fs_layer \<Rightarrow> bool" where
  "layer_wf l \<longleftrightarrow> l_handled l \<noteq> 0 \<and>
     list_all (\<lambda>r. is_cstr (r_path r) \<and> r_allowed r \<noteq> 0) (l_rules l)"

definition bind_wf :: "bind_rule \<Rightarrow> bool" where
  "bind_wf b \<longleftrightarrow> good_path (b_source b) \<and> good_path (b_target b)"

definition object_wf :: "object_rule \<Rightarrow> bool" where
  "object_wf r \<longleftrightarrow> good_path (o_name r) \<and> good_path (o_fs_type r) \<and> o_attach r \<noteq> [] \<and>
     list_all good_path (o_attach r)"

definition addfd_wf :: "addfd_rule \<Rightarrow> bool" where
  "addfd_wf a \<longleftrightarrow> good_path (a_action a) \<and> good_path (a_target a) \<and> pred_option good_path (a_mode a)"

definition ir_wf :: "ir \<Rightarrow> bool" where
  "ir_wf i \<longleftrightarrow>
     list_all layer_wf (fs_layers i) \<and>
     (if net_enabled i then net_handled i \<noteq> 0 \<and> list_all (\<lambda>r. n_allowed r \<noteq> 0) (net_rules i)
      else net_handled i = 0 \<and> net_rules i = []) \<and>
     list_all good_path (broker_open_read i) \<and> list_all good_path (broker_open_write i) \<and>
     list_all good_path (broker_scratch i) \<and> list_all good_path (broker_export i) \<and>
     list_all good_path (broker_mount_tmpfs i) \<and> list_all bind_wf (broker_mount_bind i) \<and>
     list_all object_wf (broker_mount_object i) \<and> list_all addfd_wf (broker_addfd i) \<and>
     list_all good_path (mount_tmpfs i) \<and> list_all bind_wf (mount_bind i) \<and>
     list_all good_path (mount_proc i) \<and>
     pred_option good_path (runtime_root i) \<and> pred_option good_path (runtime_cwd i) \<and>
     (if seccomp_enabled i then seccomp_errno i \<noteq> 0 \<and> list_all (\<lambda>n. 0 \<le> n) (seccomp_deny i)
      else seccomp_errno i = 0 \<and> seccomp_deny i = [])"

subsection \<open>Every operation keeps the policy well-formed\<close>

lemma ensures_strdup [am_rule]: "Q (cstr s) \<Longrightarrow> ensures (strdup s) Q"
  unfolding strdup_def by (intro am_rule)

lemma strdup_eval [am_eval]: "strdup s [] = (Inr (cstr s), [])"
  by (simp add: strdup_def am_eval)

lemma good_path_cstr [simp]: "good_path (cstr s) \<longleftrightarrow> cstr s \<noteq> []"
  by (simp add: good_path_def)

lemma nonempty_simps [simp]: "nonempty None = False" "nonempty (Some s) = (cstr s \<noteq> [])"
  by (simp_all add: nonempty_def)

lemma good_path_simps: "good_path p \<Longrightarrow> cstr p = p \<and> p \<noteq> [] \<and> is_cstr p"
  by (simp add: good_path_def)

lemma ir_init_wf [simp]: "ir_wf ir_init"
  by (simp add: ir_wf_def ir_init_def)

lemma ensures_append_path [am_rule]:
  assumes "\<And>c. good_path c \<Longrightarrow> Q (store c)"
  shows "ensures (append_path p store) Q"
  unfolding append_path_def
  by (intro am_rule assms) (cases p; simp)

lemma ensures_append_bind [am_rule]:
  assumes "\<And>b. bind_wf b \<Longrightarrow> Q (store b)"
  shows "ensures (append_bind src tgt ro store) Q"
  unfolding append_bind_def
  by (intro am_rule assms) (cases src; cases tgt; simp add: bind_wf_def)

lemma ensures_copy_attach: "ensures (copy_attach_paths ps) (\<lambda>cs. list_all good_path cs \<and> length cs = length ps)"
proof (induction ps)
  case (Cons p ps)
  show ?case
    unfolding copy_attach_paths.simps
    by (intro am_rule) (rule ensures_mono[OF Cons.IH], intro am_rule, cases p; simp)
qed (simp add: ensures_return)

text \<open>One operation of the policy interface, with its arguments.\<close>

datatype ir_op =
    Add_fs_layer u64
  | Add_fs_rule nat "string option" u64
  | Enable_net u64
  | Add_net_rule u16 u64
  | Add_broker_open_read "string option"
  | Add_broker_open_write "string option"
  | Add_broker_scratch "string option"
  | Add_broker_export "string option"
  | Add_broker_mount_tmpfs "string option"
  | Add_broker_mount_bind "string option" "string option" bool
  | Add_broker_mount_object "string option" "string option" "string option list option" u64
  | Add_broker_addfd "string option" "string option" "string option"
  | Add_mount_tmpfs "string option"
  | Add_mount_bind "string option" "string option" bool
  | Add_mount_proc "string option"
  | Set_runtime_root "string option"
  | Set_runtime_cwd "string option"
  | Enable_seccomp u16
  | Add_seccomp_deny int

fun run_op :: "ir_op \<Rightarrow> ir \<Rightarrow> ir am" where
  "run_op (Add_fs_layer h) i = bindM (add_fs_layer h i) (\<lambda>r. returnM (fst r))"
| "run_op (Add_fs_rule l p a) i = add_fs_rule l p a i"
| "run_op (Enable_net h) i = enable_net h i"
| "run_op (Add_net_rule p a) i = add_net_rule p a i"
| "run_op (Add_broker_open_read p) i = add_broker_open_read_rule p i"
| "run_op (Add_broker_open_write p) i = add_broker_open_write_rule p i"
| "run_op (Add_broker_scratch p) i = add_broker_scratch_rule p i"
| "run_op (Add_broker_export p) i = add_broker_export_rule p i"
| "run_op (Add_broker_mount_tmpfs p) i = add_broker_mount_tmpfs_rule p i"
| "run_op (Add_broker_mount_bind s t r) i = add_broker_mount_bind_rule s t r i"
| "run_op (Add_broker_mount_object n t ps a) i = add_broker_mount_object_rule n t ps a i"
| "run_op (Add_broker_addfd a t m) i = add_broker_addfd_rule a t m i"
| "run_op (Add_mount_tmpfs p) i = add_mount_tmpfs_rule p i"
| "run_op (Add_mount_bind s t r) i = add_mount_bind_rule s t r i"
| "run_op (Add_mount_proc p) i = add_mount_proc_rule p i"
| "run_op (Set_runtime_root p) i = set_runtime_root p i"
| "run_op (Set_runtime_cwd p) i = set_runtime_cwd p i"
| "run_op (Enable_seccomp e) i = enable_seccomp e i"
| "run_op (Add_seccomp_deny n) i = add_seccomp_deny_rule n i"

lemma add_fs_layer_wf [am_rule]: "ir_wf i \<Longrightarrow> ensures (add_fs_layer h i) (\<lambda>r. ir_wf (fst r))"
  unfolding add_fs_layer_def by (intro am_rule) (simp add: ir_wf_def layer_wf_def)

lemma add_fs_rule_wf [am_rule]: "ir_wf i \<Longrightarrow> ensures (add_fs_rule l p a i) ir_wf"
  unfolding add_fs_rule_def Let_def
  by (intro am_rule) (auto simp: ir_wf_def layer_wf_def list_all_length nth_list_update nth_append)

lemma add_broker_mount_object_rule_wf [am_rule]:
  assumes "ir_wf i"
  shows "ensures (add_broker_mount_object_rule n t ps a i) ir_wf"
  unfolding add_broker_mount_object_rule_def
  by (intro am_rule, rule ensures_mono[OF ensures_copy_attach], intro am_rule)
    (use assms in \<open>cases n; cases t; auto simp: ir_wf_def object_wf_def\<close>)

lemma add_broker_addfd_rule_wf [am_rule]:
  assumes "ir_wf i"
  shows "ensures (add_broker_addfd_rule a t m i) ir_wf"
  unfolding add_broker_addfd_rule_def
  by (intro am_rule; cases a; cases t; cases m) (use assms in \<open>simp_all add: ir_wf_def addfd_wf_def\<close>)

lemma append_ops_wf [am_rule]:
  assumes "ir_wf i"
  shows "ensures (add_broker_open_read_rule p i) ir_wf"
    and "ensures (add_broker_open_write_rule p i) ir_wf"
    and "ensures (add_broker_scratch_rule p i) ir_wf"
    and "ensures (add_broker_export_rule p i) ir_wf"
    and "ensures (add_broker_mount_tmpfs_rule p i) ir_wf"
    and "ensures (add_mount_tmpfs_rule p i) ir_wf"
    and "ensures (add_mount_proc_rule p i) ir_wf"
    and "ensures (add_broker_mount_bind_rule s t r i) ir_wf"
    and "ensures (add_mount_bind_rule s t r i) ir_wf"
  unfolding add_broker_open_read_rule_def add_broker_open_write_rule_def add_broker_scratch_rule_def
    add_broker_export_rule_def add_broker_mount_tmpfs_rule_def add_mount_tmpfs_rule_def
    add_mount_proc_rule_def add_broker_mount_bind_rule_def add_mount_bind_rule_def
  by (intro am_rule; use assms in \<open>simp add: ir_wf_def\<close>)+

lemma switch_ops_wf [am_rule]:
  assumes "ir_wf i"
  shows "ensures (enable_net h i) ir_wf"
    and "ensures (enable_seccomp e i) ir_wf"
    and "ensures (add_net_rule q a i) ir_wf"
    and "ensures (add_seccomp_deny_rule n i) ir_wf"
  unfolding enable_net_def enable_seccomp_def add_net_rule_def add_seccomp_deny_rule_def
  by (intro am_rule; use assms in \<open>auto simp: ir_wf_def split: if_splits\<close>)+

lemma set_runtime_wf [am_rule]:
  assumes "ir_wf i"
  shows "ensures (set_runtime_root p i) ir_wf" and "ensures (set_runtime_cwd p i) ir_wf"
  unfolding set_runtime_root_def set_runtime_cwd_def
  by (intro am_rule; use assms in \<open>cases p; simp add: ir_wf_def\<close>)+

lemma run_op_wf [am_rule]: "ir_wf i \<Longrightarrow> ensures (run_op op i) ir_wf"
  by (cases op) (auto intro!: am_rule ensures_mono[OF add_fs_layer_wf])

subsection \<open>Deep copies are exact\<close>

text \<open>\<open>yields f x\<close>: the computation can only produce \<open>x\<close> or run out of memory, and it produces
  \<open>x\<close> when memory does not run out.\<close>

definition yields :: "'a am \<Rightarrow> 'a \<Rightarrow> bool" where
  "yields f x \<longleftrightarrow> (\<forall>m. fst (f m) \<in> {Inr x, Inl (Err ENOMEM)}) \<and> f [] = (Inr x, [])"

named_theorems yields_rule \<open>rules for \<open>yields\<close> statements\<close>

lemma yields_return: "x = y \<Longrightarrow> yields (returnM x) y"
  by (simp add: yields_def returnM_def)

lemma yields_return_same [yields_rule]: "yields (returnM x) x"
  by (rule yields_return) simp

lemma yields_bind [yields_rule]:
  assumes "yields f x" "yields (g x) y"
  shows "yields (bindM f g) y"
  unfolding yields_def
proof
  show "\<forall>m. fst (bindM f g m) \<in> {Inr y, Inl (Err ENOMEM)}"
  proof
    fix m
    obtain r m' where r: "f m = (r, m')" by fastforce
    have "fst (f m) \<in> {Inr x, Inl (Err ENOMEM)}" "fst (g x m') \<in> {Inr y, Inl (Err ENOMEM)}"
      using assms by (simp_all only: yields_def)
    then show "fst (bindM f g m) \<in> {Inr y, Inl (Err ENOMEM)}"
      using r by (cases r) (auto simp: bindM_def)
  qed
  show "bindM f g [] = (Inr y, [])"
    using assms by (simp add: yields_def bindM_def)
qed

lemma yields_alloc [yields_rule]: "yields allocM ()"
  by (auto simp: yields_def allocM_def split: list.splits)

lemma yields_strdup [yields_rule]: "is_cstr s \<Longrightarrow> yields (strdup s) s"
  unfolding strdup_def by (auto intro!: yields_rule)

lemma yields_guard [yields_rule]: "b \<Longrightarrow> yields (guardM b e) ()"
  by (simp add: guardM_def yields_return_same)

lemma yields_mapM [yields_rule]:
  "list_all (\<lambda>x. yields (f x) x) xs \<Longrightarrow> yields (mapM f xs) xs"
  by (induction xs) (auto intro!: yields_rule)

lemma yields_copy_array [yields_rule]:
  "list_all (\<lambda>x. yields (f x) x) xs \<Longrightarrow> yields (copy_array f xs) xs"
  unfolding copy_array_def by (auto intro!: yields_rule)

lemma list_all_yields: "list_all P xs \<Longrightarrow> (\<And>x. P x \<Longrightarrow> yields (f x) x) \<Longrightarrow> list_all (\<lambda>x. yields (f x) x) xs"
  by (auto simp: list_all_iff)

lemma yields_copy_paths [yields_rule]: "list_all good_path ps \<Longrightarrow> yields (copy_array strdup ps) ps"
  by (rule yields_copy_array, erule list_all_yields) (simp add: good_path_def yields_strdup)

lemma yields_copy_layer: "layer_wf l \<Longrightarrow> yields (copy_fs_layer l) l"
proof -
  assume wf: "layer_wf l"
  have "yields (copy_fs_rule r) r" if "is_cstr (r_path r)" for r
    unfolding copy_fs_rule_def using that by (auto intro!: yields_bind[OF yields_strdup] yields_return)
  then have "yields (copy_array copy_fs_rule (l_rules l)) (l_rules l)"
    using wf by (auto simp: layer_wf_def intro!: yields_copy_array elim!: list_all_yields)
  then show ?thesis
    unfolding copy_fs_layer_def by (rule yields_bind) (simp add: yields_return)
qed

lemma yields_copy_bind: "bind_wf b \<Longrightarrow> yields (copy_bind_rule b) b"
  unfolding copy_bind_rule_def bind_wf_def good_path_def
  by (rule yields_bind[OF yields_strdup], simp, rule yields_bind[OF yields_strdup], simp)
    (simp add: yields_return bind_rule.equality)

lemma yields_copy_object: "object_wf r \<Longrightarrow> yields (copy_object_rule r) r"
proof -
  assume wf: "object_wf r"
  then have "yields (mapM strdup (o_attach r)) (o_attach r)"
    by (auto simp: object_wf_def good_path_def intro!: yields_mapM yields_strdup elim!: list_all_yields)
  then show ?thesis
    using wf unfolding copy_object_rule_def object_wf_def good_path_def
    by (intro yields_bind[OF yields_strdup] yields_bind[OF yields_alloc]) 
      (auto intro!: yields_bind[where x = "o_attach r"] yields_return object_rule.equality)
qed

lemma yields_copy_addfd: "addfd_wf a \<Longrightarrow> yields (copy_addfd_rule a) a"
proof -
  assume wf: "addfd_wf a"
  then have "yields (case a_mode a of None \<Rightarrow> returnM None
      | Some md \<Rightarrow> bindM (strdup md) (\<lambda>d. returnM (Some d))) (a_mode a)"
    by (auto simp: addfd_wf_def good_path_def split: option.splits intro!: yields_rule)
  then show ?thesis
    using wf unfolding copy_addfd_rule_def addfd_wf_def good_path_def
    by (intro yields_bind[OF yields_strdup])
      (auto intro!: yields_bind[where x = "a_mode a"] yields_return addfd_rule.equality)
qed

lemma yields_copy_lists:
  "list_all bind_wf bs \<Longrightarrow> yields (copy_array copy_bind_rule bs) bs"
  "list_all object_wf os \<Longrightarrow> yields (copy_array copy_object_rule os) os"
  "list_all addfd_wf as \<Longrightarrow> yields (copy_array copy_addfd_rule as) as"
  "list_all layer_wf ls \<Longrightarrow> yields (mapM copy_fs_layer ls) ls"
  "yields (copy_array returnM xs) xs"
  by (auto intro!: yields_copy_array yields_mapM elim!: list_all_yields
      simp: yields_copy_bind yields_copy_object yields_copy_addfd yields_copy_layer yields_return_same
        list_all_iff)

lemma yields_copy_rest:
  assumes "ir_wf src"
  shows "yields (copy_rest src ir_init) src"
proof -
  let ?d1 = "ir_init\<lparr>fs_layers := fs_layers src\<rparr>"
  let ?d2 = "?d1\<lparr>net_enabled := net_enabled src, net_handled := net_handled src, net_rules := net_rules src\<rparr>"
  let ?d3 = "?d2\<lparr>broker_open_read := broker_open_read src, broker_open_write := broker_open_write src,
    broker_scratch := broker_scratch src, broker_export := broker_export src,
    broker_mount_tmpfs := broker_mount_tmpfs src\<rparr>"
  let ?d4 = "?d3\<lparr>broker_mount_bind := broker_mount_bind src, broker_mount_object := broker_mount_object src\<rparr>"
  let ?d5 = "?d4\<lparr>broker_addfd := broker_addfd src, mount_tmpfs := mount_tmpfs src,
    mount_bind := mount_bind src, mount_proc := mount_proc src\<rparr>"
  let ?d6 = "?d5\<lparr>runtime_root := runtime_root src, runtime_cwd := runtime_cwd src\<rparr>"
  note wf = assms[unfolded ir_wf_def]
  have opt: "yields (copy_opt_string s None) s" if "pred_option good_path s" for s
    using that by (cases s) (auto simp: copy_opt_string_def good_path_def intro!: yields_rule)
  have 1: "yields (copy_fs src ir_init) ?d1"
    unfolding copy_fs_def using wf by (intro yields_bind[OF yields_copy_lists(4)] yields_return) auto
  have 2: "yields (copy_net src ?d1) ?d2"
    unfolding copy_net_def using wf
    by (auto intro!: yields_bind[OF yields_copy_lists(5)] yields_return simp: ir_init_def)
  have 3: "yields (copy_broker_paths src ?d2) ?d3"
    unfolding copy_broker_paths_def using wf
    by (intro yields_bind[OF yields_copy_paths] yields_return) auto
  have 4: "yields (copy_broker_mounts src ?d3) ?d4"
    unfolding copy_broker_mounts_def using wf
    by (intro yields_bind[OF yields_copy_lists(1)] yields_bind[OF yields_copy_lists(2)] yields_return) auto
  have 5: "yields (copy_mounts src ?d4) ?d5"
    unfolding copy_mounts_def using wf
    by (intro yields_bind[OF yields_copy_lists(3)] yields_bind[OF yields_copy_paths]
        yields_bind[OF yields_copy_lists(1)] yields_return) auto
  have 6: "yields (copy_runtime src ?d5) ?d6"
    unfolding copy_runtime_def using wf
    by (intro yields_bind[where x = "runtime_root src"] yields_bind[where x = "runtime_cwd src"]
        yields_return) (simp_all add: opt ir_init_def)
  have 7: "yields (copy_seccomp src ?d6) src"
    unfolding copy_seccomp_def enable_seccomp_def using wf
    by (auto intro!: yields_bind[OF yields_bind[OF yields_guard yields_return_same]]
        yields_bind[OF yields_copy_lists(5)] yields_return ir.equality simp: ir_init_def)
  show ?thesis
    unfolding copy_rest_def
    by (intro yields_bind[OF 1] yields_bind[OF 2] yields_bind[OF 3] yields_bind[OF 4]
        yields_bind[OF 5] yields_bind[OF 6] 7)
qed

subsection \<open>Properties\<close>


text \<open>C29: Copying a well-formed policy into a fresh one yields an equal policy, or fails with
  ENOMEM and leaves the destination fresh; without allocation failures it succeeds.\<close>

theorem ir_copy_exact:
  assumes "ir_wf src"
  shows "fst (ir_copy src ir_init m) \<in> {(Inr (), src), (Inl (Err ENOMEM), ir_init)} \<and>
    ir_copy src ir_init [] = ((Inr (), src), [])"
proof -
  note y = yields_copy_rest[OF assms, unfolded yields_def]
  have c: "fst (copy_rest src ir_init n) = Inr src \<or> fst (copy_rest src ir_init n) = Inl (Err ENOMEM)" for n
    using y by auto
  have e: "copy_dst_empty ir_init"
    by (simp add: copy_dst_empty_def ir_init_def)
  have "fst (allocM n) = Inr () \<or> fst (allocM n) = Inl (Err ENOMEM)" for n
    by (auto simp: allocM_def split: list.splits)
  then have "fst (ir_copy src ir_init m) \<in> {(Inr (), src), (Inl (Err ENOMEM), ir_init)}"
    using c e unfolding ir_copy_def ir_reset_def
    by (auto split: prod.splits sum.splits) (metis Inl_Inr_False fst_conv sum.inject)+
  moreover have "ir_copy src ir_init [] = ((Inr (), src), [])"
    using y e by (simp add: ir_copy_def allocM_def)
  ultimately show ?thesis by blast
qed

theorem ir_copy_exact_witness:
  "ir_copy (ir_init\<lparr>broker_scratch := [''/tmp'']\<rparr>) ir_init [] =
    ((Inr (), ir_init\<lparr>broker_scratch := [''/tmp'']\<rparr>), [])"
  using ir_copy_exact[of "ir_init\<lparr>broker_scratch := [''/tmp'']\<rparr>" "[]"]
  by (simp add: ir_wf_def ir_init_def good_path_def NUL_def)

subsection \<open>Lists inside a policy\<close>

text \<open>
  Interface of one list-valued part of the policy: \<open>upd\<close> changes it, and it may only be used on
  policies that are \<open>ready\<close> for it. Loops that append one element per round append them all.
\<close>

locale ir_field =
  fixes upd :: "('a list \<Rightarrow> 'a list) \<Rightarrow> ir \<Rightarrow> ir" and ready :: "ir \<Rightarrow> bool"
  assumes upd_comp: "upd f (upd g i) = upd (f \<circ> g) i"
    and upd_id: "ready i \<Longrightarrow> upd (\<lambda>xs. xs) i = i"
    and ready_upd: "ready i \<Longrightarrow> ready (upd f i)"
begin

lemma upd_append_append: "upd (\<lambda>ys. ys @ b) (upd (\<lambda>ys. ys @ a) i) = upd (\<lambda>ys. ys @ a @ b) i"
proof -
  have "(\<lambda>ys. ys @ b) \<circ> (\<lambda>ys. ys @ a) = (\<lambda>ys. ys @ a @ b)" by auto
  then show ?thesis by (simp add: upd_comp)
qed

lemma ensures_append_each:
  assumes "\<And>x i. ready i \<Longrightarrow> ensures (f x i) (\<lambda>j. j = upd (\<lambda>ys. ys @ [h x]) i)"
  shows "ready i \<Longrightarrow> ensures (foldM f xs i) (\<lambda>j. j = upd (\<lambda>ys. ys @ map h xs) i)"
proof (induction xs arbitrary: i)
  case Nil
  then show ?case by (simp add: ensures_return upd_id)
next
  case (Cons x xs)
  have "ensures (foldM f xs j) (\<lambda>j. j = upd (\<lambda>ys. ys @ map h (x # xs)) i)"
    if "j = upd (\<lambda>ys. ys @ [h x]) i" for j
    using Cons.IH[of j] Cons.prems that by (simp add: ready_upd upd_append_append)
  then show ?case
    using ensures_mono[OF assms[OF Cons.prems]] by (simp add: ensures_bind)
qed

end

end
