(* ===== verification/Policy_Wire.thy ===== *)
theory Policy_Wire
  imports Policy_IR
begin

text \<open>
  The wire format between the policy helper process and its parent
  (\<open>src/src/landlock_policy_loader.c\<close>): \<open>write_ir\<close> gives the bytes the helper writes,
  \<open>load_ir_from_wire\<close> is the reader. Integers are little-endian as on x86-64. The reader's pair of
  buffer and offset is the list of the bytes not yet consumed; \<open>off + n > len\<close> is
  \<open>length rest < n\<close> and \<open>off == len\<close> is \<open>rest = []\<close>. A reader step maps the rest and the
  policy built so far to the new rest and policy.
\<close>

subsection \<open>Writer\<close>

definition WIRE_MAGIC :: nat where "WIRE_MAGIC = 0x4c504c44"
definition WIRE_VERSION :: nat where "WIRE_VERSION = 16"

text \<open>\<open>le_bytes 4\<close> keeps the low 32 bits, like the \<open>(uint32_t)\<close> casts of the writer.\<close>

definition u32_bytes :: "nat \<Rightarrow> string" where
  "u32_bytes n = le_bytes 4 n"

definition u64_bytes :: "u64 \<Rightarrow> string" where
  "u64_bytes x = le_bytes 8 (unat x)"

definition strlen32 :: "string \<Rightarrow> nat" where
  "strlen32 s = length (cstr s) mod 2 ^ 32"

definition str_bytes :: "string \<Rightarrow> string" where
  "str_bytes s = u32_bytes (strlen32 s) @ take (strlen32 s) s"

definition opt_len :: "string option \<Rightarrow> nat" where
  "opt_len s = (case s of None \<Rightarrow> 0 | Some p \<Rightarrow> strlen32 p)"

definition write_header :: "ir \<Rightarrow> string" where
  "write_header i =
     u32_bytes WIRE_MAGIC @ u32_bytes WIRE_VERSION @
     u32_bytes (length (fs_layers i)) @ u32_bytes (of_bool (net_enabled i)) @
     u64_bytes (net_handled i) @ u32_bytes (length (net_rules i)) @
     u32_bytes (length (broker_open_read i)) @ u32_bytes (length (broker_open_write i)) @
     u32_bytes (length (broker_scratch i)) @ u32_bytes (length (broker_export i)) @
     u32_bytes (length (broker_mount_tmpfs i)) @ u32_bytes (length (broker_mount_bind i)) @
     u32_bytes (length (broker_mount_object i)) @ u32_bytes (length (broker_addfd i)) @
     u32_bytes (length (mount_tmpfs i)) @ u32_bytes (length (mount_bind i)) @
     u32_bytes (length (mount_proc i)) @ u32_bytes (opt_len (runtime_root i)) @
     u32_bytes (opt_len (runtime_cwd i)) @ u32_bytes (of_bool (seccomp_enabled i)) @
     u32_bytes (unat (seccomp_errno i)) @ u32_bytes (length (seccomp_deny i))"

definition write_fs_rule :: "fs_rule \<Rightarrow> string" where
  "write_fs_rule r = u64_bytes (r_allowed r) @ str_bytes (r_path r)"

definition write_fs_layer :: "fs_layer \<Rightarrow> string" where
  "write_fs_layer l = u64_bytes (l_handled l) @ u32_bytes (length (l_rules l)) @
     concat (map write_fs_rule (l_rules l))"

definition write_net_rule :: "net_rule \<Rightarrow> string" where
  "write_net_rule r = u32_bytes (unat (n_port r)) @ u64_bytes (n_allowed r)"

definition write_bind_rule :: "bind_rule \<Rightarrow> string" where
  "write_bind_rule b = str_bytes (b_source b) @ str_bytes (b_target b) @ u32_bytes (of_bool (b_read_only b))"

definition write_object_rule :: "object_rule \<Rightarrow> string" where
  "write_object_rule r = str_bytes (o_name r) @ str_bytes (o_fs_type r) @
     u32_bytes (length (o_attach r)) @
     u32_bytes (unat (o_attrs r AND 0xffffffff)) @ u32_bytes (unat (drop_bit 32 (o_attrs r))) @
     concat (map str_bytes (take (length (o_attach r) mod 2 ^ 32) (o_attach r)))"

definition write_addfd_rule :: "addfd_rule \<Rightarrow> string" where
  "write_addfd_rule a = str_bytes (a_action a) @ str_bytes (a_target a) @
     (case a_mode a of None \<Rightarrow> u32_bytes 0 | Some md \<Rightarrow> str_bytes md)"

definition write_opt_path :: "string option \<Rightarrow> string" where
  "write_opt_path s = (case s of None \<Rightarrow> [] | Some p \<Rightarrow> take (strlen32 p) p)"

definition write_seccomp_rule :: "int \<Rightarrow> string" where
  "write_seccomp_rule nr = u32_bytes (nat (nr mod 2 ^ 32))"

definition write_ir :: "ir \<Rightarrow> string" where
  "write_ir i = write_header i @
     concat (map write_fs_layer (fs_layers i)) @
     concat (map write_net_rule (net_rules i)) @
     concat (map str_bytes (broker_open_read i)) @
     concat (map str_bytes (broker_open_write i)) @
     concat (map str_bytes (broker_scratch i)) @
     concat (map str_bytes (broker_export i)) @
     concat (map str_bytes (broker_mount_tmpfs i)) @
     concat (map write_bind_rule (broker_mount_bind i)) @
     concat (map write_object_rule (broker_mount_object i)) @
     concat (map write_addfd_rule (broker_addfd i)) @
     concat (map str_bytes (mount_tmpfs i)) @
     concat (map write_bind_rule (mount_bind i)) @
     concat (map str_bytes (mount_proc i)) @
     write_opt_path (runtime_root i) @ write_opt_path (runtime_cwd i) @
     concat (map write_seccomp_rule (seccomp_deny i))"

subsection \<open>Reader\<close>

type_synonym rstate = "string \<times> ir"

definition read_u32 :: "string \<Rightarrow> (nat \<times> string) am" where
  "read_u32 b = bindM (guardM (4 \<le> length b) (Err EINVAL)) (\<lambda>_.
     returnM (le_val (take 4 b), drop 4 b))"

definition read_u64 :: "string \<Rightarrow> (u64 \<times> string) am" where
  "read_u64 b = bindM (guardM (8 \<le> length b) (Err EINVAL)) (\<lambda>_.
     returnM (word_of_nat (le_val (take 8 b)), drop 8 b))"

text \<open>Bounds check, \<open>malloc(n + 1)\<close>, \<open>memcpy\<close> and terminator.\<close>

definition read_bytes :: "nat \<Rightarrow> string \<Rightarrow> (string \<times> string) am" where
  "read_bytes n b = bindM (guardM (n \<le> length b) (Err EINVAL)) (\<lambda>_.
     bindM allocM (\<lambda>_. returnM (take n b @ [NUL], drop n b)))"

definition read_str :: "string \<Rightarrow> (string \<times> string) am" where
  "read_str b = bindM (read_u32 b) (\<lambda>(n, b). read_bytes n b)"

text \<open>A \<open>for (i = 0; i < n; i++)\<close> loop that stops at the first failure.\<close>

primrec read_n :: "nat \<Rightarrow> ('s \<Rightarrow> 's am) \<Rightarrow> 's \<Rightarrow> 's am" where
  "read_n 0 step s = returnM s"
| "read_n (Suc n) step s = bindM (step s) (read_n n step)"

record wire_header =
  h_magic :: nat
  h_version :: nat
  h_fs_layers :: nat
  h_net_enabled :: nat
  h_net_handled :: u64
  h_net_rules :: nat
  h_open_read :: nat
  h_open_write :: nat
  h_scratch :: nat
  h_export :: nat
  h_btmpfs :: nat
  h_bbind :: nat
  h_object :: nat
  h_addfd :: nat
  h_tmpfs :: nat
  h_bind :: nat
  h_proc :: nat
  h_root_len :: nat
  h_cwd_len :: nat
  h_seccomp_enabled :: nat
  h_seccomp_errno :: nat
  h_seccomp_deny :: nat

definition read_header :: "string \<Rightarrow> (wire_header \<times> string) am" where
  "read_header b =
     bindM (read_u32 b) (\<lambda>(h1, b). bindM (read_u32 b) (\<lambda>(h2, b).
     bindM (read_u32 b) (\<lambda>(h3, b). bindM (read_u32 b) (\<lambda>(h4, b).
     bindM (read_u64 b) (\<lambda>(h5, b). bindM (read_u32 b) (\<lambda>(h6, b).
     bindM (read_u32 b) (\<lambda>(h7, b). bindM (read_u32 b) (\<lambda>(h8, b).
     bindM (read_u32 b) (\<lambda>(h9, b). bindM (read_u32 b) (\<lambda>(h10, b).
     bindM (read_u32 b) (\<lambda>(h11, b). bindM (read_u32 b) (\<lambda>(h12, b).
     bindM (read_u32 b) (\<lambda>(h13, b). bindM (read_u32 b) (\<lambda>(h14, b).
     bindM (read_u32 b) (\<lambda>(h15, b). bindM (read_u32 b) (\<lambda>(h16, b).
     bindM (read_u32 b) (\<lambda>(h17, b). bindM (read_u32 b) (\<lambda>(h18, b).
     bindM (read_u32 b) (\<lambda>(h19, b). bindM (read_u32 b) (\<lambda>(h20, b).
     bindM (read_u32 b) (\<lambda>(h21, b). bindM (read_u32 b) (\<lambda>(h22, b).
     returnM (\<lparr>h_magic = h1, h_version = h2, h_fs_layers = h3, h_net_enabled = h4,
       h_net_handled = h5, h_net_rules = h6, h_open_read = h7, h_open_write = h8, h_scratch = h9,
       h_export = h10, h_btmpfs = h11, h_bbind = h12, h_object = h13, h_addfd = h14, h_tmpfs = h15,
       h_bind = h16, h_proc = h17, h_root_len = h18, h_cwd_len = h19, h_seccomp_enabled = h20,
       h_seccomp_errno = h21, h_seccomp_deny = h22\<rparr>, b)))))))))))))))))))))))"

definition read_fs_rule :: "nat \<Rightarrow> rstate \<Rightarrow> rstate am" where
  "read_fs_rule layer_index = (\<lambda>(b, i).
     bindM (read_u64 b) (\<lambda>(acc, b). bindM (read_str b) (\<lambda>(p, b).
     bindM (add_fs_rule layer_index (Some p) acc i) (\<lambda>i. returnM (b, i)))))"

definition read_fs_layer :: "rstate \<Rightarrow> rstate am" where
  "read_fs_layer = (\<lambda>(b, i).
     bindM (read_u64 b) (\<lambda>(h, b). bindM (read_u32 b) (\<lambda>(rule_count, b).
     bindM (add_fs_layer h i) (\<lambda>(i, layer_index).
     read_n rule_count (read_fs_rule layer_index) (b, i)))))"

definition read_net_rule :: "rstate \<Rightarrow> rstate am" where
  "read_net_rule = (\<lambda>(b, i).
     bindM (read_u32 b) (\<lambda>(p, b). bindM (read_u64 b) (\<lambda>(acc, b).
     bindM (add_net_rule (word_of_nat p) acc i) (\<lambda>i. returnM (b, i)))))"

definition read_net :: "wire_header \<Rightarrow> rstate \<Rightarrow> rstate am" where
  "read_net h = (\<lambda>(b, i). if h_net_enabled h \<noteq> 0
     then bindM (enable_net (h_net_handled h) i) (\<lambda>i. read_n (h_net_rules h) read_net_rule (b, i))
     else returnM (b, i))"

definition read_path_rule :: "(string option \<Rightarrow> ir \<Rightarrow> ir am) \<Rightarrow> rstate \<Rightarrow> rstate am" where
  "read_path_rule add = (\<lambda>(b, i).
     bindM (read_str b) (\<lambda>(p, b). bindM (add (Some p) i) (\<lambda>i. returnM (b, i))))"

definition read_bind_rule ::
    "(string option \<Rightarrow> string option \<Rightarrow> bool \<Rightarrow> ir \<Rightarrow> ir am) \<Rightarrow> rstate \<Rightarrow> rstate am" where
  "read_bind_rule add = (\<lambda>(b, i).
     bindM (read_str b) (\<lambda>(s, b). bindM (read_str b) (\<lambda>(t, b).
     bindM (read_u32 b) (\<lambda>(ro, b).
     bindM (guardM (\<not> ro > 1) Stale) (\<lambda>_.
     bindM (add (Some s) (Some t) (ro \<noteq> 0) i) (\<lambda>i. returnM (b, i)))))))"

definition read_strs :: "nat \<Rightarrow> string \<Rightarrow> (string list \<times> string) am" where
  "read_strs n b = read_n n (\<lambda>(ps, b). bindM (read_str b) (\<lambda>(p, b). returnM (ps @ [p], b))) ([], b)"

definition read_object_rule :: "rstate \<Rightarrow> rstate am" where
  "read_object_rule = (\<lambda>(b, i).
     bindM (read_str b) (\<lambda>(name, b). bindM (read_str b) (\<lambda>(ty, b).
     bindM (read_u32 b) (\<lambda>(attach_count, b).
     bindM (read_u32 b) (\<lambda>(attr_lo, b). bindM (read_u32 b) (\<lambda>(attr_hi, b).
     bindM (guardM (attach_count \<noteq> 0) (Err EINVAL)) (\<lambda>_.
     bindM allocM (\<lambda>_.
     bindM (read_strs attach_count b) (\<lambda>(ps, b).
     bindM (add_broker_mount_object_rule (Some name) (Some ty) (Some (map Some ps))
       (push_bit 32 (word_of_nat attr_hi) OR word_of_nat attr_lo) i) (\<lambda>i.
     returnM (b, i)))))))))))"

definition wire_broker_addfd_action_is_known :: "string \<Rightarrow> bool" where
  "wire_broker_addfd_action_is_known act \<longleftrightarrow>
     cstr act \<in> set [''open'', ''open_tree'', ''scratch_open'', ''fsopen'', ''fsmount'']"

definition read_addfd_rule :: "rstate \<Rightarrow> rstate am" where
  "read_addfd_rule = (\<lambda>(b, i).
     bindM (read_str b) (\<lambda>(act, b).
     bindM (guardM (wire_broker_addfd_action_is_known act) (Err EINVAL)) (\<lambda>_.
     bindM (read_str b) (\<lambda>(tgt, b).
     bindM (read_u32 b) (\<lambda>(mode_len, b).
     bindM (guardM (mode_len \<le> length b) (Err EINVAL)) (\<lambda>_.
     bindM (if mode_len > 0
            then bindM (read_bytes mode_len b) (\<lambda>(md, b). returnM (Some md, b))
            else returnM (None, b)) (\<lambda>(md, b).
     bindM (add_broker_addfd_rule (Some act) (Some tgt) md i) (\<lambda>i.
     returnM (b, i)))))))))"

definition read_opt_path :: "nat \<Rightarrow> (string option \<Rightarrow> ir \<Rightarrow> ir am) \<Rightarrow> rstate \<Rightarrow> rstate am" where
  "read_opt_path n store = (\<lambda>(b, i). if n > 0
     then bindM (read_bytes n b) (\<lambda>(p, b). bindM (store (Some p) i) (\<lambda>i. returnM (b, i)))
     else returnM (b, i))"

definition read_seccomp_rule :: "rstate \<Rightarrow> rstate am" where
  "read_seccomp_rule = (\<lambda>(b, i).
     bindM (read_u32 b) (\<lambda>(nr, b).
     bindM (guardM (\<not> nr > 0x7fffffff) Stale) (\<lambda>_.
     bindM (add_seccomp_deny_rule (int nr) i) (\<lambda>i. returnM (b, i)))))"

definition read_seccomp :: "wire_header \<Rightarrow> rstate \<Rightarrow> rstate am" where
  "read_seccomp h = (\<lambda>(b, i). if h_seccomp_enabled h \<noteq> 0
     then bindM (guardM (\<not> (h_seccomp_errno h = 0 \<or> h_seccomp_errno h > 4095)) Stale) (\<lambda>_.
          bindM (enable_seccomp (word_of_nat (h_seccomp_errno h)) i) (\<lambda>i.
          read_n (h_seccomp_deny h) read_seccomp_rule (b, i)))
     else returnM (b, i))"

definition read_body :: "wire_header \<Rightarrow> rstate \<Rightarrow> rstate am" where
  "read_body h s =
     bindM (read_n (h_fs_layers h) read_fs_layer s) (\<lambda>s.
     bindM (read_net h s) (\<lambda>s.
     bindM (read_n (h_open_read h) (read_path_rule add_broker_open_read_rule) s) (\<lambda>s.
     bindM (read_n (h_open_write h) (read_path_rule add_broker_open_write_rule) s) (\<lambda>s.
     bindM (read_n (h_scratch h) (read_path_rule add_broker_scratch_rule) s) (\<lambda>s.
     bindM (read_n (h_export h) (read_path_rule add_broker_export_rule) s) (\<lambda>s.
     bindM (read_n (h_btmpfs h) (read_path_rule add_broker_mount_tmpfs_rule) s) (\<lambda>s.
     bindM (read_n (h_bbind h) (read_bind_rule add_broker_mount_bind_rule) s) (\<lambda>s.
     bindM (read_n (h_object h) read_object_rule s) (\<lambda>s.
     bindM (read_n (h_addfd h) read_addfd_rule s) (\<lambda>s.
     bindM (read_n (h_tmpfs h) (read_path_rule add_mount_tmpfs_rule) s) (\<lambda>s.
     bindM (read_n (h_bind h) (read_bind_rule add_mount_bind_rule) s) (\<lambda>s.
     bindM (read_n (h_proc h) (read_path_rule add_mount_proc_rule) s) (\<lambda>s.
     bindM (read_opt_path (h_root_len h) set_runtime_root s) (\<lambda>s.
     bindM (read_opt_path (h_cwd_len h) set_runtime_cwd s) (\<lambda>s.
     read_seccomp h s)))))))))))))))"

definition load_ir_from_wire :: "string \<Rightarrow> ir \<Rightarrow> ir am" where
  "load_ir_from_wire buf out_ir =
     bindM (read_header buf) (\<lambda>(h, b).
     bindM (guardM (h_magic h = WIRE_MAGIC \<and> h_version h = WIRE_VERSION) (Err EINVAL)) (\<lambda>_.
     bindM (read_body h (b, out_ir)) (\<lambda>(b, i).
     bindM (guardM (b = []) (Err EINVAL)) (\<lambda>_. returnM i))))"

subsection \<open>Primitive round trips\<close>

lemma read_u32_app [am_eval]: "n < 2 ^ 32 \<Longrightarrow> read_u32 (u32_bytes n @ b) m = (Inr (n, b), m)"
  by (simp add: read_u32_def u32_bytes_def am_eval le_val_le_bytes)

lemma read_u64_app [am_eval]: "read_u64 (u64_bytes x @ b) m = (Inr (x, b), m)"
  by (simp add: read_u64_def u64_bytes_def am_eval)

definition fits :: "string \<Rightarrow> bool" where
  "fits s \<longleftrightarrow> is_cstr s \<and> length s < 2 ^ 32"

lemma strlen32_fits [simp]: "fits s \<Longrightarrow> strlen32 s = length s"
  by (simp add: fits_def strlen32_def)

lemma str_bytes_fits: "fits s \<Longrightarrow> str_bytes s = u32_bytes (length s) @ s"
  by (simp add: str_bytes_def)

lemma read_bytes_app [am_eval]:
  "n = length s \<Longrightarrow> read_bytes n (s @ b) [] = (Inr (s @ [NUL], b), [])"
  by (simp add: read_bytes_def am_eval)

lemma read_str_app [am_eval]: "fits s \<Longrightarrow> read_str (str_bytes s @ b) [] = (Inr (s @ [NUL], b), [])"
  by (simp add: read_str_def str_bytes_fits am_eval) (simp add: fits_def am_eval)

lemma cstr_fits [simp]: "fits s \<Longrightarrow> cstr (s @ [NUL]) = s" "fits s \<Longrightarrow> cstr s = s"
  by (simp_all add: fits_def)

text \<open>
  A section of the format: \<open>step\<close> reads one element and adds it, \<open>enc\<close> writes one element, \<open>upd\<close>
  is the place in the policy where the elements are kept. The law is about one element; the
  lemma is about the section.
\<close>

locale wire_section = ir_field upd ready
    for upd :: "('a list \<Rightarrow> 'a list) \<Rightarrow> ir \<Rightarrow> ir" and ready :: "ir \<Rightarrow> bool" +
  fixes step :: "rstate \<Rightarrow> rstate am" and enc :: "'a \<Rightarrow> string" and ok :: "'a \<Rightarrow> bool"
  assumes step_enc: "ok x \<Longrightarrow> ready i \<Longrightarrow>
      step (enc x @ b, i) [] = (Inr (b, upd (\<lambda>xs. xs @ [x]) i), [])"
begin

lemma read_section:
  "list_all ok xs \<Longrightarrow> ready i \<Longrightarrow>
    read_n (length xs) step (concat (map enc xs) @ b, i) [] = (Inr (b, upd (\<lambda>ys. ys @ xs) i), [])"
proof (induction xs arbitrary: i)
  case Nil
  then show ?case by (simp add: am_eval upd_id)
next
  case (Cons x xs)
  have "(\<lambda>ys. ys @ xs) \<circ> (\<lambda>ys. ys @ [x]) = (\<lambda>ys. ys @ x # xs)"
    by auto
  with Cons show ?case
    by (simp add: am_eval step_enc ready_upd upd_comp)
qed

end

lemmas add_path_defs =
  add_broker_open_read_rule_def add_broker_open_write_rule_def add_broker_scratch_rule_def
  add_broker_export_rule_def add_broker_mount_tmpfs_rule_def add_mount_tmpfs_rule_def
  add_mount_proc_rule_def append_path_def

definition wire_path :: "string \<Rightarrow> bool" where
  "wire_path p \<longleftrightarrow> p \<noteq> [] \<and> fits p"

interpretation open_read: wire_section broker_open_read_update "\<lambda>i. True" "read_path_rule add_broker_open_read_rule" str_bytes
    wire_path
  by unfold_locales (auto simp: read_path_rule_def add_path_defs am_eval wire_path_def)

interpretation open_write: wire_section broker_open_write_update "\<lambda>i. True" "read_path_rule add_broker_open_write_rule" str_bytes
    wire_path
  by unfold_locales (auto simp: read_path_rule_def add_path_defs am_eval wire_path_def)

interpretation scratch: wire_section broker_scratch_update "\<lambda>i. True" "read_path_rule add_broker_scratch_rule" str_bytes
    wire_path
  by unfold_locales (auto simp: read_path_rule_def add_path_defs am_eval wire_path_def)

interpretation export_paths: wire_section broker_export_update "\<lambda>i. True" "read_path_rule add_broker_export_rule" str_bytes
    wire_path
  by unfold_locales (auto simp: read_path_rule_def add_path_defs am_eval wire_path_def)

interpretation btmpfs: wire_section broker_mount_tmpfs_update "\<lambda>i. True" "read_path_rule add_broker_mount_tmpfs_rule" str_bytes
    wire_path
  by unfold_locales (auto simp: read_path_rule_def add_path_defs am_eval wire_path_def)

interpretation tmpfs: wire_section mount_tmpfs_update "\<lambda>i. True" "read_path_rule add_mount_tmpfs_rule" str_bytes
    wire_path
  by unfold_locales (auto simp: read_path_rule_def add_path_defs am_eval wire_path_def)

interpretation proc: wire_section mount_proc_update "\<lambda>i. True" "read_path_rule add_mount_proc_rule" str_bytes
    wire_path
  by unfold_locales (auto simp: read_path_rule_def add_path_defs am_eval wire_path_def)

definition wire_bind :: "bind_rule \<Rightarrow> bool" where
  "wire_bind b \<longleftrightarrow> wire_path (b_source b) \<and> wire_path (b_target b)"

lemma read_bind_app:
  assumes "wire_bind r" "\<And>s t ro. add s t ro i = append_bind s t ro store" "i' = store r"
  shows "read_bind_rule add (write_bind_rule r @ b, i) [] = (Inr (b, i'), [])"
  using assms by (cases r)
    (auto simp: read_bind_rule_def write_bind_rule_def wire_bind_def wire_path_def append_bind_def am_eval)

interpretation bbind: wire_section broker_mount_bind_update "\<lambda>i. True" "read_bind_rule add_broker_mount_bind_rule" write_bind_rule
    wire_bind
  by unfold_locales (auto intro!: read_bind_app add_broker_mount_bind_rule_def)

interpretation mbind: wire_section mount_bind_update "\<lambda>i. True" "read_bind_rule add_mount_bind_rule" write_bind_rule
    wire_bind
  by unfold_locales (auto intro!: read_bind_app add_mount_bind_rule_def)

definition wire_object :: "object_rule \<Rightarrow> bool" where
  "wire_object r \<longleftrightarrow> wire_path (o_name r) \<and> wire_path (o_fs_type r) \<and> o_attach r \<noteq> [] \<and>
     length (o_attach r) < 2 ^ 32 \<and> list_all wire_path (o_attach r)"

lemma read_strs_app:
  assumes "list_all wire_path ps"
  shows "read_strs (length ps) (concat (map str_bytes ps) @ b) [] = (Inr (map (\<lambda>p. p @ [NUL]) ps, b), [])"
proof -
  have "read_n (length ps) (\<lambda>(qs, b). bindM (read_str b) (\<lambda>(p, b). returnM (qs @ [p], b)))
      (qs, concat (map str_bytes ps) @ b) [] = (Inr (qs @ map (\<lambda>p. p @ [NUL]) ps, b), [])" for qs
    using assms by (induction ps arbitrary: qs) (simp_all add: am_eval wire_path_def)
  then show ?thesis by (simp add: read_strs_def)
qed

lemma copy_attach_app [am_eval]:
  "list_all wire_path ps \<Longrightarrow> copy_attach_paths (map Some (map (\<lambda>p. p @ [NUL]) ps)) [] = (Inr ps, [])"
  by (induction ps) (simp_all add: am_eval wire_path_def)

lemma split_u64:
  "push_bit 32 (drop_bit 32 x) OR (x AND 0xffffffff) = (x :: u64)"
proof -
  have m: "(0xffffffff :: u64) = mask 32" by (simp add: mask_eq_exp_minus_1)
  show ?thesis
    unfolding m by (rule bit_word_eqI) (auto simp: bit_simps not_less)
qed

lemma unat_halves:
  "unat ((x :: u64) AND 0xffffffff) < 2 ^ 32" "unat (drop_bit 32 (x :: u64)) < 2 ^ 32"
proof -
  have m: "(0xffffffff :: u64) = mask 32" by (simp add: mask_eq_exp_minus_1)
  show "unat (x AND 0xffffffff) < 2 ^ 32"
    unfolding m by (simp only: take_bit_eq_mask[symmetric] unsigned_take_bit_eq take_bit_nat_less_exp)
  have "unat x < 2 ^ 64" using unsigned_less[of x, where ?'a = nat] by simp
  then show "unat (drop_bit 32 x) < 2 ^ 32"
    by (simp add: drop_bit_eq_div unat_div less_mult_imp_div_less)
qed

interpretation object: wire_section broker_mount_object_update "\<lambda>i. True" read_object_rule write_object_rule
    wire_object
proof (unfold_locales, goal_cases)
  case (4 r i b)
  then obtain n t ps a where r: "r = \<lparr>o_name = n, o_fs_type = t, o_attach = ps, o_attrs = a\<rparr>"
    by (cases r) auto
  have ps: "list_all wire_path ps" "length ps < 2 ^ 32" "ps \<noteq> []" and n: "wire_path n" "wire_path t"
    using 4 by (auto simp: wire_object_def r)
  have "take (length ps mod 4294967296) ps = ps" using ps by simp
  with ps n show ?case
    by (simp add: r read_object_rule_def write_object_rule_def add_broker_mount_object_rule_def
        am_eval wire_path_def unat_halves[simplified] read_strs_app[OF ps(1)] split_u64
        copy_attach_app[simplified, OF ps(1)] del: map_map)
qed auto

definition wire_addfd :: "addfd_rule \<Rightarrow> bool" where
  "wire_addfd a \<longleftrightarrow> wire_path (a_action a) \<and> wire_path (a_target a) \<and> pred_option wire_path (a_mode a) \<and>
     wire_broker_addfd_action_is_known (a_action a)"

interpretation addfd: wire_section broker_addfd_update "\<lambda>i. True" read_addfd_rule write_addfd_rule
    wire_addfd
proof (unfold_locales, goal_cases)
  case (4 r i b)
  then obtain a t md where r: "r = \<lparr>a_action = a, a_target = t, a_mode = md\<rparr>"
    and a: "wire_path a" "wire_path t" "pred_option wire_path md" "wire_broker_addfd_action_is_known a"
    by (cases r) (auto simp: wire_addfd_def)
  have known: "wire_broker_addfd_action_is_known (a @ [NUL])"
    using a by (simp add: wire_broker_addfd_action_is_known_def wire_path_def)
  show ?case
  proof (cases md)
    case None
    then show ?thesis
      using a known by (simp add: r wire_path_def read_addfd_rule_def write_addfd_rule_def
          add_broker_addfd_rule_def am_eval)
  next
    case (Some m)
    then have m: "m \<noteq> []" "fits m" "length m < 4294967296"
      using a by (auto simp: wire_path_def fits_def)
    then show ?thesis
      using a known Some by (simp add: r wire_path_def read_addfd_rule_def write_addfd_rule_def
          add_broker_addfd_rule_def am_eval str_bytes_fits[OF m(2)])
  qed
qed auto

interpretation net: wire_section net_rules_update net_enabled read_net_rule write_net_rule
    "\<lambda>r. n_allowed r \<noteq> 0"
proof (unfold_locales, goal_cases)
  case (4 r i b)
  have "unat (n_port r) < 2 ^ 16" using unsigned_less[of "n_port r", where ?'a = nat] by simp
  then have "unat (n_port r) < 2 ^ 32" by simp
  with 4 show ?case
    by (cases r) (auto simp: read_net_rule_def write_net_rule_def add_net_rule_def am_eval)
qed auto

interpretation deny_rules: wire_section seccomp_deny_update seccomp_enabled read_seccomp_rule write_seccomp_rule
    "\<lambda>n. 0 \<le> n \<and> n < 2 ^ 31"
  by unfold_locales
    (auto simp: read_seccomp_rule_def write_seccomp_rule_def add_seccomp_deny_rule_def am_eval)

subsection \<open>File-system layers\<close>

definition upd_rules :: "nat \<Rightarrow> (fs_rule list \<Rightarrow> fs_rule list) \<Rightarrow> ir \<Rightarrow> ir" where
  "upd_rules n f i = i\<lparr>fs_layers := (fs_layers i)[n := (fs_layers i ! n)\<lparr>l_rules := f (l_rules (fs_layers i ! n))\<rparr>]\<rparr>"

definition wire_fs_rule :: "fs_rule \<Rightarrow> bool" where
  "wire_fs_rule r \<longleftrightarrow> fits (r_path r) \<and> r_allowed r \<noteq> 0"

definition wire_layer :: "fs_layer \<Rightarrow> bool" where
  "wire_layer l \<longleftrightarrow> l_handled l \<noteq> 0 \<and> length (l_rules l) < 2 ^ 32 \<and> list_all wire_fs_rule (l_rules l)"

interpretation fs_rules: wire_section "upd_rules n" "\<lambda>i. n < length (fs_layers i)" "read_fs_rule n" write_fs_rule
    wire_fs_rule for n
proof (unfold_locales, goal_cases)
  case (4 r i b)
  then show ?case
    by (cases r) (auto simp: read_fs_rule_def write_fs_rule_def add_fs_rule_def wire_fs_rule_def
        upd_rules_def am_eval Let_def)
next
  case (1 f g i)
  then show ?case
    by (cases "n < length (fs_layers i)") (simp_all add: upd_rules_def list_update_beyond)
next
  case (2 i)
  then show ?case by (simp add: upd_rules_def)
qed (simp add: upd_rules_def)

interpretation layers: wire_section fs_layers_update "\<lambda>i. True" read_fs_layer write_fs_layer
    wire_layer
proof (unfold_locales, goal_cases)
  case (4 l i b)
  let ?i = "i\<lparr>fs_layers := fs_layers i @ [\<lparr>l_handled = l_handled l, l_rules = []\<rparr>]\<rparr>"
  have "read_n (length (l_rules l)) (read_fs_rule (length (fs_layers i)))
      (concat (map write_fs_rule (l_rules l)) @ b, ?i) []
      = (Inr (b, upd_rules (length (fs_layers i)) (\<lambda>ys. ys @ l_rules l) ?i), [])"
    using 4 by (intro fs_rules.read_section) (auto simp: wire_layer_def)
  moreover have "upd_rules (length (fs_layers i)) (\<lambda>ys. ys @ l_rules l) ?i
      = i\<lparr>fs_layers := fs_layers i @ [l]\<rparr>"
    by (simp add: upd_rules_def)
  ultimately show ?case
    using 4 by (simp add: read_fs_layer_def write_fs_layer_def add_fs_layer_def wire_layer_def am_eval)
qed auto

subsection \<open>The whole message\<close>

text \<open>What the format can carry: sizes below \<open>2 ^ 32\<close>, an errno of at most 4095, system call
  numbers that are non-negative C ints, and known descriptor-passing actions.\<close>

definition wire_ok :: "ir \<Rightarrow> bool" where
  "wire_ok i \<longleftrightarrow> ir_wf i \<and>
     length (fs_layers i) < 2 ^ 32 \<and> list_all wire_layer (fs_layers i) \<and>
     length (net_rules i) < 2 ^ 32 \<and>
     length (broker_open_read i) < 2 ^ 32 \<and> list_all wire_path (broker_open_read i) \<and>
     length (broker_open_write i) < 2 ^ 32 \<and> list_all wire_path (broker_open_write i) \<and>
     length (broker_scratch i) < 2 ^ 32 \<and> list_all wire_path (broker_scratch i) \<and>
     length (broker_export i) < 2 ^ 32 \<and> list_all wire_path (broker_export i) \<and>
     length (broker_mount_tmpfs i) < 2 ^ 32 \<and> list_all wire_path (broker_mount_tmpfs i) \<and>
     length (broker_mount_bind i) < 2 ^ 32 \<and> list_all wire_bind (broker_mount_bind i) \<and>
     length (broker_mount_object i) < 2 ^ 32 \<and> list_all wire_object (broker_mount_object i) \<and>
     length (broker_addfd i) < 2 ^ 32 \<and> list_all wire_addfd (broker_addfd i) \<and>
     length (mount_tmpfs i) < 2 ^ 32 \<and> list_all wire_path (mount_tmpfs i) \<and>
     length (mount_bind i) < 2 ^ 32 \<and> list_all wire_bind (mount_bind i) \<and>
     length (mount_proc i) < 2 ^ 32 \<and> list_all wire_path (mount_proc i) \<and>
     pred_option wire_path (runtime_root i) \<and> pred_option wire_path (runtime_cwd i) \<and>
     seccomp_errno i \<le> 4095 \<and>
     length (seccomp_deny i) < 2 ^ 32 \<and> list_all (\<lambda>n. 0 \<le> n \<and> n < 2 ^ 31) (seccomp_deny i)"

definition header_of :: "ir \<Rightarrow> wire_header" where
  "header_of i = \<lparr>h_magic = WIRE_MAGIC, h_version = WIRE_VERSION,
     h_fs_layers = length (fs_layers i), h_net_enabled = of_bool (net_enabled i),
     h_net_handled = net_handled i, h_net_rules = length (net_rules i),
     h_open_read = length (broker_open_read i), h_open_write = length (broker_open_write i),
     h_scratch = length (broker_scratch i), h_export = length (broker_export i),
     h_btmpfs = length (broker_mount_tmpfs i), h_bbind = length (broker_mount_bind i),
     h_object = length (broker_mount_object i), h_addfd = length (broker_addfd i),
     h_tmpfs = length (mount_tmpfs i), h_bind = length (mount_bind i), h_proc = length (mount_proc i),
     h_root_len = opt_len (runtime_root i), h_cwd_len = opt_len (runtime_cwd i),
     h_seccomp_enabled = of_bool (seccomp_enabled i), h_seccomp_errno = unat (seccomp_errno i),
     h_seccomp_deny = length (seccomp_deny i)\<rparr>"

lemma of_bool_small: "of_bool b < (4294967296 :: nat)"
  by (cases b) simp_all

lemma opt_len_small: "opt_len s < 4294967296"
  by (cases s) (simp_all add: opt_len_def strlen32_def)

lemma unat_u16_small: "unat (x :: u16) < 4294967296"
  using unsigned_less[of x, where ?'a = nat] by simp

lemma read_header_app:
  assumes "wire_ok i"
  shows "read_header (write_header i @ b) m = (Inr (header_of i, b), m)"
  using assms
  by (simp add: read_header_def write_header_def header_of_def am_eval wire_ok_def WIRE_MAGIC_def
      WIRE_VERSION_def of_bool_small opt_len_small unat_u16_small)

lemma read_net_app:
  assumes "wire_ok i" "net_rules j = []" "\<not> net_enabled j" "net_handled j = 0"
  shows "read_net (header_of i) (concat (map write_net_rule (net_rules i)) @ b, j) [] =
    (Inr (b, j\<lparr>net_enabled := net_enabled i, net_handled := net_handled i, net_rules := net_rules i\<rparr>), [])"
proof (cases "net_enabled i")
  case True
  then have "net_handled i \<noteq> 0" "list_all (\<lambda>r. n_allowed r \<noteq> 0) (net_rules i)"
    using assms by (auto simp: wire_ok_def ir_wf_def)
  then show ?thesis
    using True assms net.read_section[of "net_rules i" "j\<lparr>net_enabled := True, net_handled := net_handled i\<rparr>" b]
    by (simp add: read_net_def header_of_def enable_net_def am_eval)
next
  case False
  then have "net_handled i = 0" "net_rules i = []"
    using assms by (auto simp: wire_ok_def ir_wf_def)
  then show ?thesis using False assms
    by (simp add: read_net_def header_of_def am_eval)
qed

lemma read_opt_path_app:
  assumes "pred_option wire_path s"
    and "\<And>p. s = Some p \<Longrightarrow> store (Some (p @ [NUL])) j [] = (Inr (upd (Some p) j), [])"
    and "upd None j = j"
  shows "read_opt_path (opt_len s) store (write_opt_path s @ b, j) [] = (Inr (b, upd s j), [])"
  using assms
  by (cases s) (auto simp: read_opt_path_def opt_len_def write_opt_path_def wire_path_def am_eval)

lemma set_runtime_app:
  "wire_path p \<Longrightarrow> runtime_root j = None \<Longrightarrow>
    set_runtime_root (Some (p @ [NUL])) j [] = (Inr (j\<lparr>runtime_root := Some p\<rparr>), [])"
  "wire_path p \<Longrightarrow> runtime_cwd j = None \<Longrightarrow>
    set_runtime_cwd (Some (p @ [NUL])) j [] = (Inr (j\<lparr>runtime_cwd := Some p\<rparr>), [])"
  by (simp_all add: set_runtime_root_def set_runtime_cwd_def am_eval wire_path_def)

lemma read_seccomp_app:
  assumes "wire_ok i" "seccomp_deny j = []" "\<not> seccomp_enabled j" "seccomp_errno j = 0"
  shows "read_seccomp (header_of i) (concat (map write_seccomp_rule (seccomp_deny i)) @ b, j) [] =
    (Inr (b, j\<lparr>seccomp_enabled := seccomp_enabled i, seccomp_errno := seccomp_errno i,
       seccomp_deny := seccomp_deny i\<rparr>), [])"
proof (cases "seccomp_enabled i")
  case True
  then have e: "seccomp_errno i \<noteq> 0" "list_all (\<lambda>n. 0 \<le> n \<and> n < 2 ^ 31) (seccomp_deny i)"
    using assms by (auto simp: wire_ok_def ir_wf_def)
  have "unat (seccomp_errno i) \<le> unat (4095 :: u16)"
    using assms unfolding wire_ok_def word_le_nat_alt by blast
  then have "unat (seccomp_errno i) \<le> 4095" "0 < unat (seccomp_errno i)"
    using e by (simp_all add: unat_gt_0)
  then show ?thesis
    using True assms e deny_rules.read_section[of "seccomp_deny i"
        "j\<lparr>seccomp_enabled := True, seccomp_errno := seccomp_errno i\<rparr>" b]
    by (simp add: read_seccomp_def header_of_def enable_seccomp_def am_eval)
next
  case False
  then have "seccomp_errno i = 0" "seccomp_deny i = []"
    using assms by (auto simp: wire_ok_def ir_wf_def)
  then show ?thesis using False assms
    by (simp add: read_seccomp_def header_of_def am_eval)
qed

lemmas section_reads =
  layers.read_section open_read.read_section open_write.read_section scratch.read_section
  export_paths.read_section btmpfs.read_section bbind.read_section object.read_section
  addfd.read_section tmpfs.read_section mbind.read_section proc.read_section

lemma header_fields:
  "h_magic (header_of i) = WIRE_MAGIC"
  "h_version (header_of i) = WIRE_VERSION"
  "h_fs_layers (header_of i) = length (fs_layers i)"
  "h_open_read (header_of i) = length (broker_open_read i)"
  "h_open_write (header_of i) = length (broker_open_write i)"
  "h_scratch (header_of i) = length (broker_scratch i)"
  "h_export (header_of i) = length (broker_export i)"
  "h_btmpfs (header_of i) = length (broker_mount_tmpfs i)"
  "h_bbind (header_of i) = length (broker_mount_bind i)"
  "h_object (header_of i) = length (broker_mount_object i)"
  "h_addfd (header_of i) = length (broker_addfd i)"
  "h_tmpfs (header_of i) = length (mount_tmpfs i)"
  "h_bind (header_of i) = length (mount_bind i)"
  "h_proc (header_of i) = length (mount_proc i)"
  "h_root_len (header_of i) = opt_len (runtime_root i)"
  "h_cwd_len (header_of i) = opt_len (runtime_cwd i)"
  by (simp_all add: header_of_def)

lemma read_body_app:
  assumes "wire_ok i"
  shows "read_body (header_of i)
     (concat (map write_fs_layer (fs_layers i)) @
      concat (map write_net_rule (net_rules i)) @
      concat (map str_bytes (broker_open_read i)) @
      concat (map str_bytes (broker_open_write i)) @
      concat (map str_bytes (broker_scratch i)) @
      concat (map str_bytes (broker_export i)) @
      concat (map str_bytes (broker_mount_tmpfs i)) @
      concat (map write_bind_rule (broker_mount_bind i)) @
      concat (map write_object_rule (broker_mount_object i)) @
      concat (map write_addfd_rule (broker_addfd i)) @
      concat (map str_bytes (mount_tmpfs i)) @
      concat (map write_bind_rule (mount_bind i)) @
      concat (map str_bytes (mount_proc i)) @
      write_opt_path (runtime_root i) @ write_opt_path (runtime_cwd i) @
      concat (map write_seccomp_rule (seccomp_deny i)) @ b, ir_init) [] = (Inr (b, i), [])"
proof -
  note ok = assms[unfolded wire_ok_def]
  have root: "read_opt_path (opt_len (runtime_root i)) set_runtime_root (write_opt_path (runtime_root i) @ b, j) []
      = (Inr (b, j\<lparr>runtime_root := runtime_root i\<rparr>), [])" if "runtime_root j = None" for b j
    using ok that by (intro read_opt_path_app[where upd = "\<lambda>s j. j\<lparr>runtime_root := s\<rparr>"])
      (auto intro: set_runtime_app)
  have cwd: "read_opt_path (opt_len (runtime_cwd i)) set_runtime_cwd (write_opt_path (runtime_cwd i) @ b, j) []
      = (Inr (b, j\<lparr>runtime_cwd := runtime_cwd i\<rparr>), [])" if "runtime_cwd j = None" for b j
    using ok that by (intro read_opt_path_app[where upd = "\<lambda>s j. j\<lparr>runtime_cwd := s\<rparr>"])
      (auto intro: set_runtime_app)
  show ?thesis
    using ok unfolding read_body_def header_fields
    by (simp add: bindM_app section_reads read_net_app[OF assms] root cwd read_seccomp_app[OF assms]
        ir_init_def)
qed

subsection \<open>What the reader lets through\<close>

definition ir_trusted :: "ir \<Rightarrow> bool" where
  "ir_trusted i \<longleftrightarrow> ir_wf i \<and>
     list_all (\<lambda>a. wire_broker_addfd_action_is_known (a_action a)) (broker_addfd i) \<and>
     seccomp_errno i \<le> 4095 \<and> list_all (\<lambda>n. n < 2 ^ 31) (seccomp_deny i)"

lemma ensures_conj: "ensures f P \<Longrightarrow> ensures f Q \<Longrightarrow> ensures f (\<lambda>a. P a \<and> Q a)"
  by (auto simp: ensures_def)

lemma append_ops_trusted [am_rule]:
  assumes "ir_trusted i"
  shows "ensures (add_broker_open_read_rule p i) ir_trusted"
    and "ensures (add_broker_open_write_rule p i) ir_trusted"
    and "ensures (add_broker_scratch_rule p i) ir_trusted"
    and "ensures (add_broker_export_rule p i) ir_trusted"
    and "ensures (add_broker_mount_tmpfs_rule p i) ir_trusted"
    and "ensures (add_mount_tmpfs_rule p i) ir_trusted"
    and "ensures (add_mount_proc_rule p i) ir_trusted"
    and "ensures (add_broker_mount_bind_rule s t r i) ir_trusted"
    and "ensures (add_mount_bind_rule s t r i) ir_trusted"
    and "ensures (enable_net h i) ir_trusted"
    and "ensures (add_net_rule q a i) ir_trusted"
    and "ensures (set_runtime_root p i) ir_trusted"
    and "ensures (set_runtime_cwd p i) ir_trusted"
    and "ensures (add_fs_rule l p a i) ir_trusted"
    and "ensures (add_fs_layer h i) (\<lambda>r. ir_trusted (fst r))"
  using assms unfolding ir_trusted_def
  by (intro ensures_conj am_rule; simp;
      (intro ensures_conj)?; unfold add_path_defs append_bind_def add_broker_mount_bind_rule_def
        add_mount_bind_rule_def enable_net_def add_net_rule_def set_runtime_root_def set_runtime_cwd_def
        add_fs_rule_def add_fs_layer_def Let_def; intro am_rule; simp)+

lemma object_trusted [am_rule]:
  assumes "ir_trusted i"
  shows "ensures (add_broker_mount_object_rule n t ps a i) ir_trusted"
proof -
  have "ensures (add_broker_mount_object_rule n t ps a i) (\<lambda>j. broker_addfd j = broker_addfd i \<and>
      seccomp_errno j = seccomp_errno i \<and> seccomp_deny j = seccomp_deny i)"
    unfolding add_broker_mount_object_rule_def
    by (intro am_rule, rule ensures_mono[OF ensures_copy_attach], intro am_rule) simp
  then show ?thesis
    using ensures_conj[OF add_broker_mount_object_rule_wf] assms
    by (auto simp: ir_trusted_def elim!: ensures_mono[OF ensures_conj[OF add_broker_mount_object_rule_wf]])
qed

lemma known_cstr: "wire_broker_addfd_action_is_known (cstr s) = wire_broker_addfd_action_is_known s"
  by (simp add: wire_broker_addfd_action_is_known_def)

lemma addfd_trusted [am_rule]:
  assumes "ir_trusted i" "wire_broker_addfd_action_is_known act"
  shows "ensures (add_broker_addfd_rule (Some act) t m i) ir_trusted"
proof -
  have "ensures (add_broker_addfd_rule (Some act) t m i) (\<lambda>j.
      (\<exists>t' m'. broker_addfd j = broker_addfd i @ [\<lparr>a_action = cstr act, a_target = t', a_mode = m'\<rparr>]) \<and>
      seccomp_errno j = seccomp_errno i \<and> seccomp_deny j = seccomp_deny i)"
    unfolding add_broker_addfd_rule_def by (intro am_rule) auto
  then show ?thesis
    using assms
    by (auto simp: ir_trusted_def known_cstr
        elim!: ensures_mono[OF ensures_conj[OF add_broker_addfd_rule_wf]])
qed

lemma seccomp_trusted [am_rule]:
  "ir_trusted i \<Longrightarrow> e \<le> 4095 \<Longrightarrow> ensures (enable_seccomp e i) ir_trusted"
  "ir_trusted i \<Longrightarrow> n < 2 ^ 31 \<Longrightarrow> ensures (add_seccomp_deny_rule n i) ir_trusted"
  unfolding enable_seccomp_def add_seccomp_deny_rule_def
  by (intro am_rule; auto simp: ir_trusted_def ir_wf_def split: if_splits)+

lemma ensures_read [am_rule]:
  "(\<And>n b'. Q (n, b')) \<Longrightarrow> ensures (read_u32 b) Q"
  "(\<And>x b'. Q' (x, b')) \<Longrightarrow> ensures (read_u64 b) Q'"
  "(\<And>p b'. Q'' (p, b')) \<Longrightarrow> ensures (read_bytes k b) Q''"
  "(\<And>p b'. Q'' (p, b')) \<Longrightarrow> ensures (read_str b) Q''"
  unfolding read_u32_def read_u64_def read_bytes_def read_str_def
  by (intro am_rule; auto simp: ensures_def bindM_def guardM_def allocM_def returnM_def failM_def
      split: prod.splits if_splits sum.splits list.splits)+

abbreviation (input) trusted_state :: "rstate \<Rightarrow> bool" where
  "trusted_state s \<equiv> ir_trusted (snd s)"

lemma ensures_read_n [am_rule]:
  assumes "I s" "\<And>s. I s \<Longrightarrow> ensures (step s) I"
  shows "ensures (read_n n step s) I"
  using assms(1)
proof (induction n arbitrary: s)
  case (Suc n)
  then show ?case
    by (auto intro!: ensures_bind ensures_mono[OF assms(2)])
qed (simp add: ensures_return)

lemma ensures_return_iff: "ensures (returnM a) Q \<longleftrightarrow> Q a"
  by (auto simp: ensures_def returnM_def)

lemma steps_trusted [am_rule]:
  assumes "trusted_state s"
  shows "ensures (read_fs_rule k s) trusted_state"
    and "ensures (read_net_rule s) trusted_state"
    and "ensures (read_object_rule s) trusted_state"
    and "ensures (read_addfd_rule s) trusted_state"
    and "ensures (read_seccomp_rule s) trusted_state"
  using assms unfolding read_fs_rule_def read_net_rule_def read_object_rule_def read_addfd_rule_def
    read_seccomp_rule_def read_strs_def
  by (auto split: prod.splits simp: ensures_return_iff intro!: am_rule
      intro: ensures_mono[OF ensures_read_n[where I = "\<lambda>_. True"]])

lemma path_steps_trusted [am_rule]:
  assumes "trusted_state s"
  shows "(\<And>p i. ir_trusted i \<Longrightarrow> ensures (add p i) ir_trusted) \<Longrightarrow>
      ensures (read_path_rule add s) trusted_state"
    and "(\<And>p t r i. ir_trusted i \<Longrightarrow> ensures (addb p t r i) ir_trusted) \<Longrightarrow>
      ensures (read_bind_rule addb s) trusted_state"
    and "(\<And>p i. ir_trusted i \<Longrightarrow> ensures (store p i) ir_trusted) \<Longrightarrow>
      ensures (read_opt_path n store s) trusted_state"
  using assms unfolding read_path_rule_def read_bind_rule_def read_opt_path_def
  by (auto split: prod.splits simp: ensures_return_iff intro!: am_rule)

lemma layer_step_trusted [am_rule]:
  assumes "trusted_state s"
  shows "ensures (read_fs_layer s) trusted_state"
  using assms unfolding read_fs_layer_def
  by (auto split: prod.splits intro!: ensures_bind ensures_read ensures_read_n steps_trusted
      elim!: ensures_mono[OF append_ops_trusted(15)])

lemma switch_steps_trusted [am_rule]:
  assumes "trusted_state s"
  shows "ensures (read_net h s) trusted_state" and "ensures (read_seccomp h s) trusted_state"
proof -
  show "ensures (read_net h s) trusted_state"
    using assms unfolding read_net_def
    by (auto split: prod.splits simp: ensures_return_iff
        intro!: ensures_bind ensures_if ensures_read_n steps_trusted elim!: ensures_mono[OF append_ops_trusted(10)])
  have "word_of_nat n \<le> (4095 :: u16)" if "n \<le> 4095" for n
  proof -
    have "n mod 65536 \<le> 4095" using that by simp
    then show ?thesis by (simp add: word_le_nat_alt unat_of_nat)
  qed
  then show "ensures (read_seccomp h s) trusted_state"
    using assms unfolding read_seccomp_def
    by (auto split: prod.splits simp: ensures_return_iff
        intro!: ensures_bind ensures_if ensures_guard ensures_read_n steps_trusted
        ensures_mono[OF seccomp_trusted(1)])
qed

lemma ensures_seq: "ensures f Q \<Longrightarrow> (\<And>a. Q a \<Longrightarrow> ensures (g a) Q) \<Longrightarrow> ensures (bindM f g) Q"
  by (auto intro!: ensures_bind elim: ensures_mono)

lemma read_body_trusted: "trusted_state s \<Longrightarrow> ensures (read_body h s) trusted_state"
  unfolding read_body_def
  by (intro ensures_seq ensures_read_n steps_trusted path_steps_trusted layer_step_trusted
      switch_steps_trusted append_ops_trusted; assumption)

subsection \<open>Properties\<close>

lemma load_wire_app:
  assumes "wire_ok i"
  shows "load_ir_from_wire (write_ir i @ b) ir_init [] = (if b = [] then Inr i else Inl (Err EINVAL), [])"
  using assms unfolding load_ir_from_wire_def write_ir_def append_assoc
  by (simp add: bindM_app read_header_app read_body_app header_fields am_eval)

text \<open>C12: A policy the format can carry survives the trip from the helper process to its parent:
  reading back the bytes written for it yields the same policy.\<close>

theorem wire_roundtrip:
  assumes "wire_ok i"
  shows "load_ir_from_wire (write_ir i) ir_init [] = (Inr i, [])"
  using load_wire_app[OF assms, of "[]"] by simp

definition sample_ir :: ir where
  "sample_ir = ir_init\<lparr>
     fs_layers := [\<lparr>l_handled = 12, l_rules = [\<lparr>r_path = ''/usr'', r_allowed = 4\<rparr>]\<rparr>],
     net_enabled := True, net_handled := 3, net_rules := [\<lparr>n_port = 443, n_allowed = 2\<rparr>],
     broker_open_read := [''/etc/hosts''],
     broker_mount_bind := [\<lparr>b_source = ''/a'', b_target = ''/b'', b_read_only = True\<rparr>],
     broker_mount_object := [\<lparr>o_name = ''m'', o_fs_type = ''tmpfs'', o_attach = [''/mnt''], o_attrs = 1\<rparr>],
     broker_addfd := [\<lparr>a_action = ''open'', a_target = ''/x'', a_mode = Some ''read''\<rparr>],
     runtime_cwd := Some ''/'', seccomp_enabled := True, seccomp_errno := 1, seccomp_deny := [101]\<rparr>"

lemma sample_ir_wire_ok: "wire_ok sample_ir"
  by (simp add: sample_ir_def ir_init_def wire_ok_def ir_wf_def layer_wf_def wire_layer_def
      wire_fs_rule_def fits_def wire_path_def good_path_def bind_wf_def wire_bind_def object_wf_def
      wire_object_def addfd_wf_def wire_addfd_def wire_broker_addfd_action_is_known_def NUL_def)

theorem wire_roundtrip_witness: "load_ir_from_wire (write_ir sample_ir) ir_init [] = (Inr sample_ir, [])"
  by (rule wire_roundtrip) (rule sample_ir_wire_ok)

lemma load_wire_trusted: "ensures (load_ir_from_wire buf ir_init) ir_trusted"
proof -
  have "ir_trusted ir_init" by (simp add: ir_trusted_def ir_init_def) (simp add: ir_wf_def)
  then show ?thesis
    unfolding load_ir_from_wire_def
    by (auto split: prod.splits intro!: ensures_bind ensures_guard ensures_return
        ensures_mono[OF read_body_trusted] intro: ensures_mono[where P = "\<lambda>_. True"] ensuresI)
qed

text \<open>C16: Whatever bytes the parent receives, a policy it accepts is well-formed, passes descriptors
  only for the five known actions, and denies only non-negative system call numbers with an
  errno of at most 4095.\<close>

theorem wire_reader_sound: "ensures (load_ir_from_wire buf ir_init) ir_trusted"
  by (rule load_wire_trusted)

text \<open>A message must end where its counts say: valid bytes followed by anything are refused with
  EINVAL.\<close>

theorem wire_reader_exact_length:
  assumes "wire_ok i" "junk \<noteq> []"
  shows "load_ir_from_wire (write_ir i @ junk) ir_init [] = (Inl (Err EINVAL), [])"
  using load_wire_app[OF assms(1), of junk] assms(2) by simp

theorem wire_reader_exact_length_witness:
  "load_ir_from_wire (write_ir sample_ir @ ''x'') ir_init [] = (Inl (Err EINVAL), [])"
  by (rule wire_reader_exact_length[OF sample_ir_wire_ok]) simp

end
