(* ===== verification/Kernel.thy ===== *)
theory Kernel
  imports Prelude "HOL-Library.State_Monad"
begin

text \<open>
  The interface to the operating system. The kernel is not part of the program: it is a
  parameter \<open>K\<close> that answers each system call from the history of earlier calls and
  answers. The process state \<open>world\<close> holds errno, the history, the allocator outcomes and the
  program's static variables. Effectful C functions are computations of the library's
  state monad over \<open>world\<close>; \<open>wp\<close> is their weakest precondition and \<open>emits\<close> bounds
  the system calls they can make.
\<close>

named_theorems io_wp \<open>weakest-precondition equations of effectful code\<close>
named_theorems io_emits \<open>introduction rules for \<open>emits\<close>\<close>
named_theorems io_calls \<open>rules for \<open>calls\<close>\<close>
named_theorems io_traced \<open>introduction rules for \<open>traced\<close>\<close>

subsection \<open>Arguments of system calls\<close>

record sock_filter =
  sf_code :: u16
  sf_jt :: u8
  sf_jf :: u8
  sf_k :: u32

record ruleset_attr =
  handled_access_fs :: u64
  handled_access_net :: u64
  scoped :: u64

text \<open>
  \<open>struct landlock_path_beneath_attr\<close> and \<open>struct landlock_net_port_attr\<close>; both start with
  the 64-bit allowed access.
\<close>

datatype rule_attr =
    PathBeneath (allowed_access: u64) (parent_fd: int)
  | NetPort (allowed_access: u64) (net_port: u64)

text \<open>\<open>struct mount_attr\<close>.\<close>

record mount_attr =
  attr_set :: u64
  attr_clr :: u64
  propagation :: u64
  userns_fd :: u64

text \<open>Calls of the launcher, the daemon and the command line.\<close>

datatype (plugins only: code size) host_call =
    Stdout string
  | Mkdtemp string
  | Mkdir string u32
  | Rmdir string
  | Chdir string
  | Access string
  | Unlink string
  | Unshare u32
  | PivotRoot string string
  | Getuid
  | Getgid
  | Getpid
  | Kill int nat
  | Raise nat
  | Execvp string "string list"
  | Pipe
  | Dup2 int int
  | Read int nat
  | Socket
  | Connect int string
  | Bind int string
  | Listen int
  | Accept int
  | PeerCred int
  | AcceptConn int
  | Getsockname int

text \<open>
  \<open>NotifRecv\<close>, \<open>NotifSend\<close> (descriptor, request, value, error) and \<open>NotifAddfd\<close> (descriptor,
  request, flags, source, new descriptor's flags) are the ioctl calls on a seccomp listener.
  \<open>SendFd\<close> and \<open>RecvFd\<close> are sendmsg and recvmsg with one descriptor attached. \<open>PeerCred\<close> and
  \<open>AcceptConn\<close> are the two getsockopt calls the daemon makes. \<open>Execvp\<close> stands for the exec
  family; a successful one answers with the exit status of the program. \<open>InChild e\<close> is a call
  made by a forked child of the process.
\<close>

datatype (plugins only: code size) sysevent =
    LandlockCreateRuleset "ruleset_attr option" nat u32
  | LandlockAddRule int int rule_attr u32
  | LandlockRestrictSelf int u32
  | Prctl int int
  | SeccompSetModeFilter u32 "sock_filter list"
  | SeccompGetActionAvail u32
  | SeccompGetNotifSizes
  | Open string u32
  | Close int
  | Fopen string
  | Fclose
  | Openat int string u32 u32
  | Mkdirat int string u32
  | Unlinkat int string int
  | Renameat2 int string int string u32
  | Symlinkat string int string
  | Linkat int string int string int
  | Realpath string
  | Readlink string nat
  | Stat string
  | Write int string
  | ProcessVmReadv int u64 nat
  | NotifRecv int
  | NotifSend int u64 int int
  | NotifAddfd int u64 u32 int u32
  | PidfdOpen int
  | PidfdGetfd int int
  | Setns int u32
  | Fork
  | Waitpid int
  | Socketpair
  | SendFd int int
  | RecvFd int
  | Mount "string option" string "string option" u64 "string option"
  | Umount2 string int
  | OpenTree int string u32
  | MoveMount int string int string u32
  | MountSetattr int string u32 mount_attr
  | Fsopen string u32
  | Fsconfig int u32
  | Fsmount int u32 u32
  | Getenv string
  | Timestamp
  | InChild sysevent
  | Malloc nat
  | Stderr string
  | Host host_call

text \<open>
  \<open>Done n d\<close>: the call returned \<open>n\<close> (never negative) and wrote the bytes \<open>d\<close> into the
  caller's buffer; \<open>Fail e\<close>: it returned -1 and set errno to \<open>e\<close>.
\<close>

datatype reply = Done nat string | Fail int

type_synonym history = "(sysevent \<times> reply) list"
type_synonym kernel = "history \<Rightarrow> sysevent \<Rightarrow> reply"

record world =
  w_errno :: int
  w_trace :: history
  w_alloc :: alloc
  w_e2big_warned :: bool

text \<open>Updates of different fields are brought into one order.\<close>

lemma world_updates [simp]:
  "w_trace_update f (w_errno_update g w) = w_errno_update g (w_trace_update f w)"
  "w_trace_update f (w_alloc_update h w) = w_alloc_update h (w_trace_update f w)"
  "w_trace_update f (w_e2big_warned_update i w) = w_e2big_warned_update i (w_trace_update f w)"
  "w_alloc_update h (w_errno_update g w) = w_errno_update g (w_alloc_update h w)"
  "w_alloc_update h (w_e2big_warned_update i w) = w_e2big_warned_update i (w_alloc_update h w)"
  "w_errno_update g (w_e2big_warned_update i w) = w_e2big_warned_update i (w_errno_update g w)"
  by simp_all

type_synonym 'a io = "(world, 'a) state"

subsection \<open>Primitive effects\<close>

definition get_errno :: "int io" where
  "get_errno = State (\<lambda>w. (w_errno w, w))"

definition set_errno :: "int \<Rightarrow> unit io" where
  "set_errno e = State (\<lambda>w. ((), w\<lparr>w_errno := e\<rparr>))"

definition sysd :: "kernel \<Rightarrow> sysevent \<Rightarrow> (int \<times> string) io" where
  "sysd K e = State (\<lambda>w.
     let r = K (w_trace w) e; w' = w\<lparr>w_trace := w_trace w @ [(e, r)]\<rparr> in
     (case r of Done n d \<Rightarrow> ((int n, d), w')
      | Fail er \<Rightarrow> ((-1, []), w'\<lparr>w_errno := er\<rparr>)))"

definition sys :: "kernel \<Rightarrow> sysevent \<Rightarrow> int io" where
  "sys K e = do { r \<leftarrow> sysd K e; State_Monad.return (fst r) }"

text \<open>\<open>errno = e; return -1;\<close>\<close>

definition fail_with :: "int \<Rightarrow> int io" where
  "fail_with e = do { set_errno e; State_Monad.return (-1) }"

text \<open>A pure allocating computation run in the process.\<close>

definition run_am :: "'a am \<Rightarrow> 'a option io" where
  "run_am f = State (\<lambda>w. case f (w_alloc w) of
       (Inr a, m) \<Rightarrow> (Some a, w\<lparr>w_alloc := m\<rparr>)
     | (Inl (Err e), m) \<Rightarrow> (None, w\<lparr>w_alloc := m, w_errno := e\<rparr>)
     | (Inl Stale, m) \<Rightarrow> (None, w\<lparr>w_alloc := m\<rparr>))"

subsection \<open>Weakest preconditions\<close>

definition wp :: "'a io \<Rightarrow> ('a \<Rightarrow> world \<Rightarrow> bool) \<Rightarrow> world \<Rightarrow> bool" where
  "wp f Q w = (case run_state f w of (a, w') \<Rightarrow> Q a w')"

lemma wp_return [io_wp]: "wp (State_Monad.return a) Q w = Q a w"
  by (simp add: wp_def)

lemma wp_return_fun: "wp (State_Monad.return a) Q = Q a"
  by (simp add: fun_eq_iff wp_return)

lemma wp_bind [io_wp]: "wp (State_Monad.bind f g) Q w = wp f (\<lambda>a. wp (g a) Q) w"
  by (simp add: wp_def split: prod.splits)

lemma wp_get_errno [io_wp]: "wp get_errno Q w = Q (w_errno w) w"
  by (simp add: wp_def get_errno_def)

lemma wp_set_errno [io_wp]: "wp (set_errno e) Q w = Q () (w\<lparr>w_errno := e\<rparr>)"
  by (simp add: wp_def set_errno_def)

lemma wp_fail_with [io_wp]: "wp (fail_with e) Q w = Q (-1) (w\<lparr>w_errno := e\<rparr>)"
  by (simp add: fail_with_def io_wp)

lemma wp_sysd [io_wp]:
  "wp (sysd K e) Q w =
    (case K (w_trace w) e of
       Done n d \<Rightarrow> Q (int n, d) (w\<lparr>w_trace := w_trace w @ [(e, Done n d)]\<rparr>)
     | Fail er \<Rightarrow> Q (-1, []) (w\<lparr>w_trace := w_trace w @ [(e, Fail er)], w_errno := er\<rparr>))"
  by (simp add: wp_def sysd_def Let_def split: reply.splits)

lemma wp_sys [io_wp]:
  "wp (sys K e) Q w =
    (case K (w_trace w) e of
       Done n d \<Rightarrow> Q (int n) (w\<lparr>w_trace := w_trace w @ [(e, Done n d)]\<rparr>)
     | Fail er \<Rightarrow> Q (-1) (w\<lparr>w_trace := w_trace w @ [(e, Fail er)], w_errno := er\<rparr>))"
  by (simp add: sys_def io_wp split: reply.splits)

lemma wp_run_am [io_wp]:
  "wp (run_am f) Q w = (case f (w_alloc w) of
       (Inr a, m) \<Rightarrow> Q (Some a) (w\<lparr>w_alloc := m\<rparr>)
     | (Inl (Err e), m) \<Rightarrow> Q None (w\<lparr>w_alloc := m, w_errno := e\<rparr>)
     | (Inl Stale, m) \<Rightarrow> Q None (w\<lparr>w_alloc := m\<rparr>))"
  by (simp add: wp_def run_am_def split: prod.splits sum.splits failure.splits)

lemma wp_if [io_wp]: "wp (if b then f else g) Q w = (if b then wp f Q w else wp g Q w)"
  by simp

lemma wp_opt: "wp (case x of None \<Rightarrow> f | Some a \<Rightarrow> g a) Q w =
    (case x of None \<Rightarrow> wp f Q w | Some a \<Rightarrow> wp (g a) Q w)"
  by (cases x) simp_all

lemma wp_mono: "wp f P w \<Longrightarrow> (\<And>a w'. P a w' \<Longrightarrow> Q a w') \<Longrightarrow> wp f Q w"
  by (simp add: wp_def split: prod.splits)

lemma wp_conj: "wp f P w \<Longrightarrow> wp f Q w \<Longrightarrow> wp f (\<lambda>a w'. P a w' \<and> Q a w') w"
  by (simp add: wp_def split: prod.splits)

lemma wp_run: "wp f Q w \<Longrightarrow> run_state f w = (a, w') \<Longrightarrow> Q a w'"
  by (simp add: wp_def)

lemma run_of_wp: "wp f (\<lambda>a w'. a = x \<and> w' = w'') w \<Longrightarrow> run_state f w = (x, w'')"
  by (simp add: wp_def split: prod.splits)

subsection \<open>Which system calls a computation makes\<close>

definition emits :: "(sysevent \<Rightarrow> bool) \<Rightarrow> 'a io \<Rightarrow> bool" where
  "emits E f \<longleftrightarrow> (\<forall>w. \<exists>es. w_trace (snd (run_state f w)) = w_trace w @ es
                       \<and> (\<forall>x \<in> set es. E (fst x)))"

lemma emits_return [io_emits]: "emits E (State_Monad.return a)"
  by (simp add: emits_def)

lemma emits_bind_weak [io_emits]:
  assumes "emits E f" and "\<And>a. emits E (g a)"
  shows "emits E (State_Monad.bind f g)"
  unfolding emits_def
proof
  fix w
  obtain a w1 where 1: "run_state f w = (a, w1)" by fastforce
  obtain b w2 where 2: "run_state (g a) w1 = (b, w2)" by fastforce
  obtain es1 where es1: "w_trace w1 = w_trace w @ es1" "\<forall>x \<in> set es1. E (fst x)"
    using assms(1) 1 unfolding emits_def by (metis snd_conv)
  obtain es2 where es2: "w_trace w2 = w_trace w1 @ es2" "\<forall>x \<in> set es2. E (fst x)"
    using assms(2)[of a] 2 unfolding emits_def by (metis snd_conv)
  have "w_trace w2 = w_trace w @ (es1 @ es2) \<and> (\<forall>x \<in> set (es1 @ es2). E (fst x))"
    using es1 es2 by auto
  then show "\<exists>es. w_trace (snd (run_state (State_Monad.bind f g) w)) = w_trace w @ es
      \<and> (\<forall>x \<in> set es. E (fst x))"
    using 1 2 by auto
qed

lemma emits_get_errno [io_emits]: "emits E get_errno"
  by (simp add: emits_def get_errno_def)

lemma emits_set_errno [io_emits]: "emits E (set_errno e)"
  by (simp add: emits_def set_errno_def)

lemma emits_sysd [io_emits]: "E e \<Longrightarrow> emits E (sysd K e)"
  by (simp add: emits_def sysd_def Let_def split: reply.splits)

lemma emits_sys [io_emits]: "E e \<Longrightarrow> emits E (sys K e)"
  unfolding sys_def by (intro io_emits)

lemma emits_fail_with [io_emits]: "emits E (fail_with e)"
  unfolding fail_with_def by (intro io_emits)

lemma emits_run_am [io_emits]: "emits E (run_am f)"
  by (simp add: emits_def run_am_def split: prod.splits sum.splits failure.splits)

lemma emits_if [io_emits]:
  "(b \<Longrightarrow> emits E f) \<Longrightarrow> (\<not> b \<Longrightarrow> emits E g) \<Longrightarrow> emits E (if b then f else g)"
  by simp

lemma emits_mono: "emits E f \<Longrightarrow> (\<And>e. E e \<Longrightarrow> F e) \<Longrightarrow> emits F f"
  unfolding emits_def by meson

subsection \<open>Traces with a condition on every call\<close>

text \<open>
  \<open>traced E g f Q\<close>: started in any state, after the calls \<open>g\<close>, the computation makes only calls
  that \<open>E\<close> grants on the calls made so far, and its result and the calls made satisfy \<open>Q\<close>.
  Nothing is assumed of the kernel, of errno or of the allocator.
\<close>

fun all_granted :: "(history \<Rightarrow> sysevent \<Rightarrow> bool) \<Rightarrow> history \<Rightarrow> history \<Rightarrow> bool" where
  "all_granted E g [] = True"
| "all_granted E g (x # xs) = (E g (fst x) \<and> all_granted E (g @ [x]) xs)"

lemma granted_append: "all_granted E g (xs @ ys) \<longleftrightarrow> all_granted E g xs \<and> all_granted E (g @ xs) ys"
  by (induction xs arbitrary: g) simp_all

definition traced :: "(history \<Rightarrow> sysevent \<Rightarrow> bool) \<Rightarrow> history \<Rightarrow> 'a io \<Rightarrow> ('a \<Rightarrow> history \<Rightarrow> bool) \<Rightarrow> bool" where
  "traced E g f Q \<longleftrightarrow> (\<forall>w. case run_state f w of (a, w') \<Rightarrow>
     (\<exists>es. w_trace w' = w_trace w @ es \<and> all_granted E g es \<and> Q a (g @ es)))"

lemma tracedI:
  assumes "\<And>w. \<exists>es. w_trace (snd (run_state f w)) = w_trace w @ es \<and> all_granted E g es \<and> Q (fst (run_state f w)) (g @ es)"
  shows "traced E g f Q"
  unfolding traced_def
proof
  fix w
  show "case run_state f w of (a, w') \<Rightarrow> \<exists>es. w_trace w' = w_trace w @ es \<and> all_granted E g es \<and> Q a (g @ es)"
    unfolding case_prod_beta by (rule assms)
qed

lemma tracedD:
  assumes "traced E g f Q" "run_state f w = (a, w')"
  obtains es where "w_trace w' = w_trace w @ es" "all_granted E g es" "Q a (g @ es)"
  using assms(1)[unfolded traced_def, THEN spec, of w, unfolded assms(2) prod.case] by blast

lemma traced_mono:
  assumes "traced E g f P" "\<And>a g'. P a g' \<Longrightarrow> Q a g'"
  shows "traced E g f Q"
  using assms unfolding traced_def case_prod_beta by blast

lemma traced_conj:
  assumes "traced E g f P" "traced E g f Q"
  shows "traced E g f (\<lambda>a g'. P a g' \<and> Q a g')"
  using assms unfolding traced_def case_prod_beta by (metis same_append_eq)

lemma traced_return [io_traced]: "Q a g \<Longrightarrow> traced E g (State_Monad.return a) Q"
  by (simp add: traced_def)

lemma traced_bind [io_traced]:
  assumes "traced E g f (\<lambda>a g'. traced E g' (h a) Q)"
  shows "traced E g (State_Monad.bind f h) Q"
proof (rule tracedI)
  fix w
  obtain a w1 where f: "run_state f w = (a, w1)" by fastforce
  obtain b w2 where h: "run_state (h a) w1 = (b, w2)" by fastforce
  obtain es1 where 1: "w_trace w1 = w_trace w @ es1" "all_granted E g es1" "traced E (g @ es1) (h a) Q"
    using tracedD[OF assms f] by blast
  obtain es2 where "w_trace w2 = w_trace w1 @ es2" "all_granted E (g @ es1) es2" "Q b ((g @ es1) @ es2)"
    using tracedD[OF 1(3) h] by blast
  then show "\<exists>es. w_trace (snd (run_state (State_Monad.bind f h) w)) = w_trace w @ es \<and> all_granted E g es \<and>
      Q (fst (run_state (State_Monad.bind f h) w)) (g @ es)"
    using f h 1 by (intro exI[of _ "es1 @ es2"]) (simp add: granted_append)
qed

lemma traced_get_errno [io_traced]: "(\<And>e. Q e g) \<Longrightarrow> traced E g get_errno Q"
  by (simp add: traced_def get_errno_def)

lemma traced_set_errno [io_traced]: "Q () g \<Longrightarrow> traced E g (set_errno e) Q"
  by (simp add: traced_def set_errno_def)

lemma traced_fail_with [io_traced]: "Q (-1) g \<Longrightarrow> traced E g (fail_with e) Q"
  unfolding fail_with_def by (intro io_traced)

lemma traced_sysd [io_traced]:
  assumes "E g e" "\<And>n d. Q (int n, d) (g @ [(e, Done n d)])" "\<And>er. Q (-1, []) (g @ [(e, Fail er)])"
  shows "traced E g (sysd K e) Q"
  using assms by (auto simp: traced_def sysd_def Let_def split: reply.splits)

lemma traced_sys [io_traced]:
  assumes "E g e" "\<And>n d. Q (int n) (g @ [(e, Done n d)])" "\<And>er. Q (-1) (g @ [(e, Fail er)])"
  shows "traced E g (sys K e) Q"
  unfolding sys_def by (intro io_traced) (simp_all add: assms traced_return)

lemma traced_run_am [io_traced]:
  assumes "ensures f P" "\<And>a. P a \<Longrightarrow> Q (Some a) g" "Q None g"
  shows "traced E g (run_am f) Q"
  using assms
  by (auto simp: traced_def run_am_def ensures_def split: prod.splits sum.splits failure.splits)

lemma traced_if [io_traced]:
  "(b \<Longrightarrow> traced E g f Q) \<Longrightarrow> (\<not> b \<Longrightarrow> traced E g h Q) \<Longrightarrow> traced E g (if b then f else h) Q"
  by simp

lemma traced_option [io_traced]:
  "(x = None \<Longrightarrow> traced E g f Q) \<Longrightarrow> (\<And>a. x = Some a \<Longrightarrow> traced E g (h a) Q) \<Longrightarrow>
   traced E g (case x of None \<Rightarrow> f | Some a \<Rightarrow> h a) Q"
  by (cases x) simp_all

subsection \<open>Computations that only make calls which are always granted\<close>

definition calls :: "(history \<Rightarrow> sysevent \<Rightarrow> bool) \<Rightarrow> 'a io \<Rightarrow> ('a \<Rightarrow> bool) \<Rightarrow> bool" where
  "calls E f R \<longleftrightarrow> (\<forall>g. traced E g f (\<lambda>a g'. set g \<subseteq> set g' \<and> R a))"

lemma traced_calls:
  "calls E f R \<Longrightarrow> (\<And>a g'. set g \<subseteq> set g' \<Longrightarrow> R a \<Longrightarrow> Q a g') \<Longrightarrow> traced E g f Q"
  unfolding calls_def by (erule allE[of _ g], erule traced_mono) blast

lemma calls_mono: "calls E f R \<Longrightarrow> (\<And>a. R a \<Longrightarrow> S a) \<Longrightarrow> calls E f S"
  unfolding calls_def by (rule allI, erule allE, erule traced_mono) blast

lemma calls_return [io_calls]: "R a \<Longrightarrow> calls E (State_Monad.return a) R"
  by (simp add: calls_def traced_return)

lemma calls_bind [io_calls]: "calls E f (\<lambda>a. calls E (h a) R) \<Longrightarrow> calls E (State_Monad.bind f h) R"
  unfolding calls_def
  by (intro allI traced_bind, erule allE, erule traced_mono, elim conjE, erule allE, erule traced_mono) blast

lemma calls_sysd [io_calls]:
  "(\<And>g. E g e) \<Longrightarrow> (\<And>n d. R (int n, d)) \<Longrightarrow> R (-1, []) \<Longrightarrow> calls E (sysd K e) R"
  unfolding calls_def by (intro allI traced_sysd) auto

lemma calls_sys [io_calls]:
  "(\<And>g. E g e) \<Longrightarrow> (\<And>n. R (int n)) \<Longrightarrow> R (-1) \<Longrightarrow> calls E (sys K e) R"
  unfolding calls_def by (intro allI traced_sys) auto

lemma calls_errno [io_calls]:
  "(\<And>e. R e) \<Longrightarrow> calls E get_errno R" "S () \<Longrightarrow> calls E (set_errno x) S" "T (-1) \<Longrightarrow> calls E (fail_with x) T"
  unfolding calls_def by (auto intro!: traced_get_errno traced_set_errno traced_fail_with)

lemma calls_run_am [io_calls]: "ensures f P \<Longrightarrow> (\<And>a. P a \<Longrightarrow> R (Some a)) \<Longrightarrow> R None \<Longrightarrow> calls E (run_am f) R"
  unfolding calls_def by (auto intro!: traced_run_am)

lemma calls_if [io_calls]:
  "(b \<Longrightarrow> calls E f R) \<Longrightarrow> (\<not> b \<Longrightarrow> calls E h R) \<Longrightarrow> calls E (if b then f else h) R"
  by simp

lemma calls_option [io_calls]:
  "(x = None \<Longrightarrow> calls E f R) \<Longrightarrow> (\<And>a. x = Some a \<Longrightarrow> calls E (h a) R) \<Longrightarrow>
   calls E (case x of None \<Rightarrow> f | Some a \<Rightarrow> h a) R"
  by (cases x) simp_all

subsection \<open>Descriptor accounting\<close>

text \<open>
  Which descriptor a successful call hands out, and the balance of descriptors handed out and
  closed in a history. A descriptor that is opened and closed once leaves the balance as it was.
\<close>

definition LANDLOCK_CREATE_RULESET_VERSION :: u32 where
  "LANDLOCK_CREATE_RULESET_VERSION = 1"

fun opens_host :: "host_call \<Rightarrow> bool" where
  "opens_host Socket = True"
| "opens_host (Accept fd) = True"
| "opens_host _ = False"

fun opens :: "sysevent \<Rightarrow> bool" where
  "opens (LandlockCreateRuleset a n f) = (f AND LANDLOCK_CREATE_RULESET_VERSION = 0)"
| "opens (Open p f) = True"
| "opens (SeccompSetModeFilter f p) = (f \<noteq> 0)"
| "opens (Openat fd p f m) = True"
| "opens (PidfdOpen pid) = True"
| "opens (PidfdGetfd pfd fd) = True"
| "opens (RecvFd fd) = True"
| "opens (OpenTree fd p f) = True"
| "opens (Fsopen t f) = True"
| "opens (Fsmount fd f a) = True"
| "opens (Host c) = opens_host c"
| "opens _ = False"

text \<open>\<open>socketpair\<close> and \<open>pipe\<close> hand out two descriptors, the second one in the caller's array.\<close>

definition new_fds :: "sysevent \<Rightarrow> nat \<Rightarrow> string \<Rightarrow> int list" where
  "new_fds e n d = (if opens e then [int n] else if e = Socketpair \<or> e = Host Pipe then [int n, int (le_val d)] else [])"

definition closed_fd :: "sysevent \<Rightarrow> int option" where
  "closed_fd e = (case e of Close fd \<Rightarrow> Some fd | _ \<Rightarrow> None)"

definition fd_delta :: "sysevent \<times> reply \<Rightarrow> int \<Rightarrow> int" where
  "fd_delta er x = (case closed_fd (fst er) of Some fd \<Rightarrow> if x = fd then -1 else 0
     | None \<Rightarrow> (case snd er of Done n d \<Rightarrow> int (count_list (new_fds (fst er) n d) x) | Fail e \<Rightarrow> 0))"

lemma closed_fd_Close [simp]: "closed_fd (Close fd) = Some fd"
  by (simp add: closed_fd_def)

lemma closed_fd_None [simp]: "(\<forall>fd. e \<noteq> Close fd) \<Longrightarrow> closed_fd e = None"
  by (cases e) (simp_all add: closed_fd_def)

lemma fd_delta_call [simp]:
  "fd_delta (Close fd, r) x = (if x = fd then -1 else 0)"
  "(\<forall>fd. e \<noteq> Close fd) \<Longrightarrow> fd_delta (e, Fail er) x = 0"
  "opens e \<Longrightarrow> (\<forall>fd. e \<noteq> Close fd) \<Longrightarrow> fd_delta (e, Done n d) x = (if x = int n then 1 else 0)"
  "\<not> opens e \<Longrightarrow> (\<forall>fd. e \<noteq> Close fd) \<Longrightarrow> e \<noteq> Socketpair \<Longrightarrow> e \<noteq> Host Pipe \<Longrightarrow> fd_delta (e, Done n d) x = 0"
  "fd_delta (Socketpair, Done n d) x = of_bool (x = int n) + of_bool (x = int (le_val d))"
  "fd_delta (Host Pipe, Done n d) x = of_bool (x = int n) + of_bool (x = int (le_val d))"
  by (simp_all add: fd_delta_def new_fds_def)

definition balance :: "history \<Rightarrow> int \<Rightarrow> int" where
  "balance h x = sum_list (map (\<lambda>e. fd_delta e x) h)"

lemma balance_Nil [simp]: "balance [] x = 0"
  by (simp add: balance_def)

lemma balance_append [simp]: "balance (h @ g) x = balance h x + balance g x"
  by (simp add: balance_def)

lemma balance_Cons [simp]: "balance (e # h) x = fd_delta e x + balance h x"
  by (simp add: balance_def)

text \<open>Calls that neither hand out nor close a descriptor.\<close>

definition neutral :: "sysevent \<Rightarrow> bool" where
  "neutral e \<longleftrightarrow> \<not> opens e \<and> closed_fd e = None \<and> e \<noteq> Socketpair \<and> e \<noteq> Host Pipe"

lemma neutral_delta: "neutral e \<Longrightarrow> fd_delta (e, r) x = 0"
  by (cases r) (simp_all add: neutral_def fd_delta_def new_fds_def)

lemma granted_neutral: "all_granted (\<lambda>_. neutral) g es \<Longrightarrow> balance es x = 0"
  by (induction es arbitrary: g) (auto simp: neutral_delta)

lemma traced_neutral:
  assumes "calls (\<lambda>_. neutral) f R" "\<And>a g'. set g \<subseteq> set g' \<Longrightarrow> balance g' = balance g \<Longrightarrow> R a \<Longrightarrow> Q a g'"
  shows "traced (\<lambda>_ _. True) g f Q"
proof (rule tracedI)
  fix w
  obtain a w' where f: "run_state f w = (a, w')" by fastforce
  have "traced (\<lambda>_. neutral) g f (\<lambda>a g'. set g \<subseteq> set g' \<and> R a)" using assms(1) unfolding calls_def by blast
  then obtain es where es: "w_trace w' = w_trace w @ es" "all_granted (\<lambda>_. neutral) g es"
    "set g \<subseteq> set (g @ es)" "R a"
    using tracedD[OF _ f] by blast
  have "all_granted (\<lambda>_ _. True) g' es" for g' by (induction es arbitrary: g') simp_all
  moreover have "Q a (g @ es)" using es granted_neutral[OF es(2)] by (intro assms(2)) auto
  ultimately show "\<exists>es. w_trace (snd (run_state f w)) = w_trace w @ es \<and> all_granted (\<lambda>_ _. True) g es \<and>
      Q (fst (run_state f w)) (g @ es)" using f es(1) by auto
qed

end
