(* ===== verification/Seccomp.thy ===== *)
theory Seccomp
  imports Kernel
begin

text \<open>
  \<open>src/src/landlockd_seccomp.c\<close>: syscall plans, the name table, the classic-BPF programs built
  for the notify and deny filters, and the hardening lists. System call numbers are those of
  Linux on x86-64. \<open>bpf_run\<close> gives the meaning of the three BPF instructions the code emits.
\<close>

subsection \<open>System call numbers and BPF constants\<close>

abbreviation (input) SYS_open :: int where "SYS_open \<equiv> 2"
abbreviation (input) SYS_getpid :: int where "SYS_getpid \<equiv> 39"
abbreviation (input) SYS_socket :: int where "SYS_socket \<equiv> 41"
abbreviation (input) SYS_connect :: int where "SYS_connect \<equiv> 42"
abbreviation (input) SYS_rename :: int where "SYS_rename \<equiv> 82"
abbreviation (input) SYS_mkdir :: int where "SYS_mkdir \<equiv> 83"
abbreviation (input) SYS_rmdir :: int where "SYS_rmdir \<equiv> 84"
abbreviation (input) SYS_creat :: int where "SYS_creat \<equiv> 85"
abbreviation (input) SYS_link :: int where "SYS_link \<equiv> 86"
abbreviation (input) SYS_unlink :: int where "SYS_unlink \<equiv> 87"
abbreviation (input) SYS_symlink :: int where "SYS_symlink \<equiv> 88"
abbreviation (input) SYS_ptrace :: int where "SYS_ptrace \<equiv> 101"
abbreviation (input) SYS_getppid :: int where "SYS_getppid \<equiv> 110"
abbreviation (input) SYS_pivot_root :: int where "SYS_pivot_root \<equiv> 155"
abbreviation (input) SYS_mount :: int where "SYS_mount \<equiv> 165"
abbreviation (input) SYS_umount2 :: int where "SYS_umount2 \<equiv> 166"
abbreviation (input) SYS_swapon :: int where "SYS_swapon \<equiv> 167"
abbreviation (input) SYS_swapoff :: int where "SYS_swapoff \<equiv> 168"
abbreviation (input) SYS_reboot :: int where "SYS_reboot \<equiv> 169"
abbreviation (input) SYS_init_module :: int where "SYS_init_module \<equiv> 175"
abbreviation (input) SYS_delete_module :: int where "SYS_delete_module \<equiv> 176"
abbreviation (input) SYS_kexec_load :: int where "SYS_kexec_load \<equiv> 246"
abbreviation (input) SYS_openat :: int where "SYS_openat \<equiv> 257"
abbreviation (input) SYS_mkdirat :: int where "SYS_mkdirat \<equiv> 258"
abbreviation (input) SYS_unlinkat :: int where "SYS_unlinkat \<equiv> 263"
abbreviation (input) SYS_renameat :: int where "SYS_renameat \<equiv> 264"
abbreviation (input) SYS_linkat :: int where "SYS_linkat \<equiv> 265"
abbreviation (input) SYS_symlinkat :: int where "SYS_symlinkat \<equiv> 266"
abbreviation (input) SYS_unshare :: int where "SYS_unshare \<equiv> 272"
abbreviation (input) SYS_perf_event_open :: int where "SYS_perf_event_open \<equiv> 298"
abbreviation (input) SYS_open_by_handle_at :: int where "SYS_open_by_handle_at \<equiv> 304"
abbreviation (input) SYS_setns :: int where "SYS_setns \<equiv> 308"
abbreviation (input) SYS_finit_module :: int where "SYS_finit_module \<equiv> 313"
abbreviation (input) SYS_renameat2 :: int where "SYS_renameat2 \<equiv> 316"
abbreviation (input) SYS_bpf :: int where "SYS_bpf \<equiv> 321"
abbreviation (input) SYS_open_tree :: int where "SYS_open_tree \<equiv> 428"
abbreviation (input) SYS_move_mount :: int where "SYS_move_mount \<equiv> 429"
abbreviation (input) SYS_fsopen :: int where "SYS_fsopen \<equiv> 430"
abbreviation (input) SYS_fsconfig :: int where "SYS_fsconfig \<equiv> 431"
abbreviation (input) SYS_fsmount :: int where "SYS_fsmount \<equiv> 432"
abbreviation (input) SYS_clone3 :: int where "SYS_clone3 \<equiv> 435"
abbreviation (input) SYS_openat2 :: int where "SYS_openat2 \<equiv> 437"
abbreviation (input) SYS_mount_setattr :: int where "SYS_mount_setattr \<equiv> 442"

abbreviation (input) BPF_LD_W_ABS :: u16 where "BPF_LD_W_ABS \<equiv> 0x20"
abbreviation (input) BPF_JMP_JEQ_K :: u16 where "BPF_JMP_JEQ_K \<equiv> 0x15"
abbreviation (input) BPF_RET_K :: u16 where "BPF_RET_K \<equiv> 0x06"
abbreviation (input) SECCOMP_RET_ERRNO :: u32 where "SECCOMP_RET_ERRNO \<equiv> 0x00050000"
abbreviation (input) SECCOMP_RET_USER_NOTIF :: u32 where "SECCOMP_RET_USER_NOTIF \<equiv> 0x7fc00000"
abbreviation (input) SECCOMP_RET_ALLOW :: u32 where "SECCOMP_RET_ALLOW \<equiv> 0x7fff0000"
abbreviation (input) SECCOMP_FILTER_FLAG_NEW_LISTENER :: u32
  where "SECCOMP_FILTER_FLAG_NEW_LISTENER \<equiv> 8"
abbreviation (input) PR_SET_NO_NEW_PRIVS :: int where "PR_SET_NO_NEW_PRIVS \<equiv> 38"
abbreviation (input) PR_GET_NO_NEW_PRIVS :: int where "PR_GET_NO_NEW_PRIVS \<equiv> 39"

subsection \<open>Plans\<close>

definition MAX_EXCEPTIONS :: nat where
  "MAX_EXCEPTIONS = 32"

record seccomp_plan =
  syscall_nrs :: "int list"
  plan_count :: nat

definition plan_init :: "seccomp_plan option \<Rightarrow> seccomp_plan res" where
  "plan_init p = (case p of None \<Rightarrow> Inl (Err EINVAL)
     | Some _ \<Rightarrow> Inr \<lparr>syscall_nrs = replicate MAX_EXCEPTIONS 0, plan_count = 0\<rparr>)"

definition plan_add :: "seccomp_plan option \<Rightarrow> int \<Rightarrow> seccomp_plan res" where
  "plan_add p nr = (case p of None \<Rightarrow> Inl (Err EINVAL) | Some p \<Rightarrow>
     if nr < 0 then Inl (Err EINVAL)
     else if plan_count p \<ge> MAX_EXCEPTIONS then Inl (Err ENOSPC)
     else Inr (p\<lparr>syscall_nrs := (syscall_nrs p)[plan_count p := nr],
                 plan_count := plan_count p + 1\<rparr>))"

definition name_map :: "(string \<times> int) list" where
  "name_map = [
    (''getpid'', SYS_getpid), (''getppid'', SYS_getppid), (''openat'', SYS_openat),
    (''openat2'', SYS_openat2), (''mkdirat'', SYS_mkdirat), (''unlinkat'', SYS_unlinkat),
    (''renameat2'', SYS_renameat2), (''symlinkat'', SYS_symlinkat), (''linkat'', SYS_linkat),
    (''socket'', SYS_socket), (''connect'', SYS_connect), (''mount'', SYS_mount),
    (''umount2'', SYS_umount2), (''pivot_root'', SYS_pivot_root), (''open_tree'', SYS_open_tree),
    (''move_mount'', SYS_move_mount), (''fsopen'', SYS_fsopen), (''fsconfig'', SYS_fsconfig),
    (''fsmount'', SYS_fsmount), (''mount_setattr'', SYS_mount_setattr), (''unshare'', SYS_unshare),
    (''setns'', SYS_setns), (''clone3'', SYS_clone3), (''ptrace'', SYS_ptrace), (''bpf'', SYS_bpf),
    (''perf_event_open'', SYS_perf_event_open), (''kexec_load'', SYS_kexec_load),
    (''init_module'', SYS_init_module), (''finit_module'', SYS_finit_module),
    (''delete_module'', SYS_delete_module), (''open_by_handle_at'', SYS_open_by_handle_at),
    (''swapon'', SYS_swapon), (''swapoff'', SYS_swapoff), (''reboot'', SYS_reboot)]"

definition syscall_by_name :: "string option \<Rightarrow> int res" where
  "syscall_by_name name = (case name of None \<Rightarrow> Inl (Err EINVAL) | Some s \<Rightarrow>
     if s = '''' then Inl (Err EINVAL)
     else (case map_of name_map s of Some nr \<Rightarrow> Inr nr | None \<Rightarrow> Inl (Err ENOENT)))"

text \<open>A run of \<open>if (plan_add(plan, nr) < 0) return -1;\<close> statements.\<close>

fun plan_add_all :: "seccomp_plan \<Rightarrow> int list \<Rightarrow> seccomp_plan res" where
  "plan_add_all p [] = Inr p"
| "plan_add_all p (nr # nrs) =
    (case plan_add (Some p) nr of Inl e \<Rightarrow> Inl e | Inr p' \<Rightarrow> plan_add_all p' nrs)"

definition mount_syscalls :: "int list" where
  "mount_syscalls = [SYS_mount, SYS_umount2, SYS_pivot_root, SYS_open_tree, SYS_move_mount,
     SYS_fsopen, SYS_fsconfig, SYS_fsmount, SYS_mount_setattr]"

definition add_hardening_syscalls :: "seccomp_plan \<Rightarrow> bool \<Rightarrow> seccomp_plan res" where
  "add_hardening_syscalls p allow_mount_ops = plan_add_all p
     ((if allow_mount_ops then [] else mount_syscalls) @
      [SYS_ptrace, SYS_bpf, SYS_perf_event_open, SYS_kexec_load, SYS_init_module,
       SYS_finit_module, SYS_delete_module, SYS_open_by_handle_at])"

definition add_daemon_hardening_syscalls :: "seccomp_plan \<Rightarrow> seccomp_plan res" where
  "add_daemon_hardening_syscalls p = plan_add_all p
     [SYS_ptrace, SYS_bpf, SYS_perf_event_open, SYS_kexec_load, SYS_init_module,
      SYS_finit_module, SYS_delete_module, SYS_open_by_handle_at, SYS_swapon, SYS_swapoff,
      SYS_reboot]"

subsection \<open>Filter programs\<close>

definition BPF_STMT :: "u16 \<Rightarrow> u32 \<Rightarrow> sock_filter" where
  "BPF_STMT c v = \<lparr>sf_code = c, sf_jt = 0, sf_jf = 0, sf_k = v\<rparr>"

definition BPF_JUMP :: "u16 \<Rightarrow> u32 \<Rightarrow> u8 \<Rightarrow> u8 \<Rightarrow> sock_filter" where
  "BPF_JUMP c v t f = \<lparr>sf_code = c, sf_jt = t, sf_jf = f, sf_k = v\<rparr>"

definition notify_filter :: "seccomp_plan \<Rightarrow> sock_filter list" where
  "notify_filter p =
     BPF_STMT BPF_LD_W_ABS 0 #
     map (\<lambda>i. BPF_JUMP BPF_JMP_JEQ_K (word_of_int (syscall_nrs p ! i))
                (word_of_nat (plan_count p - i)) 0) [0..<plan_count p] @
     [BPF_STMT BPF_RET_K SECCOMP_RET_ALLOW, BPF_STMT BPF_RET_K SECCOMP_RET_USER_NOTIF]"

definition deny_filter :: "u16 \<Rightarrow> seccomp_plan \<Rightarrow> sock_filter list" where
  "deny_filter errno_ret p =
     BPF_STMT BPF_LD_W_ABS 0 #
     concat (map (\<lambda>i. [BPF_JUMP BPF_JMP_JEQ_K (word_of_int (syscall_nrs p ! i)) 0 1,
                       BPF_STMT BPF_RET_K (SECCOMP_RET_ERRNO OR ucast errno_ret)])
               [0..<plan_count p]) @
     [BPF_STMT BPF_RET_K SECCOMP_RET_ALLOW]"

definition landlockd_set_no_new_privs :: "kernel \<Rightarrow> int io" where
  "landlockd_set_no_new_privs K = do {
     saved_errno \<leftarrow> get_errno;
     rc \<leftarrow> sys K (Prctl PR_SET_NO_NEW_PRIVS 1);
     if rc < 0 then State_Monad.return (-1)
     else do { set_errno saved_errno; State_Monad.return 0 } }"

definition seccomp_install :: "kernel \<Rightarrow> seccomp_plan option \<Rightarrow> int io" where
  "seccomp_install K p = (case p of None \<Rightarrow> fail_with EINVAL | Some p \<Rightarrow>
     if plan_count p = 0 \<or> plan_count p > MAX_EXCEPTIONS then fail_with EINVAL
     else do {
       fd \<leftarrow> sys K (SeccompSetModeFilter SECCOMP_FILTER_FLAG_NEW_LISTENER (notify_filter p));
       if fd < 0 then State_Monad.return (-1) else State_Monad.return fd })"

definition seccomp_install_denylist :: "kernel \<Rightarrow> seccomp_plan option \<Rightarrow> u16 \<Rightarrow> int io" where
  "seccomp_install_denylist K p errno_ret = (case p of None \<Rightarrow> fail_with EINVAL | Some p \<Rightarrow>
     if plan_count p = 0 \<or> plan_count p > MAX_EXCEPTIONS then fail_with EINVAL
     else do {
       rc \<leftarrow> sys K (SeccompSetModeFilter 0 (deny_filter errno_ret p));
       if rc < 0 then State_Monad.return (-1) else State_Monad.return 0 })"

text \<open>The uninitialised local \<open>struct landlockd_seccomp_plan plan\<close> handed to \<open>plan_init\<close>.\<close>

definition plan_local :: seccomp_plan where
  "plan_local = \<lparr>syscall_nrs = replicate MAX_EXCEPTIONS 0, plan_count = 0\<rparr>"

definition of_res :: "'a res \<Rightarrow> ('a \<Rightarrow> int io) \<Rightarrow> int io" where
  "of_res r f = (case r of Inl (Err e) \<Rightarrow> fail_with e
     | Inl Stale \<Rightarrow> State_Monad.return (-1) | Inr a \<Rightarrow> f a)"

definition seccomp_apply_broker_hardening :: "kernel \<Rightarrow> bool \<Rightarrow> int io" where
  "seccomp_apply_broker_hardening K allow_mount_ops = do {
     rc \<leftarrow> landlockd_set_no_new_privs K;
     if rc < 0 then State_Monad.return (-1)
     else of_res (plan_init (Some plan_local)) (\<lambda>plan.
          of_res (add_hardening_syscalls plan allow_mount_ops) (\<lambda>plan.
          if plan_count plan = 0 then State_Monad.return 0
          else seccomp_install_denylist K (Some plan) 1)) }"

definition seccomp_apply_hardening :: "kernel \<Rightarrow> int io" where
  "seccomp_apply_hardening K = seccomp_apply_broker_hardening K False"

definition seccomp_apply_daemon_hardening :: "kernel \<Rightarrow> int io" where
  "seccomp_apply_daemon_hardening K = do {
     rc \<leftarrow> landlockd_set_no_new_privs K;
     if rc < 0 then State_Monad.return (-1)
     else of_res (plan_init (Some plan_local)) (\<lambda>plan.
          of_res (add_daemon_hardening_syscalls plan) (\<lambda>plan.
          if plan_count plan = 0 then State_Monad.return 0
          else seccomp_install_denylist K (Some plan) 1)) }"

subsection \<open>Meaning of a filter\<close>

text \<open>
  Classic BPF restricted to the emitted instructions: \<open>data off\<close> is the 32-bit word of
  \<open>struct seccomp_data\<close> at an offset; running off the end or meeting another instruction is
  \<open>None\<close> (the kernel refuses such a program).
\<close>

function bpf_run :: "(u32 \<Rightarrow> u32) \<Rightarrow> sock_filter list \<Rightarrow> u32 \<Rightarrow> u32 option" where
  "bpf_run data [] acc = None"
| "bpf_run data (i # is) acc =
    (if sf_code i = BPF_LD_W_ABS then bpf_run data is (data (sf_k i))
     else if sf_code i = BPF_JMP_JEQ_K then
       bpf_run data (drop (unat (if acc = sf_k i then sf_jt i else sf_jf i)) is) acc
     else if sf_code i = BPF_RET_K then Some (sf_k i)
     else None)"
  by pat_completeness auto
termination by (relation "measure (\<lambda>(data, is, acc). length is)") auto

text \<open>\<open>struct seccomp_data\<close> of a call with number \<open>nr\<close>; the other words are arbitrary.\<close>

definition seccomp_data :: "u32 \<Rightarrow> (u32 \<Rightarrow> u32) \<Rightarrow> u32 \<Rightarrow> u32" where
  "seccomp_data nr rest off = (if off = 0 then nr else rest off)"

definition verdict :: "sock_filter list \<Rightarrow> (u32 \<Rightarrow> u32) \<Rightarrow> u32 \<Rightarrow> u32 option" where
  "verdict prog rest nr = bpf_run (seccomp_data nr rest) prog 0"

definition plan_nrs :: "seccomp_plan \<Rightarrow> u32 list" where
  "plan_nrs p = map word_of_int (take (plan_count p) (syscall_nrs p))"

definition plan_wf :: "seccomp_plan \<Rightarrow> bool" where
  "plan_wf p \<longleftrightarrow> length (syscall_nrs p) = MAX_EXCEPTIONS \<and> plan_count p \<le> MAX_EXCEPTIONS
     \<and> (\<forall>nr \<in> set (syscall_nrs p). 0 \<le> nr)"

subsection \<open>Plans stay well-formed\<close>

lemma plan_init_wf: "plan_init p = Inr p' \<Longrightarrow> plan_wf p' \<and> plan_nrs p' = []"
  by (auto simp: plan_init_def plan_wf_def plan_nrs_def split: option.splits)

lemma plan_add_wf: "plan_wf p \<Longrightarrow> plan_add (Some p) nr = Inr p' \<Longrightarrow> plan_wf p'"
  by (auto simp: plan_add_def plan_wf_def split: if_splits dest!: set_update_subset_insert[THEN subsetD])

lemma plan_add_nrs:
  assumes "plan_wf p" "plan_add (Some p) nr = Inr p'"
  shows "plan_nrs p' = plan_nrs p @ [word_of_int nr]"
proof -
  have "plan_count p < length (syscall_nrs p)"
    using assms by (auto simp: plan_add_def plan_wf_def split: if_splits)
  then have "take (plan_count p + 1) ((syscall_nrs p)[plan_count p := nr])
      = take (plan_count p) (syscall_nrs p) @ [nr]"
    by (simp add: take_Suc_conv_app_nth)
  then show ?thesis
    using assms(2) by (auto simp: plan_add_def plan_nrs_def split: if_splits)
qed

lemma plan_add_all_spec:
  assumes "plan_wf p" "\<forall>nr \<in> set nrs. 0 \<le> nr" "plan_count p + length nrs \<le> MAX_EXCEPTIONS"
  shows "\<exists>p'. plan_add_all p nrs = Inr p' \<and> plan_wf p' \<and>
      plan_nrs p' = plan_nrs p @ map word_of_int nrs \<and> plan_count p' = plan_count p + length nrs"
  using assms
proof (induction nrs arbitrary: p)
  case (Cons nr nrs)
  then obtain p1 where p1: "plan_add (Some p) nr = Inr p1" "plan_count p1 = plan_count p + 1"
    by (auto simp: plan_add_def)
  then have "plan_wf p1" "plan_nrs p1 = plan_nrs p @ [word_of_int nr]"
    using Cons.prems plan_add_wf plan_add_nrs by blast+
  then show ?case
    using Cons.IH[of p1] Cons.prems p1 by simp
qed auto

lemma plan_nrs_nth:
  assumes "plan_wf p" "i < plan_count p"
  shows "plan_nrs p ! i = word_of_int (syscall_nrs p ! i)"
  using assms by (auto simp: plan_nrs_def plan_wf_def)

lemma length_plan_nrs: "plan_wf p \<Longrightarrow> length (plan_nrs p) = plan_count p"
  by (auto simp: plan_nrs_def plan_wf_def)

subsection \<open>Correctness of the emitted programs\<close>

text \<open>The jump tables as functions of the list of numbers.\<close>

fun notify_jumps :: "u32 list \<Rightarrow> sock_filter list" where
  "notify_jumps [] = []"
| "notify_jumps (x # xs) = BPF_JUMP BPF_JMP_JEQ_K x (word_of_nat (length xs + 1)) 0 # notify_jumps xs"

fun deny_jumps :: "u32 \<Rightarrow> u32 list \<Rightarrow> sock_filter list" where
  "deny_jumps r [] = []"
| "deny_jumps r (x # xs) = BPF_JUMP BPF_JMP_JEQ_K x 0 1 # BPF_STMT BPF_RET_K r # deny_jumps r xs"

lemma length_notify_jumps [simp]: "length (notify_jumps xs) = length xs"
  by (induction xs) auto

lemma notify_jumps_map:
  "notify_jumps xs = map (\<lambda>i. BPF_JUMP BPF_JMP_JEQ_K (xs ! i) (word_of_nat (length xs - i)) 0)
     [0..<length xs]"
proof (induction xs)
  case (Cons x xs)
  have "[0..<length (x # xs)] = 0 # map Suc [0..<length xs]"
    by (simp only: list.size add_Suc_right add_0_right map_Suc_upt upt_conv_Cons[of 0] zero_less_Suc)
  then show ?case using Cons by (simp del: upt_Suc)
qed simp

lemma deny_jumps_map:
  "deny_jumps r xs = concat (map (\<lambda>i. [BPF_JUMP BPF_JMP_JEQ_K (xs ! i) 0 1, BPF_STMT BPF_RET_K r])
     [0..<length xs])"
proof (induction xs)
  case (Cons x xs)
  have "[0..<length (x # xs)] = 0 # map Suc [0..<length xs]"
    by (simp only: list.size add_Suc_right add_0_right map_Suc_upt upt_conv_Cons[of 0] zero_less_Suc)
  then show ?case using Cons by (simp del: upt_Suc add: comp_def)
qed simp

lemma notify_filter_jumps:
  assumes "plan_wf p"
  shows "notify_filter p = BPF_STMT BPF_LD_W_ABS 0 # notify_jumps (plan_nrs p) @
     [BPF_STMT BPF_RET_K SECCOMP_RET_ALLOW, BPF_STMT BPF_RET_K SECCOMP_RET_USER_NOTIF]"
  using assms by (simp add: notify_filter_def notify_jumps_map length_plan_nrs plan_nrs_nth)

lemma deny_filter_jumps:
  assumes "plan_wf p"
  shows "deny_filter e p = BPF_STMT BPF_LD_W_ABS 0 #
     deny_jumps (SECCOMP_RET_ERRNO OR ucast e) (plan_nrs p) @ [BPF_STMT BPF_RET_K SECCOMP_RET_ALLOW]"
  using assms
  by (auto simp: deny_filter_def deny_jumps_map length_plan_nrs plan_nrs_nth
      intro!: arg_cong[where f = concat])

lemma run_notify_jumps:
  "length xs < 256 \<Longrightarrow> bpf_run d (notify_jumps xs @
      [BPF_STMT BPF_RET_K SECCOMP_RET_ALLOW, BPF_STMT BPF_RET_K SECCOMP_RET_USER_NOTIF]) nr
    = Some (if nr \<in> set xs then SECCOMP_RET_USER_NOTIF else SECCOMP_RET_ALLOW)"
proof (induction xs)
  case (Cons x xs)
  have "unat (word_of_nat (length xs + 1) :: u8) = length xs + 1"
    using Cons.prems by (simp add: unat_of_nat take_bit_eq_mod del: of_nat_add of_nat_Suc)
  then show ?case
    using Cons by (simp add: BPF_JUMP_def BPF_STMT_def del: of_nat_add of_nat_Suc)
qed (simp add: BPF_STMT_def)

lemma run_deny_jumps:
  "bpf_run d (deny_jumps r xs @ [BPF_STMT BPF_RET_K SECCOMP_RET_ALLOW]) nr
    = Some (if nr \<in> set xs then r else SECCOMP_RET_ALLOW)"
  by (induction xs) (auto simp: BPF_JUMP_def BPF_STMT_def)

text \<open>
  Interface of a filter generator: the program returns \<open>hit\<close> for the calls of the plan and
  lets every other call through.
\<close>

locale plan_filter =
  fixes emit :: "seccomp_plan \<Rightarrow> sock_filter list" and hit :: u32
  assumes verdict_emit: "plan_wf p \<Longrightarrow>
    verdict (emit p) rest nr = Some (if nr \<in> set (plan_nrs p) then hit else SECCOMP_RET_ALLOW)"
begin

lemma verdict_after_add:
  assumes "plan_wf p" "plan_add (Some p) nr = Inr p'"
  shows "verdict (emit p') rest n =
    (if n = word_of_int nr then Some hit else verdict (emit p) rest n)"
  using assms plan_add_wf[OF assms] plan_add_nrs[OF assms] by (simp add: verdict_emit)

lemma verdict_add_all:
  assumes "plan_wf p" "\<forall>nr \<in> set nrs. 0 \<le> nr" "plan_count p + length nrs \<le> MAX_EXCEPTIONS"
  obtains p' where "plan_add_all p nrs = Inr p'" "plan_wf p'"
    "\<And>rest n. verdict (emit p') rest n =
      (if n \<in> word_of_int ` set nrs then Some hit else verdict (emit p) rest n)"
proof -
  obtain p' where p': "plan_add_all p nrs = Inr p'" "plan_wf p'"
      "plan_nrs p' = plan_nrs p @ map word_of_int nrs"
    using plan_add_all_spec[OF assms] by blast
  then have "verdict (emit p') rest n =
      (if n \<in> word_of_int ` set nrs then Some hit else verdict (emit p) rest n)" for rest n
    using assms(1) by (auto simp: verdict_emit)
  with p' show thesis using that by blast
qed

end

interpretation notify: plan_filter notify_filter SECCOMP_RET_USER_NOTIF
proof
  fix p rest nr
  assume wf: "plan_wf p"
  then have "length (plan_nrs p) < 256"
    by (simp add: length_plan_nrs plan_wf_def MAX_EXCEPTIONS_def)
  then show "verdict (notify_filter p) rest nr =
      Some (if nr \<in> set (plan_nrs p) then SECCOMP_RET_USER_NOTIF else SECCOMP_RET_ALLOW)"
    using run_notify_jumps[of "plan_nrs p" "seccomp_data nr rest" nr]
    by (simp add: verdict_def notify_filter_jumps[OF wf] BPF_STMT_def seccomp_data_def)
qed

interpretation deny: plan_filter "deny_filter e" "SECCOMP_RET_ERRNO OR ucast e" for e
proof
  fix p rest nr
  assume wf: "plan_wf p"
  show "verdict (deny_filter e p) rest nr =
      Some (if nr \<in> set (plan_nrs p) then SECCOMP_RET_ERRNO OR ucast e else SECCOMP_RET_ALLOW)"
    using run_deny_jumps[of "seccomp_data nr rest" "SECCOMP_RET_ERRNO OR ucast e" "plan_nrs p" nr]
    by (simp add: verdict_def deny_filter_jumps[OF wf] BPF_STMT_def seccomp_data_def)
qed

subsection \<open>Properties\<close>

lemma plan_local_wf [simp]: "plan_wf plan_local" "plan_nrs plan_local = []" "plan_count plan_local = 0"
  by (auto simp: plan_local_def plan_wf_def plan_nrs_def)

lemma plan_init_local [simp]: "plan_init (Some p) = Inr plan_local"
  by (simp add: plan_init_def plan_local_def)

text \<open>The calls the two hardening filters refuse.\<close>

definition kernel_attack_syscalls :: "int list" where
  "kernel_attack_syscalls = [SYS_ptrace, SYS_bpf, SYS_perf_event_open, SYS_kexec_load,
     SYS_init_module, SYS_finit_module, SYS_delete_module, SYS_open_by_handle_at]"

definition broker_denied :: "bool \<Rightarrow> int list" where
  "broker_denied allow_mount_ops =
     (if allow_mount_ops then [] else mount_syscalls) @ kernel_attack_syscalls"

definition daemon_denied :: "int list" where
  "daemon_denied = kernel_attack_syscalls @ [SYS_swapon, SYS_swapoff, SYS_reboot]"

lemma hardening_plan:
  assumes "\<forall>nr \<in> set nrs. 0 \<le> nr" "0 < length nrs" "length nrs \<le> MAX_EXCEPTIONS"
  obtains p where "plan_add_all plan_local nrs = Inr p" "plan_count p = length nrs"
    "\<And>rest nr. verdict (deny_filter e p) rest nr = Some (if nr \<in> word_of_int ` set nrs
       then SECCOMP_RET_ERRNO OR ucast e else SECCOMP_RET_ALLOW)"
proof -
  obtain p where p: "plan_add_all plan_local nrs = Inr p" "plan_wf p"
      "plan_nrs p = map word_of_int nrs" "plan_count p = length nrs"
    using plan_add_all_spec[of plan_local nrs] assms by auto
  then have "verdict (deny_filter e p) rest nr = Some (if nr \<in> word_of_int ` set nrs
       then SECCOMP_RET_ERRNO OR ucast e else SECCOMP_RET_ALLOW)" for rest nr
    using deny.verdict_emit[OF p(2)] by simp
  with p that show thesis by blast
qed

lemma wp_install_denylist:
  assumes "0 < plan_count p" "plan_count p \<le> MAX_EXCEPTIONS"
  shows "wp (seccomp_install_denylist K (Some p) e) Q w =
    wp (sys K (SeccompSetModeFilter 0 (deny_filter e p))) (\<lambda>rc. Q (if rc < 0 then -1 else 0)) w"
  using assms by (simp add: seccomp_install_denylist_def io_wp split: reply.splits)

lemma wp_set_no_new_privs [io_wp]:
  "wp (landlockd_set_no_new_privs K) Q w =
    (case K (w_trace w) (Prctl PR_SET_NO_NEW_PRIVS 1) of
       Done n d \<Rightarrow> Q 0 (w\<lparr>w_trace := w_trace w @ [(Prctl PR_SET_NO_NEW_PRIVS 1, Done n d)]\<rparr>)
     | Fail e \<Rightarrow> Q (-1) (w\<lparr>w_trace := w_trace w @ [(Prctl PR_SET_NO_NEW_PRIVS 1, Fail e)], w_errno := e\<rparr>))"
  by (simp add: landlockd_set_no_new_privs_def io_wp split: reply.splits)

text \<open>
  What a hardening call does when it reports success: it set no_new_privs and then installed one
  filter that refuses exactly the calls \<open>denied\<close> with \<open>EPERM\<close>.
\<close>

definition hardened :: "int list \<Rightarrow> world \<Rightarrow> world \<Rightarrow> bool" where
  "hardened denied w w' \<longleftrightarrow> (\<exists>n1 d1 n2 d2 prog.
     w_trace w' = w_trace w @ [(Prctl PR_SET_NO_NEW_PRIVS 1, Done n1 d1),
                               (SeccompSetModeFilter 0 prog, Done n2 d2)] \<and>
     w_errno w' = w_errno w \<and>
     (\<forall>rest nr. verdict prog rest nr = Some (if nr \<in> word_of_int ` set denied
        then SECCOMP_RET_ERRNO OR 1 else SECCOMP_RET_ALLOW)))"

text \<open>The last system call failed and errno tells why.\<close>

definition syscall_failed :: "world \<Rightarrow> bool" where
  "syscall_failed w \<longleftrightarrow> (\<exists>e. snd (last (w_trace w)) = Fail e \<and> w_errno w = e)"

lemma wp_hardening:
  assumes "\<forall>nr \<in> set nrs. 0 \<le> nr" "0 < length nrs" "length nrs \<le> MAX_EXCEPTIONS"
  shows "wp (do { rc \<leftarrow> landlockd_set_no_new_privs K;
     if rc < 0 then State_Monad.return (-1)
     else of_res (plan_init (Some plan_local)) (\<lambda>plan.
          of_res (plan_add_all plan nrs) (\<lambda>plan.
          if plan_count plan = 0 then State_Monad.return 0
          else seccomp_install_denylist K (Some plan) 1)) })
     (\<lambda>rc w'. rc = 0 \<and> hardened nrs w w' \<or> rc = -1 \<and> syscall_failed w') w"
proof -
  obtain p where p: "plan_add_all plan_local nrs = Inr p" "plan_count p = length nrs"
    "\<And>rest nr. verdict (deny_filter 1 p) rest nr = Some (if nr \<in> word_of_int ` set nrs
       then SECCOMP_RET_ERRNO OR ucast (1 :: u16) else SECCOMP_RET_ALLOW)"
    using hardening_plan[OF assms] by metis
  have "0 < plan_count p" "plan_count p \<le> MAX_EXCEPTIONS"
    using p(2) assms by auto
  with p show ?thesis
    by (simp add: io_wp of_res_def wp_install_denylist hardened_def syscall_failed_def split: reply.splits)
qed

text \<open>C17: The seccomp filter built for a plan asks the supervisor about a system call exactly
  when its number is in the plan, whatever the call's other arguments, and lets every other
  call through.\<close>

theorem notify_filter_verdict:
  assumes "plan_wf p"
  shows "verdict (notify_filter p) rest nr =
    Some (if nr \<in> set (plan_nrs p) then SECCOMP_RET_USER_NOTIF else SECCOMP_RET_ALLOW)"
  using assms by (rule notify.verdict_emit)

theorem notify_filter_verdict_witness:
  "verdict (notify_filter (plan_local\<lparr>syscall_nrs := 257 # replicate 31 0, plan_count := 1\<rparr>)) (\<lambda>_. 7) 257
    = Some SECCOMP_RET_USER_NOTIF"
  using notify_filter_verdict
    [of "plan_local\<lparr>syscall_nrs := 257 # replicate 31 0, plan_count := 1\<rparr>" "\<lambda>_. 7" 257]
  by (simp add: plan_wf_def plan_nrs_def MAX_EXCEPTIONS_def)

text \<open>C34: When the broker's hardening reports success it has set no_new_privs first and then
  installed a filter that answers EPERM to exactly the nine mount calls (unless they are
  allowed) and the eight kernel-attack calls, and it leaves errno alone.\<close>

theorem broker_hardening_denies:
  "wp (seccomp_apply_broker_hardening K allow)
     (\<lambda>rc w'. rc = 0 \<and> hardened (broker_denied allow) w w' \<or> rc = -1 \<and> syscall_failed w') w"
  unfolding seccomp_apply_broker_hardening_def add_hardening_syscalls_def
    broker_denied_def kernel_attack_syscalls_def[symmetric]
  by (rule wp_hardening) (auto simp: mount_syscalls_def kernel_attack_syscalls_def MAX_EXCEPTIONS_def)

text \<open>The same for the daemon: exactly the eight kernel-attack calls, swapon, swapoff and
  reboot are refused with EPERM, after no_new_privs.\<close>

theorem daemon_hardening_denies:
  "wp (seccomp_apply_daemon_hardening K)
     (\<lambda>rc w'. rc = 0 \<and> hardened daemon_denied w w' \<or> rc = -1 \<and> syscall_failed w') w"
proof -
  have eq: "add_daemon_hardening_syscalls p = plan_add_all p daemon_denied" for p
    by (simp add: add_daemon_hardening_syscalls_def daemon_denied_def kernel_attack_syscalls_def)
  show ?thesis
    unfolding seccomp_apply_daemon_hardening_def eq
    by (rule wp_hardening) (auto simp: daemon_denied_def kernel_attack_syscalls_def MAX_EXCEPTIONS_def)
qed

text \<open>Adding a call to a plan fails with EINVAL for a negative number and ENOSPC at 32
  entries, and otherwise keeps the plan well-formed, and both filters then treat the added call
  as listed and every other call as before.\<close>

theorem plan_add_filters:
  assumes "plan_wf p"
  shows "case plan_add (Some p) nr of
      Inl e \<Rightarrow> e = Err (if nr < 0 then EINVAL else ENOSPC) \<and> (nr < 0 \<or> plan_count p = 32)
    | Inr p' \<Rightarrow> plan_wf p' \<and> 0 \<le> nr \<and> plan_count p' = plan_count p + 1 \<and>
        verdict (notify_filter p') rest n = (if n = word_of_int nr
          then Some SECCOMP_RET_USER_NOTIF else verdict (notify_filter p) rest n) \<and>
        verdict (deny_filter e p') rest n = (if n = word_of_int nr
          then Some (SECCOMP_RET_ERRNO OR ucast e) else verdict (deny_filter e p) rest n)"
proof (cases "plan_add (Some p) nr")
  case (Inl f)
  then show ?thesis using assms
    by (auto simp: plan_add_def plan_wf_def MAX_EXCEPTIONS_def split: if_splits)
next
  case (Inr p')
  have "0 \<le> nr \<and> plan_count p' = plan_count p + 1"
    using Inr by (auto simp: plan_add_def split: if_splits)
  then show ?thesis
    using Inr plan_add_wf[OF assms Inr] notify.verdict_after_add[OF assms Inr]
      deny.verdict_after_add[OF assms Inr] by simp
qed

theorem plan_add_filters_witness:
  "plan_add (Some plan_local) 101 = Inr (plan_local\<lparr>syscall_nrs := 101 # replicate 31 0, plan_count := 1\<rparr>)
   \<and> verdict (deny_filter 13 (plan_local\<lparr>syscall_nrs := 101 # replicate 31 0, plan_count := 1\<rparr>)) (\<lambda>_. 0) 101
     = Some (SECCOMP_RET_ERRNO OR 13)"
proof -
  have 1: "plan_add (Some plan_local) 101 =
      Inr (plan_local\<lparr>syscall_nrs := 101 # replicate 31 0, plan_count := 1\<rparr>)"
    by (simp add: plan_add_def plan_local_def MAX_EXCEPTIONS_def numeral_eq_Suc)
  then show ?thesis
    using plan_add_filters[of plan_local 101 "\<lambda>_. 0" 101 13] by simp
qed

text \<open>The syscall-name table is a partial injection: a name is found exactly when it is
  listed (ENOENT otherwise), and distinct names have distinct numbers.\<close>

theorem syscall_by_name_table:
  "distinct (map fst name_map) \<and> distinct (map snd name_map) \<and>
   (syscall_by_name (Some s) = Inr nr \<longleftrightarrow> (s, nr) \<in> set name_map) \<and>
   (syscall_by_name (Some s) = Inl (Err ENOENT) \<longleftrightarrow> s \<noteq> [] \<and> s \<notin> fst ` set name_map)"
proof -
  have d: "distinct (map fst name_map)" "distinct (map snd name_map)" "[] \<notin> fst ` set name_map"
    by (simp_all add: name_map_def)
  moreover have "(map_of name_map s = Some nr) = ((s, nr) \<in> set name_map)"
    using d(1) by simp
  moreover have "(map_of name_map s = None) = (s \<notin> fst ` set name_map)"
    by (rule map_of_eq_None_iff)
  moreover have "([], nr) \<notin> set name_map"
    using d(3) by force
  ultimately show ?thesis
    unfolding syscall_by_name_def
    by (cases "s = []"; cases "map_of name_map s") (simp_all del: map_of_eq_Some_iff)
qed

end
