(* ===== verification/Landlock.thy ===== *)
theory Landlock
  imports Seccomp
begin

text \<open>
  The Landlock layer: \<open>landlock.c\<close>, \<open>landlock_fs_ruleset.c\<close>, \<open>landlock_net_ruleset.c\<close>,
  \<open>landlock_restrict_self_require_nnp.c\<close>, \<open>landlock_sandbox.c\<close>,
  \<open>landlock_sandbox_seccomp.c\<close>, the two preflight probes and \<open>seccomp_notify_probe.c\<close>.
  A pointer to an output variable is an option (\<open>None\<close> is NULL) that the function returns
  updated.
\<close>

subsection \<open>Constants of landlock_compat.h\<close>

definition LANDLOCK_RULE_PATH_BENEATH :: int where "LANDLOCK_RULE_PATH_BENEATH = 1"
definition LANDLOCK_RULE_NET_PORT :: int where "LANDLOCK_RULE_NET_PORT = 2"

definition LANDLOCK_ACCESS_FS_EXECUTE :: u64 where "LANDLOCK_ACCESS_FS_EXECUTE = push_bit 0 1"
definition LANDLOCK_ACCESS_FS_WRITE_FILE :: u64 where "LANDLOCK_ACCESS_FS_WRITE_FILE = push_bit 1 1"
definition LANDLOCK_ACCESS_FS_READ_FILE :: u64 where "LANDLOCK_ACCESS_FS_READ_FILE = push_bit 2 1"
definition LANDLOCK_ACCESS_FS_READ_DIR :: u64 where "LANDLOCK_ACCESS_FS_READ_DIR = push_bit 3 1"
definition LANDLOCK_ACCESS_FS_REMOVE_DIR :: u64 where "LANDLOCK_ACCESS_FS_REMOVE_DIR = push_bit 4 1"
definition LANDLOCK_ACCESS_FS_REMOVE_FILE :: u64 where "LANDLOCK_ACCESS_FS_REMOVE_FILE = push_bit 5 1"
definition LANDLOCK_ACCESS_FS_MAKE_CHAR :: u64 where "LANDLOCK_ACCESS_FS_MAKE_CHAR = push_bit 6 1"
definition LANDLOCK_ACCESS_FS_MAKE_DIR :: u64 where "LANDLOCK_ACCESS_FS_MAKE_DIR = push_bit 7 1"
definition LANDLOCK_ACCESS_FS_MAKE_REG :: u64 where "LANDLOCK_ACCESS_FS_MAKE_REG = push_bit 8 1"
definition LANDLOCK_ACCESS_FS_MAKE_SOCK :: u64 where "LANDLOCK_ACCESS_FS_MAKE_SOCK = push_bit 9 1"
definition LANDLOCK_ACCESS_FS_MAKE_FIFO :: u64 where "LANDLOCK_ACCESS_FS_MAKE_FIFO = push_bit 10 1"
definition LANDLOCK_ACCESS_FS_MAKE_BLOCK :: u64 where "LANDLOCK_ACCESS_FS_MAKE_BLOCK = push_bit 11 1"
definition LANDLOCK_ACCESS_FS_MAKE_SYM :: u64 where "LANDLOCK_ACCESS_FS_MAKE_SYM = push_bit 12 1"
definition LANDLOCK_ACCESS_FS_REFER :: u64 where "LANDLOCK_ACCESS_FS_REFER = push_bit 13 1"
definition LANDLOCK_ACCESS_FS_TRUNCATE :: u64 where "LANDLOCK_ACCESS_FS_TRUNCATE = push_bit 14 1"
definition LANDLOCK_ACCESS_FS_IOCTL_DEV :: u64 where "LANDLOCK_ACCESS_FS_IOCTL_DEV = push_bit 15 1"
definition LANDLOCK_ACCESS_NET_BIND_TCP :: u64 where "LANDLOCK_ACCESS_NET_BIND_TCP = push_bit 0 1"
definition LANDLOCK_ACCESS_NET_CONNECT_TCP :: u64 where "LANDLOCK_ACCESS_NET_CONNECT_TCP = push_bit 1 1"

lemmas access_bits =
  LANDLOCK_ACCESS_FS_EXECUTE_def LANDLOCK_ACCESS_FS_WRITE_FILE_def LANDLOCK_ACCESS_FS_READ_FILE_def
  LANDLOCK_ACCESS_FS_READ_DIR_def LANDLOCK_ACCESS_FS_REMOVE_DIR_def LANDLOCK_ACCESS_FS_REMOVE_FILE_def
  LANDLOCK_ACCESS_FS_MAKE_CHAR_def LANDLOCK_ACCESS_FS_MAKE_DIR_def LANDLOCK_ACCESS_FS_MAKE_REG_def
  LANDLOCK_ACCESS_FS_MAKE_SOCK_def LANDLOCK_ACCESS_FS_MAKE_FIFO_def LANDLOCK_ACCESS_FS_MAKE_BLOCK_def
  LANDLOCK_ACCESS_FS_MAKE_SYM_def LANDLOCK_ACCESS_FS_REFER_def LANDLOCK_ACCESS_FS_TRUNCATE_def
  LANDLOCK_ACCESS_FS_IOCTL_DEV_def LANDLOCK_ACCESS_NET_BIND_TCP_def LANDLOCK_ACCESS_NET_CONNECT_TCP_def

definition RULESET_ATTR_FS_SIZE :: nat where "RULESET_ATTR_FS_SIZE = 8"
definition RULESET_ATTR_NET_SIZE :: nat where "RULESET_ATTR_NET_SIZE = 16"
definition RULESET_ATTR_FULL_SIZE :: nat where "RULESET_ATTR_FULL_SIZE = 24"

subsection \<open>landlock.c\<close>

definition landlock_probe_abi :: "kernel \<Rightarrow> int option \<Rightarrow> (int \<times> int option) io" where
  "landlock_probe_abi K abi_version = (case abi_version of
     None \<Rightarrow> do { rc \<leftarrow> fail_with EINVAL; State_Monad.return (rc, None) }
   | Some v \<Rightarrow> do {
       saved_errno \<leftarrow> get_errno;
       probed_abi \<leftarrow> sys K (LandlockCreateRuleset None 0 LANDLOCK_CREATE_RULESET_VERSION);
       if probed_abi < 0 then State_Monad.return (-1, Some v)
       else do { set_errno saved_errno; State_Monad.return (0, Some probed_abi) } })"

definition landlock_abi_version :: "kernel \<Rightarrow> int io" where
  "landlock_abi_version K = do {
     r \<leftarrow> landlock_probe_abi K (Some 0);
     if fst r = 0 then State_Monad.return (the (snd r))
     else do {
       e \<leftarrow> get_errno;
       if e = ENOSYS \<or> e = EOPNOTSUPP then State_Monad.return 0 else State_Monad.return (-1) } }"

definition attr_size_for_abi :: "int \<Rightarrow> nat" where
  "attr_size_for_abi abi_version =
     (if abi_version \<le> 3 then RULESET_ATTR_FS_SIZE
      else if abi_version \<le> 5 then RULESET_ATTR_NET_SIZE
      else RULESET_ATTR_FULL_SIZE)"

definition landlock_create_ruleset_for_abi ::
    "kernel \<Rightarrow> int \<Rightarrow> ruleset_attr option \<Rightarrow> u32 \<Rightarrow> int io" where
  "landlock_create_ruleset_for_abi K abi_version attr flags =
     (if abi_version \<le> 0 then fail_with ENOSYS
      else if flags AND LANDLOCK_CREATE_RULESET_VERSION \<noteq> 0 then fail_with EINVAL
      else do {
        saved_errno \<leftarrow> get_errno;
        fd \<leftarrow> sys K (LandlockCreateRuleset attr (attr_size_for_abi abi_version) flags);
        if fd < 0 then State_Monad.return (-1)
        else do { set_errno saved_errno; State_Monad.return fd } })"

definition landlock_create_ruleset ::
    "kernel \<Rightarrow> ruleset_attr option \<Rightarrow> nat \<Rightarrow> u32 \<Rightarrow> int io" where
  "landlock_create_ruleset K attr sz flags =
     (if flags AND LANDLOCK_CREATE_RULESET_VERSION \<noteq> 0 then fail_with EINVAL
      else do {
        saved_errno \<leftarrow> get_errno;
        fd \<leftarrow> sys K (LandlockCreateRuleset attr sz flags);
        if fd < 0 then State_Monad.return (-1)
        else do { set_errno saved_errno; State_Monad.return fd } })"

definition landlock_add_rule ::
    "kernel \<Rightarrow> int \<Rightarrow> int \<Rightarrow> rule_attr option \<Rightarrow> u32 \<Rightarrow> int io" where
  "landlock_add_rule K ruleset_fd rule_type rule_attr flags =
     (if ruleset_fd < 0 then fail_with EBADF
      else case rule_attr of None \<Rightarrow> fail_with EINVAL | Some a \<Rightarrow>
        if rule_type = LANDLOCK_RULE_NET_PORT \<and> allowed_access a = 0 then fail_with EINVAL
        else do {
          saved_errno \<leftarrow> get_errno;
          rc \<leftarrow> sys K (LandlockAddRule ruleset_fd rule_type a flags);
          if rc < 0 then State_Monad.return (-1)
          else do { set_errno saved_errno; State_Monad.return 0 } })"

definition landlock_add_fs_rule ::
    "kernel \<Rightarrow> int \<Rightarrow> (u64 \<times> int) option \<Rightarrow> u32 \<Rightarrow> int io" where
  "landlock_add_fs_rule K ruleset_fd attr flags =
     (if ruleset_fd < 0 then fail_with EBADF
      else case attr of None \<Rightarrow> fail_with EINVAL | Some (acc, pfd) \<Rightarrow>
        if pfd < 0 then fail_with EBADF
        else if acc = 0 then fail_with EINVAL
        else landlock_add_rule K ruleset_fd LANDLOCK_RULE_PATH_BENEATH
               (Some (PathBeneath acc pfd)) flags)"

definition landlock_add_net_rule ::
    "kernel \<Rightarrow> int \<Rightarrow> (u64 \<times> u64) option \<Rightarrow> u32 \<Rightarrow> int io" where
  "landlock_add_net_rule K ruleset_fd attr flags = (case attr of
     None \<Rightarrow> fail_with EINVAL
   | Some (acc, port) \<Rightarrow> landlock_add_rule K ruleset_fd LANDLOCK_RULE_NET_PORT
       (Some (NetPort acc port)) flags)"

definition e2big_message :: string where
  "e2big_message = ''landlock_restrict_self failed with E2BIG; check no_new_privs\<newline>''"

definition e2big_warned :: "bool io" where
  "e2big_warned = State (\<lambda>w. (w_e2big_warned w, w))"

definition set_e2big_warned :: "unit io" where
  "set_e2big_warned = State (\<lambda>w. ((), w\<lparr>w_e2big_warned := True\<rparr>))"

definition landlock_restrict_self :: "kernel \<Rightarrow> int \<Rightarrow> u32 \<Rightarrow> int io" where
  "landlock_restrict_self K ruleset_fd flags =
     (if flags \<noteq> 0 then fail_with EINVAL
      else do {
        saved_errno \<leftarrow> get_errno;
        rc \<leftarrow> sys K (LandlockRestrictSelf ruleset_fd flags);
        if rc < 0 then do {
          saved_errno \<leftarrow> get_errno;
          warned \<leftarrow> e2big_warned;
          if saved_errno = E2BIG \<and> \<not> warned
          then do { set_e2big_warned; _ \<leftarrow> sys K (Stderr e2big_message); fail_with saved_errno }
          else fail_with saved_errno }
        else do { set_errno saved_errno; State_Monad.return 0 } })"

subsection \<open>landlock_fs_ruleset.c and landlock_net_ruleset.c\<close>

definition fs_access_mask_for_abi :: "int \<Rightarrow> u64" where
  "fs_access_mask_for_abi abi =
     LANDLOCK_ACCESS_FS_EXECUTE OR LANDLOCK_ACCESS_FS_WRITE_FILE OR LANDLOCK_ACCESS_FS_READ_FILE
     OR LANDLOCK_ACCESS_FS_READ_DIR OR LANDLOCK_ACCESS_FS_REMOVE_DIR OR LANDLOCK_ACCESS_FS_REMOVE_FILE
     OR LANDLOCK_ACCESS_FS_MAKE_CHAR OR LANDLOCK_ACCESS_FS_MAKE_DIR OR LANDLOCK_ACCESS_FS_MAKE_REG
     OR LANDLOCK_ACCESS_FS_MAKE_SOCK OR LANDLOCK_ACCESS_FS_MAKE_FIFO OR LANDLOCK_ACCESS_FS_MAKE_BLOCK
     OR LANDLOCK_ACCESS_FS_MAKE_SYM
     OR (if abi \<ge> 2 then LANDLOCK_ACCESS_FS_REFER else 0)
     OR (if abi \<ge> 3 then LANDLOCK_ACCESS_FS_TRUNCATE else 0)
     OR (if abi \<ge> 5 then LANDLOCK_ACCESS_FS_IOCTL_DEV else 0)"

definition landlock_create_fs_ruleset ::
    "kernel \<Rightarrow> u64 \<Rightarrow> u64 option \<Rightarrow> (int \<times> u64 option) io" where
  "landlock_create_fs_ruleset K requested_access_fs granted = do {
     saved_errno \<leftarrow> get_errno;
     abi \<leftarrow> landlock_abi_version K;
     if abi = 0 then do { rc \<leftarrow> fail_with ENOSYS; State_Monad.return (rc, granted) }
     else if abi < 0 then State_Monad.return (-1, granted)
     else let effective = requested_access_fs AND fs_access_mask_for_abi abi in
       if effective = 0 then do { rc \<leftarrow> fail_with EINVAL; State_Monad.return (rc, granted) }
       else do {
         fd \<leftarrow> landlock_create_ruleset K
                (Some \<lparr>handled_access_fs = effective, handled_access_net = 0, scoped = 0\<rparr>)
                RULESET_ATTR_FS_SIZE 0;
         if fd < 0 then State_Monad.return (-1, granted)
         else do { set_errno saved_errno;
                   State_Monad.return (fd, map_option (\<lambda>_. effective) granted) } } }"

definition net_access_mask_for_abi :: "int \<Rightarrow> u64" where
  "net_access_mask_for_abi abi =
     (if abi \<ge> 4 then LANDLOCK_ACCESS_NET_BIND_TCP OR LANDLOCK_ACCESS_NET_CONNECT_TCP else 0)"

definition landlock_create_net_ruleset ::
    "kernel \<Rightarrow> u64 \<Rightarrow> u64 option \<Rightarrow> (int \<times> u64 option) io" where
  "landlock_create_net_ruleset K requested_access_net granted = do {
     saved_errno \<leftarrow> get_errno;
     abi \<leftarrow> landlock_abi_version K;
     if abi = 0 then do { rc \<leftarrow> fail_with ENOSYS; State_Monad.return (rc, granted) }
     else if abi < 0 then State_Monad.return (-1, granted)
     else let abi_mask = net_access_mask_for_abi abi in
       if abi_mask = 0 then do { rc \<leftarrow> fail_with EOPNOTSUPP; State_Monad.return (rc, granted) }
       else let effective = requested_access_net AND abi_mask in
       if effective = 0 then do { rc \<leftarrow> fail_with EINVAL; State_Monad.return (rc, granted) }
       else do {
         fd \<leftarrow> landlock_create_ruleset K
                (Some \<lparr>handled_access_fs = 0, handled_access_net = effective, scoped = 0\<rparr>)
                RULESET_ATTR_NET_SIZE 0;
         if fd < 0 then State_Monad.return (-1, granted)
         else do { set_errno saved_errno;
                   State_Monad.return (fd, map_option (\<lambda>_. effective) granted) } } }"

subsection \<open>Entering the sandbox\<close>

definition landlockd_restrict_self_require_nnp :: "kernel \<Rightarrow> int \<Rightarrow> u32 \<Rightarrow> int io" where
  "landlockd_restrict_self_require_nnp K ruleset_fd flags =
     (if flags \<noteq> 0 then fail_with EINVAL
      else do {
        saved_errno \<leftarrow> get_errno;
        rc \<leftarrow> sys K (Prctl PR_GET_NO_NEW_PRIVS 0);
        if rc < 0 then do { saved_errno \<leftarrow> get_errno; fail_with saved_errno }
        else if rc = 0 then fail_with EPERM
        else do { set_errno saved_errno; landlock_restrict_self K ruleset_fd flags } })"

definition landlock_restrict_self_with_no_new_privs :: "kernel \<Rightarrow> int \<Rightarrow> u32 \<Rightarrow> int io" where
  "landlock_restrict_self_with_no_new_privs K ruleset_fd flags =
     (if flags \<noteq> 0 then fail_with EINVAL
      else do {
        rc \<leftarrow> landlockd_set_no_new_privs K;
        if rc < 0 then State_Monad.return (-1)
        else landlock_restrict_self K ruleset_fd flags })"

definition landlockd_apply_sandbox :: "kernel \<Rightarrow> int \<Rightarrow> u32 \<Rightarrow> int io" where
  "landlockd_apply_sandbox K ruleset_fd flags =
     (if ruleset_fd < 0 then fail_with EBADF
      else landlock_restrict_self_with_no_new_privs K ruleset_fd flags)"

definition landlockd_apply_sandbox_with_seccomp ::
    "kernel \<Rightarrow> int \<Rightarrow> seccomp_plan option \<Rightarrow> int option \<Rightarrow> (int \<times> int option) io" where
  "landlockd_apply_sandbox_with_seccomp K ruleset_fd plan listener_fd_out =
     (if ruleset_fd < 0
      then do { rc \<leftarrow> fail_with EBADF; State_Monad.return (rc, listener_fd_out) }
      else let listener = map_option (\<lambda>_. -1) listener_fd_out;
               notify = (case plan of None \<Rightarrow> False | Some p \<Rightarrow> plan_count p > 0) in
      if notify \<and> listener_fd_out = None
      then do { rc \<leftarrow> fail_with EINVAL; State_Monad.return (rc, listener) }
      else do {
        nnp \<leftarrow> landlockd_set_no_new_privs K;
        if nnp < 0 then State_Monad.return (-1, listener)
        else do {
          fd \<leftarrow> (if notify then seccomp_install K plan else State_Monad.return (-1));
          if notify \<and> fd < 0 then State_Monad.return (-1, listener)
          else let listener = (if notify then map_option (\<lambda>_. fd) listener else listener) in do {
            rc \<leftarrow> landlockd_apply_sandbox K ruleset_fd 0;
            if rc < 0 \<and> fd \<ge> 0 then do {
              saved_errno \<leftarrow> get_errno;
              _ \<leftarrow> sys K (Close fd);
              set_errno saved_errno;
              State_Monad.return (rc, map_option (\<lambda>_. -1) listener) }
            else State_Monad.return (rc, listener) } } })"

subsection \<open>Preflight probes\<close>

record preflight_report =
  abi_version :: int
  required_abi_floor :: int
  meets_abi_floor :: bool
  stacking_supported :: bool
  probe_errno :: int
  seccomp_user_notif_supported :: bool
  seccomp_probe_errno :: int

definition preflight_zero :: preflight_report where
  "preflight_zero = \<lparr>abi_version = 0, required_abi_floor = 0, meets_abi_floor = False,
     stacking_supported = False, probe_errno = 0, seccomp_user_notif_supported = False,
     seccomp_probe_errno = 0\<rparr>"

definition PREFLIGHT_STACKING_MIN_ABI :: int where
  "PREFLIGHT_STACKING_MIN_ABI = 1"

definition landlockd_preflight_run ::
    "kernel \<Rightarrow> int \<Rightarrow> preflight_report option \<Rightarrow> (int \<times> preflight_report option) io" where
  "landlockd_preflight_run K floor out =
     (if out = None \<or> floor < 0
      then do { rc \<leftarrow> fail_with EINVAL; State_Monad.return (rc, out) }
      else do {
        saved_errno \<leftarrow> get_errno;
        let report = preflight_zero\<lparr>required_abi_floor := floor\<rparr>;
        set_errno 0;
        p \<leftarrow> landlock_probe_abi K (Some 0);
        perr \<leftarrow> get_errno;
        if fst p < 0 then
          (if perr = ENOSYS \<or> perr = EOPNOTSUPP then do {
             set_errno saved_errno;
             State_Monad.return (0, Some (report\<lparr>probe_errno := perr\<rparr>)) }
           else do { rc \<leftarrow> fail_with perr; State_Monad.return (rc, Some report) })
        else let abi = the (snd p) in do {
          set_errno saved_errno;
          State_Monad.return (0, Some (report\<lparr>abi_version := abi,
             meets_abi_floor := (abi \<ge> floor),
             stacking_supported := (abi \<ge> PREFLIGHT_STACKING_MIN_ABI)\<rparr>)) } })"

definition landlockd_preflight_probe_seccomp_user_notif ::
    "kernel \<Rightarrow> preflight_report option \<Rightarrow> (int \<times> preflight_report option) io" where
  "landlockd_preflight_probe_seccomp_user_notif K out = (case out of
     None \<Rightarrow> do { rc \<leftarrow> fail_with EINVAL; State_Monad.return (rc, None) }
   | Some rep \<Rightarrow> do {
       saved_errno \<leftarrow> get_errno;
       let report = rep\<lparr>seccomp_user_notif_supported := False, seccomp_probe_errno := 0\<rparr>;
       set_errno 0;
       rc \<leftarrow> sys K (SeccompGetActionAvail SECCOMP_RET_USER_NOTIF);
       if rc < 0 then do {
         perr \<leftarrow> get_errno;
         if perr = ENOSYS \<or> perr = EOPNOTSUPP \<or> perr = EINVAL then do {
           set_errno saved_errno;
           State_Monad.return (0, Some (report\<lparr>seccomp_probe_errno := perr\<rparr>)) }
         else do { rc \<leftarrow> fail_with perr; State_Monad.return (rc, Some report) } }
       else do {
         set_errno saved_errno;
         State_Monad.return (0, Some (report\<lparr>seccomp_user_notif_supported := True\<rparr>)) } })"

definition landlockd_seccomp_probe_user_notif :: "kernel \<Rightarrow> int io" where
  "landlockd_seccomp_probe_user_notif K = do {
     saved_errno \<leftarrow> get_errno;
     rc \<leftarrow> sys K SeccompGetNotifSizes;
     if rc < 0 then do {
       e \<leftarrow> get_errno;
       if e = EINVAL then do { set_errno ENOSYS; State_Monad.return (-1) }
       else State_Monad.return (-1) }
     else do { set_errno saved_errno; State_Monad.return 0 } }"

text \<open>The three 16-bit sizes the kernel writes into \<open>struct seccomp_notif_sizes\<close>.\<close>

record notif_sizes =
  seccomp_notif :: nat
  seccomp_notif_resp :: nat
  seccomp_data_size :: nat

definition notif_sizes_of :: "string \<Rightarrow> notif_sizes" where
  "notif_sizes_of d = (let b = take 6 (d @ replicate 6 NUL) in
     \<lparr>seccomp_notif = le_val (take 2 b), seccomp_notif_resp = le_val (take 2 (drop 2 b)),
      seccomp_data_size = le_val (take 2 (drop 4 b))\<rparr>)"

definition landlockd_seccomp_probe_notif_sizes ::
    "kernel \<Rightarrow> notif_sizes option \<Rightarrow> (int \<times> notif_sizes option) io" where
  "landlockd_seccomp_probe_notif_sizes K out =
     (if out = None then do { rc \<leftarrow> fail_with EINVAL; State_Monad.return (rc, None) }
      else do {
        saved_errno \<leftarrow> get_errno;
        r \<leftarrow> sysd K SeccompGetNotifSizes;
        if fst r < 0 then State_Monad.return (-1, out)
        else do { set_errno saved_errno;
                  State_Monad.return (0, Some (notif_sizes_of (snd r))) } })"

subsection \<open>Weakest preconditions of the layer\<close>

lemma wp_let [io_wp]: "wp (let x = t in f x) Q w = wp (f t) Q w"
  by simp

text \<open>A call that saves errno, makes one system call and restores errno on success.\<close>

definition plain_call :: "kernel \<Rightarrow> sysevent \<Rightarrow> (int \<Rightarrow> int) \<Rightarrow> (int \<Rightarrow> world \<Rightarrow> bool) \<Rightarrow> world \<Rightarrow> bool" where
  "plain_call K e f Q w = (case K (w_trace w) e of
       Done n d \<Rightarrow> Q (f (int n)) (w\<lparr>w_trace := w_trace w @ [(e, Done n d)]\<rparr>)
     | Fail er \<Rightarrow> Q (-1) (w\<lparr>w_trace := w_trace w @ [(e, Fail er)], w_errno := er\<rparr>))"

lemma wp_create_ruleset [io_wp]:
  "wp (landlock_create_ruleset K attr sz flags) Q w =
    (if flags AND LANDLOCK_CREATE_RULESET_VERSION \<noteq> 0 then Q (-1) (w\<lparr>w_errno := EINVAL\<rparr>)
     else plain_call K (LandlockCreateRuleset attr sz flags) id Q w)"
  by (simp add: landlock_create_ruleset_def plain_call_def io_wp split: reply.splits)

lemma wp_create_ruleset_for_abi [io_wp]:
  "wp (landlock_create_ruleset_for_abi K abi attr flags) Q w =
    (if abi \<le> 0 then Q (-1) (w\<lparr>w_errno := ENOSYS\<rparr>)
     else if flags AND LANDLOCK_CREATE_RULESET_VERSION \<noteq> 0 then Q (-1) (w\<lparr>w_errno := EINVAL\<rparr>)
     else plain_call K (LandlockCreateRuleset attr (attr_size_for_abi abi) flags) id Q w)"
  by (simp add: landlock_create_ruleset_for_abi_def plain_call_def io_wp split: reply.splits)

lemma wp_add_rule [io_wp]:
  "wp (landlock_add_rule K fd ty (Some a) flags) Q w =
    (if fd < 0 then Q (-1) (w\<lparr>w_errno := EBADF\<rparr>)
     else if ty = LANDLOCK_RULE_NET_PORT \<and> allowed_access a = 0 then Q (-1) (w\<lparr>w_errno := EINVAL\<rparr>)
     else plain_call K (LandlockAddRule fd ty a flags) (\<lambda>_. 0) Q w)"
  by (simp add: landlock_add_rule_def plain_call_def io_wp split: reply.splits)

lemma wp_add_fs_rule [io_wp]:
  "wp (landlock_add_fs_rule K fd (Some (acc, pfd)) flags) Q w =
    (if fd < 0 \<or> pfd < 0 then Q (-1) (w\<lparr>w_errno := EBADF\<rparr>)
     else if acc = 0 then Q (-1) (w\<lparr>w_errno := EINVAL\<rparr>)
     else plain_call K (LandlockAddRule fd LANDLOCK_RULE_PATH_BENEATH (PathBeneath acc pfd) flags)
            (\<lambda>_. 0) Q w)"
  by (simp add: landlock_add_fs_rule_def LANDLOCK_RULE_PATH_BENEATH_def LANDLOCK_RULE_NET_PORT_def io_wp)

lemma wp_add_net_rule [io_wp]:
  "wp (landlock_add_net_rule K fd (Some (acc, port)) flags) Q w =
    (if fd < 0 then Q (-1) (w\<lparr>w_errno := EBADF\<rparr>)
     else if acc = 0 then Q (-1) (w\<lparr>w_errno := EINVAL\<rparr>)
     else plain_call K (LandlockAddRule fd LANDLOCK_RULE_NET_PORT (NetPort acc port) flags)
            (\<lambda>_. 0) Q w)"
  by (simp add: landlock_add_net_rule_def io_wp)

lemma wp_e2big_warned [io_wp]: "wp e2big_warned Q w = Q (w_e2big_warned w) w"
  by (simp add: wp_def e2big_warned_def)

lemma wp_set_e2big_warned [io_wp]: "wp set_e2big_warned Q w = Q () (w\<lparr>w_e2big_warned := True\<rparr>)"
  by (simp add: wp_def set_e2big_warned_def)

definition abi_probe :: sysevent where
  "abi_probe = LandlockCreateRuleset None 0 LANDLOCK_CREATE_RULESET_VERSION"

text \<open>The ABI level the kernel reports: 0 when it has no Landlock, -1 on another error.\<close>

definition reported_abi :: "reply \<Rightarrow> int" where
  "reported_abi r = (case r of Done n d \<Rightarrow> int n
     | Fail e \<Rightarrow> if e = ENOSYS \<or> e = EOPNOTSUPP then 0 else -1)"

lemma wp_probe_abi [io_wp]:
  "wp (landlock_probe_abi K (Some v)) Q w = (case K (w_trace w) abi_probe of
      Done n d \<Rightarrow> Q (0, Some (int n)) (w\<lparr>w_trace := w_trace w @ [(abi_probe, Done n d)]\<rparr>)
    | Fail e \<Rightarrow> Q (-1, Some v) (w\<lparr>w_trace := w_trace w @ [(abi_probe, Fail e)], w_errno := e\<rparr>))"
  by (simp add: landlock_probe_abi_def abi_probe_def io_wp split: reply.splits)

lemma wp_abi_version [io_wp]:
  "wp (landlock_abi_version K) Q w = (let r = K (w_trace w) abi_probe in
     Q (reported_abi r) (w\<lparr>w_trace := w_trace w @ [(abi_probe, r)],
        w_errno := (case r of Done n d \<Rightarrow> w_errno w | Fail e \<Rightarrow> e)\<rparr>))"
  by (simp add: landlock_abi_version_def reported_abi_def io_wp Let_def split: reply.splits)

lemma fd_delta_simps [simp]:
  "fd_delta (Prctl a b, r) x = 0"
  "fd_delta (LandlockRestrictSelf fd fl, r) x = 0"
  "fd_delta (LandlockAddRule fd ty ra fl, r) x = 0"
  "fd_delta (abi_probe, r) x = 0"
  "fd_delta (Malloc n, r) x = 0"
  "fd_delta (Stderr m, r) x = 0"
  "fd_delta (e, Fail er) x = (case e of Close fd \<Rightarrow> if x = fd then -1 else 0 | _ \<Rightarrow> 0)"
  by (cases r; simp add: abi_probe_def LANDLOCK_CREATE_RULESET_VERSION_def split: sysevent.split)+

definition restrict_failed :: "kernel \<Rightarrow> int \<Rightarrow> int \<Rightarrow> world \<Rightarrow> world" where
  "restrict_failed K fd er w =
     (let w1 = w\<lparr>w_trace := w_trace w @ [(LandlockRestrictSelf fd 0, Fail er)], w_errno := er\<rparr> in
      if er = E2BIG \<and> \<not> w_e2big_warned w
      then w1\<lparr>w_trace := w_trace w1 @ [(Stderr e2big_message, K (w_trace w1) (Stderr e2big_message))],
             w_e2big_warned := True\<rparr>
      else w1)"

lemma wp_restrict_self [io_wp]:
  "wp (landlock_restrict_self K fd flags) Q w =
    (if flags \<noteq> 0 then Q (-1) (w\<lparr>w_errno := EINVAL\<rparr>)
     else case K (w_trace w) (LandlockRestrictSelf fd 0) of
       Done n d \<Rightarrow> Q 0 (w\<lparr>w_trace := w_trace w @ [(LandlockRestrictSelf fd 0, Done n d)]\<rparr>)
     | Fail er \<Rightarrow> Q (-1) (restrict_failed K fd er w))"
  by (auto simp: landlock_restrict_self_def restrict_failed_def io_wp Let_def split: reply.splits)

lemma restrict_failed_facts [simp]:
  "w_errno (restrict_failed K fd er w) = er"
  "balance (w_trace (restrict_failed K fd er w)) x = balance (w_trace w) x"
  by (auto simp: restrict_failed_def Let_def)

subsection \<open>Properties\<close>

text \<open>The file-system access mask of an ABI level is the low 13, 14, 15 or 16 bits, so it
  grows with the level, and no right outside the sixteen known ones is ever handled.\<close>

theorem fs_mask_levels:
  "fs_access_mask_for_abi abi =
     mask (if abi < 2 then 13 else if abi < 3 then 14 else if abi < 5 then 15 else 16)"
  unfolding fs_access_mask_for_abi_def access_bits by (simp add: mask_eq_exp_minus_1)

text \<open>Creating a file-system ruleset asks the kernel for exactly the requested rights that
  the running ABI knows, with the 8-byte attribute; on success it reports those rights and
  leaves errno alone; it fails with ENOSYS without Landlock and EINVAL when no requested right is
  known, and a failure changes neither the caller's variable nor the open descriptors.\<close>

theorem create_fs_ruleset_spec:
  "wp (landlock_create_fs_ruleset K req (Some g))
    (\<lambda>(rc, out) w'.
      let r = K (w_trace w) abi_probe; abi = reported_abi r;
          eff = req AND fs_access_mask_for_abi abi;
          create = LandlockCreateRuleset
            (Some \<lparr>handled_access_fs = eff, handled_access_net = 0, scoped = 0\<rparr>) 8 0;
          r2 = K (w_trace w @ [(abi_probe, r)]) create in
      if rc < 0
      then rc = -1 \<and> out = Some g \<and> balance (w_trace w') x = balance (w_trace w) x \<and>
           (if abi = 0 then w_errno w' = ENOSYS
            else if abi < 0 then r = Fail (w_errno w')
            else if eff = 0 then w_errno w' = EINVAL
            else r2 = Fail (w_errno w'))
      else 0 < abi \<and> eff \<noteq> 0 \<and> out = Some eff \<and> (\<exists>d. r2 = Done (nat rc) d) \<and>
           w_errno w' = w_errno w \<and> w_trace w' = w_trace w @ [(abi_probe, r), (create, r2)]) w"
  by (simp add: landlock_create_fs_ruleset_def io_wp plain_call_def RULESET_ATTR_FS_SIZE_def Let_def
      split: reply.splits) (auto simp: reported_abi_def split: reply.splits if_splits)

text \<open>The same for a network ruleset: two TCP rights from ABI 4 on with the 16-byte
  attribute, EOPNOTSUPP before.\<close>

theorem create_net_ruleset_spec:
  "wp (landlock_create_net_ruleset K req (Some g))
    (\<lambda>(rc, out) w'.
      let r = K (w_trace w) abi_probe; abi = reported_abi r; eff = req AND 3;
          create = LandlockCreateRuleset
            (Some \<lparr>handled_access_fs = 0, handled_access_net = eff, scoped = 0\<rparr>) 16 0;
          r2 = K (w_trace w @ [(abi_probe, r)]) create in
      if rc < 0
      then rc = -1 \<and> out = Some g \<and> balance (w_trace w') x = balance (w_trace w) x \<and>
           (if abi = 0 then w_errno w' = ENOSYS
            else if abi < 0 then r = Fail (w_errno w')
            else if abi < 4 then w_errno w' = EOPNOTSUPP
            else if eff = 0 then w_errno w' = EINVAL
            else r2 = Fail (w_errno w'))
      else 4 \<le> abi \<and> eff \<noteq> 0 \<and> out = Some eff \<and> (\<exists>d. r2 = Done (nat rc) d) \<and>
           w_errno w' = w_errno w \<and> w_trace w' = w_trace w @ [(abi_probe, r), (create, r2)]) w"
proof -
  have m: "net_access_mask_for_abi abi = (if abi \<ge> 4 then 3 else 0)" for abi
    by (simp add: net_access_mask_for_abi_def access_bits)
  show ?thesis
    by (simp add: landlock_create_net_ruleset_def io_wp plain_call_def RULESET_ATTR_NET_SIZE_def m Let_def
        split: reply.splits) (auto simp: reported_abi_def split: reply.splits if_splits)
qed

text \<open>A process enters the sandbox only after no_new_privs: on success the history grows by a
  successful no_new_privs call followed by a successful restrict_self on the given ruleset and
  errno is unchanged; otherwise -1 is returned and no restriction has taken effect.\<close>

theorem apply_sandbox_order:
  "wp (landlockd_apply_sandbox K fd flags)
    (\<lambda>rc w'. (\<exists>es. w_trace w' = w_trace w @ es \<and>
      (if rc = 0
       then 0 \<le> fd \<and> flags = 0 \<and> w_errno w' = w_errno w \<and>
         (\<exists>n d m d'. es = [(Prctl PR_SET_NO_NEW_PRIVS 1, Done n d), (LandlockRestrictSelf fd 0, Done m d')])
       else rc = -1 \<and> (\<nexists>g f m d'. (LandlockRestrictSelf g f, Done m d') \<in> set es)))) w"
  by (auto simp: landlockd_apply_sandbox_def landlock_restrict_self_with_no_new_privs_def
      restrict_failed_def io_wp Let_def split: reply.splits)

text \<open>The variant that requires no_new_privs never sets it and never restricts a process
  that does not already have it.\<close>

theorem require_nnp_guard:
  "wp (landlockd_restrict_self_require_nnp K fd flags)
    (\<lambda>rc w'. (\<exists>es. w_trace w' = w_trace w @ es \<and>
       (\<forall>v r. (Prctl PR_SET_NO_NEW_PRIVS v, r) \<notin> set es) \<and>
       (if \<exists>g f r. (LandlockRestrictSelf g f, r) \<in> set es
        then \<exists>n d. 0 < n \<and> hd es = (Prctl PR_GET_NO_NEW_PRIVS 0, Done n d)
        else rc = -1))) w"
  by (auto simp: landlockd_restrict_self_require_nnp_def restrict_failed_def io_wp Let_def
      split: reply.splits)


end
