(* ===== verification/Policy_Loader.thy ===== *)
theory Policy_Loader
  imports Policy_Wire Landlock
begin

text \<open>
  \<open>src/src/landlock_policy_loader_in_process.c\<close>: from a parsed TOML document to the policy IR. The
  document is the tree \<open>tomlc99\<close> hands out: a table keeps its plain values, its arrays and its
  sub-tables in three separate lists, and each accessor looks into one of them. The parser (theories \<open>Toml_*\<close>)
  is a parameter here. A value is represented by what the conversions \<open>toml_rtos\<close>,
  \<open>toml_rtoi\<close> and \<open>toml_rtob\<close> make of it. Functions that only report a diagnostic and return -1
  without touching errno fail with \<open>Stale\<close>; the text of diagnostics is not modelled.
\<close>

subsection \<open>TOML documents\<close>

datatype toml_raw = RString string | RInt int | RBool bool | ROther

datatype toml_item = IVal toml_raw | IArr "toml_item list" | ITab toml_table
     and toml_table = Table (kval: "(string \<times> toml_raw) list")
       (arr: "(string \<times> toml_item list) list") (tab: "(string \<times> toml_table) list")

definition table_keys :: "toml_table \<Rightarrow> string list" where
  "table_keys t = map fst (kval t) @ map fst (arr t) @ map fst (tab t)"

definition key_exists :: "toml_table \<Rightarrow> string \<Rightarrow> bool" where
  "key_exists t k \<longleftrightarrow> k \<in> set (table_keys t)"

definition string_in :: "toml_table \<Rightarrow> string \<Rightarrow> string option" where
  "string_in t k = (case map_of (kval t) k of Some (RString s) \<Rightarrow> Some (cstr s) | _ \<Rightarrow> None)"

definition int_in :: "toml_table \<Rightarrow> string \<Rightarrow> int option" where
  "int_in t k = (case map_of (kval t) k of Some (RInt n) \<Rightarrow> Some n | _ \<Rightarrow> None)"

definition bool_in :: "toml_table \<Rightarrow> string \<Rightarrow> bool option" where
  "bool_in t k = (case map_of (kval t) k of Some (RBool b) \<Rightarrow> Some b | _ \<Rightarrow> None)"

definition array_in :: "toml_table \<Rightarrow> string \<Rightarrow> toml_item list option" where
  "array_in t k = map_of (arr t) k"

definition table_in :: "toml_table \<Rightarrow> string \<Rightarrow> toml_table option" where
  "table_in t k = map_of (tab t) k"

fun string_at :: "toml_item \<Rightarrow> string option" where
  "string_at (IVal (RString s)) = Some (cstr s)"
| "string_at _ = None"

fun table_at :: "toml_item \<Rightarrow> toml_table option" where
  "table_at (ITab t) = Some t"
| "table_at _ = None"

subsection \<open>Name tables\<close>

definition FS_ACCESS_NAMES :: "(string \<times> u64) list" where
  "FS_ACCESS_NAMES = [
    (''execute'', LANDLOCK_ACCESS_FS_EXECUTE), (''write_file'', LANDLOCK_ACCESS_FS_WRITE_FILE),
    (''read_file'', LANDLOCK_ACCESS_FS_READ_FILE), (''read_dir'', LANDLOCK_ACCESS_FS_READ_DIR),
    (''remove_dir'', LANDLOCK_ACCESS_FS_REMOVE_DIR), (''remove_file'', LANDLOCK_ACCESS_FS_REMOVE_FILE),
    (''make_char'', LANDLOCK_ACCESS_FS_MAKE_CHAR), (''make_dir'', LANDLOCK_ACCESS_FS_MAKE_DIR),
    (''make_reg'', LANDLOCK_ACCESS_FS_MAKE_REG), (''make_sock'', LANDLOCK_ACCESS_FS_MAKE_SOCK),
    (''make_fifo'', LANDLOCK_ACCESS_FS_MAKE_FIFO), (''make_block'', LANDLOCK_ACCESS_FS_MAKE_BLOCK),
    (''make_sym'', LANDLOCK_ACCESS_FS_MAKE_SYM), (''refer'', LANDLOCK_ACCESS_FS_REFER),
    (''truncate'', LANDLOCK_ACCESS_FS_TRUNCATE), (''ioctl_dev'', LANDLOCK_ACCESS_FS_IOCTL_DEV)]"

definition NET_ACCESS_NAMES :: "(string \<times> u64) list" where
  "NET_ACCESS_NAMES = [(''bind_tcp'', LANDLOCK_ACCESS_NET_BIND_TCP),
     (''connect_tcp'', LANDLOCK_ACCESS_NET_CONNECT_TCP)]"

text \<open>\<open>MOUNT_ATTR_RDONLY\<close>, \<open>NOSUID\<close>, \<open>NODEV\<close> and \<open>NOEXEC\<close> of \<open>linux/mount.h\<close>.\<close>

definition MOUNT_ATTR_NAMES :: "(string \<times> u64) list" where
  "MOUNT_ATTR_NAMES = [(''readonly'', 1), (''nosuid'', 2), (''nodev'', 4), (''noexec'', 8)]"

definition BROKER_ADDFD_ACTION_NAMES :: "string list" where
  "BROKER_ADDFD_ACTION_NAMES = [''open'', ''open_tree'', ''scratch_open'', ''fsopen'', ''fsmount'']"

definition resolve_access :: "(string \<times> u64) list \<Rightarrow> string \<Rightarrow> u64 option" where
  "resolve_access table name = map_of table name"

definition is_broker_addfd_action :: "string \<Rightarrow> bool" where
  "is_broker_addfd_action name \<longleftrightarrow> name \<in> set BROKER_ADDFD_ACTION_NAMES"

definition table_has_only_keys :: "toml_table \<Rightarrow> string list \<Rightarrow> bool" where
  "table_has_only_keys t allowed = list_all (\<lambda>k. k \<in> set allowed) (table_keys t)"

subsection \<open>Loading\<close>

abbreviation (input) reject :: "'a am" where
  "reject \<equiv> failM Stale"

abbreviation (input) require :: "bool \<Rightarrow> unit am" where
  "require b \<equiv> guardM b Stale"

definition load_access_array :: "toml_item list option \<Rightarrow> (string \<times> u64) list \<Rightarrow> u64 am" where
  "load_access_array items table = (case items of None \<Rightarrow> reject
     | Some items \<Rightarrow> bindM (require (items \<noteq> [])) (\<lambda>_.
         foldM (\<lambda>it acc. case string_at it of None \<Rightarrow> reject
           | Some s \<Rightarrow> (case resolve_access table s of None \<Rightarrow> reject
               | Some b \<Rightarrow> returnM (acc OR b))) items 0))"

definition load_fs_rule :: "toml_table \<Rightarrow> nat \<Rightarrow> ir \<Rightarrow> ir am" where
  "load_fs_rule rule_tbl layer_idx i =
     bindM (require (table_has_only_keys rule_tbl [''path'', ''allowed_access''])) (\<lambda>_.
     bindM (require (nonempty (string_in rule_tbl ''path''))) (\<lambda>_.
     bindM (load_access_array (array_in rule_tbl ''allowed_access'') FS_ACCESS_NAMES) (\<lambda>access_mask.
     add_fs_rule layer_idx (string_in rule_tbl ''path'') access_mask i)))"

text \<open>A loop over the tables of an array.\<close>

definition each_table :: "(toml_table \<Rightarrow> ir \<Rightarrow> ir am) \<Rightarrow> toml_item list \<Rightarrow> ir \<Rightarrow> ir am" where
  "each_table f items = foldM (\<lambda>it i. case table_at it of None \<Rightarrow> reject | Some t \<Rightarrow> f t i) items"

definition load_fs_layer :: "toml_table \<Rightarrow> ir \<Rightarrow> ir am" where
  "load_fs_layer layer_tbl i =
     bindM (require (table_has_only_keys layer_tbl [''handled_access_fs'', ''rule''])) (\<lambda>_.
     bindM (load_access_array (array_in layer_tbl ''handled_access_fs'') FS_ACCESS_NAMES) (\<lambda>handled_mask.
     bindM (add_fs_layer handled_mask i) (\<lambda>(i, emitted_idx).
     (case array_in layer_tbl ''rule'' of None \<Rightarrow> returnM i
      | Some rule_arr \<Rightarrow> each_table (\<lambda>t. load_fs_rule t emitted_idx) rule_arr i))))"

definition load_net_rule :: "toml_table \<Rightarrow> ir \<Rightarrow> ir am" where
  "load_net_rule rule_tbl i =
     bindM (require (table_has_only_keys rule_tbl [''port'', ''allowed_access''])) (\<lambda>_.
     case int_in rule_tbl ''port'' of None \<Rightarrow> reject
     | Some p \<Rightarrow>
       bindM (require (\<not> (p < 0 \<or> p > 65535))) (\<lambda>_.
       bindM (load_access_array (array_in rule_tbl ''allowed_access'') NET_ACCESS_NAMES) (\<lambda>access_mask.
       add_net_rule (word_of_int p) access_mask i)))"

definition load_net :: "toml_table \<Rightarrow> ir \<Rightarrow> ir am" where
  "load_net net_tbl i =
     bindM (require (table_has_only_keys net_tbl [''handled_access_net'', ''rule''])) (\<lambda>_.
     bindM (load_access_array (array_in net_tbl ''handled_access_net'') NET_ACCESS_NAMES) (\<lambda>handled_mask.
     bindM (enable_net handled_mask i) (\<lambda>i.
     (case array_in net_tbl ''rule'' of None \<Rightarrow> returnM i
      | Some rule_arr \<Rightarrow> each_table load_net_rule rule_arr i))))"

definition absolute :: "string option \<Rightarrow> bool" where
  "absolute s = (case s of Some (c # cs) \<Rightarrow> c = CHR ''/'' | _ \<Rightarrow> False)"

definition load_addfd_entry :: "toml_table \<Rightarrow> ir \<Rightarrow> ir am" where
  "load_addfd_entry entry i =
     bindM (require (table_has_only_keys entry [''action'', ''target'', ''mode''])) (\<lambda>_.
     let action_d = string_in entry ''action''; target_d = string_in entry ''target'';
         mode_d = string_in entry ''mode'' in
     bindM (require (nonempty action_d)) (\<lambda>_.
     bindM (require (is_broker_addfd_action (the action_d))) (\<lambda>_.
     bindM (require (nonempty target_d)) (\<lambda>_.
     bindM (require (absolute target_d)) (\<lambda>_.
     bindM (require (\<not> (key_exists entry ''mode'' \<and> \<not> nonempty mode_d))) (\<lambda>_.
     bindM (require (\<not> (mode_d \<noteq> None \<and> mode_d \<noteq> Some ''read'' \<and> mode_d \<noteq> Some ''write''))) (\<lambda>_.
     add_broker_addfd_rule action_d target_d mode_d i)))))))"

definition load_broker_addfd_array :: "toml_item list option \<Rightarrow> ir \<Rightarrow> ir am" where
  "load_broker_addfd_array items i = (case items of None \<Rightarrow> returnM i
     | Some items \<Rightarrow> bindM (require (items \<noteq> [])) (\<lambda>_. each_table load_addfd_entry items i))"

definition load_broker_path_array ::
    "toml_item list option \<Rightarrow> bool \<Rightarrow> (string option \<Rightarrow> ir \<Rightarrow> ir am) \<Rightarrow> ir \<Rightarrow> ir am" where
  "load_broker_path_array items must_abs append_rule i = (case items of None \<Rightarrow> returnM i
     | Some items \<Rightarrow> foldM (\<lambda>it i.
         bindM (require (nonempty (string_at it))) (\<lambda>_.
         bindM (require (\<not> (must_abs \<and> \<not> absolute (string_at it)))) (\<lambda>_.
         append_rule (string_at it) i))) items i)"

definition load_bind_entry ::
    "(string option \<Rightarrow> string option \<Rightarrow> bool \<Rightarrow> ir \<Rightarrow> ir am) \<Rightarrow> toml_table \<Rightarrow> ir \<Rightarrow> ir am" where
  "load_bind_entry append_rule bind_tbl i =
     bindM (require (table_has_only_keys bind_tbl [''source'', ''target'', ''read_only''])) (\<lambda>_.
     let source_d = string_in bind_tbl ''source''; target_d = string_in bind_tbl ''target'';
         ro_d = bool_in bind_tbl ''read_only'' in
     bindM (require (nonempty source_d)) (\<lambda>_. bindM (require (absolute source_d)) (\<lambda>_.
     bindM (require (nonempty target_d)) (\<lambda>_. bindM (require (absolute target_d)) (\<lambda>_.
     bindM (require (\<not> (key_exists bind_tbl ''read_only'' \<and> ro_d = None))) (\<lambda>_.
     append_rule source_d target_d (case ro_d of Some b \<Rightarrow> b | None \<Rightarrow> True) i))))))"

definition load_bind_rule_array :: "toml_item list option \<Rightarrow>
    (string option \<Rightarrow> string option \<Rightarrow> bool \<Rightarrow> ir \<Rightarrow> ir am) \<Rightarrow> ir \<Rightarrow> ir am" where
  "load_bind_rule_array items append_rule i = (case items of None \<Rightarrow> returnM i
     | Some items \<Rightarrow> bindM (require (items \<noteq> [])) (\<lambda>_.
         each_table (load_bind_entry append_rule) items i))"

definition load_attach :: "toml_item list \<Rightarrow> string option list am" where
  "load_attach items = foldM (\<lambda>it acc.
     bindM (require (nonempty (string_at it))) (\<lambda>_.
     bindM (require (absolute (string_at it))) (\<lambda>_. returnM (acc @ [string_at it])))) items []"

definition load_object_entry :: "toml_table \<Rightarrow> ir \<Rightarrow> ir am" where
  "load_object_entry obj_tbl i =
     bindM (require (table_has_only_keys obj_tbl [''name'', ''fs_type'', ''attach'', ''attrs''])) (\<lambda>_.
     let name_d = string_in obj_tbl ''name''; fs_type_d = string_in obj_tbl ''fs_type'' in
     bindM (require (nonempty name_d)) (\<lambda>_.
     bindM (require (CHR ''/'' \<notin> set (the name_d))) (\<lambda>_.
     bindM (require (nonempty fs_type_d)) (\<lambda>_.
     bindM (require (\<not> (fs_type_d \<noteq> Some ''tmpfs'' \<and> fs_type_d \<noteq> Some ''proc''))) (\<lambda>_.
     case array_in obj_tbl ''attach'' of None \<Rightarrow> reject
     | Some attach_arr \<Rightarrow>
       bindM (require (attach_arr \<noteq> [])) (\<lambda>_.
       bindM allocM (\<lambda>_.
       bindM (load_attach attach_arr) (\<lambda>attach_paths.
       bindM (case array_in obj_tbl ''attrs'' of None \<Rightarrow> returnM 0
              | Some a \<Rightarrow> load_access_array (Some a) MOUNT_ATTR_NAMES) (\<lambda>allowed_attr_set.
       add_broker_mount_object_rule name_d fs_type_d (Some attach_paths) allowed_attr_set i)))))))))"

definition load_mount_object_rule_array :: "toml_item list option \<Rightarrow> ir \<Rightarrow> ir am" where
  "load_mount_object_rule_array items i = (case items of None \<Rightarrow> returnM i
     | Some items \<Rightarrow> bindM (require (items \<noteq> [])) (\<lambda>_. each_table load_object_entry items i))"

definition load_broker :: "toml_table \<Rightarrow> ir \<Rightarrow> ir am" where
  "load_broker t i =
     bindM (require (table_has_only_keys t [''allow_read'', ''allow_write'', ''scratch'', ''export'',
       ''mount_tmpfs'', ''mount_bind'', ''mount_object'', ''addfd''])) (\<lambda>_.
     bindM (load_broker_path_array (array_in t ''allow_read'') False add_broker_open_read_rule i) (\<lambda>i.
     bindM (load_broker_path_array (array_in t ''allow_write'') False add_broker_open_write_rule i) (\<lambda>i.
     bindM (load_broker_path_array (array_in t ''scratch'') False add_broker_scratch_rule i) (\<lambda>i.
     bindM (load_broker_path_array (array_in t ''export'') False add_broker_export_rule i) (\<lambda>i.
     bindM (load_broker_path_array (array_in t ''mount_tmpfs'') False add_broker_mount_tmpfs_rule i) (\<lambda>i.
     bindM (load_broker_addfd_array (array_in t ''addfd'') i) (\<lambda>i.
     bindM (load_bind_rule_array (array_in t ''mount_bind'') add_broker_mount_bind_rule i) (\<lambda>i.
     load_mount_object_rule_array (array_in t ''mount_object'') i))))))))"

text \<open>The two path lists of \<open>[mount]\<close>: not empty, absolute.\<close>

definition load_mount_paths ::
    "toml_item list option \<Rightarrow> (string option \<Rightarrow> ir \<Rightarrow> ir am) \<Rightarrow> ir \<Rightarrow> ir am" where
  "load_mount_paths items append_rule i = (case items of None \<Rightarrow> returnM i
     | Some xs \<Rightarrow> bindM (require (xs \<noteq> [])) (\<lambda>_. load_broker_path_array (Some xs) True append_rule i))"

definition load_mount :: "toml_table \<Rightarrow> ir \<Rightarrow> ir am" where
  "load_mount t i =
     bindM (require (table_has_only_keys t [''tmpfs'', ''bind'', ''proc''])) (\<lambda>_.
     bindM (load_mount_paths (array_in t ''tmpfs'') add_mount_tmpfs_rule i) (\<lambda>i.
     bindM (load_bind_rule_array (array_in t ''bind'') add_mount_bind_rule i) (\<lambda>i.
     bindM (load_mount_paths (array_in t ''proc'') add_mount_proc_rule i) (\<lambda>i.
     bindM (require (array_in t ''tmpfs'' \<noteq> None \<or> array_in t ''bind'' \<noteq> None \<or>
       array_in t ''proc'' \<noteq> None)) (\<lambda>_. returnM i)))))"

definition load_runtime_path :: "string option \<Rightarrow> (string option \<Rightarrow> ir \<Rightarrow> ir am) \<Rightarrow> ir \<Rightarrow> ir am" where
  "load_runtime_path s store i = (case s of None \<Rightarrow> returnM i
     | Some p \<Rightarrow> bindM (require (p \<noteq> [])) (\<lambda>_. bindM (require (absolute (Some p))) (\<lambda>_. store (Some p) i)))"

definition load_runtime :: "toml_table \<Rightarrow> ir \<Rightarrow> ir am" where
  "load_runtime t i =
     bindM (require (table_has_only_keys t [''root'', ''cwd''])) (\<lambda>_.
     bindM (load_runtime_path (string_in t ''root'') set_runtime_root i) (\<lambda>i.
     bindM (load_runtime_path (string_in t ''cwd'') set_runtime_cwd i) (\<lambda>i.
     bindM (require (string_in t ''root'' \<noteq> None \<or> string_in t ''cwd'' \<noteq> None)) (\<lambda>_. returnM i))))"

definition load_seccomp :: "toml_table \<Rightarrow> ir \<Rightarrow> ir am" where
  "load_seccomp t i =
     bindM (require (table_has_only_keys t [''deny'', ''errno''])) (\<lambda>_.
     bindM (case int_in t ''errno'' of None \<Rightarrow> returnM 1
            | Some e \<Rightarrow> bindM (require (\<not> (e \<le> 0 \<or> e > 4095))) (\<lambda>_. returnM (word_of_int e))) (\<lambda>errno_ret.
     bindM (enable_seccomp errno_ret i) (\<lambda>i.
     case array_in t ''deny'' of None \<Rightarrow> reject
     | Some deny_arr \<Rightarrow> bindM (require (deny_arr \<noteq> [])) (\<lambda>_.
         foldM (\<lambda>it i.
           bindM (require (nonempty (string_at it))) (\<lambda>_.
           case syscall_by_name (string_at it) of Inl _ \<Rightarrow> reject
           | Inr nr \<Rightarrow> add_seccomp_deny_rule nr i)) deny_arr i))))"

definition with_table :: "toml_table option \<Rightarrow> (toml_table \<Rightarrow> ir \<Rightarrow> ir am) \<Rightarrow> ir \<Rightarrow> ir am" where
  "with_table t f i = (case t of None \<Rightarrow> returnM i | Some t \<Rightarrow> f t i)"

definition load_root :: "toml_table \<Rightarrow> ir \<Rightarrow> ir am" where
  "load_root root i =
     bindM (require (table_has_only_keys root [''version'', ''fs_layer'', ''net'', ''broker'',
       ''mount'', ''runtime'', ''seccomp''])) (\<lambda>_.
     bindM (require (int_in root ''version'' \<noteq> None)) (\<lambda>_.
     bindM (require (\<not> (the (int_in root ''version'') \<noteq> 1))) (\<lambda>_.
     bindM (case array_in root ''fs_layer'' of None \<Rightarrow> returnM i
            | Some fs_arr \<Rightarrow> each_table load_fs_layer fs_arr i) (\<lambda>i.
     bindM (with_table (table_in root ''net'') load_net i) (\<lambda>i.
     bindM (with_table (table_in root ''broker'') load_broker i) (\<lambda>i.
     bindM (with_table (table_in root ''mount'') load_mount i) (\<lambda>i.
     bindM (with_table (table_in root ''runtime'') load_runtime i) (\<lambda>i.
     with_table (table_in root ''seccomp'') load_seccomp i))))))))"

text \<open>
  Reading a policy file: \<open>parse\<close> is the TOML parser, applied to the contents of the opened
  stream. The result carries the caller's policy afterwards.
\<close>

definition load_file_in_process ::
    "kernel \<Rightarrow> (string \<Rightarrow> toml_table option) \<Rightarrow> string option \<Rightarrow> ir \<Rightarrow> (int \<times> ir) io" where
  "load_file_in_process K parse file_path out_ir =
     (if file_path = None then do { rc \<leftarrow> fail_with EINVAL; State_Monad.return (rc, out_ir) }
      else if \<not> copy_dst_empty out_ir then do { rc \<leftarrow> fail_with EINVAL; State_Monad.return (rc, out_ir) }
      else do {
        fp \<leftarrow> sysd K (Fopen (the file_path));
        if fst fp < 0 then do {
          saved_errno \<leftarrow> get_errno; set_errno saved_errno; State_Monad.return (-1, out_ir) }
        else do {
          _ \<leftarrow> sys K Fclose;
          case parse (snd fp) of
            None \<Rightarrow> do { rc \<leftarrow> fail_with EINVAL; State_Monad.return (rc, out_ir) }
          | Some root \<Rightarrow> do {
              r \<leftarrow> run_am (load_root root out_ir);
              case r of
                Some i \<Rightarrow> State_Monad.return (0, i)
              | None \<Rightarrow> do {
                  saved_errno \<leftarrow> get_errno;
                  set_errno (if saved_errno \<noteq> 0 then saved_errno else EINVAL);
                  State_Monad.return (-1, ir_reset out_ir) } } } })"

subsection \<open>What a document means\<close>

text \<open>The policy a document describes, by structural interpretation and without any checking.\<close>

definition items :: "toml_table \<Rightarrow> string \<Rightarrow> toml_item list" where
  "items t k = (case array_in t k of None \<Rightarrow> [] | Some xs \<Rightarrow> xs)"

definition access_mask :: "(string \<times> u64) list \<Rightarrow> toml_item list \<Rightarrow> u64" where
  "access_mask table xs = fold (\<lambda>it acc. acc OR the (map_of table (the (string_at it)))) xs 0"

definition strings :: "toml_table \<Rightarrow> string \<Rightarrow> string list" where
  "strings t k = map (the \<circ> string_at) (items t k)"

definition tables :: "toml_table \<Rightarrow> string \<Rightarrow> toml_table list" where
  "tables t k = map (the \<circ> table_at) (items t k)"

definition fs_rule_of :: "toml_table \<Rightarrow> fs_rule" where
  "fs_rule_of t = \<lparr>r_path = the (string_in t ''path''),
     r_allowed = access_mask FS_ACCESS_NAMES (items t ''allowed_access'')\<rparr>"

definition fs_layer_of :: "toml_table \<Rightarrow> fs_layer" where
  "fs_layer_of t = \<lparr>l_handled = access_mask FS_ACCESS_NAMES (items t ''handled_access_fs''),
     l_rules = map fs_rule_of (tables t ''rule'')\<rparr>"

definition net_rule_of :: "toml_table \<Rightarrow> net_rule" where
  "net_rule_of t = \<lparr>n_port = word_of_int (the (int_in t ''port'')),
     n_allowed = access_mask NET_ACCESS_NAMES (items t ''allowed_access'')\<rparr>"

definition addfd_of :: "toml_table \<Rightarrow> addfd_rule" where
  "addfd_of t = \<lparr>a_action = the (string_in t ''action''), a_target = the (string_in t ''target''),
     a_mode = string_in t ''mode''\<rparr>"

definition bind_of :: "toml_table \<Rightarrow> bind_rule" where
  "bind_of t = \<lparr>b_source = the (string_in t ''source''), b_target = the (string_in t ''target''),
     b_read_only = (case bool_in t ''read_only'' of None \<Rightarrow> True | Some b \<Rightarrow> b)\<rparr>"

definition object_of :: "toml_table \<Rightarrow> object_rule" where
  "object_of t = \<lparr>o_name = the (string_in t ''name''), o_fs_type = the (string_in t ''fs_type''),
     o_attach = strings t ''attach'', o_attrs = access_mask MOUNT_ATTR_NAMES (items t ''attrs'')\<rparr>"

definition net_of :: "toml_table \<Rightarrow> ir \<Rightarrow> ir" where
  "net_of t i = i\<lparr>net_enabled := True,
     net_handled := access_mask NET_ACCESS_NAMES (items t ''handled_access_net''),
     net_rules := net_rules i @ map net_rule_of (tables t ''rule'')\<rparr>"

definition broker_of :: "toml_table \<Rightarrow> ir \<Rightarrow> ir" where
  "broker_of t i = i\<lparr>
     broker_open_read := broker_open_read i @ strings t ''allow_read'',
     broker_open_write := broker_open_write i @ strings t ''allow_write'',
     broker_scratch := broker_scratch i @ strings t ''scratch'',
     broker_export := broker_export i @ strings t ''export'',
     broker_mount_tmpfs := broker_mount_tmpfs i @ strings t ''mount_tmpfs'',
     broker_mount_bind := broker_mount_bind i @ map bind_of (tables t ''mount_bind''),
     broker_mount_object := broker_mount_object i @ map object_of (tables t ''mount_object''),
     broker_addfd := broker_addfd i @ map addfd_of (tables t ''addfd'')\<rparr>"

definition mount_of :: "toml_table \<Rightarrow> ir \<Rightarrow> ir" where
  "mount_of t i = i\<lparr>mount_tmpfs := mount_tmpfs i @ strings t ''tmpfs'',
     mount_bind := mount_bind i @ map bind_of (tables t ''bind''),
     mount_proc := mount_proc i @ strings t ''proc''\<rparr>"

definition runtime_of :: "toml_table \<Rightarrow> ir \<Rightarrow> ir" where
  "runtime_of t i = i\<lparr>
     runtime_root := (case string_in t ''root'' of None \<Rightarrow> runtime_root i | Some p \<Rightarrow> Some p),
     runtime_cwd := (case string_in t ''cwd'' of None \<Rightarrow> runtime_cwd i | Some p \<Rightarrow> Some p)\<rparr>"

definition seccomp_of :: "toml_table \<Rightarrow> ir \<Rightarrow> ir" where
  "seccomp_of t i = i\<lparr>seccomp_enabled := True,
     seccomp_errno := (case int_in t ''errno'' of None \<Rightarrow> 1 | Some e \<Rightarrow> word_of_int e),
     seccomp_deny := seccomp_deny i @ map (\<lambda>s. the (map_of name_map s)) (strings t ''deny'')\<rparr>"

definition opt_part :: "('t \<Rightarrow> ir \<Rightarrow> ir) \<Rightarrow> 't option \<Rightarrow> ir \<Rightarrow> ir" where
  "opt_part f t i = (case t of None \<Rightarrow> i | Some t \<Rightarrow> f t i)"

definition policy_of :: "toml_table \<Rightarrow> ir" where
  "policy_of root =
     opt_part seccomp_of (table_in root ''seccomp'')
     (opt_part runtime_of (table_in root ''runtime'')
     (opt_part mount_of (table_in root ''mount'')
     (opt_part broker_of (table_in root ''broker'')
     (opt_part net_of (table_in root ''net'')
     (ir_init\<lparr>fs_layers := map fs_layer_of (tables root ''fs_layer'')\<rparr>)))))"

subsection \<open>The loader computes it\<close>

lemma ensures_foldM_eq:
  assumes "\<And>x s. ensures (f x s) (\<lambda>r. r = g x s)"
  shows "ensures (foldM f xs s) (\<lambda>r. r = fold g xs s)"
proof (induction xs arbitrary: s)
  case (Cons x xs)
  then show ?case
    using ensures_mono[OF assms[of x s]] by (simp add: ensures_bind)
qed (simp add: ensures_return)

lemma ensures_reject [am_rule]: "ensures reject Q"
  by (rule ensures_fail)

lemma load_access_array_mask:
  "ensures (load_access_array xs table) (\<lambda>m. m = access_mask table (case xs of None \<Rightarrow> [] | Some xs \<Rightarrow> xs))"
  unfolding load_access_array_def access_mask_def resolve_access_def
  by (cases xs) (auto intro!: am_rule ensures_foldM_eq split: option.splits)

lemma load_access_in:
  "ensures (load_access_array (array_in t k) table) (\<lambda>m. m = access_mask table (items t k))"
  using load_access_array_mask[of "array_in t k" table] by (simp add: items_def)

lemma cstr_string_in: "string_in t k = Some s \<Longrightarrow> cstr s = s"
  by (auto simp: string_in_def split: option.splits toml_raw.splits)

lemma cstr_string_at: "string_at it = Some s \<Longrightarrow> cstr s = s"
  by (cases it rule: string_at.cases) auto

lemma ensures_eq_bind:
  "ensures f (\<lambda>a. a = x) \<Longrightarrow> ensures (g x) Q \<Longrightarrow> ensures (bindM f g) Q"
  by (auto intro!: ensures_bind elim: ensures_mono)

lemma ensures_guard_bind: "(b \<Longrightarrow> ensures f Q) \<Longrightarrow> ensures (bindM (guardM b e) (\<lambda>_. f)) Q"
  by (auto intro!: ensures_bind ensures_guard)

lemma append_path_eq:
  "s = None \<or> cstr (the s) = the s \<Longrightarrow> ensures (append_path s store) (\<lambda>j. j = store (the s))"
  unfolding append_path_def by (intro am_rule) (cases s; simp)

lemma load_path_array_eq:
  assumes "\<And>s j. ensures (add s j) (\<lambda>k. k = upd (\<lambda>ys. ys @ [cstr (the s)]) j)"
    and "ir_field upd (\<lambda>_. True)"
  shows "ensures (load_broker_path_array (array_in t k) ab add i) (\<lambda>j. j = upd (\<lambda>ys. ys @ strings t k) i)"
proof (cases "array_in t k")
  case None
  then show ?thesis
    using ir_field.upd_id[OF assms(2)]
    by (simp add: load_broker_path_array_def strings_def items_def ensures_return)
next
  case (Some xs)
  have 1: "ensures (bindM (require (nonempty (string_at it))) (\<lambda>_.
      bindM (require (\<not> (ab \<and> \<not> absolute (string_at it)))) (\<lambda>_. add (string_at it) i)))
      (\<lambda>j. j = upd (\<lambda>ys. ys @ [(the \<circ> string_at) it]) i)" for it i
    using assms(1)[of "string_at it" i]
    by (cases "string_at it") (auto intro!: ensures_guard_bind ensures_fail simp: cstr_string_at)
  show ?thesis
    using ir_field.ensures_append_each[OF assms(2), where f = "\<lambda>it i. bindM (require (nonempty (string_at it))) (\<lambda>_.
      bindM (require (\<not> (ab \<and> \<not> absolute (string_at it)))) (\<lambda>_. add (string_at it) i))"
      and h = "the \<circ> string_at", OF 1]
    by (simp add: load_broker_path_array_def strings_def items_def Some)
qed

lemma append_path_cstr: "ensures (append_path s store) (\<lambda>j. j = store (cstr (the s)))"
  unfolding append_path_def by (intro am_rule) simp

lemma path_adds_eq:
  "ensures (add_broker_open_read_rule s i) (\<lambda>j. j = broker_open_read_update (\<lambda>ys. ys @ [cstr (the s)]) i)"
  "ensures (add_broker_open_write_rule s i) (\<lambda>j. j = broker_open_write_update (\<lambda>ys. ys @ [cstr (the s)]) i)"
  "ensures (add_broker_scratch_rule s i) (\<lambda>j. j = broker_scratch_update (\<lambda>ys. ys @ [cstr (the s)]) i)"
  "ensures (add_broker_export_rule s i) (\<lambda>j. j = broker_export_update (\<lambda>ys. ys @ [cstr (the s)]) i)"
  "ensures (add_broker_mount_tmpfs_rule s i) (\<lambda>j. j = broker_mount_tmpfs_update (\<lambda>ys. ys @ [cstr (the s)]) i)"
  "ensures (add_mount_tmpfs_rule s i) (\<lambda>j. j = mount_tmpfs_update (\<lambda>ys. ys @ [cstr (the s)]) i)"
  "ensures (add_mount_proc_rule s i) (\<lambda>j. j = mount_proc_update (\<lambda>ys. ys @ [cstr (the s)]) i)"
  unfolding add_broker_open_read_rule_def add_broker_open_write_rule_def add_broker_scratch_rule_def
    add_broker_export_rule_def add_broker_mount_tmpfs_rule_def add_mount_tmpfs_rule_def
    add_mount_proc_rule_def
  by (rule ensures_mono[OF append_path_cstr]; simp)+

lemmas path_arrays_eq =
  load_path_array_eq[OF path_adds_eq(1) open_read.ir_field_axioms]
  load_path_array_eq[OF path_adds_eq(2) open_write.ir_field_axioms]
  load_path_array_eq[OF path_adds_eq(3) scratch.ir_field_axioms]
  load_path_array_eq[OF path_adds_eq(4) export_paths.ir_field_axioms]
  load_path_array_eq[OF path_adds_eq(5) btmpfs.ir_field_axioms]
  load_path_array_eq[OF path_adds_eq(6) tmpfs.ir_field_axioms]
  load_path_array_eq[OF path_adds_eq(7) proc.ir_field_axioms]

lemma each_table_eq:
  assumes "\<And>t i. ready i \<Longrightarrow> ensures (f t i) (\<lambda>j. j = upd (\<lambda>ys. ys @ [h t]) i)"
    and "ir_field upd ready" "ready i"
  shows "ensures (each_table f xs i) (\<lambda>j. j = upd (\<lambda>ys. ys @ map h (map (the \<circ> table_at) xs)) i)"
proof -
  have "ensures (case table_at it of None \<Rightarrow> reject | Some t \<Rightarrow> f t i)
      (\<lambda>j. j = upd (\<lambda>ys. ys @ [(h \<circ> (the \<circ> table_at)) it]) i)" if "ready i" for it i
    using assms(1)[OF that] by (cases "table_at it") (simp_all add: ensures_fail)
  then show ?thesis
    unfolding each_table_def map_map
    using ir_field.ensures_append_each[OF assms(2)] assms(3) by fast
qed

lemma load_fs_rule_eq:
  "ensures (load_fs_rule t n i) (\<lambda>j. j = upd_rules n (\<lambda>ys. ys @ [fs_rule_of t]) i)"
  unfolding load_fs_rule_def
  by (intro ensures_guard_bind ensures_eq_bind[OF load_access_in])
    (auto simp: add_fs_rule_def fs_rule_of_def upd_rules_def Let_def cstr_string_in intro!: am_rule)

lemma load_fs_layer_eq:
  "ensures (load_fs_layer t i) (\<lambda>j. j = fs_layers_update (\<lambda>ys. ys @ [fs_layer_of t]) i)"
proof -
  let ?h = "access_mask FS_ACCESS_NAMES (items t ''handled_access_fs'')"
  let ?n = "length (fs_layers i)"
  let ?i = "i\<lparr>fs_layers := fs_layers i @ [\<lparr>l_handled = ?h, l_rules = []\<rparr>]\<rparr>"
  have add: "ensures (add_fs_layer ?h i) (\<lambda>r. r = (?i, ?n))"
    unfolding add_fs_layer_def by (intro am_rule) simp
  have rules: "ensures (case array_in t ''rule'' of None \<Rightarrow> returnM ?i
      | Some rule_arr \<Rightarrow> each_table (\<lambda>t. load_fs_rule t ?n) rule_arr ?i)
      (\<lambda>j. j = upd_rules ?n (\<lambda>ys. ys @ map fs_rule_of (tables t ''rule'')) ?i)"
  proof (cases "array_in t ''rule''")
    case None
    then show ?thesis by (simp add: tables_def items_def upd_rules_def ensures_return)
  next
    case (Some xs)
    have "ensures (each_table (\<lambda>t. load_fs_rule t ?n) xs ?i)
        (\<lambda>j. j = upd_rules ?n (\<lambda>ys. ys @ map fs_rule_of (map (the \<circ> table_at) xs)) ?i)"
      by (rule each_table_eq[OF load_fs_rule_eq fs_rules.ir_field_axioms]) simp
    with Some show ?thesis by (simp add: tables_def items_def)
  qed
  show ?thesis
    unfolding load_fs_layer_def
    by (intro ensures_guard_bind ensures_eq_bind[OF load_access_in] ensures_eq_bind[OF add])
      (simp, rule ensures_mono[OF rules], simp add: upd_rules_def fs_layer_of_def)
qed

lemma load_net_rule_eq:
  "ensures (load_net_rule t i) (\<lambda>j. j = net_rules_update (\<lambda>ys. ys @ [net_rule_of t]) i)"
proof (cases "int_in t ''port''")
  case (Some p)
  then show ?thesis
    unfolding load_net_rule_def
    by (auto intro!: ensures_guard_bind ensures_eq_bind[OF load_access_in])
      (auto simp: add_net_rule_def net_rule_of_def intro!: am_rule)
qed (simp add: load_net_rule_def ensures_guard_bind ensures_fail)

lemma load_net_eq: "ensures (load_net t i) (\<lambda>j. j = net_of t i)"
proof -
  let ?h = "access_mask NET_ACCESS_NAMES (items t ''handled_access_net'')"
  let ?i = "i\<lparr>net_enabled := True, net_handled := ?h\<rparr>"
  have en: "ensures (enable_net ?h i) (\<lambda>j. j = ?i)"
    unfolding enable_net_def by (intro am_rule) simp
  have "ensures (case array_in t ''rule'' of None \<Rightarrow> returnM ?i
      | Some rule_arr \<Rightarrow> each_table load_net_rule rule_arr ?i) (\<lambda>j. j = net_of t i)"
  proof (cases "array_in t ''rule''")
    case None
    then show ?thesis by (simp add: net_of_def tables_def items_def ensures_return)
  next
    case (Some xs)
    have e: "ensures (each_table load_net_rule xs ?i)
        (\<lambda>j. j = net_rules_update (\<lambda>ys. ys @ map net_rule_of (map (the \<circ> table_at) xs)) ?i)"
      by (rule each_table_eq[OF load_net_rule_eq net.ir_field_axioms]) simp
    show ?thesis
      unfolding Some option.case
      by (rule ensures_mono[OF e]) (simp add: net_of_def tables_def items_def Some)
  qed
  then show ?thesis
    unfolding load_net_def
    by (intro ensures_guard_bind ensures_eq_bind[OF load_access_in] ensures_eq_bind[OF en])
qed

lemma cstr_the_in: "nonempty (string_in t k) \<Longrightarrow> cstr (the (string_in t k)) = the (string_in t k)"
  by (auto simp: nonempty_def cstr_string_in split: option.splits)

lemma key_exists_string_in: "string_in t k = Some s \<Longrightarrow> key_exists t k"
proof -
  assume "string_in t k = Some s"
  then have "map_of (kval t) k \<noteq> None"
    by (auto simp: string_in_def split: option.splits)
  then have "k \<in> fst ` set (kval t)"
    by (simp add: map_of_eq_None_iff)
  then show ?thesis by (simp add: key_exists_def table_keys_def)
qed

lemma add_addfd_eq:
  "ensures (add_broker_addfd_rule a t m i) (\<lambda>j. j = broker_addfd_update (\<lambda>ys. ys @
     [\<lparr>a_action = cstr (the a), a_target = cstr (the t),
       a_mode = if nonempty m then Some (cstr (the m)) else None\<rparr>]) i)"
  unfolding add_broker_addfd_rule_def by (intro am_rule) simp_all

lemma load_addfd_entry_eq:
  "ensures (load_addfd_entry t i) (\<lambda>j. j = broker_addfd_update (\<lambda>ys. ys @ [addfd_of t]) i)"
proof -
  have mode: "(if nonempty (string_in t ''mode'') then Some (cstr (the (string_in t ''mode''))) else None)
      = string_in t ''mode''" if "\<not> (key_exists t ''mode'' \<and> \<not> nonempty (string_in t ''mode''))"
  proof (cases "string_in t ''mode''")
    case (Some m)
    then have "key_exists t ''mode''"
      by (rule key_exists_string_in)
    with that Some show ?thesis by (simp add: cstr_string_in)
  qed simp
  show ?thesis
    unfolding load_addfd_entry_def Let_def
    by (intro ensures_guard_bind, rule ensures_mono[OF add_addfd_eq])
      (simp add: addfd_of_def cstr_the_in mode)
qed

definition adds_bind :: "(string option \<Rightarrow> string option \<Rightarrow> bool \<Rightarrow> ir \<Rightarrow> ir am) \<Rightarrow>
    ((bind_rule list \<Rightarrow> bind_rule list) \<Rightarrow> ir \<Rightarrow> ir) \<Rightarrow> bool" where
  "adds_bind add upd \<longleftrightarrow> (\<forall>s t ro i. ensures (add s t ro i) (\<lambda>j. j = upd (\<lambda>ys. ys @
     [\<lparr>b_source = cstr (the s), b_target = cstr (the t), b_read_only = ro\<rparr>]) i))"

lemma adds_bind_ops:
  "adds_bind add_broker_mount_bind_rule broker_mount_bind_update"
  "adds_bind add_mount_bind_rule mount_bind_update"
  unfolding adds_bind_def add_broker_mount_bind_rule_def add_mount_bind_rule_def append_bind_def
  by (intro allI am_rule; simp)+

lemma load_bind_entry_eq:
  assumes "adds_bind add upd"
  shows "ensures (load_bind_entry add t i) (\<lambda>j. j = upd (\<lambda>ys. ys @ [bind_of t]) i)"
  unfolding load_bind_entry_def Let_def
  by (intro ensures_guard_bind, rule ensures_mono[OF assms[unfolded adds_bind_def, rule_format]])
    (auto simp: bind_of_def cstr_the_in split: option.splits)

lemma load_bind_array_eq:
  assumes "adds_bind add upd" and "ir_field upd (\<lambda>_. True)"
  shows "ensures (load_bind_rule_array (array_in t k) add i) (\<lambda>j. j = upd (\<lambda>ys. ys @ map bind_of (tables t k)) i)"
proof (cases "array_in t k")
  case None
  then show ?thesis
    using ir_field.upd_id[OF assms(2)]
    by (simp add: load_bind_rule_array_def tables_def items_def ensures_return)
next
  case (Some xs)
  have "ensures (each_table (load_bind_entry add) xs i)
      (\<lambda>j. j = upd (\<lambda>ys. ys @ map bind_of (map (the \<circ> table_at) xs)) i)"
    by (rule each_table_eq[OF _ assms(2)]) (simp_all add: load_bind_entry_eq[OF assms(1)])
  with Some show ?thesis
    by (simp add: load_bind_rule_array_def tables_def items_def ensures_guard_bind)
qed

lemmas bind_arrays_eq =
  load_bind_array_eq[OF adds_bind_ops(1) bbind.ir_field_axioms]
  load_bind_array_eq[OF adds_bind_ops(2) mbind.ir_field_axioms]

lemma load_attach_eq:
  "ensures (load_attach xs) (\<lambda>ps. ps = map string_at xs \<and> list_all (\<lambda>it. nonempty (string_at it)) xs)"
proof -
  have "ensures (foldM (\<lambda>it acc. bindM (require (nonempty (string_at it))) (\<lambda>_.
      bindM (require (absolute (string_at it))) (\<lambda>_. returnM (acc @ [string_at it])))) xs acc)
      (\<lambda>ps. ps = acc @ map string_at xs \<and> list_all (\<lambda>it. nonempty (string_at it)) xs)" for acc
  proof (induction xs arbitrary: acc)
    case (Cons it xs)
    show ?case
      unfolding foldM.simps
      by (intro ensures_bind ensures_guard ensures_return, rule ensures_mono[OF Cons.IH]) simp
  qed (simp add: ensures_return)
  from this[of "[]"] show ?thesis by (simp add: load_attach_def)
qed

lemma copy_attach_eq:
  "ensures (copy_attach_paths ps) (\<lambda>cs. cs = map (cstr \<circ> the) ps)"
proof (induction ps)
  case (Cons p ps)
  show ?case
    unfolding copy_attach_paths.simps
    by (intro am_rule, rule ensures_mono[OF Cons.IH], intro am_rule) simp
qed (simp add: ensures_return)

lemma load_object_entry_eq:
  "ensures (load_object_entry t i) (\<lambda>j. j = broker_mount_object_update (\<lambda>ys. ys @ [object_of t]) i)"
proof -
  have attrs: "ensures (case array_in t ''attrs'' of None \<Rightarrow> returnM 0
      | Some a \<Rightarrow> load_access_array (Some a) MOUNT_ATTR_NAMES)
      (\<lambda>m. m = access_mask MOUNT_ATTR_NAMES (items t ''attrs''))"
    using load_access_in[of t "''attrs''" MOUNT_ATTR_NAMES]
    by (cases "array_in t ''attrs''") (simp_all add: items_def access_mask_def ensures_return)
  have add: "ensures (add_broker_mount_object_rule (Some n) (Some f) (Some ps) m i)
      (\<lambda>j. j = broker_mount_object_update (\<lambda>ys. ys @ [\<lparr>o_name = cstr n, o_fs_type = cstr f,
        o_attach = map (cstr \<circ> the) ps, o_attrs = m\<rparr>]) i)" for n f ps m
    unfolding add_broker_mount_object_rule_def
    by (intro am_rule, rule ensures_mono[OF copy_attach_eq], intro am_rule) simp
  have c: "map (cstr \<circ> the \<circ> string_at) xs = map (the \<circ> string_at) xs"
    if "list_all (\<lambda>it. nonempty (string_at it)) xs" for xs
    using that by (induction xs) (auto simp: nonempty_def cstr_string_at split: option.splits)
  show ?thesis
    unfolding load_object_entry_def Let_def
  proof (intro ensures_guard_bind, goal_cases)
    case 1
    then obtain n f where nf: "string_in t ''name'' = Some n" "string_in t ''fs_type'' = Some f"
      by (auto simp: nonempty_def split: option.splits)
    show ?case
    proof (cases "array_in t ''attach''")
      case (Some xs)
      show ?thesis
        unfolding Some option.case nf
      proof (intro ensures_guard_bind ensures_bind[OF ensures_alloc],
          rule ensures_bind[OF ensures_mono[OF load_attach_eq]], goal_cases)
        case (1 ps)
        show ?case
          by (rule ensures_eq_bind[OF attrs], rule ensures_mono[OF add])
            (use 1 nf Some in \<open>simp add: object_of_def strings_def items_def c cstr_string_in\<close>)
      qed
    qed (simp add: ensures_fail)
  qed
qed

lemma entry_arrays_eq:
  "ensures (load_broker_addfd_array (array_in t k) i)
    (\<lambda>j. j = broker_addfd_update (\<lambda>ys. ys @ map addfd_of (tables t k)) i)"
  "ensures (load_mount_object_rule_array (array_in t k) i)
    (\<lambda>j. j = broker_mount_object_update (\<lambda>ys. ys @ map object_of (tables t k)) i)"
proof -
  have "ensures (each_table load_addfd_entry xs i)
      (\<lambda>j. j = broker_addfd_update (\<lambda>ys. ys @ map addfd_of (map (the \<circ> table_at) xs)) i)" for xs
    by (rule each_table_eq[OF _ addfd.ir_field_axioms]) (simp_all add: load_addfd_entry_eq)
  then show "ensures (load_broker_addfd_array (array_in t k) i)
      (\<lambda>j. j = broker_addfd_update (\<lambda>ys. ys @ map addfd_of (tables t k)) i)"
    by (cases "array_in t k")
      (simp_all add: load_broker_addfd_array_def tables_def items_def ensures_return ensures_guard_bind)
  have "ensures (each_table load_object_entry xs i)
      (\<lambda>j. j = broker_mount_object_update (\<lambda>ys. ys @ map object_of (map (the \<circ> table_at) xs)) i)" for xs
    by (rule each_table_eq[OF _ object.ir_field_axioms]) (simp_all add: load_object_entry_eq)
  then show "ensures (load_mount_object_rule_array (array_in t k) i)
      (\<lambda>j. j = broker_mount_object_update (\<lambda>ys. ys @ map object_of (tables t k)) i)"
    by (cases "array_in t k")
      (simp_all add: load_mount_object_rule_array_def tables_def items_def ensures_return ensures_guard_bind)
qed

lemma load_broker_eq: "ensures (load_broker t i) (\<lambda>j. j = broker_of t i)"
  unfolding load_broker_def
  by (intro ensures_guard_bind ensures_eq_bind[OF path_arrays_eq(1)] ensures_eq_bind[OF path_arrays_eq(2)]
      ensures_eq_bind[OF path_arrays_eq(3)] ensures_eq_bind[OF path_arrays_eq(4)]
      ensures_eq_bind[OF path_arrays_eq(5)] ensures_eq_bind[OF entry_arrays_eq(1)]
      ensures_eq_bind[OF bind_arrays_eq(1)], rule ensures_mono[OF entry_arrays_eq(2)])
    (simp add: broker_of_def)

lemma mount_paths_eq:
  assumes "\<And>k i. ensures (load_broker_path_array (array_in t k) True add i)
    (\<lambda>j. j = upd (\<lambda>ys. ys @ strings t k) i)" and "ir_field upd (\<lambda>_. True)"
  shows "ensures (load_mount_paths (array_in t k) add i) (\<lambda>j. j = upd (\<lambda>ys. ys @ strings t k) i)"
  using assms(1)[of k i] ir_field.upd_id[OF assms(2)]
  by (cases "array_in t k")
    (simp_all add: load_mount_paths_def strings_def items_def ensures_return ensures_guard_bind)

lemmas mount_path_lists_eq =
  mount_paths_eq[OF path_arrays_eq(6) tmpfs.ir_field_axioms]
  mount_paths_eq[OF path_arrays_eq(7) proc.ir_field_axioms]

lemma load_mount_eq: "ensures (load_mount t i) (\<lambda>j. j = mount_of t i)"
  unfolding load_mount_def
  by (intro ensures_guard_bind ensures_eq_bind[OF mount_path_lists_eq(1)]
      ensures_eq_bind[OF bind_arrays_eq(2)] ensures_eq_bind[OF mount_path_lists_eq(2)])
    (simp add: mount_of_def ensures_return)

lemma runtime_path_eq:
  "ensures (load_runtime_path (string_in t k) set_runtime_root i)
    (\<lambda>j. j = i\<lparr>runtime_root := (case string_in t k of None \<Rightarrow> runtime_root i | Some p \<Rightarrow> Some p)\<rparr>)"
  "ensures (load_runtime_path (string_in t k) set_runtime_cwd i)
    (\<lambda>j. j = i\<lparr>runtime_cwd := (case string_in t k of None \<Rightarrow> runtime_cwd i | Some p \<Rightarrow> Some p)\<rparr>)"
  by (cases "string_in t k";
      auto simp: load_runtime_path_def set_runtime_root_def set_runtime_cwd_def cstr_string_in intro!: am_rule)+

lemma load_runtime_eq: "ensures (load_runtime t i) (\<lambda>j. j = runtime_of t i)"
  unfolding load_runtime_def
  by (intro ensures_guard_bind ensures_eq_bind[OF runtime_path_eq(1)] ensures_eq_bind[OF runtime_path_eq(2)])
    (rule ensures_return, simp add: runtime_of_def split: option.splits)

lemma load_seccomp_eq: "ensures (load_seccomp t i) (\<lambda>j. j = seccomp_of t i)"
proof -
  let ?e = "case int_in t ''errno'' of None \<Rightarrow> 1 | Some e \<Rightarrow> word_of_int e"
  let ?i = "i\<lparr>seccomp_enabled := True, seccomp_errno := ?e\<rparr>"
  let ?step = "\<lambda>it i. bindM (require (nonempty (string_at it))) (\<lambda>_.
      case syscall_by_name (string_at it) of Inl _ \<Rightarrow> reject | Inr nr \<Rightarrow> add_seccomp_deny_rule nr i)"
  let ?h = "\<lambda>it. the (map_of name_map (the (string_at it)))"
  have e: "ensures (case int_in t ''errno'' of None \<Rightarrow> returnM 1
      | Some e \<Rightarrow> bindM (require (\<not> (e \<le> 0 \<or> e > 4095))) (\<lambda>_. returnM (word_of_int e))) (\<lambda>r. r = ?e)"
    by (cases "int_in t ''errno''") (simp_all add: ensures_return ensures_guard_bind)
  have en: "ensures (enable_seccomp ?e i) (\<lambda>j. j = ?i)"
    unfolding enable_seccomp_def by (intro am_rule) simp
  have step: "ensures (?step it j) (\<lambda>k. k = seccomp_deny_update (\<lambda>ys. ys @ [?h it]) j)" for it j
  proof (intro ensures_guard_bind)
    assume "nonempty (string_at it)"
    then show "ensures (case syscall_by_name (string_at it) of Inl _ \<Rightarrow> reject
        | Inr nr \<Rightarrow> add_seccomp_deny_rule nr j) (\<lambda>k. k = seccomp_deny_update (\<lambda>ys. ys @ [?h it]) j)"
      by (cases "string_at it")
        (auto simp: syscall_by_name_def add_seccomp_deny_rule_def ensures_fail cstr_string_at
          intro!: am_rule split: option.splits sum.splits)
  qed
  have fold: "ensures (foldM ?step xs ?i) (\<lambda>k. k = seccomp_deny_update (\<lambda>ys. ys @ map ?h xs) ?i)" for xs
    by (rule deny_rules.ensures_append_each[OF step]) simp
  show ?thesis
    unfolding load_seccomp_def
  proof (intro ensures_guard_bind ensures_eq_bind[OF e] ensures_eq_bind[OF en], cases "array_in t ''deny''")
    case (Some xs)
    then have "seccomp_deny_update (\<lambda>ys. ys @ map ?h xs) ?i = seccomp_of t i"
      by (simp add: seccomp_of_def strings_def items_def comp_def)
    then show "ensures (case array_in t ''deny'' of None \<Rightarrow> reject
        | Some deny_arr \<Rightarrow> bindM (require (deny_arr \<noteq> [])) (\<lambda>_. foldM ?step deny_arr ?i)) (\<lambda>j. j = seccomp_of t i)"
      unfolding Some option.case using fold[of xs] by (simp add: ensures_guard_bind)
  qed (simp add: ensures_fail)
qed

lemma with_table_eq:
  assumes "\<And>t i. ensures (f t i) (\<lambda>j. j = g t i)"
  shows "ensures (with_table t f i) (\<lambda>j. j = opt_part g t i)"
  using assms by (cases t) (simp_all add: with_table_def opt_part_def ensures_return)

lemma load_root_policy: "ensures (load_root root ir_init) (\<lambda>i. i = policy_of root)"
proof -
  have layers: "ensures (case array_in root ''fs_layer'' of None \<Rightarrow> returnM ir_init
      | Some fs_arr \<Rightarrow> each_table load_fs_layer fs_arr ir_init)
      (\<lambda>j. j = ir_init\<lparr>fs_layers := map fs_layer_of (tables root ''fs_layer'')\<rparr>)"
  proof (cases "array_in root ''fs_layer''")
    case None
    then show ?thesis by (simp add: tables_def items_def ir_init_def ensures_return)
  next
    case (Some xs)
    have "ensures (each_table load_fs_layer xs ir_init)
        (\<lambda>j. j = fs_layers_update (\<lambda>ys. ys @ map fs_layer_of (map (the \<circ> table_at) xs)) ir_init)"
      by (rule each_table_eq[OF _ layers.ir_field_axioms]) (simp_all add: load_fs_layer_eq)
    with Some show ?thesis by (simp add: tables_def items_def ir_init_def)
  qed
  show ?thesis
    unfolding load_root_def policy_of_def
    by (intro ensures_guard_bind ensures_eq_bind[OF layers] ensures_eq_bind[OF with_table_eq[OF load_net_eq]]
        ensures_eq_bind[OF with_table_eq[OF load_broker_eq]] ensures_eq_bind[OF with_table_eq[OF load_mount_eq]]
        ensures_eq_bind[OF with_table_eq[OF load_runtime_eq]] with_table_eq[OF load_seccomp_eq])
qed

subsection \<open>Which documents are accepted\<close>

text \<open>\<open>accepts f P\<close>: with memory available, the computation succeeds if \<open>P\<close> holds and is a plain
  rejection otherwise; and it never succeeds unless \<open>P\<close> holds.\<close>

definition accepts :: "'a am \<Rightarrow> bool \<Rightarrow> bool" where
  "accepts f P \<longleftrightarrow> (if P then \<exists>v. f [] = (Inr v, []) else f [] = (Inl Stale, [])) \<and> ensures f (\<lambda>_. P)"

lemma ensures_True [simp]: "ensures f (\<lambda>_. True)"
  by (simp add: ensures_def)

lemma accepts_trueI: "f [] = (Inr v, []) \<Longrightarrow> accepts f True"
  by (simp add: accepts_def ensures_def)

lemma accepts_return: "accepts (returnM x) True"
  by (rule accepts_trueI) (simp add: returnM_def)

lemma accepts_fail: "accepts reject False"
  by (simp add: accepts_def failM_def ensures_def)

lemma accepts_alloc: "accepts allocM True"
  by (rule accepts_trueI) (simp add: am_eval)

lemma accepts_guard_bind_if: "(b \<Longrightarrow> accepts f Q) \<Longrightarrow> accepts (bindM (require b) (\<lambda>_. f)) (b \<and> Q)"
  by (cases b) (auto simp: accepts_def am_eval ensures_def bindM_def guardM_def failM_def returnM_def
      split: if_splits)

lemma accepts_guard_bind: "accepts f Q \<Longrightarrow> accepts (bindM (require b) (\<lambda>_. f)) (b \<and> Q)"
  by (rule accepts_guard_bind_if)

lemma accepts_bind:
  assumes "accepts f P" "ensures f R" "\<And>v. R v \<Longrightarrow> accepts (g v) Q"
  shows "accepts (bindM f g) (P \<and> Q)"
proof -
  have "ensures f (\<lambda>v. P \<and> R v)"
    using assms(1,2) by (auto simp: accepts_def ensures_def)
  then have e: "ensures (bindM f g) (\<lambda>_. P \<and> Q)"
    using assms(3) by (auto simp: accepts_def intro!: ensures_bind elim!: ensures_mono)
  show ?thesis
  proof (cases P)
    case True
    then obtain v where v: "f [] = (Inr v, [])" using assms(1) by (auto simp: accepts_def)
    then have "R v" using assms(2) by (auto simp: ensures_def)
    with v True e show ?thesis using assms(3)[of v] by (simp add: accepts_def am_eval)
  next
    case False
    with assms(1) e show ?thesis by (simp add: accepts_def am_eval)
  qed
qed

lemma accepts_foldM:
  assumes "\<And>x s. I s \<Longrightarrow> accepts (f x s) (P x)" "\<And>x s. I s \<Longrightarrow> ensures (f x s) I" "I s"
  shows "accepts (foldM f xs s) (list_all P xs)"
  using assms(3)
proof (induction xs arbitrary: s)
  case Nil
  then show ?case by (simp add: accepts_return)
next
  case (Cons x xs)
  then show ?case
    using accepts_bind[OF assms(1)[OF Cons.prems] assms(2)[OF Cons.prems], of "foldM f xs" "list_all P xs" x]
    by simp
qed

lemma accepts_cong: "accepts f P \<Longrightarrow> P = Q \<Longrightarrow> accepts f Q"
  by simp

definition ok_access :: "(string \<times> u64) list \<Rightarrow> toml_item list option \<Rightarrow> bool" where
  "ok_access table xs = (case xs of None \<Rightarrow> False
     | Some xs \<Rightarrow> xs \<noteq> [] \<and> list_all (\<lambda>it. string_at it \<noteq> None \<and> map_of table (the (string_at it)) \<noteq> None) xs)"

lemma accepts_access: "accepts (load_access_array xs table) (ok_access table xs)"
proof (cases xs)
  case (Some ys)
  have "accepts (foldM (\<lambda>it acc. case string_at it of None \<Rightarrow> reject
      | Some s \<Rightarrow> (case resolve_access table s of None \<Rightarrow> reject | Some b \<Rightarrow> returnM (acc OR b))) ys 0)
      (list_all (\<lambda>it. string_at it \<noteq> None \<and> map_of table (the (string_at it)) \<noteq> None) ys)"
    by (rule accepts_foldM[where I = "\<lambda>_. True"])
      (auto simp: accepts_def failM_def returnM_def resolve_access_def ensures_def split: option.splits)
  then show ?thesis
    by (simp add: load_access_array_def ok_access_def Some accepts_guard_bind)
qed (simp add: load_access_array_def ok_access_def accepts_fail)

lemma access_nonzero:
  assumes "\<forall>b \<in> snd ` set table. b \<noteq> 0"
  shows "ensures (load_access_array xs table) (\<lambda>m. m \<noteq> 0)"
proof (cases xs)
  case (Some ys)
  let ?f = "\<lambda>it acc. case string_at it of None \<Rightarrow> reject
      | Some s \<Rightarrow> (case resolve_access table s of None \<Rightarrow> reject | Some b \<Rightarrow> returnM (acc OR b))"
  have nz: "m OR b \<noteq> 0" if "b \<noteq> 0" for m b :: u64
    using that by (simp add: or_eq_0_iff)
  have step: "ensures (?f it acc) (\<lambda>m. m \<noteq> 0)" for it acc
    using assms by (auto simp: resolve_access_def ensures_fail nz split: option.splits
        intro!: ensures_return dest!: map_of_SomeD)
  show ?thesis
  proof (cases ys)
    case (Cons y zs)
    have "ensures (bindM (?f y 0) (foldM ?f zs)) (\<lambda>m. m \<noteq> 0)"
      by (rule ensures_bind, rule ensures_mono[OF step], rule ensures_foldM) (simp_all add: step)
    then show ?thesis by (simp add: load_access_array_def Some Cons ensures_guard_bind)
  qed (simp add: load_access_array_def Some ensures_def bindM_def guardM_def failM_def)
qed (simp add: load_access_array_def ensures_fail)

lemma tables_nonzero:
  "\<forall>b \<in> snd ` set FS_ACCESS_NAMES. b \<noteq> 0" "\<forall>b \<in> snd ` set NET_ACCESS_NAMES. b \<noteq> 0"
  by (simp_all add: FS_ACCESS_NAMES_def NET_ACCESS_NAMES_def access_bits)

definition ok_fs_rule :: "toml_table \<Rightarrow> bool" where
  "ok_fs_rule t \<longleftrightarrow> table_has_only_keys t [''path'', ''allowed_access''] \<and>
     nonempty (string_in t ''path'') \<and> ok_access FS_ACCESS_NAMES (array_in t ''allowed_access'')"

definition ok_tables :: "(toml_table \<Rightarrow> bool) \<Rightarrow> toml_item list \<Rightarrow> bool" where
  "ok_tables P xs = list_all (\<lambda>it. table_at it \<noteq> None \<and> P (the (table_at it))) xs"

lemma ok_tables_Nil: "ok_tables P []"
  by (simp add: ok_tables_def)

lemma accepts_each_table:
  assumes "\<And>t i. I i \<Longrightarrow> accepts (f t i) (P t)" "\<And>t i. I i \<Longrightarrow> ensures (f t i) I" "I i"
  shows "accepts (each_table f xs i) (ok_tables P xs)"
  unfolding each_table_def ok_tables_def
  by (rule accepts_foldM[where I = I])
    (auto split: option.splits intro: assms accepts_cong[OF assms(1)] accepts_cong[OF accepts_fail] ensures_fail)

lemma accepts_fs_rule:
  assumes "n < length (fs_layers i)"
  shows "accepts (load_fs_rule t n i) (ok_fs_rule t)"
proof -
  have "accepts (add_fs_rule n (string_in t ''path'') m i) True"
    if "m \<noteq> 0" "nonempty (string_in t ''path'')" for m
    using assms that
    by (cases "string_in t ''path''") (auto simp: add_fs_rule_def accepts_def am_eval Let_def)
  then have "accepts (load_fs_rule t n i) (table_has_only_keys t [''path'', ''allowed_access''] \<and>
     nonempty (string_in t ''path'') \<and> (ok_access FS_ACCESS_NAMES (array_in t ''allowed_access'') \<and> True))"
    unfolding load_fs_rule_def
    by (intro accepts_guard_bind_if accepts_bind[OF accepts_access access_nonzero[OF tables_nonzero(1)]])
  then show ?thesis by (simp add: ok_fs_rule_def)
qed

definition ok_fs_layer :: "toml_table \<Rightarrow> bool" where
  "ok_fs_layer t \<longleftrightarrow> table_has_only_keys t [''handled_access_fs'', ''rule''] \<and>
     ok_access FS_ACCESS_NAMES (array_in t ''handled_access_fs'') \<and>
     ok_tables ok_fs_rule (items t ''rule'')"

lemma accepts_fs_layer: "accepts (load_fs_layer t i) (ok_fs_layer t)"
proof -
  have add: "accepts (add_fs_layer m i) True" if "m \<noteq> 0" for m
    using that by (simp add: add_fs_layer_def accepts_def am_eval)
  have idx: "ensures (add_fs_layer m i) (\<lambda>(j, n). n < length (fs_layers j))" for m
    unfolding add_fs_layer_def by (intro am_rule) simp
  have rules: "accepts (case array_in t ''rule'' of None \<Rightarrow> returnM j
      | Some rule_arr \<Rightarrow> each_table (\<lambda>t. load_fs_rule t n) rule_arr j) (ok_tables ok_fs_rule (items t ''rule''))"
    if "n < length (fs_layers j)" for n j
  proof (cases "array_in t ''rule''")
    case None
    then show ?thesis by (simp add: items_def ok_tables_def accepts_return)
  next
    case (Some xs)
    have "accepts (each_table (\<lambda>t. load_fs_rule t n) xs j) (ok_tables ok_fs_rule xs)"
      by (rule accepts_each_table[where I = "\<lambda>j. n < length (fs_layers j)"])
        (auto intro: accepts_fs_rule ensures_mono[OF load_fs_rule_eq] simp: upd_rules_def that)
    with Some show ?thesis by (simp add: items_def)
  qed
  have "accepts (load_fs_layer t i) (table_has_only_keys t [''handled_access_fs'', ''rule''] \<and>
     (ok_access FS_ACCESS_NAMES (array_in t ''handled_access_fs'') \<and>
     (True \<and> ok_tables ok_fs_rule (items t ''rule''))))"
    unfolding load_fs_layer_def
    by (intro accepts_guard_bind accepts_bind[OF accepts_access access_nonzero[OF tables_nonzero(1)]]
        accepts_bind[OF add idx]) (auto split: prod.splits intro: rules)
  then show ?thesis by (simp add: ok_fs_layer_def)
qed

definition ok_net_rule :: "toml_table \<Rightarrow> bool" where
  "ok_net_rule t \<longleftrightarrow> table_has_only_keys t [''port'', ''allowed_access''] \<and>
     (case int_in t ''port'' of None \<Rightarrow> False | Some p \<Rightarrow> 0 \<le> p \<and> p \<le> 65535) \<and>
     ok_access NET_ACCESS_NAMES (array_in t ''allowed_access'')"

definition ok_net :: "toml_table \<Rightarrow> bool" where
  "ok_net t \<longleftrightarrow> table_has_only_keys t [''handled_access_net'', ''rule''] \<and>
     ok_access NET_ACCESS_NAMES (array_in t ''handled_access_net'') \<and> ok_tables ok_net_rule (items t ''rule'')"

lemma accepts_net_rule:
  assumes "net_enabled i"
  shows "accepts (load_net_rule t i) (ok_net_rule t)"
proof -
  have add: "accepts (add_net_rule p m i) True" if "m \<noteq> 0" for p m
    using assms that by (simp add: add_net_rule_def accepts_def am_eval)
  show ?thesis
  proof (cases "int_in t ''port''")
    case (Some p)
    have "accepts (load_net_rule t i) (table_has_only_keys t [''port'', ''allowed_access''] \<and>
        (\<not> (p < 0 \<or> p > 65535)) \<and> (ok_access NET_ACCESS_NAMES (array_in t ''allowed_access'') \<and> True))"
      unfolding load_net_rule_def Some option.case
      by (intro accepts_guard_bind accepts_bind[OF accepts_access access_nonzero[OF tables_nonzero(2)]] add)
    then show ?thesis by (rule accepts_cong) (auto simp: ok_net_rule_def Some)
  next
    case None
    show ?thesis
      unfolding load_net_rule_def None option.case
      by (rule accepts_cong[OF accepts_guard_bind[OF accepts_fail]]) (simp add: ok_net_rule_def None)
  qed
qed

lemma accepts_net: "accepts (load_net t i) (ok_net t)"
proof -
  have en: "accepts (enable_net m i) True" if "m \<noteq> 0" for m
    using that by (simp add: enable_net_def accepts_def am_eval)
  have on: "ensures (enable_net m i) net_enabled" for m
    unfolding enable_net_def by (intro am_rule) simp
  have rules: "accepts (case array_in t ''rule'' of None \<Rightarrow> returnM j
      | Some rule_arr \<Rightarrow> each_table load_net_rule rule_arr j) (ok_tables ok_net_rule (items t ''rule''))"
    if "net_enabled j" for j
  proof (cases "array_in t ''rule''")
    case None
    then show ?thesis by (simp add: items_def ok_tables_def accepts_return)
  next
    case (Some xs)
    have "accepts (each_table load_net_rule xs j) (ok_tables ok_net_rule xs)"
      by (rule accepts_each_table[where I = net_enabled])
        (auto intro: accepts_net_rule ensures_mono[OF load_net_rule_eq] simp: that)
    with Some show ?thesis by (simp add: items_def)
  qed
  have "accepts (load_net t i) (table_has_only_keys t [''handled_access_net'', ''rule''] \<and>
      (ok_access NET_ACCESS_NAMES (array_in t ''handled_access_net'') \<and> (True \<and> ok_tables ok_net_rule (items t ''rule''))))"
    unfolding load_net_def
    by (intro accepts_guard_bind accepts_bind[OF accepts_access access_nonzero[OF tables_nonzero(2)]]
        accepts_bind[OF en on] rules)
  then show ?thesis by (simp add: ok_net_def)
qed

text \<open>Operations that succeed whenever their string arguments are not empty.\<close>

lemma accepts_append_path: "nonempty s \<Longrightarrow> accepts (append_path s store) True"
  by (simp add: append_path_def accepts_def am_eval)

lemmas accepts_path_ops =
  accepts_append_path[of s "\<lambda>c. i\<lparr>broker_open_read := broker_open_read i @ [c]\<rparr>" for s i,
    folded add_broker_open_read_rule_def]
  accepts_append_path[of s "\<lambda>c. i\<lparr>broker_open_write := broker_open_write i @ [c]\<rparr>" for s i,
    folded add_broker_open_write_rule_def]
  accepts_append_path[of s "\<lambda>c. i\<lparr>broker_scratch := broker_scratch i @ [c]\<rparr>" for s i,
    folded add_broker_scratch_rule_def]
  accepts_append_path[of s "\<lambda>c. i\<lparr>broker_export := broker_export i @ [c]\<rparr>" for s i,
    folded add_broker_export_rule_def]
  accepts_append_path[of s "\<lambda>c. i\<lparr>broker_mount_tmpfs := broker_mount_tmpfs i @ [c]\<rparr>" for s i,
    folded add_broker_mount_tmpfs_rule_def]
  accepts_append_path[of s "\<lambda>c. i\<lparr>mount_tmpfs := mount_tmpfs i @ [c]\<rparr>" for s i,
    folded add_mount_tmpfs_rule_def]
  accepts_append_path[of s "\<lambda>c. i\<lparr>mount_proc := mount_proc i @ [c]\<rparr>" for s i,
    folded add_mount_proc_rule_def]

definition ok_paths :: "bool \<Rightarrow> toml_item list \<Rightarrow> bool" where
  "ok_paths must_abs xs = list_all (\<lambda>it. nonempty (string_at it) \<and> (must_abs \<longrightarrow> absolute (string_at it))) xs"

lemma accepts_path_array:
  assumes "\<And>s i. nonempty s \<Longrightarrow> accepts (add s i) True"
  shows "accepts (load_broker_path_array (array_in t k) ab add i) (ok_paths ab (items t k))"
proof (cases "array_in t k")
  case None
  then show ?thesis by (simp add: load_broker_path_array_def items_def ok_paths_def accepts_return)
next
  case (Some xs)
  have step: "accepts (bindM (require (nonempty (string_at it))) (\<lambda>_.
      bindM (require (\<not> (ab \<and> \<not> absolute (string_at it)))) (\<lambda>_. add (string_at it) i)))
      (nonempty (string_at it) \<and> (ab \<longrightarrow> absolute (string_at it)))" for it i
    by (rule accepts_cong[OF accepts_guard_bind_if[OF accepts_guard_bind_if[OF assms]]]) auto
  have "accepts (foldM (\<lambda>it i. bindM (require (nonempty (string_at it))) (\<lambda>_.
      bindM (require (\<not> (ab \<and> \<not> absolute (string_at it)))) (\<lambda>_. add (string_at it) i))) xs i) (ok_paths ab xs)"
    unfolding ok_paths_def
    by (rule accepts_foldM[where I = "\<lambda>_. True", OF step]) (simp_all add: ensures_def)
  then show ?thesis by (simp add: load_broker_path_array_def items_def Some)
qed

definition ok_addfd :: "toml_table \<Rightarrow> bool" where
  "ok_addfd t \<longleftrightarrow> table_has_only_keys t [''action'', ''target'', ''mode''] \<and>
     nonempty (string_in t ''action'') \<and> is_broker_addfd_action (the (string_in t ''action'')) \<and>
     nonempty (string_in t ''target'') \<and> absolute (string_in t ''target'') \<and>
     \<not> (key_exists t ''mode'' \<and> \<not> nonempty (string_in t ''mode'')) \<and>
     string_in t ''mode'' \<in> {None, Some ''read'', Some ''write''}"

lemma accepts_addfd: "accepts (load_addfd_entry t i) (ok_addfd t)"
proof -
  have "accepts (add_broker_addfd_rule a g m i) True" if "nonempty a" "nonempty g" for a g m
    using that by (simp add: add_broker_addfd_rule_def accepts_def am_eval)
  then have "accepts (load_addfd_entry t i) (table_has_only_keys t [''action'', ''target'', ''mode''] \<and>
     nonempty (string_in t ''action'') \<and> is_broker_addfd_action (the (string_in t ''action'')) \<and>
     nonempty (string_in t ''target'') \<and> absolute (string_in t ''target'') \<and>
     \<not> (key_exists t ''mode'' \<and> \<not> nonempty (string_in t ''mode'')) \<and>
     \<not> (string_in t ''mode'' \<noteq> None \<and> string_in t ''mode'' \<noteq> Some ''read'' \<and> string_in t ''mode'' \<noteq> Some ''write'') \<and> True)"
    unfolding load_addfd_entry_def Let_def by (intro accepts_guard_bind_if)
  then show ?thesis by (rule accepts_cong) (auto simp: ok_addfd_def)
qed

definition ok_bind :: "toml_table \<Rightarrow> bool" where
  "ok_bind t \<longleftrightarrow> table_has_only_keys t [''source'', ''target'', ''read_only''] \<and>
     nonempty (string_in t ''source'') \<and> absolute (string_in t ''source'') \<and>
     nonempty (string_in t ''target'') \<and> absolute (string_in t ''target'') \<and>
     \<not> (key_exists t ''read_only'' \<and> bool_in t ''read_only'' = None)"

lemma accepts_bind_entry:
  assumes "\<And>s t r i. nonempty s \<Longrightarrow> nonempty t \<Longrightarrow> accepts (add s t r i) True"
  shows "accepts (load_bind_entry add t i) (ok_bind t)"
proof -
  have "accepts (load_bind_entry add t i) (table_has_only_keys t [''source'', ''target'', ''read_only''] \<and>
     nonempty (string_in t ''source'') \<and> absolute (string_in t ''source'') \<and>
     nonempty (string_in t ''target'') \<and> absolute (string_in t ''target'') \<and>
     (\<not> (key_exists t ''read_only'' \<and> bool_in t ''read_only'' = None)) \<and> True)"
    unfolding load_bind_entry_def Let_def by (intro accepts_guard_bind_if assms)
  then show ?thesis by (simp add: ok_bind_def)
qed

text \<open>An optional array of tables that must not be empty.\<close>

definition ok_entries :: "(toml_table \<Rightarrow> bool) \<Rightarrow> toml_item list option \<Rightarrow> bool" where
  "ok_entries P xs = (case xs of None \<Rightarrow> True | Some xs \<Rightarrow> xs \<noteq> [] \<and> ok_tables P xs)"

lemma accepts_each_table_any:
  "(\<And>t i. accepts (f t i) (P t)) \<Longrightarrow> accepts (each_table f xs i) (ok_tables P xs)"
  by (rule accepts_each_table[where I = "\<lambda>_. True"]) (simp_all add: ensures_def)

lemma accepts_bind_ops:
  "nonempty s \<Longrightarrow> nonempty t \<Longrightarrow> accepts (add_broker_mount_bind_rule s t r i) True"
  "nonempty s \<Longrightarrow> nonempty t \<Longrightarrow> accepts (add_mount_bind_rule s t r i) True"
  by (simp_all add: add_broker_mount_bind_rule_def add_mount_bind_rule_def append_bind_def accepts_def am_eval)

lemma accepts_bind_array:
  assumes "\<And>s t r i. nonempty s \<Longrightarrow> nonempty t \<Longrightarrow> accepts (add s t r i) True"
  shows "accepts (load_bind_rule_array xs add i) (ok_entries ok_bind xs)"
  by (cases xs) (simp_all add: load_bind_rule_array_def ok_entries_def accepts_return accepts_guard_bind
      accepts_each_table_any accepts_bind_entry[OF assms])

lemma accepts_addfd_array: "accepts (load_broker_addfd_array xs i) (ok_entries ok_addfd xs)"
  by (cases xs) (simp_all add: load_broker_addfd_array_def ok_entries_def accepts_return accepts_guard_bind
      accepts_each_table_any accepts_addfd)

definition ok_object :: "toml_table \<Rightarrow> bool" where
  "ok_object t \<longleftrightarrow> table_has_only_keys t [''name'', ''fs_type'', ''attach'', ''attrs''] \<and>
     nonempty (string_in t ''name'') \<and> CHR ''/'' \<notin> set (the (string_in t ''name'')) \<and>
     nonempty (string_in t ''fs_type'') \<and> string_in t ''fs_type'' \<in> {Some ''tmpfs'', Some ''proc''} \<and>
     array_in t ''attach'' \<noteq> None \<and> items t ''attach'' \<noteq> [] \<and> ok_paths True (items t ''attach'') \<and>
     (array_in t ''attrs'' = None \<or> ok_access MOUNT_ATTR_NAMES (array_in t ''attrs''))"

lemma accepts_attach: "accepts (load_attach xs) (ok_paths True xs)"
proof -
  have step: "accepts (bindM (require (nonempty (string_at it))) (\<lambda>_.
      bindM (require (absolute (string_at it))) (\<lambda>_. returnM (acc @ [string_at it]))))
      (nonempty (string_at it) \<and> (True \<longrightarrow> absolute (string_at it)))" for it acc
    by (rule accepts_cong[OF accepts_guard_bind[OF accepts_guard_bind[OF accepts_return]]]) simp
  show ?thesis
    unfolding load_attach_def ok_paths_def
    by (rule accepts_foldM[where I = "\<lambda>_. True", OF step]) (simp_all add: ensures_def)
qed

lemma accepts_copy_attach: "list_all nonempty ps \<Longrightarrow> accepts (copy_attach_paths ps) True"
proof (induction ps)
  case (Cons p ps)
  then obtain cs where "copy_attach_paths ps [] = (Inr cs, [])" by (auto simp: accepts_def)
  with Cons show ?case by (simp add: accepts_def am_eval)
qed (simp add: accepts_return)

lemma accepts_object: "accepts (load_object_entry t i) (ok_object t)"
proof -
  have add: "accepts (add_broker_mount_object_rule n f (Some ps) m i) True"
    if "nonempty n" "nonempty f" "ps \<noteq> []" "list_all nonempty ps" for n f ps m
    using that accepts_copy_attach[OF that(4)]
    by (auto simp: add_broker_mount_object_rule_def accepts_def am_eval)
  have attach: "ensures (load_attach xs) (\<lambda>ps. list_all nonempty ps \<and> (xs = [] \<longleftrightarrow> ps = []))" for xs
    by (rule ensures_mono[OF load_attach_eq]) (auto simp: list_all_iff)
  have attrs: "accepts (case array_in t ''attrs'' of None \<Rightarrow> returnM 0
      | Some a \<Rightarrow> load_access_array (Some a) MOUNT_ATTR_NAMES)
      (array_in t ''attrs'' = None \<or> ok_access MOUNT_ATTR_NAMES (array_in t ''attrs''))"
    using accepts_access[of "array_in t ''attrs''" MOUNT_ATTR_NAMES]
    by (cases "array_in t ''attrs''") (simp_all add: accepts_return)
  show ?thesis
  proof (cases "array_in t ''attach''")
    case None
    have "accepts (load_object_entry t i) (table_has_only_keys t [''name'', ''fs_type'', ''attach'', ''attrs''] \<and>
        nonempty (string_in t ''name'') \<and> CHR ''/'' \<notin> set (the (string_in t ''name'')) \<and>
        nonempty (string_in t ''fs_type'') \<and>
        \<not> (string_in t ''fs_type'' \<noteq> Some ''tmpfs'' \<and> string_in t ''fs_type'' \<noteq> Some ''proc'') \<and> False)"
      unfolding load_object_entry_def Let_def None option.case by (intro accepts_guard_bind accepts_fail)
    then show ?thesis by (rule accepts_cong) (simp add: ok_object_def None)
  next
    case (Some xs)
    have "accepts (load_object_entry t i) (table_has_only_keys t [''name'', ''fs_type'', ''attach'', ''attrs''] \<and>
        nonempty (string_in t ''name'') \<and> CHR ''/'' \<notin> set (the (string_in t ''name'')) \<and>
        nonempty (string_in t ''fs_type'') \<and>
        \<not> (string_in t ''fs_type'' \<noteq> Some ''tmpfs'' \<and> string_in t ''fs_type'' \<noteq> Some ''proc'') \<and>
        xs \<noteq> [] \<and> (True \<and> (ok_paths True xs \<and>
        ((array_in t ''attrs'' = None \<or> ok_access MOUNT_ATTR_NAMES (array_in t ''attrs'')) \<and> True))))"
      unfolding load_object_entry_def Let_def Some option.case
      by (intro accepts_guard_bind_if accepts_bind[OF accepts_alloc, where R = "\<lambda>_. True"]
          accepts_bind[OF accepts_attach attach] accepts_bind[OF attrs, where R = "\<lambda>_. True"] add)
        (auto simp: ensures_def)
    then show ?thesis by (rule accepts_cong) (auto simp: ok_object_def items_def Some)
  qed
qed

lemma accepts_object_array: "accepts (load_mount_object_rule_array xs i) (ok_entries ok_object xs)"
  by (cases xs) (simp_all add: load_mount_object_rule_array_def ok_entries_def accepts_return
      accepts_guard_bind accepts_each_table_any accepts_object)

definition ok_broker :: "toml_table \<Rightarrow> bool" where
  "ok_broker t \<longleftrightarrow> table_has_only_keys t [''allow_read'', ''allow_write'', ''scratch'', ''export'',
       ''mount_tmpfs'', ''mount_bind'', ''mount_object'', ''addfd''] \<and>
     ok_paths False (items t ''allow_read'') \<and> ok_paths False (items t ''allow_write'') \<and>
     ok_paths False (items t ''scratch'') \<and> ok_paths False (items t ''export'') \<and>
     ok_paths False (items t ''mount_tmpfs'') \<and> ok_entries ok_addfd (array_in t ''addfd'') \<and>
     ok_entries ok_bind (array_in t ''mount_bind'') \<and> ok_entries ok_object (array_in t ''mount_object'')"

lemma accepts_seq: "accepts f P \<Longrightarrow> (\<And>v. accepts (g v) Q) \<Longrightarrow> accepts (bindM f g) (P \<and> Q)"
  by (rule accepts_bind[where R = "\<lambda>_. True"]) (simp_all add: ensures_def)

lemma accepts_broker: "accepts (load_broker t i) (ok_broker t)"
  unfolding load_broker_def ok_broker_def
  by (intro accepts_guard_bind accepts_seq accepts_path_array accepts_path_ops accepts_addfd_array
      accepts_bind_array accepts_bind_ops accepts_object_array)

definition ok_mount_paths :: "toml_item list option \<Rightarrow> bool" where
  "ok_mount_paths xs = (case xs of None \<Rightarrow> True | Some xs \<Rightarrow> xs \<noteq> [] \<and> ok_paths True xs)"

definition ok_mount :: "toml_table \<Rightarrow> bool" where
  "ok_mount t \<longleftrightarrow> table_has_only_keys t [''tmpfs'', ''bind'', ''proc''] \<and>
     ok_mount_paths (array_in t ''tmpfs'') \<and> ok_entries ok_bind (array_in t ''bind'') \<and>
     ok_mount_paths (array_in t ''proc'') \<and>
     (array_in t ''tmpfs'' \<noteq> None \<or> array_in t ''bind'' \<noteq> None \<or> array_in t ''proc'' \<noteq> None)"

lemma accepts_mount_paths:
  assumes "\<And>s i. nonempty s \<Longrightarrow> accepts (add s i) True"
  shows "accepts (load_mount_paths (array_in t k) add i) (ok_mount_paths (array_in t k))"
proof (cases "array_in t k")
  case (Some xs)
  have "accepts (load_broker_path_array (array_in t k) True add i) (ok_paths True (items t k))"
    by (intro accepts_path_array assms)
  then show ?thesis
    using Some by (simp add: load_mount_paths_def ok_mount_paths_def items_def accepts_guard_bind)
qed (simp add: load_mount_paths_def ok_mount_paths_def accepts_return)

lemma accepts_mount: "accepts (load_mount t i) (ok_mount t)"
proof -
  have "accepts (load_mount t i) (table_has_only_keys t [''tmpfs'', ''bind'', ''proc''] \<and>
     ok_mount_paths (array_in t ''tmpfs'') \<and> ok_entries ok_bind (array_in t ''bind'') \<and>
     ok_mount_paths (array_in t ''proc'') \<and>
     (array_in t ''tmpfs'' \<noteq> None \<or> array_in t ''bind'' \<noteq> None \<or> array_in t ''proc'' \<noteq> None) \<and> True)"
    unfolding load_mount_def
    by (intro accepts_guard_bind accepts_seq accepts_mount_paths accepts_path_ops accepts_bind_array
        accepts_bind_ops accepts_return)
  then show ?thesis by (simp add: ok_mount_def)
qed

definition ok_runtime :: "toml_table \<Rightarrow> bool" where
  "ok_runtime t \<longleftrightarrow> table_has_only_keys t [''root'', ''cwd''] \<and>
     (string_in t ''root'' = None \<or> absolute (string_in t ''root'')) \<and>
     (string_in t ''cwd'' = None \<or> absolute (string_in t ''cwd'')) \<and>
     (string_in t ''root'' \<noteq> None \<or> string_in t ''cwd'' \<noteq> None)"

lemma absolute_nonempty: "absolute (Some p) \<Longrightarrow> p \<noteq> []"
  by (auto simp: absolute_def)

lemma accepts_runtime_path:
  assumes "\<And>p. cstr p \<noteq> [] \<Longrightarrow> accepts (store (Some p) i) True"
  shows "accepts (load_runtime_path (string_in t k) store i) (string_in t k = None \<or> absolute (string_in t k))"
proof (cases "string_in t k")
  case (Some p)
  have "accepts (load_runtime_path (Some p) store i) (p \<noteq> [] \<and> absolute (Some p) \<and> True)"
    unfolding load_runtime_path_def option.case
    by (intro accepts_guard_bind_if assms) (simp add: cstr_string_in[OF Some])
  then show ?thesis unfolding Some by (rule accepts_cong) (auto dest: absolute_nonempty)
qed (simp add: load_runtime_path_def accepts_return)

lemma accepts_runtime:
  assumes "runtime_root i = None" "runtime_cwd i = None"
  shows "accepts (load_runtime t i) (ok_runtime t)"
proof -
  have r: "accepts (load_runtime_path (string_in t ''root'') set_runtime_root i)
      (string_in t ''root'' = None \<or> absolute (string_in t ''root''))"
    by (rule accepts_runtime_path) (simp add: assms set_runtime_root_def accepts_def am_eval)
  have c: "accepts (load_runtime_path (string_in t ''cwd'') set_runtime_cwd j)
      (string_in t ''cwd'' = None \<or> absolute (string_in t ''cwd''))" if "runtime_cwd j = None" for j
    by (rule accepts_runtime_path) (simp add: that set_runtime_cwd_def accepts_def am_eval)
  have keep: "ensures (load_runtime_path (string_in t ''root'') set_runtime_root i) (\<lambda>j. runtime_cwd j = None)"
    by (rule ensures_mono[OF runtime_path_eq(1)]) (simp add: assms)
  have "accepts (load_runtime t i) (table_has_only_keys t [''root'', ''cwd''] \<and>
     ((string_in t ''root'' = None \<or> absolute (string_in t ''root'')) \<and>
     ((string_in t ''cwd'' = None \<or> absolute (string_in t ''cwd'')) \<and>
     ((string_in t ''root'' \<noteq> None \<or> string_in t ''cwd'' \<noteq> None) \<and> True))))"
    unfolding load_runtime_def
    by (intro accepts_guard_bind accepts_bind[OF r keep] accepts_seq[OF c] accepts_return)
  then show ?thesis by (simp add: ok_runtime_def)
qed

definition ok_deny :: "toml_item \<Rightarrow> bool" where
  "ok_deny it \<longleftrightarrow> nonempty (string_at it) \<and> map_of name_map (the (string_at it)) \<noteq> None"

definition ok_seccomp :: "toml_table \<Rightarrow> bool" where
  "ok_seccomp t \<longleftrightarrow> table_has_only_keys t [''deny'', ''errno''] \<and>
     (case int_in t ''errno'' of None \<Rightarrow> True | Some e \<Rightarrow> 0 < e \<and> e \<le> 4095) \<and>
     array_in t ''deny'' \<noteq> None \<and> items t ''deny'' \<noteq> [] \<and> list_all ok_deny (items t ''deny'')"

lemma name_map_nonneg: "(s, nr) \<in> set name_map \<Longrightarrow> 0 \<le> nr \<and> nr < 2 ^ 31"
proof -
  have "list_all (\<lambda>(s, nr). 0 \<le> nr \<and> nr < 2 ^ 31) name_map" by (simp add: name_map_def)
  then show "(s, nr) \<in> set name_map \<Longrightarrow> 0 \<le> nr \<and> nr < 2 ^ 31" by (auto simp: list_all_iff)
qed

lemma errno_word_nonzero: "\<not> e \<le> 0 \<Longrightarrow> \<not> 4095 < e \<Longrightarrow> (word_of_int e :: u16) \<noteq> 0"
proof
  assume "\<not> e \<le> 0" "\<not> 4095 < e" and z: "(word_of_int e :: u16) = 0"
  then have "0 < e" "e \<le> 4095" by simp_all
  from z have "take_bit 16 e = 0" by (simp add: word_of_int_eq_0_iff take_bit_eq_0_iff)
  moreover have "take_bit 16 e = e" using \<open>0 < e\<close> \<open>e \<le> 4095\<close> by (simp add: take_bit_int_eq_self)
  ultimately show False using \<open>0 < e\<close> by simp
qed

lemma accepts_seccomp: "accepts (load_seccomp t i) (ok_seccomp t)"
proof -
  let ?errno = "case int_in t ''errno'' of None \<Rightarrow> returnM (1 :: u16)
      | Some e \<Rightarrow> bindM (require (\<not> (e \<le> 0 \<or> e > 4095))) (\<lambda>_. returnM (word_of_int e))"
  let ?step = "\<lambda>it i. bindM (require (nonempty (string_at it))) (\<lambda>_.
      case syscall_by_name (string_at it) of Inl _ \<Rightarrow> reject | Inr nr \<Rightarrow> add_seccomp_deny_rule nr i)"
  have e: "accepts ?errno (case int_in t ''errno'' of None \<Rightarrow> True | Some e \<Rightarrow> 0 < e \<and> e \<le> 4095)"
    by (cases "int_in t ''errno''")
      (auto simp: accepts_return intro: accepts_cong[OF accepts_guard_bind[OF accepts_return]])
  have nz: "ensures ?errno (\<lambda>r. r \<noteq> 0)"
    by (cases "int_in t ''errno''")
      (auto simp: ensures_return errno_word_nonzero intro!: ensures_guard_bind ensures_return)
  have en: "accepts (enable_seccomp r i) True" if "r \<noteq> 0" for r
    using that by (simp add: enable_seccomp_def accepts_def am_eval)
  have on: "ensures (enable_seccomp r i) seccomp_enabled" for r
    unfolding enable_seccomp_def by (intro am_rule) simp
  have step: "accepts (?step it j) (ok_deny it)" if "seccomp_enabled j" for it j
  proof (cases "string_at it")
    case (Some s)
    show ?thesis
    proof (cases "map_of name_map s")
      case None
      then show ?thesis
        by (simp add: Some syscall_by_name_def ok_deny_def accepts_def am_eval bindM_def guardM_def
            failM_def returnM_def ensures_def)
    next
      case (Some nr)
      then have "0 \<le> nr" using name_map_nonneg by (auto dest!: map_of_SomeD)
      then show ?thesis
        using that Some \<open>string_at it = Some s\<close> cstr_string_at[OF \<open>string_at it = Some s\<close>]
        by (cases "s = []") (simp_all add: syscall_by_name_def ok_deny_def accepts_def am_eval
            add_seccomp_deny_rule_def ensures_def bindM_def guardM_def failM_def)
    qed
  qed (simp add: ok_deny_def accepts_def am_eval ensures_def bindM_def guardM_def failM_def)
  have keep: "ensures (?step it j) seccomp_enabled" if "seccomp_enabled j" for it j
    using that by (auto intro!: ensures_guard_bind split: sum.splits
        simp: ensures_fail add_seccomp_deny_rule_def intro!: am_rule)
  have "accepts (foldM ?step xs j) (list_all ok_deny xs)" if "seccomp_enabled j" for xs j
    by (rule accepts_foldM[where I = seccomp_enabled, OF step keep that])
  then have deny: "accepts (case array_in t ''deny'' of None \<Rightarrow> reject
      | Some deny_arr \<Rightarrow> bindM (require (deny_arr \<noteq> [])) (\<lambda>_. foldM ?step deny_arr j))
      (array_in t ''deny'' \<noteq> None \<and> items t ''deny'' \<noteq> [] \<and> list_all ok_deny (items t ''deny''))"
    if "seccomp_enabled j" for j
    using that by (cases "array_in t ''deny''") (simp_all add: items_def accepts_fail accepts_guard_bind)
  have "accepts (load_seccomp t i) (table_has_only_keys t [''deny'', ''errno''] \<and>
      ((case int_in t ''errno'' of None \<Rightarrow> True | Some e \<Rightarrow> 0 < e \<and> e \<le> 4095) \<and>
      (True \<and> (array_in t ''deny'' \<noteq> None \<and> items t ''deny'' \<noteq> [] \<and> list_all ok_deny (items t ''deny'')))))"
    unfolding load_seccomp_def
    by (intro accepts_guard_bind accepts_bind[OF e nz] accepts_bind[OF en on] deny)
  then show ?thesis by (simp add: ok_seccomp_def)
qed

definition ok_part :: "(toml_table \<Rightarrow> bool) \<Rightarrow> toml_table option \<Rightarrow> bool" where
  "ok_part P t = (case t of None \<Rightarrow> True | Some t \<Rightarrow> P t)"

lemma accepts_part: "(\<And>t. accepts (f t i) (P t)) \<Longrightarrow> accepts (with_table t f i) (ok_part P t)"
  by (cases t) (simp_all add: with_table_def ok_part_def accepts_return)

definition doc_ok :: "toml_table \<Rightarrow> bool" where
  "doc_ok root \<longleftrightarrow> table_has_only_keys root [''version'', ''fs_layer'', ''net'', ''broker'', ''mount'',
       ''runtime'', ''seccomp''] \<and>
     int_in root ''version'' = Some 1 \<and>
     ok_tables ok_fs_layer (items root ''fs_layer'') \<and>
     ok_part ok_net (table_in root ''net'') \<and> ok_part ok_broker (table_in root ''broker'') \<and>
     ok_part ok_mount (table_in root ''mount'') \<and> ok_part ok_runtime (table_in root ''runtime'') \<and>
     ok_part ok_seccomp (table_in root ''seccomp'')"

lemma with_table_keeps:
  assumes "\<And>t i. ensures (f t i) (\<lambda>j. j = g t i)" "\<And>t i. I i \<Longrightarrow> I (g t i)" "I i"
  shows "ensures (with_table t f i) I"
  by (rule ensures_mono[OF with_table_eq[OF assms(1)]]) (auto simp: opt_part_def assms split: option.splits)

lemma accepts_root:
  "accepts (load_root root ir_init) (doc_ok root)"
proof -
  let ?I = "\<lambda>i. runtime_root i = None \<and> runtime_cwd i = None"
  let ?fs = "case array_in root ''fs_layer'' of None \<Rightarrow> returnM ir_init
      | Some fs_arr \<Rightarrow> each_table load_fs_layer fs_arr ir_init"
  have fs: "accepts ?fs (ok_tables ok_fs_layer (items root ''fs_layer''))"
    by (cases "array_in root ''fs_layer''")
      (simp_all add: items_def ok_tables_Nil accepts_return accepts_each_table_any accepts_fs_layer)
  have fsI: "ensures ?fs ?I"
  proof (cases "array_in root ''fs_layer''")
    case (Some xs)
    have "ensures (each_table load_fs_layer xs ir_init) ?I"
      unfolding each_table_def
      by (rule ensures_foldM)
        (auto simp: ir_init_def ensures_fail split: option.splits intro!: ensures_mono[OF load_fs_layer_eq])
    with Some show ?thesis by simp
  qed (simp add: ensures_return ir_init_def)
  note keeps = with_table_keeps[OF load_net_eq, where I = ?I] with_table_keeps[OF load_broker_eq, where I = ?I]
    with_table_keeps[OF load_mount_eq, where I = ?I]
  have "accepts (load_root root ir_init) (table_has_only_keys root [''version'', ''fs_layer'', ''net'',
       ''broker'', ''mount'', ''runtime'', ''seccomp''] \<and>
     (int_in root ''version'' \<noteq> None \<and> (\<not> (the (int_in root ''version'') \<noteq> 1) \<and>
     (ok_tables ok_fs_layer (items root ''fs_layer'') \<and>
     (ok_part ok_net (table_in root ''net'') \<and> (ok_part ok_broker (table_in root ''broker'') \<and>
     (ok_part ok_mount (table_in root ''mount'') \<and> (ok_part ok_runtime (table_in root ''runtime'') \<and>
     ok_part ok_seccomp (table_in root ''seccomp'')))))))))"
    unfolding load_root_def
    by (intro accepts_guard_bind accepts_bind[OF fs fsI]
        accepts_bind[OF accepts_part[OF accepts_net] keeps(1)]
        accepts_bind[OF accepts_part[OF accepts_broker] keeps(2)]
        accepts_bind[OF accepts_part[OF accepts_mount] keeps(3)]
        accepts_seq[OF accepts_part[OF accepts_runtime]] accepts_part accepts_seccomp)
      (auto simp: net_of_def broker_of_def mount_of_def)
  then show ?thesis by (rule accepts_cong) (auto simp: doc_ok_def)
qed

subsection \<open>Accepted documents give trusted policies\<close>

lemma ensures_each_table:
  assumes "\<And>t i. I i \<Longrightarrow> ensures (f t i) I" "I i"
  shows "ensures (each_table f xs i) I"
  unfolding each_table_def
  by (rule ensures_foldM) (auto simp: assms ensures_fail split: option.splits)

lemma ensures_True_bind: "(\<And>a. ensures (g a) Q) \<Longrightarrow> ensures (bindM f g) Q"
  by (rule ensures_bind) (simp add: ensures_def)

lemma fs_parts_trusted:
  assumes "ir_trusted i"
  shows "ensures (load_fs_layer t i) ir_trusted" and "ensures (load_net t i) ir_trusted"
proof -
  have rule: "ensures (load_fs_rule t n i) ir_trusted" if "ir_trusted i" for t n i
    unfolding load_fs_rule_def
    by (intro ensures_guard_bind ensures_True_bind append_ops_trusted that)
  have nrule: "ensures (load_net_rule t i) ir_trusted" if "ir_trusted i" for t i
    unfolding load_net_rule_def
    by (auto intro!: ensures_guard_bind ensures_True_bind append_ops_trusted that ensures_fail split: option.splits)
  show "ensures (load_fs_layer t i) ir_trusted"
    unfolding load_fs_layer_def
    by (rule ensures_guard_bind, rule ensures_True_bind, rule ensures_bind, rule ensures_mono[OF append_ops_trusted(15)[OF assms]])
      (auto split: option.splits prod.splits intro!: ensures_return ensures_each_table rule)
  show "ensures (load_net t i) ir_trusted"
    unfolding load_net_def
    by (rule ensures_guard_bind, rule ensures_True_bind, rule ensures_bind, rule ensures_mono[OF append_ops_trusted(10)[OF assms]])
      (auto split: option.splits intro!: ensures_return ensures_each_table nrule)
qed

lemma path_array_trusted:
  assumes "\<And>s i. ir_trusted i \<Longrightarrow> ensures (add s i) ir_trusted" "ir_trusted i"
  shows "ensures (load_broker_path_array xs ab add i) ir_trusted"
  unfolding load_broker_path_array_def
  by (auto simp: assms(2) split: option.splits intro!: ensures_return ensures_foldM ensures_guard_bind assms(1))

lemma bind_array_trusted:
  assumes "\<And>s t r i. ir_trusted i \<Longrightarrow> ensures (add s t r i) ir_trusted" "ir_trusted i"
  shows "ensures (load_bind_rule_array xs add i) ir_trusted"
  unfolding load_bind_rule_array_def load_bind_entry_def Let_def
  by (auto simp: assms(2) split: option.splits intro!: ensures_return ensures_each_table ensures_guard_bind assms(1))

lemma addfd_entry_trusted:
  assumes "ir_trusted i"
  shows "ensures (load_addfd_entry t i) ir_trusted"
  unfolding load_addfd_entry_def Let_def
proof (intro ensures_guard_bind)
  assume "nonempty (string_in t ''action'')" "is_broker_addfd_action (the (string_in t ''action''))"
  then obtain a where "string_in t ''action'' = Some a" "wire_broker_addfd_action_is_known a"
    by (auto simp: nonempty_def is_broker_addfd_action_def BROKER_ADDFD_ACTION_NAMES_def
        wire_broker_addfd_action_is_known_def cstr_string_in split: option.splits)
  then show "ensures (add_broker_addfd_rule (string_in t ''action'') (string_in t ''target'')
      (string_in t ''mode'') i) ir_trusted"
    using addfd_trusted[OF assms] by simp
qed

lemma object_entry_trusted: "ir_trusted i \<Longrightarrow> ensures (load_object_entry t i) ir_trusted"
  unfolding load_object_entry_def Let_def
  by (auto split: option.splits intro!: ensures_guard_bind ensures_fail ensures_True_bind object_trusted)

lemma broker_trusted: "ir_trusted i \<Longrightarrow> ensures (load_broker t i) ir_trusted"
proof -
  have a: "ensures (load_broker_addfd_array xs j) ir_trusted"
    and b: "ensures (load_mount_object_rule_array xs j) ir_trusted" if "ir_trusted j" for xs j
    using that by (auto simp: load_broker_addfd_array_def load_mount_object_rule_array_def split: option.splits
        intro!: ensures_return ensures_guard_bind ensures_each_table addfd_entry_trusted object_entry_trusted)
  show "ir_trusted i \<Longrightarrow> ensures (load_broker t i) ir_trusted"
    unfolding load_broker_def
    by (intro ensures_guard_bind ensures_seq path_array_trusted bind_array_trusted append_ops_trusted a b)
qed

lemma mount_trusted: "ir_trusted i \<Longrightarrow> ensures (load_mount t i) ir_trusted"
proof -
  have p: "ensures (load_mount_paths xs add j) ir_trusted"
    if "ir_trusted j" "\<And>s i. ir_trusted i \<Longrightarrow> ensures (add s i) ir_trusted" for xs add j
    using that by (auto simp: load_mount_paths_def split: option.splits
        intro!: ensures_return ensures_guard_bind path_array_trusted)
  show "ir_trusted i \<Longrightarrow> ensures (load_mount t i) ir_trusted"
    unfolding load_mount_def
    by (intro ensures_guard_bind ensures_seq p bind_array_trusted append_ops_trusted ensures_return)
qed

lemma runtime_trusted: "ir_trusted i \<Longrightarrow> ensures (load_runtime t i) ir_trusted"
proof -
  have p: "ensures (load_runtime_path s st j) ir_trusted"
    if "ir_trusted j" "\<And>s i. ir_trusted i \<Longrightarrow> ensures (st s i) ir_trusted" for s st j
    using that by (auto simp: load_runtime_path_def split: option.splits
        intro!: ensures_return ensures_guard_bind)
  show "ir_trusted i \<Longrightarrow> ensures (load_runtime t i) ir_trusted"
    unfolding load_runtime_def
    by (intro ensures_guard_bind ensures_seq p append_ops_trusted ensures_return)
qed

lemma seccomp_part_trusted:
  assumes "ir_trusted i"
  shows "ensures (load_seccomp t i) ir_trusted"
proof -
  have e: "ensures (case int_in t ''errno'' of None \<Rightarrow> returnM (1 :: u16)
      | Some e \<Rightarrow> bindM (require (\<not> (e \<le> 0 \<or> e > 4095))) (\<lambda>_. returnM (word_of_int e))) (\<lambda>r. r \<le> 4095)"
  proof (cases "int_in t ''errno''")
    case (Some e)
    have "(word_of_int e :: u16) \<le> 4095" if "0 < e" "e \<le> 4095"
    proof -
      have "take_bit 16 e = e" using that by (simp add: take_bit_int_eq_self)
      then show ?thesis using that by (simp add: word_le_def unsigned_of_int)
    qed
    then show ?thesis by (auto simp: Some intro!: ensures_guard_bind ensures_return)
  qed (simp add: ensures_return)
  have step: "ensures (bindM (require (nonempty (string_at it))) (\<lambda>_.
      case syscall_by_name (string_at it) of Inl _ \<Rightarrow> reject | Inr nr \<Rightarrow> add_seccomp_deny_rule nr j)) ir_trusted"
    if "ir_trusted j" for it j
    using that name_map_nonneg
    by (auto intro!: ensures_guard_bind seccomp_trusted(2) simp: ensures_fail syscall_by_name_def
        split: sum.splits option.splits if_splits dest!: map_of_SomeD)
  show ?thesis
    unfolding load_seccomp_def
    by (intro ensures_guard_bind, rule ensures_bind, rule ensures_mono[OF e], rule ensures_bind,
        rule ensures_mono[OF seccomp_trusted(1)[OF assms]])
      (auto split: option.splits intro!: ensures_fail ensures_guard_bind ensures_foldM step)
qed

lemma load_root_trusted: "ensures (load_root root ir_init) ir_trusted"
proof -
  have i: "ir_trusted ir_init" by (simp add: ir_trusted_def) (simp add: ir_init_def)
  have w: "ensures (with_table t f j) ir_trusted"
    if "ir_trusted j" "\<And>t i. ir_trusted i \<Longrightarrow> ensures (f t i) ir_trusted" for t f j
    using that by (cases t) (simp_all add: with_table_def ensures_return)
  have l: "ensures (case array_in root ''fs_layer'' of None \<Rightarrow> returnM ir_init
      | Some fs_arr \<Rightarrow> each_table load_fs_layer fs_arr ir_init) ir_trusted"
    by (auto split: option.splits intro!: ensures_return ensures_each_table fs_parts_trusted i)
  show ?thesis
    unfolding load_root_def
    by (intro ensures_guard_bind ensures_seq[OF l] ensures_seq w fs_parts_trusted broker_trusted
        mount_trusted runtime_trusted seccomp_part_trusted)
qed

subsection \<open>Properties\<close>


text \<open>Loading a policy file into a fresh policy either returns 0 with exactly the policy the
  parsed document describes, and then the document satisfies \<open>doc_ok\<close>, or it returns -1 with the
  policy fresh again.\<close>

theorem load_file_spec:
  "wp (load_file_in_process K parse (Some p) ir_init) (\<lambda>(rc, i) w'.
     (\<exists>n text root. rc = 0 \<and> K (w_trace w) (Fopen p) = Done n text \<and> parse text = Some root \<and>
        doc_ok root \<and> i = policy_of root) \<or>
     (rc = -1 \<and> i = ir_init)) w"
proof -
  have e: "copy_dst_empty ir_init" by (simp add: copy_dst_empty_def ir_init_def)
  have d: "doc_ok root \<and> i = policy_of root" if "load_root root ir_init m = (Inr i, m')" for root i m m'
    using accepts_root[of root] load_root_policy[of root] that by (auto simp: accepts_def ensures_def)
  show ?thesis
    unfolding load_file_in_process_def
    by (simp add: e io_wp ir_reset_def wp_opt split: reply.splits option.splits prod.splits sum.splits failure.splits)
      (blast dest: d)
qed

text \<open>What the loader relies on: a parser whose documents are described by the text they come from. Loading then
  yields only policies of documents so described.\<close>

locale document_source =
  fixes parse :: "string \<Rightarrow> toml_table option" and described :: "string \<Rightarrow> toml_table \<Rightarrow> bool"
  assumes parse_described: "parse contents = Some root \<Longrightarrow> described contents root"
begin

lemma load_described:
  "wp (load_file_in_process K parse (Some p) ir_init) (\<lambda>(rc, i) w'.
     (\<exists>n contents root. rc = 0 \<and> K (w_trace w) (Fopen p) = Done n contents \<and> described contents root \<and>
        doc_ok root \<and> i = policy_of root) \<or>
     (rc = -1 \<and> i = ir_init)) w"
  using load_file_spec[of K parse p w] by (auto simp: wp_def split: prod.splits dest!: parse_described)

end

text \<open>Whatever the document and whenever memory runs out, a policy the loader returns is well-formed,
  passes descriptors only for known actions, and denies only system calls of the table with an
  errno of at most 4095.\<close>

theorem load_root_sound: "ensures (load_root root ir_init) ir_trusted"
  by (rule load_root_trusted)

text \<open>The sizes a policy must respect to fit the 32-bit counts and lengths of the helper's message.\<close>

definition small :: "'a list \<Rightarrow> bool" where
  "small xs \<longleftrightarrow> length xs < 2 ^ 32"

definition sizes_fit :: "ir \<Rightarrow> bool" where
  "sizes_fit i \<longleftrightarrow> small (fs_layers i) \<and>
     list_all (\<lambda>l. small (l_rules l) \<and> list_all (\<lambda>r. small (r_path r)) (l_rules l)) (fs_layers i) \<and>
     small (net_rules i) \<and> small (seccomp_deny i) \<and>
     list_all (\<lambda>ps. small ps \<and> list_all small ps) [broker_open_read i, broker_open_write i,
       broker_scratch i, broker_export i, broker_mount_tmpfs i, mount_tmpfs i, mount_proc i] \<and>
     list_all (\<lambda>bs. small bs \<and> list_all (\<lambda>b. small (b_source b) \<and> small (b_target b)) bs)
       [broker_mount_bind i, mount_bind i] \<and>
     small (broker_mount_object i) \<and> list_all (\<lambda>r. small (o_name r) \<and> small (o_fs_type r) \<and>
       small (o_attach r) \<and> list_all small (o_attach r)) (broker_mount_object i) \<and>
     small (broker_addfd i) \<and> list_all (\<lambda>a. small (a_action a) \<and> small (a_target a) \<and>
       pred_option small (a_mode a)) (broker_addfd i) \<and>
     pred_option small (runtime_root i) \<and> pred_option small (runtime_cwd i)"

lemma wire_path_alt: "wire_path p \<longleftrightarrow> good_path p \<and> small p"
  by (auto simp: wire_path_def good_path_def fits_def small_def)

lemma wire_records_alt:
  "wire_layer l \<longleftrightarrow> layer_wf l \<and> small (l_rules l) \<and> list_all (\<lambda>r. small (r_path r)) (l_rules l)"
  "wire_bind b \<longleftrightarrow> bind_wf b \<and> small (b_source b) \<and> small (b_target b)"
  "wire_object r \<longleftrightarrow> object_wf r \<and> small (o_name r) \<and> small (o_fs_type r) \<and> small (o_attach r) \<and>
     list_all small (o_attach r)"
  "wire_addfd a \<longleftrightarrow> (addfd_wf a \<and> wire_broker_addfd_action_is_known (a_action a)) \<and>
     small (a_action a) \<and> small (a_target a) \<and> pred_option small (a_mode a)"
  by (auto simp: wire_layer_def layer_wf_def wire_fs_rule_def fits_def small_def wire_bind_def bind_wf_def
      wire_object_def object_wf_def wire_addfd_def addfd_wf_def wire_path_alt list_all_iff option.pred_set)

lemma wire_lists_alt:
  "list_all wire_path ps \<longleftrightarrow> list_all good_path ps \<and> list_all small ps"
  "pred_option wire_path s \<longleftrightarrow> pred_option good_path s \<and> pred_option small s"
  "list_all wire_layer ls \<longleftrightarrow> list_all layer_wf ls \<and>
     list_all (\<lambda>l. small (l_rules l) \<and> list_all (\<lambda>r. small (r_path r)) (l_rules l)) ls"
  "list_all wire_bind bs \<longleftrightarrow> list_all bind_wf bs \<and> list_all (\<lambda>b. small (b_source b) \<and> small (b_target b)) bs"
  "list_all wire_object rs \<longleftrightarrow> list_all object_wf rs \<and> list_all (\<lambda>r. small (o_name r) \<and>
     small (o_fs_type r) \<and> small (o_attach r) \<and> list_all small (o_attach r)) rs"
  "list_all wire_addfd as \<longleftrightarrow> list_all addfd_wf as \<and>
     list_all (\<lambda>a. wire_broker_addfd_action_is_known (a_action a)) as \<and>
     list_all (\<lambda>a. small (a_action a) \<and> small (a_target a) \<and> pred_option small (a_mode a)) as"
  "list_all (\<lambda>n. 0 \<le> n \<and> n < m) ns \<longleftrightarrow> list_all (\<lambda>n. 0 \<le> n) ns \<and> list_all (\<lambda>n. n < m) (ns :: int list)"
  by (auto simp: list_all_iff option.pred_set wire_path_alt wire_records_alt)

lemma trusted_wire_ok:
  assumes "ir_trusted i" "sizes_fit i"
  shows "wire_ok i"
proof -
  have nonneg: "list_all (\<lambda>n. 0 \<le> n) (seccomp_deny i)"
    using assms(1) by (auto simp: ir_trusted_def ir_wf_def split: if_splits)
  show ?thesis
    using assms nonneg
    unfolding wire_ok_def wire_lists_alt small_def[symmetric] ir_trusted_def sizes_fit_def list.pred_inject
    by (elim conjE) (intro conjI; (assumption | simp add: ir_wf_def)?)
qed

text \<open>C15: The helper and its parent together implement the document: for an accepted document whose
  policy fits the message format, the helper builds the described policy and the parent reads
  exactly that policy from the bytes the helper writes.\<close>

theorem helper_delivers_policy:
  assumes "doc_ok root" "sizes_fit (policy_of root)"
  shows "load_root root ir_init [] = (Inr (policy_of root), []) \<and>
    load_ir_from_wire (write_ir (policy_of root)) ir_init [] = (Inr (policy_of root), [])"
proof -
  have l: "load_root root ir_init [] = (Inr (policy_of root), [])"
    using accepts_root[of root] load_root_policy[of root] assms(1) by (auto simp: accepts_def ensures_def)
  then have "ir_trusted (policy_of root)" using load_root_trusted[of root] by (auto simp: ensures_def)
  with l show ?thesis using trusted_wire_ok[OF _ assms(2)] load_wire_app[of "policy_of root" "[]"] by simp
qed

definition sample_doc :: toml_table where
  "sample_doc = Table [(''version'', RInt 1)]
     [(''fs_layer'', [ITab (Table [] [(''handled_access_fs'', [IVal (RString ''read_file''), IVal (RString ''execute'')]),
        (''rule'', [ITab (Table [(''path'', RString ''/usr'')]
           [(''allowed_access'', [IVal (RString ''read_file'')])] [])])] [])])]
     [(''net'', Table [] [(''handled_access_net'', [IVal (RString ''bind_tcp'')]),
        (''rule'', [ITab (Table [(''port'', RInt 443)] [(''allowed_access'', [IVal (RString ''bind_tcp'')])] [])])] []),
      (''broker'', Table [] [(''allow_read'', [IVal (RString ''/etc/hosts'')]),
        (''addfd'', [ITab (Table [(''action'', RString ''open''), (''target'', RString ''/etc'')] [] [])])] []),
      (''runtime'', Table [(''cwd'', RString ''/'')] [] []),
      (''seccomp'', Table [(''errno'', RInt 13)] [(''deny'', [IVal (RString ''ptrace'')])] [])]"

theorem helper_delivers_policy_witness:
  "load_root sample_doc ir_init [] = (Inr (policy_of sample_doc), []) \<and>
    load_ir_from_wire (write_ir (policy_of sample_doc)) ir_init [] = (Inr (policy_of sample_doc), [])"
proof (rule helper_delivers_policy)
  show "doc_ok sample_doc" by code_simp
  show "sizes_fit (policy_of sample_doc)"
    by (simp add: sample_doc_def policy_of_def opt_part_def table_in_def seccomp_of_def runtime_of_def
        broker_of_def net_of_def tables_def items_def array_in_def fs_layer_of_def fs_rule_of_def
        strings_def string_in_def sizes_fit_def small_def ir_init_def net_rule_of_def addfd_of_def cstr_def NUL_def)
qed


end
