(* ===== verification/Broker_Policy.thy ===== *)
theory Broker_Policy
  imports Policy_IR Kernel
begin

text \<open>
  The broker's view of a policy (\<open>src/src/landlockd_exec.c\<close>, lines 39-82 and 502-1068 and the lookup
  functions at 2131-2252): the allowlist with canonical paths, the decisions taken on it, and
  the two tables of leases that remember which descriptors the broker has put into the
  supervised process.
\<close>

subsection \<open>The allowlist\<close>

record allowlist =
  read_paths :: "string list"
  write_paths :: "string list"
  scratch_paths :: "string list"
  export_paths :: "string list"
  mount_tmpfs_paths :: "string list"
  mount_bind_rules :: "bind_rule list"
  mount_object_rules :: "object_rule list"
  addfd_rules :: "addfd_rule list"

definition allowlist_cleanup :: "allowlist \<Rightarrow> allowlist" where
  "allowlist_cleanup A = \<lparr>read_paths = [], write_paths = [], scratch_paths = [], export_paths = [],
     mount_tmpfs_paths = [], mount_bind_rules = [], mount_object_rules = [], addfd_rules = []\<rparr>"

text \<open>\<open>realpath(path, NULL)\<close> and \<open>realpath(path, buf)\<close>\<close>

definition realpath :: "kernel \<Rightarrow> string \<Rightarrow> string option io" where
  "realpath K p = do {
     r \<leftarrow> sysd K (Realpath p);
     State_Monad.return (if fst r < 0 then None else Some (cstr (snd r))) }"

text \<open>A loop that stops at the first failure.\<close>

fun each_io :: "('a \<Rightarrow> 'b option io) \<Rightarrow> 'a list \<Rightarrow> 'b list option io" where
  "each_io f [] = State_Monad.return (Some [])"
| "each_io f (x # xs) = do {
     y \<leftarrow> f x;
     case y of None \<Rightarrow> State_Monad.return None
     | Some y \<Rightarrow> do {
         ys \<leftarrow> each_io f xs;
         State_Monad.return (map_option ((#) y) ys) } }"

definition opt_bind_io :: "'a option io \<Rightarrow> ('a \<Rightarrow> 'b option io) \<Rightarrow> 'b option io" where
  "opt_bind_io f g = do { x \<leftarrow> f; case x of None \<Rightarrow> State_Monad.return None | Some a \<Rightarrow> g a }"

definition canonicalize_rules :: "kernel \<Rightarrow> string list \<Rightarrow> string list option io" where
  "canonicalize_rules K rules = (if rules = [] then State_Monad.return (Some [])
     else opt_bind_io (run_am allocM) (\<lambda>_. each_io (realpath K) rules))"

definition canonicalize_bind_rule :: "kernel \<Rightarrow> bind_rule \<Rightarrow> bind_rule option io" where
  "canonicalize_bind_rule K r =
     opt_bind_io (realpath K (b_source r)) (\<lambda>source.
     opt_bind_io (realpath K (b_target r)) (\<lambda>tgt.
     State_Monad.return (Some \<lparr>b_source = source, b_target = tgt, b_read_only = b_read_only r\<rparr>)))"

definition canonicalize_bind_rules :: "kernel \<Rightarrow> bind_rule list \<Rightarrow> bind_rule list option io" where
  "canonicalize_bind_rules K rules = (if rules = [] then State_Monad.return (Some [])
     else opt_bind_io (run_am allocM) (\<lambda>_. each_io (canonicalize_bind_rule K) rules))"

definition canonicalize_mount_object_rule :: "kernel \<Rightarrow> object_rule \<Rightarrow> object_rule option io" where
  "canonicalize_mount_object_rule K r =
     opt_bind_io (run_am (strdup (o_name r))) (\<lambda>name.
     opt_bind_io (run_am (strdup (o_fs_type r))) (\<lambda>fs_type.
     opt_bind_io (run_am allocM) (\<lambda>_.
     opt_bind_io (each_io (realpath K) (o_attach r)) (\<lambda>attach_paths.
     State_Monad.return (Some \<lparr>o_name = name, o_fs_type = fs_type, o_attach = attach_paths,
       o_attrs = o_attrs r\<rparr>)))))"

definition canonicalize_mount_object_rules :: "kernel \<Rightarrow> object_rule list \<Rightarrow> object_rule list option io" where
  "canonicalize_mount_object_rules K rules = (if rules = [] then State_Monad.return (Some [])
     else opt_bind_io (run_am allocM) (\<lambda>_. each_io (canonicalize_mount_object_rule K) rules))"

definition canonicalize_addfd_rule :: "kernel \<Rightarrow> addfd_rule \<Rightarrow> addfd_rule option io" where
  "canonicalize_addfd_rule K r =
     opt_bind_io (run_am (strdup (a_action r))) (\<lambda>action.
     opt_bind_io (realpath K (a_target r)) (\<lambda>tgt.
     opt_bind_io (case a_mode r of None \<Rightarrow> State_Monad.return (Some None)
       | Some m \<Rightarrow> opt_bind_io (run_am (strdup m)) (\<lambda>c. State_Monad.return (Some (Some c)))) (\<lambda>mode.
     State_Monad.return (Some \<lparr>a_action = action, a_target = tgt, a_mode = mode\<rparr>))))"

definition canonicalize_addfd_rules :: "kernel \<Rightarrow> addfd_rule list \<Rightarrow> addfd_rule list option io" where
  "canonicalize_addfd_rules K rules = (if rules = [] then State_Monad.return (Some [])
     else opt_bind_io (run_am allocM) (\<lambda>_. each_io (canonicalize_addfd_rule K) rules))"

text \<open>\<open>None\<close>: a rule could not be resolved; the allowlist has been cleaned up.\<close>

definition allowlist_init :: "kernel \<Rightarrow> ir \<Rightarrow> allowlist option io" where
  "allowlist_init K ir =
     opt_bind_io (canonicalize_rules K (broker_open_read ir)) (\<lambda>r.
     opt_bind_io (canonicalize_rules K (broker_open_write ir)) (\<lambda>w.
     opt_bind_io (canonicalize_rules K (broker_scratch ir)) (\<lambda>s.
     opt_bind_io (canonicalize_rules K (broker_export ir)) (\<lambda>x.
     opt_bind_io (canonicalize_rules K (broker_mount_tmpfs ir)) (\<lambda>t.
     opt_bind_io (canonicalize_bind_rules K (broker_mount_bind ir)) (\<lambda>b.
     opt_bind_io (canonicalize_mount_object_rules K (broker_mount_object ir)) (\<lambda>ob.
     opt_bind_io (canonicalize_addfd_rules K (broker_addfd ir)) (\<lambda>a.
     State_Monad.return (Some \<lparr>read_paths = r, write_paths = w, scratch_paths = s, export_paths = x,
       mount_tmpfs_paths = t, mount_bind_rules = b, mount_object_rules = ob, addfd_rules = a\<rparr>)))))))))"

subsection \<open>Decisions\<close>

definition path_is_under :: "string \<Rightarrow> string \<Rightarrow> bool" where
  "path_is_under root path \<longleftrightarrow> take (length root) path = root \<and>
     (drop (length root) path = [] \<or> hd (drop (length root) path) = CHR ''/'')"

definition path_has_prefix :: "string \<Rightarrow> string \<Rightarrow> bool" where
  "path_has_prefix path pre \<longleftrightarrow> take (length pre) path = pre \<and>
     (drop (length pre) path = [] \<or> hd (drop (length pre) path) = CHR ''/'')"

definition addfd_allowed :: "allowlist \<Rightarrow> string \<Rightarrow> string \<Rightarrow> string option \<Rightarrow> bool" where
  "addfd_allowed A action tgt mode = list_ex (\<lambda>r. a_action r = action \<and>
     \<not> (mode \<noteq> None \<and> a_mode r \<noteq> None \<and> a_mode r \<noteq> mode) \<and> path_is_under (a_target r) tgt) (addfd_rules A)"

definition mount_object_addfd_covers_action :: "allowlist \<Rightarrow> string \<Rightarrow> object_rule \<Rightarrow> bool" where
  "mount_object_addfd_covers_action A action r \<longleftrightarrow>
     o_attach r \<noteq> [] \<and> list_all (\<lambda>p. addfd_allowed A action p None) (o_attach r)"

text \<open>\<open>O_RDONLY\<close> is 0, \<open>O_WRONLY\<close> 1 and \<open>O_RDWR\<close> 2.\<close>

definition addfd_mode_name :: "int \<Rightarrow> string" where
  "addfd_mode_name access_mode = (if access_mode = 0 then ''read'' else ''write'')"

definition path_in_list :: "string list \<Rightarrow> string \<Rightarrow> bool" where
  "path_in_list paths p = list_ex (\<lambda>q. q = p) paths"

definition path_under_list :: "string list \<Rightarrow> string \<Rightarrow> bool" where
  "path_under_list paths p = list_ex (\<lambda>root. path_is_under root p) paths"

definition find_bind_mount_rule :: "bind_rule list \<Rightarrow> string \<Rightarrow> string \<Rightarrow> bind_rule option" where
  "find_bind_mount_rule rules source tgt = find (\<lambda>r. b_source r = source \<and> b_target r = tgt) rules"

definition find_mount_object_rule :: "object_rule list \<Rightarrow> string \<Rightarrow> object_rule option" where
  "find_mount_object_rule rules name = find (\<lambda>r. o_name r = name) rules"

definition find_mount_object_rule_for_target :: "object_rule list \<Rightarrow> string \<Rightarrow> object_rule option" where
  "find_mount_object_rule_for_target rules tgt = find (\<lambda>r. tgt \<in> set (o_attach r)) rules"

definition mount_object_target_allowed :: "object_rule option \<Rightarrow> string \<Rightarrow> bool" where
  "mount_object_target_allowed r tgt = (case r of None \<Rightarrow> False | Some r \<Rightarrow> tgt \<in> set (o_attach r))"

definition bind_target_in_list :: "bind_rule list \<Rightarrow> string \<Rightarrow> bool" where
  "bind_target_in_list rules tgt = list_ex (\<lambda>r. b_target r = tgt) rules"

definition broker_is_allowed :: "allowlist \<Rightarrow> string \<Rightarrow> int \<Rightarrow> bool" where
  "broker_is_allowed A p access_mode =
     (if access_mode = 0 then path_in_list (read_paths A) p \<or> path_in_list (write_paths A) p
      else if access_mode = 1 \<or> access_mode = 2 then path_in_list (write_paths A) p
      else False)"

subsection \<open>Leases\<close>

definition LEASE_SOURCE :: int where "LEASE_SOURCE = 1"
definition LEASE_OBJECT :: int where "LEASE_OBJECT = 2"

record mount_fd_lease =
  ml_fd :: int
  ml_kind :: int
  ml_value :: string

record fsopen_lease =
  fl_fd :: int
  fl_created :: bool
  fl_name :: string

definition mount_fd_lease_add ::
    "int \<Rightarrow> int \<Rightarrow> string option \<Rightarrow> mount_fd_lease list \<Rightarrow> mount_fd_lease list am" where
  "mount_fd_lease_add remote_fd kind value leases =
     bindM (guardM (\<not> (remote_fd < 0 \<or> \<not> nonempty value \<or> (kind \<noteq> LEASE_SOURCE \<and> kind \<noteq> LEASE_OBJECT)))
       (Err EINVAL)) (\<lambda>_.
     bindM (strdup (the value)) (\<lambda>value_copy.
     bindM allocM (\<lambda>_.
     returnM (leases @ [\<lparr>ml_fd = remote_fd, ml_kind = kind, ml_value = value_copy\<rparr>]))))"

fun mount_fd_lease_take :: "mount_fd_lease list \<Rightarrow> int \<Rightarrow> (mount_fd_lease \<times> mount_fd_lease list) res" where
  "mount_fd_lease_take [] remote_fd = Inl (Err ENOENT)"
| "mount_fd_lease_take (l # ls) remote_fd =
     (if ml_fd l = remote_fd then Inr (l, ls)
      else case mount_fd_lease_take ls remote_fd of Inl e \<Rightarrow> Inl e | Inr (m, ms) \<Rightarrow> Inr (m, l # ms))"

definition fsopen_lease_add ::
    "int \<Rightarrow> string option \<Rightarrow> fsopen_lease list \<Rightarrow> fsopen_lease list am" where
  "fsopen_lease_add remote_fd object_name leases =
     bindM (guardM (\<not> (remote_fd < 0 \<or> \<not> nonempty object_name)) (Err EINVAL)) (\<lambda>_.
     bindM (strdup (the object_name)) (\<lambda>name_copy.
     bindM allocM (\<lambda>_.
     returnM (leases @ [\<lparr>fl_fd = remote_fd, fl_created = False, fl_name = name_copy\<rparr>]))))"

text \<open>The pointer to the entry found is its index.\<close>

fun fsopen_lease_find :: "fsopen_lease list \<Rightarrow> int \<Rightarrow> nat res" where
  "fsopen_lease_find [] remote_fd = Inl (Err ENOENT)"
| "fsopen_lease_find (l # ls) remote_fd =
     (if fl_fd l = remote_fd then Inr 0
      else case fsopen_lease_find ls remote_fd of Inl e \<Rightarrow> Inl e | Inr i \<Rightarrow> Inr (Suc i))"

fun fsopen_lease_take :: "fsopen_lease list \<Rightarrow> int \<Rightarrow> (fsopen_lease \<times> fsopen_lease list) res" where
  "fsopen_lease_take [] remote_fd = Inl (Err ENOENT)"
| "fsopen_lease_take (l # ls) remote_fd =
     (if fl_fd l = remote_fd then Inr (l, ls)
      else case fsopen_lease_take ls remote_fd of Inl e \<Rightarrow> Inl e | Inr (m, ms) \<Rightarrow> Inr (m, l # ms))"

subsection \<open>The lease tables\<close>

text \<open>What both tables offer: \<open>take\<close> hands out the first entry of a descriptor and removes it.\<close>

locale lease_table =
  fixes fd_of :: "'l \<Rightarrow> int" and take_lease :: "'l list \<Rightarrow> int \<Rightarrow> ('l \<times> 'l list) res"
  assumes take_Nil: "take_lease [] fd = Inl (Err ENOENT)"
    and take_Cons: "take_lease (l # ls) fd = (if fd_of l = fd then Inr (l, ls)
      else case take_lease ls fd of Inl e \<Rightarrow> Inl e | Inr (m, ms) \<Rightarrow> Inr (m, l # ms))"
begin

lemma take_Inr:
  "take_lease ls fd = Inr (l, ls') \<Longrightarrow>
    \<exists>xs ys. ls = xs @ l # ys \<and> ls' = xs @ ys \<and> fd_of l = fd \<and> fd \<notin> fd_of ` set xs"
proof (induction ls arbitrary: ls')
  case (Cons k ls)
  show ?case
  proof (cases "fd_of k = fd")
    case True
    then have "k # ls = [] @ l # ls'" "fd_of l = fd" using Cons.prems by (auto simp: take_Cons)
    then show ?thesis by fastforce
  next
    case False
    then obtain ms where "take_lease ls fd = Inr (l, ms)" "ls' = k # ms"
      using Cons.prems by (auto simp: take_Cons split: sum.splits prod.splits)
    then obtain xs ys where "ls = xs @ l # ys" "ls' = (k # xs) @ ys" "fd_of l = fd" "fd \<notin> fd_of ` set xs"
      using Cons.IH by auto
    then show ?thesis using False by (intro exI[of _ "k # xs"] exI[of _ ys]) auto
  qed
qed (simp add: take_Nil)

lemma take_Inl: "take_lease ls fd = Inl e \<longleftrightarrow> e = Err ENOENT \<and> fd \<notin> fd_of ` set ls"
  by (induction ls) (auto simp: take_Nil take_Cons split: sum.splits prod.splits)

lemma take_set: "take_lease ls fd = Inr (l, ls') \<Longrightarrow> l \<in> set ls \<and> fd_of l = fd \<and> set ls' \<subseteq> set ls"
  by (drule take_Inr) auto

lemma take_new: "fd \<notin> fd_of ` set ls \<Longrightarrow> fd_of l = fd \<Longrightarrow> take_lease (ls @ [l]) fd = Inr (l, ls)"
  by (induction ls) (auto simp: take_Nil take_Cons)

end

interpretation mount_leases: lease_table ml_fd mount_fd_lease_take
  by unfold_locales simp_all

interpretation fsopen_leases: lease_table fl_fd fsopen_lease_take
  by unfold_locales simp_all

lemma fsopen_find_nth: "fsopen_lease_find ls fd = Inr i \<Longrightarrow> i < length ls \<and> fl_fd (ls ! i) = fd"
  by (induction ls arbitrary: i) (auto split: if_splits sum.splits)

subsection \<open>Path components\<close>

fun components :: "string \<Rightarrow> string list" where
  "components [] = [[]]"
| "components (c # cs) = (if c = CHR ''/'' then [] # components cs
     else case components cs of [] \<Rightarrow> [[c]] | x # xs \<Rightarrow> (c # x) # xs)"

lemma components_nonempty [simp]: "components p \<noteq> []"
  by (induction p) (auto split: list.splits)

lemma under_Cons: "path_is_under (c # root) (d # p) \<longleftrightarrow> c = d \<and> path_is_under root p"
  by (auto simp: path_is_under_def)

lemma under_Nil: "path_is_under [] p \<longleftrightarrow> p = [] \<or> hd p = CHR ''/''"
  by (simp add: path_is_under_def)

lemma under_None: "\<not> path_is_under (c # root) []"
  by (simp add: path_is_under_def)

lemma components_hd: "hd (components p) = [] \<longleftrightarrow> p = [] \<or> hd p = CHR ''/''"
  by (cases p) (auto split: list.splits)

definition starts_with :: "'a list \<Rightarrow> 'a list \<Rightarrow> bool" where
  "starts_with xs ys \<longleftrightarrow> take (length xs) ys = xs"

lemma under_components: "path_is_under root p \<longleftrightarrow> starts_with (components root) (components p)"
proof (induction root arbitrary: p)
  case Nil
  then show ?case
    using components_hd[of p] by (cases "components p") (auto simp: starts_with_def under_Nil)
next
  case (Cons c root)
  show ?case
  proof (cases p)
    case Nil
    then show ?thesis by (auto simp: starts_with_def under_None split: list.splits)
  next
    case (Cons d q)
    obtain x xs where x: "components root = x # xs" by (cases "components root") auto
    obtain y ys where y: "components q = y # ys" by (cases "components q") auto
    show ?thesis
      using Cons.IH[of q] unfolding Cons under_Cons
      by (auto simp: starts_with_def x y)
  qed
qed

subsection \<open>Properties\<close>


text \<open>A root \<open>/\<close> covers nothing but itself: no canonical path other than \<open>/\<close> (one that starts
  with a slash followed by a name) is covered by it, so a rule for the whole tree grants nothing.\<close>

theorem root_rule_covers_nothing:
  "c \<noteq> CHR ''/'' \<Longrightarrow> \<not> path_under_list [''/''] (CHR ''/'' # c # cs)"
  by (simp add: path_under_list_def path_is_under_def)

theorem root_rule_covers_nothing_witness: "\<not> path_under_list [''/''] ''/tmp''"
  using root_rule_covers_nothing[of "CHR ''t''" "''mp''"] by simp

text \<open>A mount descriptor is good for one use: after the broker hands out a fresh descriptor, one
  \<open>move_mount\<close> finds its lease, with the kind and value it was given, and the table is as before;
  a second attempt fails with ENOENT.\<close>

theorem mount_lease_single_use:
  assumes "0 \<le> fd" "nonempty (Some v)" "kind = LEASE_SOURCE \<or> kind = LEASE_OBJECT" "fd \<notin> ml_fd ` set ls"
  shows "\<exists>ls'. mount_fd_lease_add fd kind (Some v) ls [] = (Inr ls', []) \<and>
     mount_fd_lease_take ls' fd = Inr (\<lparr>ml_fd = fd, ml_kind = kind, ml_value = cstr v\<rparr>, ls) \<and>
     mount_fd_lease_take ls fd = Inl (Err ENOENT)"
  using assms
  by (auto simp: mount_fd_lease_add_def strdup_def am_eval mount_leases.take_Inl intro: mount_leases.take_new)

theorem mount_lease_single_use_witness:
  "\<exists>ls'. mount_fd_lease_add 5 LEASE_OBJECT (Some ''scratch'') [] [] = (Inr ls', []) \<and>
     mount_fd_lease_take ls' 5 = Inr (\<lparr>ml_fd = 5, ml_kind = LEASE_OBJECT, ml_value = cstr ''scratch''\<rparr>, []) \<and>
     mount_fd_lease_take [] 5 = Inl (Err ENOENT)"
  by (rule mount_lease_single_use) (simp_all add: nonempty_def cstr_def NUL_def)

text \<open>Canonical rules: each path is an answer of \<open>realpath\<close> for the path of the policy.\<close>

definition resolved :: "history \<Rightarrow> string \<Rightarrow> string \<Rightarrow> bool" where
  "resolved h p q \<longleftrightarrow> (\<exists>n d. (Realpath p, Done n d) \<in> set h \<and> q = cstr d)"

definition resolved_bind :: "history \<Rightarrow> bind_rule \<Rightarrow> bind_rule \<Rightarrow> bool" where
  "resolved_bind h r q \<longleftrightarrow> resolved h (b_source r) (b_source q) \<and> resolved h (b_target r) (b_target q) \<and>
     b_read_only q = b_read_only r"

definition resolved_object :: "history \<Rightarrow> object_rule \<Rightarrow> object_rule \<Rightarrow> bool" where
  "resolved_object h r q \<longleftrightarrow> o_name q = cstr (o_name r) \<and> o_fs_type q = cstr (o_fs_type r) \<and>
     o_attrs q = o_attrs r \<and> list_all2 (resolved h) (o_attach r) (o_attach q)"

definition resolved_addfd :: "history \<Rightarrow> addfd_rule \<Rightarrow> addfd_rule \<Rightarrow> bool" where
  "resolved_addfd h r q \<longleftrightarrow> a_action q = cstr (a_action r) \<and> resolved h (a_target r) (a_target q) \<and>
     a_mode q = map_option cstr (a_mode r)"

lemma resolved_mono: "resolved g p q \<Longrightarrow> set g \<subseteq> set h \<Longrightarrow> resolved h p q"
  by (auto simp: resolved_def)

lemma resolved_all_mono: "list_all2 (resolved g) ps qs \<Longrightarrow> set g \<subseteq> set h \<Longrightarrow> list_all2 (resolved h) ps qs"
  by (erule list_all2_mono) (auto intro: resolved_mono)

lemma resolved_rules_mono:
  "resolved_bind g r b \<Longrightarrow> set g \<subseteq> set h \<Longrightarrow> resolved_bind h r b"
  "resolved_object g s ob \<Longrightarrow> set g \<subseteq> set h \<Longrightarrow> resolved_object h s ob"
  "resolved_addfd g t a \<Longrightarrow> set g \<subseteq> set h \<Longrightarrow> resolved_addfd h t a"
  by (auto simp: resolved_bind_def resolved_object_def resolved_addfd_def intro: resolved_mono resolved_all_mono)

text \<open>A computation whose result, if any, satisfies \<open>P\<close> on the calls made, for a \<open>P\<close> that further
  calls keep true.\<close>

definition finds :: "(history \<Rightarrow> 'a \<Rightarrow> bool) \<Rightarrow> 'a option io \<Rightarrow> bool" where
  "finds P f \<longleftrightarrow> (\<forall>g. traced (\<lambda>_ _. True) g f (\<lambda>r h. set g \<subseteq> set h \<and> (case r of None \<Rightarrow> True | Some a \<Rightarrow> P h a)))"

lemma finds_return: "(\<And>h. P h a) \<Longrightarrow> finds P (State_Monad.return (Some a))"
  by (simp add: finds_def traced_return)

lemma finds_am: "ensures f Q \<Longrightarrow> (\<And>h a. Q a \<Longrightarrow> P h a) \<Longrightarrow> finds P (run_am f)"
  by (auto simp: finds_def intro!: traced_run_am)

lemma finds_bind:
  assumes "finds P f" "\<And>a. finds (R a) (h a)" "\<And>a b g h. P g a \<Longrightarrow> R a h b \<Longrightarrow> set g \<subseteq> set h \<Longrightarrow> Q h b"
  shows "finds Q (opt_bind_io f h)"
  unfolding finds_def opt_bind_io_def
proof (intro allI traced_bind traced_mono[OF assms(1)[unfolded finds_def, THEN spec]], elim conjE)
  fix g r g'
  assume r: "set g \<subseteq> set g'" "case r of None \<Rightarrow> True | Some a \<Rightarrow> P g' a"
  show "traced (\<lambda>_ _. True) g' (case r of None \<Rightarrow> State_Monad.return None | Some a \<Rightarrow> h a)
      (\<lambda>r h. set g \<subseteq> set h \<and> (case r of None \<Rightarrow> True | Some a \<Rightarrow> Q h a))"
  proof (cases r)
    case (Some a)
    show ?thesis
      unfolding Some option.case
      by (rule traced_mono[OF assms(2)[unfolded finds_def, THEN spec]])
        (use r assms(3) Some in \<open>auto split: option.splits\<close>)
  qed (use r in \<open>simp add: traced_return\<close>)
qed

lemma finds_then:
  assumes "finds P f" "\<And>a. finds (\<lambda>h b. P h a \<longrightarrow> Q h b) (k a)" "\<And>g h a. P g a \<Longrightarrow> set g \<subseteq> set h \<Longrightarrow> P h a"
  shows "finds Q (opt_bind_io f k)"
  by (rule finds_bind[OF assms(1,2)]) (auto intro: assms(3))

lemma finds_each:
  assumes "\<And>x. finds (\<lambda>h. P h x) (f x)" "\<And>g h x a. P g x a \<Longrightarrow> set g \<subseteq> set h \<Longrightarrow> P h x a"
  shows "finds (\<lambda>h. list_all2 (P h) xs) (each_io f xs)"
proof (induction xs)
  case (Cons x xs)
  have e: "each_io f (x # xs) = opt_bind_io (f x) (\<lambda>y. opt_bind_io (each_io f xs) (\<lambda>ys. State_Monad.return (Some (y # ys))))"
    by (simp add: opt_bind_io_def) (intro arg_cong[where f = "State_Monad.bind (f x)"] ext, auto split: option.splits
        intro!: arg_cong[where f = "State_Monad.bind (each_io f xs)"])
  show ?case
    unfolding e
    by (rule finds_bind[OF assms(1), where R = "\<lambda>y h ys. \<exists>ys'. ys = y # ys' \<and> list_all2 (P h) xs ys'"])
      (rule finds_bind[OF Cons, where R = "\<lambda>ys h zs. zs = _ # ys"], rule finds_return,
        auto intro: assms(2) elim!: list_all2_mono)
qed (simp add: finds_return)

lemma finds_realpath: "finds (\<lambda>h. resolved h p) (realpath K p)"
  unfolding finds_def realpath_def
  by (intro allI traced_bind traced_sysd traced_return) (auto simp: resolved_def)

lemma finds_list:
  assumes "\<And>x. finds (\<lambda>h. P h x) (f x)" "\<And>g h x a. P g x a \<Longrightarrow> set g \<subseteq> set h \<Longrightarrow> P h x a"
  shows "finds (\<lambda>h. list_all2 (P h) xs) (if xs = [] then State_Monad.return (Some [])
    else opt_bind_io (run_am allocM) (\<lambda>_. each_io f xs))"
proof (cases "xs = []")
  case False
  have "finds (\<lambda>h. list_all2 (P h) xs) (opt_bind_io (run_am allocM) (\<lambda>_. each_io f xs))"
    by (rule finds_bind[OF finds_am[where P = "\<lambda>h u. True" and Q = "\<lambda>u. True"] finds_each[of P, OF assms]])
      (auto simp: ensures_def)
  with False show ?thesis by simp
qed (simp add: finds_return)

lemma finds_rules: "finds (\<lambda>h. list_all2 (resolved h) ps) (canonicalize_rules K ps)"
  unfolding canonicalize_rules_def
  by (rule finds_list[where P = resolved]) (auto intro: finds_realpath resolved_mono)

lemma finds_bind_rules: "finds (\<lambda>h. list_all2 (resolved_bind h) rs) (canonicalize_bind_rules K rs)"
proof -
  have "finds (\<lambda>h. resolved_bind h r) (canonicalize_bind_rule K r)" for r
    unfolding canonicalize_bind_rule_def
    by (intro finds_then[OF finds_realpath] finds_return) (auto simp: resolved_bind_def intro: resolved_mono)
  then show ?thesis
    unfolding canonicalize_bind_rules_def
    by (intro finds_list[where P = resolved_bind]) (auto intro: resolved_rules_mono)
qed

lemma finds_strdup: "finds (\<lambda>h c. c = cstr s) (run_am (strdup s))"
  by (rule finds_am[OF ensures_strdup[where Q = "\<lambda>c. c = cstr s"]]) simp_all

lemma finds_addfd_rules: "finds (\<lambda>h. list_all2 (resolved_addfd h) rs) (canonicalize_addfd_rules K rs)"
proof -
  have m: "finds (\<lambda>h c. c = map_option cstr m) (case m of None \<Rightarrow> State_Monad.return (Some None)
       | Some m \<Rightarrow> opt_bind_io (run_am (strdup m)) (\<lambda>c. State_Monad.return (Some (Some c))))" for m
    by (cases m) (auto intro!: finds_return finds_then[OF finds_strdup])
  have "finds (\<lambda>h. resolved_addfd h r) (canonicalize_addfd_rule K r)" for r
    unfolding canonicalize_addfd_rule_def
    by (intro finds_then[OF finds_strdup] finds_then[OF finds_realpath] finds_then[OF m] finds_return)
      (auto simp: resolved_addfd_def intro: resolved_mono)
  then show ?thesis
    unfolding canonicalize_addfd_rules_def
    by (intro finds_list[where P = resolved_addfd]) (auto intro: resolved_rules_mono)
qed

lemma finds_object_rules:
  "finds (\<lambda>h. list_all2 (resolved_object h) rs) (canonicalize_mount_object_rules K rs)"
proof -
  have calloc: "finds (\<lambda>h u. True) (run_am allocM)" by (rule finds_am[where Q = "\<lambda>u. True"]) (simp_all add: ensures_def)
  have attach: "finds (\<lambda>h. list_all2 (resolved h) ps) (each_io (realpath K) ps)" for ps
    by (rule finds_each[of resolved]) (auto intro: finds_realpath resolved_mono)
  have "finds (\<lambda>h. resolved_object h r) (canonicalize_mount_object_rule K r)" for r
    unfolding canonicalize_mount_object_rule_def
    by (intro finds_then[OF finds_strdup] finds_then[OF calloc] finds_then[OF attach] finds_return)
      (auto simp: resolved_object_def intro: resolved_all_mono)
  then show ?thesis
    unfolding canonicalize_mount_object_rules_def
    by (intro finds_list[where P = resolved_object]) (auto intro: resolved_rules_mono)
qed

definition allowlist_of :: "history \<Rightarrow> ir \<Rightarrow> allowlist \<Rightarrow> bool" where
  "allowlist_of h ir A \<longleftrightarrow>
     list_all2 (resolved h) (broker_open_read ir) (read_paths A) \<and>
     list_all2 (resolved h) (broker_open_write ir) (write_paths A) \<and>
     list_all2 (resolved h) (broker_scratch ir) (scratch_paths A) \<and>
     list_all2 (resolved h) (broker_export ir) (export_paths A) \<and>
     list_all2 (resolved h) (broker_mount_tmpfs ir) (mount_tmpfs_paths A) \<and>
     list_all2 (resolved_bind h) (broker_mount_bind ir) (mount_bind_rules A) \<and>
     list_all2 (resolved_object h) (broker_mount_object ir) (mount_object_rules A) \<and>
     list_all2 (resolved_addfd h) (broker_addfd ir) (addfd_rules A)"

lemma resolved_lists_mono:
  "list_all2 (resolved_bind g) rs bs \<Longrightarrow> set g \<subseteq> set h \<Longrightarrow> list_all2 (resolved_bind h) rs bs"
  "list_all2 (resolved_object g) ss obs \<Longrightarrow> set g \<subseteq> set h \<Longrightarrow> list_all2 (resolved_object h) ss obs"
  "list_all2 (resolved_addfd g) ts as \<Longrightarrow> set g \<subseteq> set h \<Longrightarrow> list_all2 (resolved_addfd h) ts as"
  by (erule list_all2_mono, erule resolved_rules_mono, assumption)+

lemma finds_allowlist: "finds (\<lambda>h. allowlist_of h ir) (allowlist_init K ir)"
  unfolding allowlist_init_def
  by (rule finds_then[OF finds_rules], rule finds_then[OF finds_rules], rule finds_then[OF finds_rules],
      rule finds_then[OF finds_rules], rule finds_then[OF finds_rules], rule finds_then[OF finds_bind_rules],
      rule finds_then[OF finds_object_rules], rule finds_then[OF finds_addfd_rules], rule finds_return,
      simp add: allowlist_of_def)
    (erule (1) resolved_lists_mono | erule (1) resolved_all_mono)+

text \<open>C36: The broker decides on canonical paths only: if the allowlist is built at all, it has one entry
  for each rule of the policy, in order, whose paths are the kernel's resolution of the rule's
  paths and whose other parts are the rule's.\<close>

theorem allowlist_is_canonical:
  "wp (allowlist_init K ir) (\<lambda>r w'. case r of None \<Rightarrow> True
     | Some A \<Rightarrow> (\<exists>es. w_trace w' = w_trace w @ es \<and> allowlist_of es ir A)) w"
proof -
  obtain r w' where run: "run_state (allowlist_init K ir) w = (r, w')" by fastforce
  have "traced (\<lambda>_ _. True) [] (allowlist_init K ir)
      (\<lambda>r h. set [] \<subseteq> set h \<and> (case r of None \<Rightarrow> True | Some A \<Rightarrow> allowlist_of h ir A))"
    using finds_allowlist[of ir K] unfolding finds_def by blast
  then obtain es where "w_trace w' = w_trace w @ es" "case r of None \<Rightarrow> True | Some A \<Rightarrow> allowlist_of ([] @ es) ir A"
    by (rule tracedD[OF _ run]) blast
  then show ?thesis unfolding wp_def run prod.case by (cases r) auto
qed

end
