(* ===== verification/Audit_Log.thy ===== *)
theory Audit_Log
  imports Kernel
begin

text \<open>
  \<open>src/src/landlockd_audit.c\<close>: one audit record is one line of JSON, assembled in a growing buffer
  and written to the diagnostic stream. \<open>audit\<close> holds the file's static variables. A stream is
  the descriptor \<open>fileno\<close> gives for it, a null stream is \<open>None\<close>. The clock and its formatting by
  the C library are the event \<open>Timestamp\<close>. The write loop restarts on EINTR and on short
  writes; it carries fuel, which bounds the number of its iterations.
\<close>

subsection \<open>Decimal and hexadecimal numbers\<close>

fun dec_nat :: "nat \<Rightarrow> string" where
  "dec_nat n = (if n < 10 then [char_of (48 + n)] else dec_nat (n div 10) @ [char_of (48 + n mod 10)])"

declare dec_nat.simps [simp del]

text \<open>\<open>%d\<close>, \<open>%lld\<close>\<close>

definition dec :: "int \<Rightarrow> string" where
  "dec i = (if i < 0 then CHR ''-'' # dec_nat (nat (- i)) else dec_nat (nat i))"

definition hex_digit :: "nat \<Rightarrow> char" where
  "hex_digit n = (if n < 10 then char_of (48 + n) else char_of (87 + n))"

subsection \<open>The buffer\<close>

record audit =
  au_diag :: "int option"
  au_buf :: string
  au_cap :: nat

function grow_cap :: "nat \<Rightarrow> nat \<Rightarrow> nat" where
  "grow_cap need cap = (if need > cap \<and> cap > 0 then grow_cap need (cap * 2) else cap)"
  by auto
termination by (relation "measure (\<lambda>(need, cap). need - cap)") auto

declare grow_cap.simps [simp del]

definition audit_append :: "string \<Rightarrow> audit \<Rightarrow> (int \<times> audit) io" where
  "audit_append s a =
     (if s = [] then State_Monad.return (0, a)
      else if length (au_buf a) + length s + 1 \<le> au_cap a
      then State_Monad.return (0, a\<lparr>au_buf := au_buf a @ s\<rparr>)
      else let new_cap = grow_cap (length (au_buf a) + length s + 1) (if au_cap a = 0 then 256 else au_cap a) in do {
        new_buf \<leftarrow> run_am allocM;
        case new_buf of None \<Rightarrow> State_Monad.return (-1, a)
        | Some _ \<Rightarrow> State_Monad.return (0, a\<lparr>au_buf := au_buf a @ s, au_cap := new_cap\<rparr>) })"

text \<open>Every caller ignores the result.\<close>

definition append_text :: "string \<Rightarrow> audit \<Rightarrow> audit io" where
  "append_text s a = do { r \<leftarrow> audit_append s a; State_Monad.return (snd r) }"

definition escape_char :: "char \<Rightarrow> string" where
  "escape_char c =
     (if c = CHR 0x22 then [CHR 0x5C, CHR 0x22]
      else if c = CHR 0x5C then [CHR 0x5C, CHR 0x5C]
      else if c = CHR 0x08 then [CHR 0x5C, CHR ''b'']
      else if c = CHR 0x0C then [CHR 0x5C, CHR ''f'']
      else if c = CHR 0x0A then [CHR 0x5C, CHR ''n'']
      else if c = CHR 0x0D then [CHR 0x5C, CHR ''r'']
      else if c = CHR 0x09 then [CHR 0x5C, CHR ''t'']
      else if of_char c < (0x20 :: nat)
      then [CHR 0x5C, CHR ''u'', CHR ''0'', CHR ''0'', hex_digit (of_char c div 16), hex_digit (of_char c mod 16)]
      else [c])"

fun emit_chars :: "string \<Rightarrow> audit \<Rightarrow> audit io" where
  "emit_chars [] a = State_Monad.return a"
| "emit_chars (c # cs) a = do { a \<leftarrow> append_text (escape_char c) a; emit_chars cs a }"

definition audit_emit_escaped :: "string option \<Rightarrow> audit \<Rightarrow> audit io" where
  "audit_emit_escaped value a = (case value of None \<Rightarrow> append_text ''null'' a
     | Some v \<Rightarrow> do {
         a \<leftarrow> append_text [CHR 0x22] a;
         a \<leftarrow> emit_chars (cstr v) a;
         append_text [CHR 0x22] a })"

text \<open>\<open>first_field\<close> is threaded through; the result is the cleared flag.\<close>

definition audit_field_prefix :: "bool \<Rightarrow> string \<Rightarrow> audit \<Rightarrow> audit io" where
  "audit_field_prefix first_field key a = do {
     a \<leftarrow> (if \<not> first_field then append_text '','' a else State_Monad.return a);
     a \<leftarrow> audit_emit_escaped (Some key) a;
     append_text '':'' a }"

definition audit_field_string ::
    "int option \<Rightarrow> string \<Rightarrow> string option \<Rightarrow> bool \<times> audit \<Rightarrow> (bool \<times> audit) io" where
  "audit_field_string diag key value fa = (if diag = None then State_Monad.return fa else do {
     a \<leftarrow> audit_field_prefix (fst fa) key (snd fa);
     a \<leftarrow> audit_emit_escaped value a;
     State_Monad.return (False, a) })"

definition audit_field_int ::
    "int option \<Rightarrow> string \<Rightarrow> int \<Rightarrow> bool \<times> audit \<Rightarrow> (bool \<times> audit) io" where
  "audit_field_int diag key value fa = (if diag = None then State_Monad.return fa else do {
     a \<leftarrow> audit_field_prefix (fst fa) key (snd fa);
     a \<leftarrow> append_text (dec value) a;
     State_Monad.return (False, a) })"

definition audit_field_uint ::
    "int option \<Rightarrow> string \<Rightarrow> nat \<Rightarrow> bool \<times> audit \<Rightarrow> (bool \<times> audit) io" where
  "audit_field_uint diag key value fa = (if diag = None then State_Monad.return fa else do {
     a \<leftarrow> audit_field_prefix (fst fa) key (snd fa);
     a \<leftarrow> append_text (dec_nat value) a;
     State_Monad.return (False, a) })"

definition audit_begin ::
    "kernel \<Rightarrow> int option \<Rightarrow> string \<Rightarrow> bool \<times> audit \<Rightarrow> (bool \<times> audit) io" where
  "audit_begin K diag event fa = (if diag = None then State_Monad.return fa else do {
     a \<leftarrow> append_text ''{'' \<lparr>au_diag = diag, au_buf = [], au_cap = 0\<rparr>;
     fa \<leftarrow> audit_field_string diag ''component'' (Some ''landlockd'') (True, a);
     fa \<leftarrow> audit_field_string diag ''event'' (Some event) fa;
     t \<leftarrow> sysd K Timestamp;
     fa \<leftarrow> audit_field_string diag ''timestamp'' (Some (snd t)) fa;
     job_id \<leftarrow> sysd K (Getenv ''LANDLOCKD_JOB_ID'');
     if fst job_id < 0 then State_Monad.return fa
     else audit_field_string diag ''job_id'' (Some (snd job_id)) fa })"

fun audit_write :: "nat \<Rightarrow> kernel \<Rightarrow> int \<Rightarrow> string \<Rightarrow> unit io" where
  "audit_write 0 K fd s = State_Monad.return ()"
| "audit_write (Suc n) K fd s = (if s = [] then State_Monad.return () else do {
     nwritten \<leftarrow> sys K (Write fd s);
     if nwritten < 0 then do {
       e \<leftarrow> get_errno;
       if e = EINTR then audit_write n K fd s else State_Monad.return () }
     else audit_write n K fd (drop (nat nwritten) s) })"

definition audit_end :: "nat \<Rightarrow> kernel \<Rightarrow> int option \<Rightarrow> audit \<Rightarrow> audit io" where
  "audit_end N K diag a = (if diag = None then State_Monad.return a else do {
     a \<leftarrow> append_text (CHR ''}'' # [CHR 0x0A]) a;
     _ \<leftarrow> (case au_diag a of None \<Rightarrow> State_Monad.return ()
         | Some fd \<Rightarrow> if fd \<ge> 0 then audit_write N K fd (au_buf a) else State_Monad.return ());
     State_Monad.return \<lparr>au_diag = None, au_buf = [], au_cap = 0\<rparr> })"

subsection \<open>A record\<close>

text \<open>The audit functions of the program call \<open>audit_begin\<close>, put fields and call \<open>audit_end\<close>.\<close>

datatype field = FStr string "string option" | FInt string int | FUint string nat

fun put_field :: "int option \<Rightarrow> field \<Rightarrow> bool \<times> audit \<Rightarrow> (bool \<times> audit) io" where
  "put_field diag (FStr key value) fa = audit_field_string diag key value fa"
| "put_field diag (FInt key value) fa = audit_field_int diag key value fa"
| "put_field diag (FUint key value) fa = audit_field_uint diag key value fa"

fun put_fields :: "int option \<Rightarrow> field list \<Rightarrow> bool \<times> audit \<Rightarrow> (bool \<times> audit) io" where
  "put_fields diag [] fa = State_Monad.return fa"
| "put_fields diag (f # fs) fa = do { fa \<leftarrow> put_field diag f fa; put_fields diag fs fa }"

definition audit_idle :: audit where
  "audit_idle = \<lparr>au_diag = None, au_buf = [], au_cap = 0\<rparr>"

definition audit_event :: "nat \<Rightarrow> kernel \<Rightarrow> int option \<Rightarrow> string \<Rightarrow> field list \<Rightarrow> unit io" where
  "audit_event N K diag event fs = do {
     fa \<leftarrow> audit_begin K diag event (True, audit_idle);
     fa \<leftarrow> put_fields diag fs fa;
     _ \<leftarrow> audit_end N K diag (snd fa);
     State_Monad.return () }"

subsection \<open>What a reader of the log sees\<close>

text \<open>
  A byte-level reader for one record: an object of string, null and integer members on a line.
\<close>

datatype json = JStr string | JNull | JInt int

definition hex_value :: "char \<Rightarrow> nat" where
  "hex_value c = (if of_char c < (58 :: nat) then of_char c - 48 else of_char c - 87)"

definition simple_escape :: "char \<Rightarrow> char option" where
  "simple_escape e = (if e = CHR 0x22 \<or> e = CHR 0x5C then Some e
     else map_of [(CHR ''b'', CHR 0x08), (CHR ''f'', CHR 0x0C), (CHR ''n'', CHR 0x0A),
       (CHR ''r'', CHR 0x0D), (CHR ''t'', CHR 0x09)] e)"

definition cons_fst :: "char \<Rightarrow> (string \<times> string) option \<Rightarrow> (string \<times> string) option" where
  "cons_fst c = map_option (\<lambda>(s, r). (c # s, r))"

fun read_string :: "string \<Rightarrow> (string \<times> string) option" where
  "read_string [] = None"
| "read_string (c # cs) =
     (if c = CHR 0x22 then Some ([], cs)
      else if c \<noteq> CHR 0x5C then (if of_char c < (0x20 :: nat) then None else cons_fst c (read_string cs))
      else case cs of [] \<Rightarrow> None
        | e # r \<Rightarrow> (if e = CHR ''u'' then
             (case r of h1 # h2 # h3 # h4 # r' \<Rightarrow> cons_fst (char_of (hex_value h1 * 4096 +
                hex_value h2 * 256 + hex_value h3 * 16 + hex_value h4)) (read_string r') | _ \<Rightarrow> None)
           else (case simple_escape e of None \<Rightarrow> None | Some ch \<Rightarrow> cons_fst ch (read_string r))))"

definition is_digit :: "char \<Rightarrow> bool" where
  "is_digit c \<longleftrightarrow> 48 \<le> (of_char c :: nat) \<and> (of_char c :: nat) < 58"

definition digits_value :: "string \<Rightarrow> nat" where
  "digits_value s = foldl (\<lambda>n c. 10 * n + (of_char c - 48)) 0 s"

definition read_nat :: "string \<Rightarrow> (nat \<times> string) option" where
  "read_nat s = (if takeWhile is_digit s = [] then None
     else Some (digits_value (takeWhile is_digit s), dropWhile is_digit s))"

definition read_value :: "string \<Rightarrow> (json \<times> string) option" where
  "read_value s = (case s of [] \<Rightarrow> None
     | c # r \<Rightarrow> if c = CHR 0x22 then map_option (\<lambda>(v, r). (JStr v, r)) (read_string r)
         else if take 4 s = ''null'' then Some (JNull, drop 4 s)
         else if c = CHR ''-'' then map_option (\<lambda>(n, r). (JInt (- int n), r)) (read_nat r)
         else map_option (\<lambda>(n, r). (JInt (int n), r)) (read_nat s))"

fun read_members :: "nat \<Rightarrow> string \<Rightarrow> (string \<times> json) list option" where
  "read_members 0 s = None"
| "read_members (Suc n) s = (case s of [] \<Rightarrow> None
     | q # s \<Rightarrow> if q \<noteq> CHR 0x22 then None else
       (case read_string s of None \<Rightarrow> None | Some (key, s) \<Rightarrow>
       (case s of [] \<Rightarrow> None | d # s \<Rightarrow> if d \<noteq> CHR '':'' then None else
       (case read_value s of None \<Rightarrow> None | Some (v, s) \<Rightarrow>
         if s = [CHR ''}'', CHR 0x0A] then Some [(key, v)]
         else (case s of [] \<Rightarrow> None | e # s \<Rightarrow> if e \<noteq> CHR '','' then None
           else map_option ((#) (key, v)) (read_members n s))))))"

definition read_record :: "string \<Rightarrow> (string \<times> json) list option" where
  "read_record s = (case s of [] \<Rightarrow> None | c # r \<Rightarrow> if c = CHR ''{'' then read_members (length r) r else None)"

subsection \<open>Printed strings and numbers read back\<close>

lemma hex_value_digit: "k < 16 \<Longrightarrow> hex_value (hex_digit k) = k"
  by (simp add: hex_value_def hex_digit_def of_char_of)

lemma hex_zero: "hex_value (CHR ''0'') = 0"
  by (simp add: hex_value_def)

lemma hex_escape:
  "char_of (hex_value (hex_digit (of_char c div 16)) * 16 + hex_value (hex_digit (of_char c mod 16))) = c"
proof -
  have "of_char c < (256 :: nat)" by (rule nat_of_char_less_256)
  then show ?thesis by (simp add: hex_value_digit div_mult_mod_eq less_mult_imp_div_less)
qed

lemma escape_reads: "read_string (escape_char c @ s) = cons_fst c (read_string s)"
  unfolding escape_char_def
  by (simp add: simple_escape_def hex_escape hex_zero)

definition quoted :: "string \<Rightarrow> string" where
  "quoted s = CHR 0x22 # concat (map escape_char s) @ [CHR 0x22]"

lemma read_string_quoted: "read_string (concat (map escape_char s) @ CHR 0x22 # r) = Some (s, r)"
  by (induction s) (simp_all add: escape_reads cons_fst_def del: read_string.simps(2), simp)

lemma digit_char [simp]: "n < 10 \<Longrightarrow> of_char (char_of (48 + n) :: char) = (48 + n :: nat)"
  by (simp add: of_char_of)

lemma is_digit_char [simp]: "n < (10 :: nat) \<Longrightarrow> is_digit (char_of (48 + n))"
  by (simp add: is_digit_def)

lemma dec_nat_digits: "list_all is_digit (dec_nat n) \<and> dec_nat n \<noteq> []"
  by (induction n rule: dec_nat.induct) (subst (1 2) dec_nat.simps, auto)

lemma digits_value_snoc: "digits_value (s @ [c]) = 10 * digits_value s + (of_char c - 48)"
  by (simp add: digits_value_def)

lemma digits_value_dec: "digits_value (dec_nat n) = n"
proof (induction n rule: dec_nat.induct)
  case (1 n)
  then show ?case
    by (subst dec_nat.simps) (auto simp: digits_value_snoc, simp add: digits_value_def)
qed

lemma read_nat_dec: "r \<noteq> [] \<Longrightarrow> \<not> is_digit (hd r) \<Longrightarrow> read_nat (dec_nat n @ r) = Some (n, r)"
proof -
  assume r: "r \<noteq> []" "\<not> is_digit (hd r)"
  have d: "\<forall>c \<in> set (dec_nat n). is_digit c" "dec_nat n \<noteq> []"
    using dec_nat_digits[of n] by (simp_all add: list_all_iff)
  have e: "takeWhile is_digit r = []" "dropWhile is_digit r = r" using r by (cases r; simp)+
  have "takeWhile is_digit (dec_nat n @ r) = dec_nat n" "dropWhile is_digit (dec_nat n @ r) = r"
    using d e by (simp_all add: takeWhile_append2 dropWhile_append2)
  then show ?thesis using d by (simp add: read_nat_def digits_value_dec)
qed

subsection \<open>The text of a record\<close>

definition field_text :: "field \<Rightarrow> string" where
  "field_text f = (case f of
     FStr k v \<Rightarrow> quoted (cstr k) @ '':'' @ (case v of None \<Rightarrow> ''null'' | Some v \<Rightarrow> quoted (cstr v))
   | FInt k i \<Rightarrow> quoted (cstr k) @ '':'' @ dec i
   | FUint k n \<Rightarrow> quoted (cstr k) @ '':'' @ dec_nat n)"

fun members_text :: "field list \<Rightarrow> string" where
  "members_text [] = []"
| "members_text [f] = field_text f"
| "members_text (f # fs) = field_text f @ '','' @ members_text fs"

definition record_text :: "field list \<Rightarrow> string" where
  "record_text fs = ''{'' @ members_text fs @ [CHR ''}'', CHR 0x0A]"

definition json_of :: "field \<Rightarrow> string \<times> json" where
  "json_of f = (case f of
     FStr k v \<Rightarrow> (cstr k, case v of None \<Rightarrow> JNull | Some v \<Rightarrow> JStr (cstr v))
   | FInt k i \<Rightarrow> (cstr k, JInt i)
   | FUint k n \<Rightarrow> (cstr k, JInt (int n)))"

lemma dec_nat_first: "\<exists>c r. dec_nat n = c # r \<and> is_digit c"
  using dec_nat_digits[of n] by (cases "dec_nat n") auto

lemma is_digit_not: "is_digit c \<Longrightarrow> c \<noteq> CHR 0x22 \<and> c \<noteq> CHR ''n'' \<and> c \<noteq> CHR ''-''"
  by (auto simp: is_digit_def)

lemma read_value_nat: "r \<noteq> [] \<Longrightarrow> \<not> is_digit (hd r) \<Longrightarrow> read_value (dec_nat n @ r) = Some (JInt (int n), r)"
  using dec_nat_first[of n] read_nat_dec[of r n] by (auto simp: read_value_def dest: is_digit_not)

lemma read_value_int: "r \<noteq> [] \<Longrightarrow> \<not> is_digit (hd r) \<Longrightarrow> read_value (dec i @ r) = Some (JInt i, r)"
  using read_value_nat[of r "nat i"] read_nat_dec[of r "nat (- i)"]
  by (auto simp: dec_def read_value_def[of "CHR ''-'' # _"])

lemma read_value_quoted: "read_value (quoted v @ r) = Some (JStr v, r)"
  by (simp add: read_value_def quoted_def read_string_quoted)

lemma read_value_null: "read_value (''null'' @ r) = Some (JNull, r)"
  by (simp add: read_value_def)

lemma field_text_split:
  assumes "r \<noteq> []" "\<not> is_digit (hd r)"
  shows "\<exists>v. field_text f @ r = quoted (fst (json_of f)) @ CHR '':'' # v \<and> read_value v = Some (snd (json_of f), r)"
  using assms read_value_null[of r]
  by (cases f) (auto simp: field_text_def json_of_def read_value_quoted read_value_int read_value_nat split: option.splits)

lemma read_members_field:
  assumes "r \<noteq> []" "\<not> is_digit (hd r)"
  shows "read_members (Suc n) (field_text f @ r) = (if r = [CHR ''}'', CHR 0x0A] then Some [json_of f]
     else if hd r \<noteq> CHR '','' then None else map_option ((#) (json_of f)) (read_members n (tl r)))"
proof -
  obtain v where v: "field_text f @ r = quoted (fst (json_of f)) @ CHR '':'' # v"
    "read_value v = Some (snd (json_of f), r)"
    using field_text_split[OF assms] by blast
  show ?thesis
    unfolding v(1) using v(2) assms(1)
    by (cases r) (simp_all add: quoted_def read_string_quoted)
qed

lemma read_members_text: "fs \<noteq> [] \<Longrightarrow> length fs \<le> n \<Longrightarrow>
    read_members n (members_text fs @ [CHR ''}'', CHR 0x0A]) = Some (map json_of fs)"
proof (induction fs arbitrary: n rule: members_text.induct)
  case (2 f)
  then obtain m where "n = Suc m" by (cases n) auto
  then show ?case using read_members_field[of "[CHR ''}'', CHR 0x0A]" m f] by (simp add: is_digit_def)
next
  case (3 f g fs)
  then obtain m where "n = Suc m" "length (g # fs) \<le> m" by (cases n) auto
  then show ?case
    using 3 read_members_field[of "CHR '','' # members_text (g # fs) @ [CHR ''}'', CHR 0x0A]" m f]
    by (simp add: is_digit_def del: members_text.simps(2))
qed simp

lemma length_members_text: "length fs \<le> length (members_text fs @ r)"
proof -
  have "0 < length (field_text f)" for f by (cases f) (simp_all add: field_text_def quoted_def)
  then show ?thesis
    by (induction fs rule: members_text.induct) (auto intro: Suc_leI trans_le_add1)
qed

lemma read_record_text: "fs \<noteq> [] \<Longrightarrow> read_record (record_text fs) = Some (map json_of fs)"
  by (simp add: record_text_def read_record_def read_members_text length_members_text
      del: read_members.simps length_append)

lemma record_text_one_line: "CHR 0x0A \<notin> set (butlast (record_text fs))"
proof -
  have esc: "CHR 0x0A \<notin> set (escape_char c)" for c
  proof -
    have "hex_digit k \<noteq> CHR 0x0A" if "k < 16" for k
    proof
      assume "hex_digit k = CHR 0x0A"
      then have "of_char (hex_digit k) = (of_char (CHR 0x0A) :: nat)" by simp
      then show False using that by (simp add: hex_digit_def of_char_of split: if_splits)
    qed
    moreover have "of_char c div 16 < (16 :: nat)" using nat_of_char_less_256[of c] by (simp add: less_mult_imp_div_less)
    ultimately have h: "CHR 0x0A \<noteq> hex_digit (of_char c div 16)" "CHR 0x0A \<noteq> hex_digit (of_char c mod 16)" by (metis mod_less_divisor zero_less_numeral)+
    show ?thesis unfolding escape_char_def by (auto simp: h)
  qed
  have dn: "CHR 0x0A \<notin> set (dec_nat n)" for n
    using dec_nat_digits[of n] by (auto simp: list_all_iff is_digit_def)
  have "CHR 0x0A \<notin> set (field_text f)" for f
    using esc dn by (cases f) (auto simp: field_text_def quoted_def dec_def split: option.splits if_splits)
  then have "CHR 0x0A \<notin> set (members_text fs)"
    by (induction fs rule: members_text.induct) auto
  then show ?thesis by (simp add: record_text_def butlast_append)
qed

subsection \<open>The code produces that text\<close>

text \<open>Without allocation failures a function appends a text and changes nothing else.\<close>

definition appends :: "(audit \<Rightarrow> audit io) \<Rightarrow> string \<Rightarrow> bool" where
  "appends f s \<longleftrightarrow> (\<forall>a w. w_alloc w = [] \<longrightarrow>
     (\<exists>a'. run_state (f a) w = (a', w) \<and> au_buf a' = au_buf a @ s \<and> au_diag a' = au_diag a))"

lemma appends_text: "appends (append_text s) s"
  by (simp add: appends_def append_text_def audit_append_def Let_def run_am_def allocM_eval)

lemma appendsE:
  assumes "appends f s" "w_alloc w = []"
  obtains a' where "run_state (f a) w = (a', w)" "au_buf a' = au_buf a @ s" "au_diag a' = au_diag a"
  using assms unfolding appends_def by blast

lemma appends_bind:
  assumes "appends f s" "appends g t"
  shows "appends (\<lambda>a. State_Monad.bind (f a) g) (s @ t)"
  unfolding appends_def
proof (intro allI impI)
  fix a and w :: world
  assume w: "w_alloc w = []"
  obtain b where b: "run_state (f a) w = (b, w)" "au_buf b = au_buf a @ s" "au_diag b = au_diag a"
    using appendsE[OF assms(1) w] by blast
  obtain c where "run_state (g b) w = (c, w)" "au_buf c = au_buf b @ t" "au_diag c = au_diag b"
    using appendsE[OF assms(2) w] by blast
  with b show "\<exists>a'. run_state (State_Monad.bind (f a) g) w = (a', w) \<and> au_buf a' = au_buf a @ s @ t \<and>
      au_diag a' = au_diag a" by simp
qed

lemma appends_chars: "appends (emit_chars s) (concat (map escape_char s))"
proof (induction s)
  case (Cons c s)
  then show ?case using appends_bind[OF appends_text Cons] by simp
qed (simp add: appends_def)

lemma appends_escaped: "appends (audit_emit_escaped v) (case v of None \<Rightarrow> ''null'' | Some v \<Rightarrow> quoted (cstr v))"
proof (cases v)
  case (Some s)
  then show ?thesis
    using appends_bind[OF appends_text[of "[CHR 0x22]"] appends_bind[OF appends_chars[of "cstr s"] appends_text[of "[CHR 0x22]"]]]
    by (simp add: audit_emit_escaped_def[abs_def] quoted_def)
qed (simp add: audit_emit_escaped_def[abs_def] appends_text)

lemma appends_prefix: "appends (audit_field_prefix first k) ((if first then [] else '','') @ quoted (cstr k) @ '':'')"
proof -
  have "appends (\<lambda>a. if \<not> first then append_text '','' a else State_Monad.return a) (if first then [] else '','')"
    using appends_text[of "'',''"] by (cases first) (simp_all add: appends_def)
  from appends_bind[OF this appends_bind[OF appends_escaped[of "Some k"] appends_text[of "'':''"]]]
  show ?thesis by (simp add: audit_field_prefix_def[abs_def])
qed

lemma put_field_run:
  assumes "w_alloc w = []"
  obtains a' where "run_state (put_field (Some fd) f (first, a)) w = ((False, a'), w)"
    "au_buf a' = au_buf a @ (if first then [] else '','') @ field_text f" "au_diag a' = au_diag a"
proof -
  have "\<exists>v k. put_field (Some fd) f (first, a) = State_Monad.bind (audit_field_prefix first k a)
      (\<lambda>a. State_Monad.bind (v a) (\<lambda>a. State_Monad.return (False, a))) \<and>
      appends v (drop (length (quoted (cstr k) @ '':'')) (field_text f)) \<and>
      field_text f = quoted (cstr k) @ '':'' @ drop (length (quoted (cstr k) @ '':'')) (field_text f)"
    by (cases f) (force simp: audit_field_string_def audit_field_int_def audit_field_uint_def field_text_def
        intro!: appends_escaped appends_text)+
  then obtain v k t where p: "put_field (Some fd) f (first, a) = State_Monad.bind (audit_field_prefix first k a)
      (\<lambda>a. State_Monad.bind (v a) (\<lambda>a. State_Monad.return (False, a)))"
      "appends v t" "field_text f = quoted (cstr k) @ '':'' @ t" by metis
  obtain b where b: "run_state (audit_field_prefix first k a) w = (b, w)"
    "au_buf b = au_buf a @ (if first then [] else '','') @ quoted (cstr k) @ '':''" "au_diag b = au_diag a"
    using appendsE[OF appends_prefix assms] by (metis append.assoc)
  obtain c where "run_state (v b) w = (c, w)" "au_buf c = au_buf b @ t" "au_diag c = au_diag b"
    using appendsE[OF p(2) assms] by blast
  with b show ?thesis using that[of c] by (simp add: p(1) p(3))
qed

fun more_text :: "field list \<Rightarrow> string" where
  "more_text [] = []"
| "more_text (f # fs) = '','' @ field_text f @ more_text fs"

lemma members_more: "members_text (f # fs) = field_text f @ more_text fs"
  by (induction fs arbitrary: f) simp_all

lemma put_fields_run:
  assumes "w_alloc w = []"
  shows "\<exists>a'. run_state (put_fields (Some fd) fs (False, a)) w = ((False, a'), w) \<and>
    au_buf a' = au_buf a @ more_text fs \<and> au_diag a' = au_diag a"
proof (induction fs arbitrary: a)
  case (Cons f fs)
  obtain b where b: "run_state (put_field (Some fd) f (False, a)) w = ((False, b), w)"
    "au_buf b = au_buf a @ '','' @ field_text f" "au_diag b = au_diag a"
    using put_field_run[OF assms, of fd f False a] by auto
  with Cons[of b] show ?case by auto
qed simp

subsection \<open>Begin, end and the write loop\<close>

fun reply_data :: "reply \<Rightarrow> string" where
  "reply_data (Done n d) = d"
| "reply_data (Fail e) = []"

fun job_fields :: "reply \<Rightarrow> field list" where
  "job_fields (Done n d) = [FStr ''job_id'' (Some d)]"
| "job_fields (Fail e) = []"

text \<open>The two calls every record starts with, and the members they give.\<close>

definition record_opening :: "kernel \<Rightarrow> history \<Rightarrow> history" where
  "record_opening K h = (let t = K h Timestamp in
     [(Timestamp, t), (Getenv ''LANDLOCKD_JOB_ID'', K (h @ [(Timestamp, t)]) (Getenv ''LANDLOCKD_JOB_ID''))])"

definition head_fields :: "kernel \<Rightarrow> history \<Rightarrow> string \<Rightarrow> field list" where
  "head_fields K h event = [FStr ''component'' (Some ''landlockd''), FStr ''event'' (Some event),
     FStr ''timestamp'' (Some (reply_data (snd (record_opening K h ! 0))))] @ job_fields (snd (record_opening K h ! 1))"

lemma sysd_run: "run_state (sysd K e) w = (case K (w_trace w) e of
    Done n d \<Rightarrow> ((int n, d), w\<lparr>w_trace := w_trace w @ [(e, Done n d)]\<rparr>)
  | Fail er \<Rightarrow> ((-1, []), w\<lparr>w_trace := w_trace w @ [(e, Fail er)], w_errno := er\<rparr>))"
  by (simp add: sysd_def Let_def split: reply.splits)

lemma put_str_run:
  assumes "w_alloc w = []"
  obtains a' where "run_state (audit_field_string (Some fd) k v (first, a)) w = ((False, a'), w)"
    "au_buf a' = au_buf a @ (if first then [] else '','') @ field_text (FStr k v)" "au_diag a' = au_diag a"
  using put_field_run[OF assms, of fd "FStr k v" first a] by auto

lemma begin_run:
  assumes "w_alloc w = []"
  shows "\<exists>a e. run_state (audit_begin K (Some fd) event fa) w =
      ((False, a), w\<lparr>w_errno := e, w_trace := w_trace w @ record_opening K (w_trace w)\<rparr>) \<and>
    au_buf a = ''{'' @ members_text (head_fields K (w_trace w) event) \<and> au_diag a = Some fd"
proof -
  let ?a0 = "\<lparr>au_diag = Some fd, au_buf = [], au_cap = 0\<rparr>"
  obtain a1 where 1: "run_state (append_text ''{'' ?a0) w = (a1, w)" "au_buf a1 = ''{''" "au_diag a1 = Some fd"
    using appendsE[OF appends_text[of "''{''"] assms, of ?a0] by auto
  obtain a2 where 2: "run_state (audit_field_string (Some fd) ''component'' (Some ''landlockd'') (True, a1)) w = ((False, a2), w)"
    "au_buf a2 = au_buf a1 @ field_text (FStr ''component'' (Some ''landlockd''))" "au_diag a2 = au_diag a1"
    using put_str_run[OF assms, of fd "''component''" _ True a1] by auto
  obtain a3 where 3: "run_state (audit_field_string (Some fd) ''event'' (Some event) (False, a2)) w = ((False, a3), w)"
    "au_buf a3 = au_buf a2 @ '','' @ field_text (FStr ''event'' (Some event))" "au_diag a3 = au_diag a2"
    using put_str_run[OF assms, of fd "''event''" _ False a2] by auto
  define t where "t = K (w_trace w) Timestamp"
  obtain x e1 where s: "run_state (sysd K Timestamp) w = ((x, reply_data t), w\<lparr>w_errno := e1, w_trace := w_trace w @ [(Timestamp, t)]\<rparr>)"
    unfolding sysd_run t_def by (cases "K (w_trace w) Timestamp") (auto, metis world.surjective world.update_convs(1))
  define w1 where "w1 = w\<lparr>w_errno := e1, w_trace := w_trace w @ [(Timestamp, t)]\<rparr>"
  have w1: "w_alloc w1 = []" by (simp add: w1_def assms)
  obtain a4 where 4: "run_state (audit_field_string (Some fd) ''timestamp'' (Some (reply_data t)) (False, a3)) w1 = ((False, a4), w1)"
    "au_buf a4 = au_buf a3 @ '','' @ field_text (FStr ''timestamp'' (Some (reply_data t)))" "au_diag a4 = au_diag a3"
    using put_str_run[OF w1, of fd "''timestamp''" _ False a3] by auto
  define j where "j = K (w_trace w1) (Getenv ''LANDLOCKD_JOB_ID'')"
  have op: "record_opening K (w_trace w) = [(Timestamp, t), (Getenv ''LANDLOCKD_JOB_ID'', j)]"
    by (simp add: record_opening_def Let_def t_def j_def w1_def)
  note run = s[folded w1_def] 1 2 3 4 audit_begin_def sysd_run[of K "Getenv _"] j_def[symmetric]
  show ?thesis
  proof (cases j)
    case (Done n d)
    define w2 where "w2 = w1\<lparr>w_trace := w_trace w1 @ [(Getenv ''LANDLOCKD_JOB_ID'', Done n d)]\<rparr>"
    have w2: "w_alloc w2 = []" by (simp add: w2_def w1)
    obtain a5 where 5: "run_state (audit_field_string (Some fd) ''job_id'' (Some d) (False, a4)) w2 = ((False, a5), w2)"
      "au_buf a5 = au_buf a4 @ '','' @ field_text (FStr ''job_id'' (Some d))" "au_diag a5 = au_diag a4"
      using put_str_run[OF w2, of fd "''job_id''" _ False a4] by auto
    have "run_state (audit_begin K (Some fd) event fa) w = ((False, a5), w2)"
      by (simp add: run Done w2_def[symmetric] 5)
    moreover have "w2 = w\<lparr>w_errno := e1, w_trace := w_trace w @ record_opening K (w_trace w)\<rparr>"
      by (simp add: w2_def w1_def op Done)
    ultimately show ?thesis using 1 2 3 4 5 Done by (auto simp: op head_fields_def members_more)
  next
    case (Fail er)
    define w2 where "w2 = w1\<lparr>w_trace := w_trace w1 @ [(Getenv ''LANDLOCKD_JOB_ID'', Fail er)], w_errno := er\<rparr>"
    have "run_state (audit_begin K (Some fd) event fa) w = ((False, a4), w2)"
      by (simp add: run Fail w2_def[symmetric])
    moreover have "w2 = w\<lparr>w_errno := er, w_trace := w_trace w @ record_opening K (w_trace w)\<rparr>"
      by (simp add: w2_def w1_def op Fail)
    ultimately show ?thesis using 1 2 3 4 Fail by (auto simp: op head_fields_def members_more)
  qed
qed

text \<open>The bytes a history delivers to a descriptor.\<close>

definition written :: "sysevent \<times> reply \<Rightarrow> string" where
  "written er = (case er of (Write fd s, Done n d) \<Rightarrow> take n s | _ \<Rightarrow> [])"

lemma written_simps [simp]: "written (Write fd s, Done n d) = take n s" "written (e, Fail er) = []"
  by (simp_all add: written_def split: sysevent.splits)

text \<open>What the write loop may do with the bytes \<open>s\<close>: every write offers an end of \<open>s\<close>, what is
  delivered is a start of \<open>s\<close>, and all of it if the kernel keeps taking bytes.\<close>

definition accepts_writes :: "kernel \<Rightarrow> int \<Rightarrow> bool" where
  "accepts_writes K fd \<longleftrightarrow> (\<forall>h s. \<exists>n d. K h (Write fd s) = Done n d \<and> 0 < n)"

definition writes :: "kernel \<Rightarrow> nat \<Rightarrow> int \<Rightarrow> string \<Rightarrow> history \<Rightarrow> bool" where
  "writes K N fd s es \<longleftrightarrow> list_all (\<lambda>x. \<exists>t u. fst x = Write fd t \<and> s = u @ t) es \<and>
     (\<exists>t. s = concat (map written es) @ t) \<and>
     (accepts_writes K fd \<and> length s \<le> N \<longrightarrow> concat (map written es) = s) \<and>
     (s \<noteq> [] \<and> 0 < N \<longrightarrow> es \<noteq> [] \<and> fst (hd es) = Write fd s)"

lemma writes_Nil: "s = [] \<or> N = 0 \<Longrightarrow> writes K N fd s []"
  by (auto simp: writes_def)

lemma writes_end: "\<not> accepts_writes K fd \<Longrightarrow> writes K N fd s [(Write fd s, Fail er)]"
  by (simp add: writes_def)

lemma writes_Done:
  assumes "writes K N fd (drop n s) es" "K h (Write fd s) = Done n d"
  shows "writes K (Suc N) fd s ((Write fd s, Done n d) # es)"
proof -
  have suffix: "\<exists>v. s = v @ t" if "drop n s = u @ t" for u t
    using that by (metis append.assoc append_take_drop_id)
  have 1: "list_all (\<lambda>x. \<exists>t u. fst x = Write fd t \<and> s = u @ t) es"
    using assms(1) suffix unfolding writes_def list_all_iff by blast
  have 2: "\<exists>t. s = take n s @ concat (map written es) @ t"
    using assms(1) unfolding writes_def by (metis append_take_drop_id)
  have 3: "take n s @ concat (map written es) = s" if "accepts_writes K fd" "length s \<le> Suc N"
  proof -
    have "0 < n" using that(1) assms(2) unfolding accepts_writes_def by (metis reply.inject(1))
    then have "length (drop n s) \<le> N" using that(2) by simp
    then show ?thesis using assms(1) that(1) unfolding writes_def by simp
  qed
  show ?thesis using 1 2 3 by (simp add: writes_def)
qed

lemma writes_Fail: "writes K N fd s es \<Longrightarrow> \<not> accepts_writes K fd \<Longrightarrow>
    writes K (Suc N) fd s ((Write fd s, Fail er) # es)"
  by (auto simp: writes_def)

lemma not_accepts: "K h (Write fd s) = Fail er \<Longrightarrow> \<not> accepts_writes K fd"
  unfolding accepts_writes_def by (metis reply.distinct(1))

lemma audit_write_wp:
  "wp (audit_write N K fd s) (\<lambda>_ w'. \<exists>es. w_trace w' = w_trace w @ es \<and> writes K N fd s es) w"
proof (induction N arbitrary: s w)
  case (Suc N)
  show ?case
  proof (cases "s = []")
    case False
    show ?thesis
    proof (cases "K (w_trace w) (Write fd s)")
      case (Done n d)
      show ?thesis
        using False Done
        by (simp add: io_wp) (rule wp_mono[OF Suc], auto intro: writes_Done[where h = "w_trace w"])
    next
      case (Fail er)
      have n: "\<not> accepts_writes K fd" by (rule not_accepts[of K "w_trace w" fd s er]) (rule Fail)
      show ?thesis
        using False Fail
        by (simp add: io_wp) (auto intro!: wp_mono[OF Suc] writes_end n intro: writes_Fail n)
    qed
  qed (simp add: io_wp writes_Nil)
qed (simp add: io_wp writes_Nil)

lemma audit_event_wp:
  assumes "w_alloc w = []" "0 \<le> fd"
  shows "wp (audit_event N K (Some fd) event fs) (\<lambda>_ w'. \<exists>es.
     w_trace w' = w_trace w @ record_opening K (w_trace w) @ es \<and>
     writes K N fd (record_text (head_fields K (w_trace w) event @ fs)) es) w"
proof -
  let ?line = "record_text (head_fields K (w_trace w) event @ fs)"
  obtain a e where b: "run_state (audit_begin K (Some fd) event (True, audit_idle)) w =
      ((False, a), w\<lparr>w_errno := e, w_trace := w_trace w @ record_opening K (w_trace w)\<rparr>)"
    "au_buf a = ''{'' @ members_text (head_fields K (w_trace w) event)" "au_diag a = Some fd"
    using begin_run[OF assms(1)] by blast
  define w1 where "w1 = w\<lparr>w_errno := e, w_trace := w_trace w @ record_opening K (w_trace w)\<rparr>"
  have w1: "w_alloc w1 = []" "w_trace w1 = w_trace w @ record_opening K (w_trace w)" by (simp_all add: w1_def assms(1))
  obtain a2 where f: "run_state (put_fields (Some fd) fs (False, a)) w1 = ((False, a2), w1)"
    "au_buf a2 = au_buf a @ more_text fs" "au_diag a2 = Some fd"
    using put_fields_run[OF w1(1), of fd fs a] b(3) by auto
  obtain a3 where t: "run_state (append_text (CHR ''}'' # [CHR 0x0A]) a2) w1 = (a3, w1)"
    "au_buf a3 = au_buf a2 @ CHR ''}'' # [CHR 0x0A]" "au_diag a3 = Some fd"
    using appendsE[OF appends_text w1(1)] f(3) by metis
  have "members_text (head_fields K h event) @ more_text fs = members_text (head_fields K h event @ fs)" for h
  proof -
    have "more_text (xs @ fs) = more_text xs @ more_text fs" for xs by (induction xs) simp_all
    then show ?thesis unfolding head_fields_def append_Cons members_more by simp
  qed
  then have line: "au_buf a3 = ?line" using b(2) f(2) t(2) by (simp add: record_text_def)
  have "wp (audit_end N K (Some fd) a2) (\<lambda>_ w'. \<exists>es. w_trace w' = w_trace w1 @ es \<and> writes K N fd ?line es) w1"
    unfolding audit_end_def using t assms(2) line
    by (simp add: wp_bind wp_return wp_def[of "append_text _ _"]) (rule wp_mono[OF audit_write_wp], simp add: io_wp)
  then have "wp (audit_end N K (Some fd) a2) (\<lambda>_ w'. \<exists>es. w_trace w' = w_trace w @ record_opening K (w_trace w) @ es \<and>
      writes K N fd ?line es) w1" by (simp add: w1(2))
  then show ?thesis
    unfolding audit_event_def
    by (simp add: wp_bind wp_return wp_def[of "audit_begin _ _ _ _"] wp_def[of "put_fields _ _ _"] b(1)[folded w1_def] f(1) wp_return_fun)
qed

subsection \<open>Properties\<close>

text \<open>C38: A record cannot be forged or split by its contents: whatever bytes the event name, the keys and
  the values hold, the line offered to the log reads back as exactly the fixed members followed by
  the given fields, has its only newline at the end, and what reaches the log is a start of it.\<close>

theorem audit_record_faithful:
  assumes "w_alloc w = []" "0 \<le> fd" "0 < N"
  shows "wp (audit_event N K (Some fd) event fs) (\<lambda>_ w'. \<exists>line r es.
     w_trace w' = w_trace w @ record_opening K (w_trace w) @ (Write fd line, r) # es \<and>
     read_record line = Some (map json_of (head_fields K (w_trace w) event @ fs)) \<and>
     CHR 0x0A \<notin> set (butlast line) \<and>
     (\<exists>rest. line = concat (map written ((Write fd line, r) # es)) @ rest)) w"
proof (rule wp_mono[OF audit_event_wp[OF assms(1,2)]])
  fix a w'
  let ?line = "record_text (head_fields K (w_trace w) event @ fs)"
  assume "\<exists>es. w_trace w' = w_trace w @ record_opening K (w_trace w) @ es \<and> writes K N fd ?line es"
  then obtain es where es: "w_trace w' = w_trace w @ record_opening K (w_trace w) @ es" "writes K N fd ?line es" by blast
  have "?line \<noteq> []" by (simp add: record_text_def)
  with es(2) assms(3) have "es \<noteq> []" "fst (hd es) = Write fd ?line" by (simp_all add: writes_def)
  then obtain r es' where e: "es = (Write fd ?line, r) # es'" by (cases es) auto
  moreover have "head_fields K (w_trace w) event @ fs \<noteq> []" by (simp add: head_fields_def)
  ultimately show "\<exists>line r es. w_trace w' = w_trace w @ record_opening K (w_trace w) @ (Write fd line, r) # es \<and>
     read_record line = Some (map json_of (head_fields K (w_trace w) event @ fs)) \<and>
     CHR 0x0A \<notin> set (butlast line) \<and> (\<exists>rest. line = concat (map written ((Write fd line, r) # es)) @ rest)"
    using es read_record_text record_text_one_line unfolding writes_def by blast
qed

text \<open>A kernel on which every call succeeds, writes take one byte at a time and the clock and the
  environment hold fixed texts.\<close>

definition slow_kernel :: kernel where
  "slow_kernel h e = (case e of Timestamp \<Rightarrow> Done 0 ''2024-01-01T00:00:00Z'' | Getenv k \<Rightarrow> Done 0 ''j'' | _ \<Rightarrow> Done 1 [])"

definition quiet_world :: world where
  "quiet_world = \<lparr>w_errno = 0, w_trace = [], w_alloc = [], w_e2big_warned = False\<rparr>"

theorem audit_record_faithful_witness:
  "wp (audit_event 1 slow_kernel (Some 2) ''broker.open'' [FStr ''path'' (Some [CHR 0x22, CHR 0x0A])]) (\<lambda>_ w'. \<exists>line r es.
     w_trace w' = w_trace quiet_world @ record_opening slow_kernel (w_trace quiet_world) @ (Write 2 line, r) # es \<and>
     read_record line = Some (map json_of (head_fields slow_kernel (w_trace quiet_world) ''broker.open'' @
       [FStr ''path'' (Some [CHR 0x22, CHR 0x0A])])) \<and>
     CHR 0x0A \<notin> set (butlast line) \<and>
     (\<exists>rest. line = concat (map written ((Write 2 line, r) # es)) @ rest)) quiet_world"
  by (rule audit_record_faithful) (simp_all add: quiet_world_def)

text \<open>C39: If the log keeps accepting bytes, however few at a time, and the loop may run once per byte, the
  whole record is delivered.\<close>

theorem audit_record_delivered:
  assumes "w_alloc w = []" "0 \<le> fd" "accepts_writes K fd"
    and "length (record_text (head_fields K (w_trace w) event @ fs)) \<le> N"
  shows "wp (audit_event N K (Some fd) event fs) (\<lambda>_ w'. \<exists>es.
     w_trace w' = w_trace w @ record_opening K (w_trace w) @ es \<and>
     concat (map written es) = record_text (head_fields K (w_trace w) event @ fs)) w"
  by (rule wp_mono[OF audit_event_wp[OF assms(1,2)]]) (use assms(3,4) in \<open>auto simp: writes_def\<close>)

theorem audit_record_delivered_witness:
  "wp (audit_event 500 slow_kernel (Some 2) ''run.exit'' [FInt ''pid'' 7]) (\<lambda>_ w'. \<exists>es.
     w_trace w' = w_trace quiet_world @ record_opening slow_kernel (w_trace quiet_world) @ es \<and>
     concat (map written es) = record_text (head_fields slow_kernel (w_trace quiet_world) ''run.exit'' @ [FInt ''pid'' 7])) quiet_world"
proof (rule audit_record_delivered)
  show "accepts_writes slow_kernel 2" by (simp add: accepts_writes_def slow_kernel_def)
  show "length (record_text (head_fields slow_kernel (w_trace quiet_world) ''run.exit'' @ [FInt ''pid'' 7])) \<le> 500"
    by code_simp
qed (simp_all add: quiet_world_def)

end
