(* ===== verification/Policy_Compiler.thy ===== *)
theory Policy_Compiler
  imports Landlock
begin

text \<open>
  Compilation of policies into Landlock rulesets: \<open>policy_ir.c\<close> (validation),
  \<open>policy_compiler.c\<close> and \<open>landlock_policy.c\<close>. Pointers that may be NULL are options; an array with
  its separate element count is a list read up to that count. The loops that create rulesets and
  add path rules, which the three compilers of the program share up to the name of their cleanup
  function, take that function as an argument; the locale \<open>fd_cleanup\<close> states what they rely on.
\<close>

subsection \<open>Data\<close>

datatype layer_kind = IR_LAYER_FS | IR_LAYER_NET | IR_LAYER_EXCEPTION | IR_LAYER_OTHER int

record ir_fs_rule =
  fsr_path :: "string option"
  fsr_allowed :: u64

record ir_net_rule =
  nr_port :: u16
  nr_allowed :: u64

record ir_layer =
  lay_kind :: layer_kind
  lay_order :: nat
  lay_handled :: u64
  lay_rule_count :: nat
  lay_fs_rules :: "ir_fs_rule list option"
  lay_net_rules :: "ir_net_rule list option"
  lay_exception_rules :: "int list option"

record ir_policy =
  pol_name :: "string option"
  pol_layer_count :: nat
  pol_layers :: "ir_layer option list option"

record compiled_rulesets =
  cr_count :: nat
  cr_fds :: "int list option"

definition rules_of :: "nat \<Rightarrow> 'a list option \<Rightarrow> 'a list" where
  "rules_of n r = (case r of None \<Rightarrow> [] | Some xs \<Rightarrow> take n xs)"

subsection \<open>policy_ir.c\<close>

definition validate_fs_layer :: "ir_layer \<Rightarrow> bool" where
  "validate_fs_layer l \<longleftrightarrow>
     \<not> (lay_net_rules l \<noteq> None \<or> lay_exception_rules l \<noteq> None) \<and>
     lay_handled l \<noteq> 0 \<and>
     \<not> (lay_rule_count l > 0 \<and> lay_fs_rules l = None) \<and>
     list_all (\<lambda>r. \<not> (fsr_path r = None \<or> fsr_allowed r = 0)) (rules_of (lay_rule_count l) (lay_fs_rules l))"

definition validate_net_layer :: "ir_layer \<Rightarrow> bool" where
  "validate_net_layer l \<longleftrightarrow>
     \<not> (lay_fs_rules l \<noteq> None \<or> lay_exception_rules l \<noteq> None) \<and>
     lay_handled l \<noteq> 0 \<and>
     \<not> (lay_rule_count l > 0 \<and> lay_net_rules l = None) \<and>
     list_all (\<lambda>r. nr_allowed r \<noteq> 0) (rules_of (lay_rule_count l) (lay_net_rules l))"

definition validate_exception_layer :: "ir_layer \<Rightarrow> bool" where
  "validate_exception_layer l \<longleftrightarrow>
     \<not> (lay_fs_rules l \<noteq> None \<or> lay_net_rules l \<noteq> None) \<and>
     lay_handled l = 0 \<and>
     \<not> (lay_rule_count l = 0 \<or> lay_exception_rules l = None) \<and>
     list_all (\<lambda>nr. \<not> nr < 0) (rules_of (lay_rule_count l) (lay_exception_rules l))"

definition validate_layer :: "ir_layer \<Rightarrow> bool" where
  "validate_layer l = (case lay_kind l of
     IR_LAYER_FS \<Rightarrow> validate_fs_layer l
   | IR_LAYER_NET \<Rightarrow> validate_net_layer l
   | IR_LAYER_EXCEPTION \<Rightarrow> validate_exception_layer l
   | IR_LAYER_OTHER _ \<Rightarrow> False)"

fun validate_layers :: "nat \<Rightarrow> ir_layer option list \<Rightarrow> bool" where
  "validate_layers i [] = True"
| "validate_layers i (None # ls) = False"
| "validate_layers i (Some l # ls) =
    (if lay_order l \<noteq> i then False else if \<not> validate_layer l then False
     else validate_layers (i + 1) ls)"

definition ir_policy_validate :: "ir_policy option \<Rightarrow> unit res" where
  "ir_policy_validate policy = (case policy of None \<Rightarrow> Inl (Err EINVAL) | Some p \<Rightarrow>
     if pol_name p = None \<or> pol_name p = Some '''' then Inl (Err EINVAL)
     else if pol_layer_count p = 0 \<or> pol_layers p = None then Inl (Err EINVAL)
     else if \<not> validate_layers 0 (rules_of (pol_layer_count p) (pol_layers p)) then Inl (Err EINVAL)
     else Inr ())"

subsection \<open>policy_compiler.c\<close>

definition policy_layers :: "ir_policy \<Rightarrow> ir_layer list" where
  "policy_layers p = map the (rules_of (pol_layer_count p) (pol_layers p))"

definition count_layers :: "ir_policy \<Rightarrow> layer_kind \<Rightarrow> nat" where
  "count_layers p kind = length (filter (\<lambda>l. lay_kind l = kind) (policy_layers p))"

fun close_fds :: "kernel \<Rightarrow> int list \<Rightarrow> unit io" where
  "close_fds K [] = State_Monad.return ()"
| "close_fds K (fd # fds) =
    (if fd \<ge> 0 then do { _ \<leftarrow> sys K (Close fd); close_fds K fds } else close_fds K fds)"

definition compiled_rulesets_cleanup ::
    "kernel \<Rightarrow> compiled_rulesets \<Rightarrow> compiled_rulesets io" where
  "compiled_rulesets_cleanup K c = do {
     saved_errno \<leftarrow> get_errno;
     (case cr_fds c of None \<Rightarrow> State_Monad.return ()
      | Some fds \<Rightarrow> close_fds K (take (cr_count c) fds));
     set_errno saved_errno;
     State_Monad.return \<lparr>cr_count = 0, cr_fds = None\<rparr> }"

definition O_PATH_CLOEXEC :: u32 where
  "O_PATH_CLOEXEC = 0x200000 OR 0x80000"

text \<open>The inner loop: open each path, add the rule, close the descriptor. Every failure runs the
  cleanup action and reports the errno of the failing call.\<close>

fun add_path_rules :: "kernel \<Rightarrow> unit io \<Rightarrow> int \<Rightarrow> (string \<times> u64) list \<Rightarrow> bool io" where
  "add_path_rules K cleanup fd [] = State_Monad.return True"
| "add_path_rules K cleanup fd ((path, acc) # rules) = do {
     parent_fd \<leftarrow> sys K (Open path O_PATH_CLOEXEC);
     if parent_fd < 0 then do {
       saved_errno \<leftarrow> get_errno; cleanup; set_errno saved_errno; State_Monad.return False }
     else do {
       rc \<leftarrow> landlock_add_fs_rule K fd (Some (acc, parent_fd)) 0;
       if rc < 0 then do {
         saved_errno \<leftarrow> get_errno; _ \<leftarrow> sys K (Close parent_fd); cleanup;
         set_errno saved_errno; State_Monad.return False }
       else do { _ \<leftarrow> sys K (Close parent_fd); add_path_rules K cleanup fd rules } } }"

text \<open>The outer loop over layers; \<open>fds\<close> are the rulesets created so far, the rest of the
  descriptor array still holds -1.\<close>

fun compile_fs_layers :: "kernel \<Rightarrow> (int list \<Rightarrow> unit io) \<Rightarrow> (u64 \<times> (string \<times> u64) list) list
    \<Rightarrow> int list \<Rightarrow> int list option io" where
  "compile_fs_layers K cleanup [] fds = State_Monad.return (Some fds)"
| "compile_fs_layers K cleanup ((handled, rules) # layers) fds = do {
     r \<leftarrow> landlock_create_fs_ruleset K handled None;
     let fd = fst r;
     if fd < 0 then do {
       saved_errno \<leftarrow> get_errno;
       cleanup (fds @ replicate (Suc (length layers)) (-1));
       set_errno saved_errno;
       State_Monad.return None }
     else do {
       ok \<leftarrow> add_path_rules K (cleanup (fds @ fd # replicate (length layers) (-1))) fd rules;
       if ok then compile_fs_layers K cleanup layers (fds @ [fd])
       else State_Monad.return None } }"

definition rulesets_cleanup_fds :: "kernel \<Rightarrow> int list \<Rightarrow> unit io" where
  "rulesets_cleanup_fds K fds = do {
     _ \<leftarrow> compiled_rulesets_cleanup K \<lparr>cr_count = length fds, cr_fds = Some fds\<rparr>;
     State_Monad.return () }"

definition fs_layers_of :: "ir_policy \<Rightarrow> (u64 \<times> (string \<times> u64) list) list" where
  "fs_layers_of p = map (\<lambda>l. (lay_handled l,
       map (\<lambda>r. (the (fsr_path r), fsr_allowed r)) (rules_of (lay_rule_count l) (lay_fs_rules l))))
     (filter (\<lambda>l. lay_kind l = IR_LAYER_FS) (policy_layers p))"

definition policy_compile_fs ::
    "kernel \<Rightarrow> ir_policy option \<Rightarrow> compiled_rulesets option \<Rightarrow> (int \<times> compiled_rulesets option) io" where
  "policy_compile_fs K policy out =
     (if policy = None \<or> out = None
      then do { rc \<leftarrow> fail_with EINVAL; State_Monad.return (rc, out) }
      else let p = the policy; empty = \<lparr>cr_count = 0, cr_fds = None\<rparr>;
               fs_count = count_layers p IR_LAYER_FS in
      case ir_policy_validate policy of
        Inl _ \<Rightarrow> do { rc \<leftarrow> fail_with EINVAL; State_Monad.return (rc, Some empty) }
      | Inr _ \<Rightarrow>
        if fs_count = 0 then State_Monad.return (0, Some empty)
        else do {
          m \<leftarrow> sys K (Malloc (fs_count * 4));
          if m < 0 then State_Monad.return (-1, Some empty)
          else do {
            r \<leftarrow> compile_fs_layers K (rulesets_cleanup_fds K) (fs_layers_of p) [];
            State_Monad.return (case r of
              None \<Rightarrow> (-1, Some empty)
            | Some fds \<Rightarrow> (0, Some \<lparr>cr_count = fs_count, cr_fds = Some fds\<rparr>)) } })"

fun add_net_rules :: "kernel \<Rightarrow> unit io \<Rightarrow> int \<Rightarrow> ir_net_rule list \<Rightarrow> bool io" where
  "add_net_rules K cleanup fd [] = State_Monad.return True"
| "add_net_rules K cleanup fd (r # rules) = do {
     rc \<leftarrow> landlock_add_net_rule K fd (Some (nr_allowed r, ucast (nr_port r))) 0;
     if rc < 0 then do {
       saved_errno \<leftarrow> get_errno; cleanup; set_errno saved_errno; State_Monad.return False }
     else add_net_rules K cleanup fd rules }"

fun compile_net_layers :: "kernel \<Rightarrow> (int list \<Rightarrow> unit io) \<Rightarrow> (u64 \<times> ir_net_rule list) list
    \<Rightarrow> int list \<Rightarrow> int list option io" where
  "compile_net_layers K cleanup [] fds = State_Monad.return (Some fds)"
| "compile_net_layers K cleanup ((handled, rules) # layers) fds = do {
     r \<leftarrow> landlock_create_net_ruleset K handled None;
     let fd = fst r;
     if fd < 0 then do {
       saved_errno \<leftarrow> get_errno;
       cleanup (fds @ replicate (Suc (length layers)) (-1));
       set_errno saved_errno;
       State_Monad.return None }
     else do {
       ok \<leftarrow> add_net_rules K (cleanup (fds @ fd # replicate (length layers) (-1))) fd rules;
       if ok then compile_net_layers K cleanup layers (fds @ [fd])
       else State_Monad.return None } }"

definition net_layers_of :: "ir_policy \<Rightarrow> (u64 \<times> ir_net_rule list) list" where
  "net_layers_of p = map (\<lambda>l. (lay_handled l, rules_of (lay_rule_count l) (lay_net_rules l)))
     (filter (\<lambda>l. lay_kind l = IR_LAYER_NET) (policy_layers p))"

definition policy_compile_net ::
    "kernel \<Rightarrow> ir_policy option \<Rightarrow> compiled_rulesets option \<Rightarrow> (int \<times> compiled_rulesets option) io" where
  "policy_compile_net K policy out =
     (if policy = None \<or> out = None
      then do { rc \<leftarrow> fail_with EINVAL; State_Monad.return (rc, out) }
      else let p = the policy; empty = \<lparr>cr_count = 0, cr_fds = None\<rparr>;
               net_count = count_layers p IR_LAYER_NET in
      case ir_policy_validate policy of
        Inl _ \<Rightarrow> do { rc \<leftarrow> fail_with EINVAL; State_Monad.return (rc, Some empty) }
      | Inr _ \<Rightarrow>
        if net_count = 0 then State_Monad.return (0, Some empty)
        else do {
          m \<leftarrow> sys K (Malloc (net_count * 4));
          if m < 0 then State_Monad.return (-1, Some empty)
          else do {
            r \<leftarrow> compile_net_layers K (rulesets_cleanup_fds K) (net_layers_of p) [];
            State_Monad.return (case r of
              None \<Rightarrow> (-1, Some empty)
            | Some fds \<Rightarrow> (0, Some \<lparr>cr_count = net_count, cr_fds = Some fds\<rparr>)) } })"

definition exceptions_of :: "ir_policy \<Rightarrow> int list" where
  "exceptions_of p = concat (map (\<lambda>l. rules_of (lay_rule_count l) (lay_exception_rules l))
     (filter (\<lambda>l. lay_kind l = IR_LAYER_EXCEPTION) (policy_layers p)))"

text \<open>Result code with the plan the caller is left with.\<close>

definition policy_compile_exceptions ::
    "ir_policy option \<Rightarrow> seccomp_plan option \<Rightarrow> unit res \<times> seccomp_plan option" where
  "policy_compile_exceptions policy plan =
     (if policy = None \<or> plan = None then (Inl (Err EINVAL), plan)
      else case ir_policy_validate policy of
        Inl e \<Rightarrow> (Inl e, plan)
      | Inr _ \<Rightarrow> (case plan_init plan of
          Inl e \<Rightarrow> (Inl e, plan)
        | Inr p0 \<Rightarrow> (case plan_add_all p0 (exceptions_of (the policy)) of
            Inl e \<Rightarrow> (Inl e, Some p0)
          | Inr p1 \<Rightarrow> (Inr (), Some p1))))"

subsection \<open>landlock_policy.c\<close>

record policy_fs_layer =
  pfl_handled :: u64
  pfl_rule_count :: nat
  pfl_rules :: "ir_fs_rule option list option"

record fs_policy =
  fp_layer_count :: nat
  fp_layers :: "policy_fs_layer option list option"

record compiled_policy =
  cp_layer_count :: nat
  cp_fds :: "int list option"

definition validate_fs_policy_rule :: "ir_fs_rule option \<Rightarrow> bool" where
  "validate_fs_policy_rule r = (case r of None \<Rightarrow> False
     | Some r \<Rightarrow> \<not> (fsr_path r = None \<or> fsr_allowed r = 0))"

definition validate_fs_policy_layer :: "policy_fs_layer option \<Rightarrow> bool" where
  "validate_fs_policy_layer l = (case l of None \<Rightarrow> False | Some l \<Rightarrow>
     pfl_handled l \<noteq> 0 \<and> \<not> (pfl_rule_count l > 0 \<and> pfl_rules l = None) \<and>
     list_all validate_fs_policy_rule (rules_of (pfl_rule_count l) (pfl_rules l)))"

definition validate_fs_policy :: "fs_policy \<Rightarrow> unit res" where
  "validate_fs_policy p =
     (if fp_layer_count p > 0 \<and> fp_layers p = None then Inl (Err EINVAL)
      else if \<not> list_all validate_fs_policy_layer (rules_of (fp_layer_count p) (fp_layers p))
      then Inl (Err EINVAL) else Inr ())"

definition compiled_policy_cleanup :: "kernel \<Rightarrow> compiled_policy \<Rightarrow> compiled_policy io" where
  "compiled_policy_cleanup K c = do {
     saved_errno \<leftarrow> get_errno;
     (case cp_fds c of None \<Rightarrow> State_Monad.return ()
      | Some fds \<Rightarrow> close_fds K (take (cp_layer_count c) fds));
     set_errno saved_errno;
     State_Monad.return \<lparr>cp_layer_count = 0, cp_fds = None\<rparr> }"

definition policy_cleanup_fds :: "kernel \<Rightarrow> int list \<Rightarrow> unit io" where
  "policy_cleanup_fds K fds = do {
     _ \<leftarrow> compiled_policy_cleanup K \<lparr>cp_layer_count = length fds, cp_fds = Some fds\<rparr>;
     State_Monad.return () }"

definition fs_policy_layers :: "fs_policy \<Rightarrow> (u64 \<times> (string \<times> u64) list) list" where
  "fs_policy_layers p = map (\<lambda>l. (pfl_handled (the l),
       map (\<lambda>r. (the (fsr_path (the r)), fsr_allowed (the r)))
         (rules_of (pfl_rule_count (the l)) (pfl_rules (the l)))))
     (rules_of (fp_layer_count p) (fp_layers p))"

definition compile_fs_policy ::
    "kernel \<Rightarrow> fs_policy option \<Rightarrow> compiled_policy option \<Rightarrow> (int \<times> compiled_policy option) io" where
  "compile_fs_policy K policy out =
     (if policy = None \<or> out = None
      then do { rc \<leftarrow> fail_with EINVAL; State_Monad.return (rc, out) }
      else let p = the policy; empty = \<lparr>cp_layer_count = 0, cp_fds = None\<rparr> in
      case validate_fs_policy p of
        Inl _ \<Rightarrow> do { rc \<leftarrow> fail_with EINVAL; State_Monad.return (rc, Some empty) }
      | Inr _ \<Rightarrow> do {
          m \<leftarrow> (if fp_layer_count p > 0 then sys K (Malloc (fp_layer_count p * 4))
                else State_Monad.return 0);
          if m < 0 then State_Monad.return (-1, Some empty)
          else do {
            r \<leftarrow> compile_fs_layers K (policy_cleanup_fds K) (fs_policy_layers p) [];
            State_Monad.return (case r of
              None \<Rightarrow> (-1, Some empty)
            | Some fds \<Rightarrow> (0, Some \<lparr>cp_layer_count = fp_layer_count p,
                cp_fds = if fp_layer_count p > 0 then Some fds else None\<rparr>)) } })"

subsection \<open>What a cleanup function promises\<close>

definition fd_count :: "int list \<Rightarrow> int \<Rightarrow> int" where
  "fd_count fds x = (if x < 0 then 0 else int (count_list fds x))"

lemma fd_count_simps [simp]:
  "fd_count [] x = 0"
  "fd_count (fds @ gds) x = fd_count fds x + fd_count gds x"
  "fd_count (fd # fds) x = (if x = fd \<and> 0 \<le> fd then 1 else 0) + fd_count fds x"
  "fd_count (replicate n (-1)) x = 0"
  by (auto simp: fd_count_def count_list_0_iff)

lemma close_fds_balance:
  "wp (close_fds K fds) (\<lambda>_ w'. balance (w_trace w') x = balance (w_trace w) x - fd_count fds x) w"
proof (induction fds arbitrary: w)
  case (Cons fd fds)
  have *: "(\<lambda>a w'. balance (w_trace w') x = balance (w_trace w) x - fd_count (fd # fds) x) =
      (\<lambda>a w'. balance (w_trace w') x =
        balance (w_trace w) x - (if x = fd \<and> 0 \<le> fd then 1 else 0) - fd_count fds x)"
    by (auto simp: fun_eq_iff)
  show ?case
    using Cons.IH[of "w\<lparr>w_trace := w_trace w @ [(Close fd, K (w_trace w) (Close fd))]\<rparr>"]
      Cons.IH[of "w\<lparr>w_trace := w_trace w @ [(Close fd, K (w_trace w) (Close fd))], w_errno := e\<rparr>" for e]
      Cons.IH[of w]
    unfolding * by (auto simp: io_wp split: reply.splits)
qed (simp add: io_wp)

text \<open>
  The system calls of a successful compilation. Path rules: open the path, add the rule to the
  ruleset, close. A layer: probe the ABI, create the ruleset for the known part of the handled
  rights, then the layer's rules.
\<close>

fun rule_events :: "int \<Rightarrow> (string \<times> u64) list \<Rightarrow> history \<Rightarrow> bool" where
  "rule_events fd [] es \<longleftrightarrow> es = []"
| "rule_events fd ((path, acc) # rules) es \<longleftrightarrow> acc \<noteq> 0 \<and> (\<exists>pfd d n d' r es'.
     es = (Open path O_PATH_CLOEXEC, Done pfd d) #
          (LandlockAddRule fd LANDLOCK_RULE_PATH_BENEATH (PathBeneath acc (int pfd)) 0, Done n d') #
          (Close (int pfd), r) # es' \<and> rule_events fd rules es')"

fun layer_events :: "(u64 \<times> (string \<times> u64) list) list \<Rightarrow> int list \<Rightarrow> history \<Rightarrow> bool" where
  "layer_events [] fds es \<longleftrightarrow> fds = [] \<and> es = []"
| "layer_events ((handled, rules) # layers) fds es \<longleftrightarrow> (\<exists>abi d fd d' fds' es1 es2 eff.
     0 < abi \<and> eff = handled AND fs_access_mask_for_abi (int abi) \<and> eff \<noteq> 0 \<and> fds = int fd # fds' \<and>
     es = (abi_probe, Done abi d) # (LandlockCreateRuleset
        (Some \<lparr>handled_access_fs = eff, handled_access_net = 0, scoped = 0\<rparr>) 8 0, Done fd d') # es1 @ es2 \<and>
     rule_events (int fd) rules es1 \<and> layer_events layers fds' es2)"

fun net_rule_events :: "int \<Rightarrow> ir_net_rule list \<Rightarrow> history \<Rightarrow> bool" where
  "net_rule_events fd [] es \<longleftrightarrow> es = []"
| "net_rule_events fd (r # rules) es \<longleftrightarrow> nr_allowed r \<noteq> 0 \<and> (\<exists>n d es'.
     es = (LandlockAddRule fd LANDLOCK_RULE_NET_PORT (NetPort (nr_allowed r) (ucast (nr_port r))) 0,
           Done n d) # es' \<and> net_rule_events fd rules es')"

fun net_layer_events :: "(u64 \<times> ir_net_rule list) list \<Rightarrow> int list \<Rightarrow> history \<Rightarrow> bool" where
  "net_layer_events [] fds es \<longleftrightarrow> fds = [] \<and> es = []"
| "net_layer_events ((handled, rules) # layers) fds es \<longleftrightarrow> (\<exists>abi d fd d' fds' es1 es2 eff.
     4 \<le> abi \<and> eff = handled AND 3 \<and> eff \<noteq> 0 \<and> fds = int fd # fds' \<and>
     es = (abi_probe, Done abi d) # (LandlockCreateRuleset
        (Some \<lparr>handled_access_fs = 0, handled_access_net = eff, scoped = 0\<rparr>) 16 0, Done fd d') # es1 @ es2 \<and>
     net_rule_events (int fd) rules es1 \<and> net_layer_events layers fds' es2)"

lemma rule_events_balance: "rule_events fd rules es \<Longrightarrow> balance es x = 0"
  by (induction fd rules es rule: rule_events.induct) auto

lemma net_rule_events_balance: "net_rule_events fd rules es \<Longrightarrow> balance es x = 0"
  by (induction fd rules es rule: net_rule_events.induct) auto

lemma layer_events_balance: "layer_events layers fds es \<Longrightarrow> balance es x = fd_count fds x"
  by (induction layers fds es rule: layer_events.induct) (auto simp: rule_events_balance)

lemma net_layer_events_balance: "net_layer_events layers fds es \<Longrightarrow> balance es x = fd_count fds x"
  by (induction layers fds es rule: net_layer_events.induct) (auto simp: net_rule_events_balance)

lemma create_fs_ruleset_null:
  "wp (landlock_create_fs_ruleset K handled None) (\<lambda>r w'.
     if fst r < 0 then balance (w_trace w') x = balance (w_trace w) x
     else \<exists>abi d fd d' eff. 0 < abi \<and> eff = handled AND fs_access_mask_for_abi (int abi) \<and> eff \<noteq> 0 \<and>
       fst r = int fd \<and> w_trace w' = w_trace w @ [(abi_probe, Done abi d), (LandlockCreateRuleset
        (Some \<lparr>handled_access_fs = eff, handled_access_net = 0, scoped = 0\<rparr>) 8 0, Done fd d')]) w"
  by (simp add: landlock_create_fs_ruleset_def io_wp plain_call_def RULESET_ATTR_FS_SIZE_def Let_def
      split: reply.splits) (auto simp: reported_abi_def split: reply.splits if_splits)

lemma create_net_ruleset_null:
  "wp (landlock_create_net_ruleset K handled None) (\<lambda>r w'.
     if fst r < 0 then balance (w_trace w') x = balance (w_trace w) x
     else \<exists>abi d fd d' eff. 4 \<le> abi \<and> eff = handled AND 3 \<and> eff \<noteq> 0 \<and>
       fst r = int fd \<and> w_trace w' = w_trace w @ [(abi_probe, Done abi d), (LandlockCreateRuleset
        (Some \<lparr>handled_access_fs = 0, handled_access_net = eff, scoped = 0\<rparr>) 16 0, Done fd d')]) w"
proof -
  have m: "net_access_mask_for_abi abi = (if abi \<ge> 4 then 3 else 0)" for abi
    by (simp add: net_access_mask_for_abi_def access_bits)
  show ?thesis
    by (simp add: landlock_create_net_ruleset_def io_wp plain_call_def RULESET_ATTR_NET_SIZE_def Let_def m
        split: reply.splits) (auto simp: reported_abi_def split: reply.splits if_splits)
qed

text \<open>
  The interface the compile loops need from their cleanup function: every descriptor of the
  table is closed once.
\<close>

locale fd_cleanup =
  fixes cleanup :: "kernel \<Rightarrow> int list \<Rightarrow> unit io"
  assumes cleanup_closes:
    "wp (cleanup K fds) (\<lambda>_ w'. balance (w_trace w') x = balance (w_trace w) x - fd_count fds x) w"
begin

lemma path_rules_ok:
  "wp (add_path_rules K (cleanup K fds) fd rules) (\<lambda>ok w'.
     if ok then \<exists>es. w_trace w' = w_trace w @ es \<and> rule_events fd rules es
     else balance (w_trace w') x = balance (w_trace w) x - fd_count fds x) w"
proof (induction rules arbitrary: w)
  case Nil
  show ?case by (simp add: io_wp)
next
  case (Cons rule rules)
  obtain path acc where rule: "rule = (path, acc)" by fastforce
  show ?case
    unfolding rule
    by (auto simp: io_wp plain_call_def split: reply.splits
        intro!: wp_mono[OF cleanup_closes[where x = x]] wp_mono[OF Cons.IH])
qed

lemma fs_layers_ok:
  "wp (compile_fs_layers K (cleanup K) layers fds) (\<lambda>r w'. case r of
     Some gds \<Rightarrow> \<exists>es new. gds = fds @ new \<and> w_trace w' = w_trace w @ es \<and> layer_events layers new es
   | None \<Rightarrow> balance (w_trace w') x = balance (w_trace w) x - fd_count fds x) w"
proof (induction layers arbitrary: fds w)
  case Nil
  show ?case by (simp add: io_wp)
next
  case (Cons layer layers)
  obtain handled rules where layer: "layer = (handled, rules)" by fastforce
  show ?case
    unfolding layer compile_fs_layers.simps wp_bind
  proof (rule wp_mono[OF create_fs_ruleset_null[where x = x]], goal_cases)
    case (1 r w1)
    show ?case
    proof (cases "fst r < 0")
      case True
      with 1 show ?thesis
        by (auto simp: io_wp intro!: wp_mono[OF cleanup_closes[where x = x]])
    next
      case False
      with 1 obtain abi d fd d' eff where r: "0 < abi" "eff = handled AND fs_access_mask_for_abi (int abi)"
        "eff \<noteq> 0" "fst r = int fd" "w_trace w1 = w_trace w @ [(abi_probe, Done abi d), (LandlockCreateRuleset
        (Some \<lparr>handled_access_fs = eff, handled_access_net = 0, scoped = 0\<rparr>) 8 0, Done fd d')]"
        by auto
      show ?thesis
        using False r
        by (auto simp: io_wp intro!: wp_mono[OF path_rules_ok[where x = x]] wp_mono[OF Cons.IH]
            split: if_splits option.splits) (auto simp: rule_events_balance)
    qed
  qed
qed

lemma net_rules_ok:
  "wp (add_net_rules K (cleanup K fds) fd rules) (\<lambda>ok w'.
     if ok then \<exists>es. w_trace w' = w_trace w @ es \<and> net_rule_events fd rules es
     else balance (w_trace w') x = balance (w_trace w) x - fd_count fds x) w"
proof (induction rules arbitrary: w)
  case Nil
  show ?case by (simp add: io_wp)
next
  case (Cons rule rules)
  show ?case
    by (auto simp: io_wp plain_call_def split: reply.splits
        intro!: wp_mono[OF cleanup_closes[where x = x]] wp_mono[OF Cons.IH])
qed

lemma net_layers_ok:
  "wp (compile_net_layers K (cleanup K) layers fds) (\<lambda>r w'. case r of
     Some gds \<Rightarrow> \<exists>es new. gds = fds @ new \<and> w_trace w' = w_trace w @ es \<and> net_layer_events layers new es
   | None \<Rightarrow> balance (w_trace w') x = balance (w_trace w) x - fd_count fds x) w"
proof (induction layers arbitrary: fds w)
  case Nil
  show ?case by (simp add: io_wp)
next
  case (Cons layer layers)
  obtain handled rules where layer: "layer = (handled, rules)" by fastforce
  show ?case
    unfolding layer compile_net_layers.simps wp_bind
  proof (rule wp_mono[OF create_net_ruleset_null[where x = x]], goal_cases)
    case (1 r w1)
    show ?case
    proof (cases "fst r < 0")
      case True
      with 1 show ?thesis
        by (auto simp: io_wp intro!: wp_mono[OF cleanup_closes[where x = x]])
    next
      case False
      with 1 obtain abi d fd d' eff where r: "4 \<le> abi" "eff = handled AND 3"
        "eff \<noteq> 0" "fst r = int fd" "w_trace w1 = w_trace w @ [(abi_probe, Done abi d), (LandlockCreateRuleset
        (Some \<lparr>handled_access_fs = 0, handled_access_net = eff, scoped = 0\<rparr>) 16 0, Done fd d')]"
        by auto
      show ?thesis
        using False r
        by (auto simp: io_wp intro!: wp_mono[OF net_rules_ok[where x = x]] wp_mono[OF Cons.IH]
            split: if_splits option.splits) (auto simp: net_rule_events_balance)
    qed
  qed
qed

end

interpretation rulesets: fd_cleanup rulesets_cleanup_fds
proof
  fix K fds x w
  show "wp (rulesets_cleanup_fds K fds)
    (\<lambda>_ w'. balance (w_trace w') x = balance (w_trace w) x - fd_count fds x) w"
    by (auto simp: rulesets_cleanup_fds_def compiled_rulesets_cleanup_def io_wp
        intro!: wp_mono[OF close_fds_balance[where x = x]])
qed

interpretation policy: fd_cleanup policy_cleanup_fds
proof
  fix K fds x w
  show "wp (policy_cleanup_fds K fds)
    (\<lambda>_ w'. balance (w_trace w') x = balance (w_trace w) x - fd_count fds x) w"
    by (auto simp: policy_cleanup_fds_def compiled_policy_cleanup_def io_wp
        intro!: wp_mono[OF close_fds_balance[where x = x]])
qed

subsection \<open>Validated policies\<close>

lemma validate_layers_nth:
  "validate_layers i ls \<Longrightarrow> j < length ls \<Longrightarrow>
    \<exists>l. ls ! j = Some l \<and> lay_order l = i + j \<and> validate_layer l"
proof (induction i ls arbitrary: j rule: validate_layers.induct)
  case (3 i l ls)
  then show ?case by (cases j) (auto split: if_splits)
qed auto

lemma validated_layers:
  assumes "ir_policy_validate (Some p) = Inr ()" "l \<in> set (policy_layers p)"
  shows "validate_layer l"
proof -
  have "validate_layers 0 (rules_of (pol_layer_count p) (pol_layers p))"
    using assms(1) by (auto simp: ir_policy_validate_def split: if_splits)
  then show ?thesis
    using validate_layers_nth assms(2)
    by (fastforce simp: policy_layers_def in_set_conv_nth)
qed

lemma exceptions_nonneg:
  assumes "ir_policy_validate (Some p) = Inr ()" "nr \<in> set (exceptions_of p)"
  shows "0 \<le> nr"
proof -
  obtain l where "l \<in> set (policy_layers p)" "lay_kind l = IR_LAYER_EXCEPTION"
      "nr \<in> set (rules_of (lay_rule_count l) (lay_exception_rules l))"
    using assms(2) by (auto simp: exceptions_of_def)
  then show ?thesis
    using validated_layers[OF assms(1), of l]
    by (auto simp: validate_layer_def validate_exception_layer_def list_all_iff)
qed

lemma plan_add_all_full:
  assumes "\<forall>nr \<in> set nrs. 0 \<le> nr" "MAX_EXCEPTIONS < plan_count p + length nrs"
    "plan_count p \<le> MAX_EXCEPTIONS"
  shows "plan_add_all p nrs = Inl (Err ENOSPC)"
  using assms by (induction nrs arbitrary: p) (auto simp: plan_add_def)

subsection \<open>Properties\<close>

text \<open>C19: Compiling the file-system layers of a policy either succeeds, having made for every
  layer in order exactly the calls of \<open>layer_events\<close> (one ruleset with the known part of the
  layer's rights, one rule per path, every path descriptor closed again) and returning these
  rulesets, or returns -1 with an empty result and every descriptor it opened closed.\<close>

theorem policy_compile_fs_spec:
  "wp (policy_compile_fs K (Some p) (Some out0)) (\<lambda>(rc, out) w'.
     if rc = 0 then \<exists>n d es fds. ir_policy_validate (Some p) = Inr () \<and>
         w_trace w' = w_trace w @ (if fds = [] then [] else [(Malloc (length fds * 4), Done n d)]) @ es \<and>
         layer_events (fs_layers_of p) fds es \<and>
         out = Some \<lparr>cr_count = length fds, cr_fds = if fds = [] then None else Some fds\<rparr>
     else rc = -1 \<and> out = Some \<lparr>cr_count = 0, cr_fds = None\<rparr> \<and>
       balance (w_trace w') x = balance (w_trace w) x) w"
proof -
  have len: "length fds = length ls" if "layer_events ls fds es" for ls fds es
    using that by (induction ls fds es rule: layer_events.induct) auto
  have n: "count_layers p IR_LAYER_FS = length (fs_layers_of p)"
    by (simp add: count_layers_def fs_layers_of_def)
  show ?thesis
    unfolding policy_compile_fs_def
    by (auto simp: n io_wp Let_def split: sum.splits reply.splits option.splits
        intro!: wp_mono[OF rulesets.fs_layers_ok[where x = x]])
      (metis len length_greater_0_conv)+
qed

text \<open>The same for the network layers: one ruleset per layer with its TCP rights, one rule per
  port, and nothing left open on failure.\<close>

theorem policy_compile_net_spec:
  "wp (policy_compile_net K (Some p) (Some out0)) (\<lambda>(rc, out) w'.
     if rc = 0 then \<exists>n d es fds. ir_policy_validate (Some p) = Inr () \<and>
         w_trace w' = w_trace w @ (if fds = [] then [] else [(Malloc (length fds * 4), Done n d)]) @ es \<and>
         net_layer_events (net_layers_of p) fds es \<and>
         out = Some \<lparr>cr_count = length fds, cr_fds = if fds = [] then None else Some fds\<rparr>
     else rc = -1 \<and> out = Some \<lparr>cr_count = 0, cr_fds = None\<rparr> \<and>
       balance (w_trace w') x = balance (w_trace w) x) w"
proof -
  have len: "length fds = length ls" if "net_layer_events ls fds es" for ls fds es
    using that by (induction ls fds es rule: net_layer_events.induct) auto
  have n: "count_layers p IR_LAYER_NET = length (net_layers_of p)"
    by (simp add: count_layers_def net_layers_of_def)
  show ?thesis
    unfolding policy_compile_net_def
    by (auto simp: n io_wp Let_def split: sum.splits reply.splits option.splits
        intro!: wp_mono[OF rulesets.net_layers_ok[where x = x]])
      (metis len length_greater_0_conv)+
qed

text \<open>The stand-alone file-system policy compiler has the same contract, for policies given as
  arrays of pointers.\<close>

theorem compile_fs_policy_spec:
  "wp (compile_fs_policy K (Some p) (Some out0)) (\<lambda>(rc, out) w'.
     if rc = 0 then \<exists>n d es fds. validate_fs_policy p = Inr () \<and>
         w_trace w' = w_trace w @ (if fp_layer_count p = 0 then []
            else [(Malloc (fp_layer_count p * 4), Done n d)]) @ es \<and>
         layer_events (fs_policy_layers p) fds es \<and>
         out = Some \<lparr>cp_layer_count = fp_layer_count p,
                     cp_fds = if fp_layer_count p = 0 then None else Some fds\<rparr>
     else rc = -1 \<and> out = Some \<lparr>cp_layer_count = 0, cp_fds = None\<rparr> \<and>
       balance (w_trace w') x = balance (w_trace w) x) w"
  unfolding compile_fs_policy_def
  by (auto simp: io_wp Let_def split: sum.splits reply.splits option.splits
      intro!: wp_mono[OF policy.fs_layers_ok[where x = x]]) blast+

text \<open>Collecting the exception layers of a valid policy yields a plan whose filter notifies
  exactly the listed system calls; more than 32 of them are refused with ENOSPC and an empty
  plan, an invalid policy with EINVAL and the plan untouched.\<close>

theorem policy_compile_exceptions_spec:
  "case policy_compile_exceptions (Some p) (Some q) of
     (Inr _, pl) \<Rightarrow> length (exceptions_of p) \<le> 32 \<and> (\<exists>plan. pl = Some plan \<and> plan_wf plan \<and>
        verdict (notify_filter plan) rest nr = Some (if nr \<in> word_of_int ` set (exceptions_of p)
           then SECCOMP_RET_USER_NOTIF else SECCOMP_RET_ALLOW))
   | (Inl e, pl) \<Rightarrow>
       if ir_policy_validate (Some p) = Inr ()
       then e = Err ENOSPC \<and> 32 < length (exceptions_of p) \<and> pl = Some plan_local
       else e = Err EINVAL \<and> pl = Some q"
proof (cases "ir_policy_validate (Some p)")
  case (Inl e)
  then have "e = Err EINVAL" by (auto simp: ir_policy_validate_def split: if_splits)
  with Inl show ?thesis by (simp add: policy_compile_exceptions_def)
next
  case (Inr u)
  then have nn: "\<forall>nr \<in> set (exceptions_of p). 0 \<le> nr" using exceptions_nonneg[of p] by simp
  show ?thesis
  proof (cases "length (exceptions_of p) \<le> MAX_EXCEPTIONS")
    case True
    then obtain pl where "plan_add_all plan_local (exceptions_of p) = Inr pl" "plan_wf pl"
        "plan_nrs pl = map word_of_int (exceptions_of p)"
      using plan_add_all_spec[of plan_local "exceptions_of p"] nn by auto
    then show ?thesis
      using Inr True notify.verdict_emit[of pl rest nr]
      by (simp add: policy_compile_exceptions_def MAX_EXCEPTIONS_def)
  next
    case False
    then have "plan_add_all plan_local (exceptions_of p) = Inl (Err ENOSPC)"
      using plan_add_all_full[OF nn] by simp
    then show ?thesis using Inr False
      by (simp add: policy_compile_exceptions_def MAX_EXCEPTIONS_def)
  qed
qed

end
