(* ===== verification/Tracee.thy ===== *)
theory Tracee
  imports Broker_Policy Audit_Log Policy_Compiler
begin

text \<open>
  How the broker looks into the supervised process and acts for it (\<open>src/src/landlockd_exec.c\<close>,
  lines 107-379, 1514-1670 and 1880-2830): reading its memory, resolving its paths, answering its
  notifications, and the helper processes that enter its mount namespace. Constants are those of
  Linux on x86-64.

  A helper is a forked child. Its calls appear in the broker's history wrapped in \<open>InChild\<close>; its
  errno and memory are its own. \<open>Waitpid\<close> answers 0 for a child that exited, whose status is then
  the code of the child, and a signal number for one that was killed; a killed child is taken to
  have made all its calls, which only adds calls. Loops that restart a call on EINTR carry fuel.
\<close>

subsection \<open>Constants\<close>

definition O_ACCMODE :: u64 where "O_ACCMODE = 3"
definition O_CREAT :: u64 where "O_CREAT = 0x40"
definition O_EXCL :: u64 where "O_EXCL = 0x80"
definition O_TRUNC :: u64 where "O_TRUNC = 0x200"
definition O_APPEND :: u64 where "O_APPEND = 0x400"
definition O_DIRECTORY :: u64 where "O_DIRECTORY = 0x10000"
definition O_NOFOLLOW :: u64 where "O_NOFOLLOW = 0x20000"
definition O_CLOEXEC :: u64 where "O_CLOEXEC = 0x80000"

definition O_PATH_DIRECTORY_CLOEXEC :: u32 where
  "O_PATH_DIRECTORY_CLOEXEC = 0x200000 OR 0x10000 OR 0x80000"

definition AT_FDCWD :: int where "AT_FDCWD = -100"
definition PATH_MAX :: nat where "PATH_MAX = 4096"
definition NAME_MAX :: nat where "NAME_MAX = 255"

definition MS_RDONLY :: u64 where "MS_RDONLY = 1"
definition MS_NOSUID :: u64 where "MS_NOSUID = 2"
definition MS_NODEV :: u64 where "MS_NODEV = 4"
definition MS_NOEXEC :: u64 where "MS_NOEXEC = 8"
definition MS_REMOUNT :: u64 where "MS_REMOUNT = 32"
definition MS_BIND :: u64 where "MS_BIND = 4096"

definition CLONE_NEWUSER :: u32 where "CLONE_NEWUSER = 0x10000000"
definition CLONE_NEWNS :: u32 where "CLONE_NEWNS = 0x20000"
definition OPEN_TREE_CLONE :: u32 where "OPEN_TREE_CLONE = 1"
definition OPEN_TREE_CLOEXEC :: u32 where "OPEN_TREE_CLOEXEC = 0x80000"
definition MOVE_MOUNT_F_EMPTY_PATH :: u32 where "MOVE_MOUNT_F_EMPTY_PATH = 4"
definition FSCONFIG_CMD_CREATE :: u32 where "FSCONFIG_CMD_CREATE = 6"
definition SECCOMP_ADDFD_FLAG_SEND :: u32 where "SECCOMP_ADDFD_FLAG_SEND = 2"

subsection \<open>Requests\<close>

text \<open>\<open>struct seccomp_notif\<close>, without the fields the broker does not look at.\<close>

record notif =
  q_id :: u64
  q_pid :: int
  q_nr :: int
  q_args :: "u64 list"

text \<open>What a handler works with: the kernel, the fuel of retry loops, the diagnostic stream and the
  listener descriptor.\<close>

record env =
  e_kernel :: kernel
  e_fuel :: nat
  e_diag :: "int option"
  e_listener :: int

definition arg :: "notif \<Rightarrow> nat \<Rightarrow> u64" where
  "arg req i = (if i < length (q_args req) then q_args req ! i else 0)"

text \<open>\<open>(int)x\<close> and \<open>(unsigned int)x\<close>\<close>

definition as_int :: "u64 \<Rightarrow> int" where
  "as_int x = sint (ucast x :: u32)"

definition as_uint :: "u64 \<Rightarrow> u32" where
  "as_uint x = ucast x"

subsection \<open>Names and paths\<close>

definition join_path :: "string \<Rightarrow> string \<Rightarrow> string option io" where
  "join_path parent base = (let p = (if parent = ''/'' then ''/'' @ base else parent @ ''/'' @ base) in
     if length p \<ge> PATH_MAX then do { _ \<leftarrow> fail_with ENAMETOOLONG; State_Monad.return None }
     else State_Monad.return (Some p))"

definition open_access_name :: "int \<Rightarrow> string" where
  "open_access_name access_mode = (if access_mode = 0 then ''read'' else if access_mode = 1 then ''write''
     else if access_mode = 2 then ''read_write'' else ''unknown'')"

definition exec_syscall_name :: "int \<Rightarrow> string" where
  "exec_syscall_name nr = (case map_of [(257, ''openat''), (437, ''openat2''), (258, ''mkdirat''),
     (263, ''unlinkat''), (316, ''renameat2''), (266, ''symlinkat''), (265, ''linkat''),
     (429, ''move_mount''), (428, ''open_tree''), (442, ''mount_setattr''), (430, ''fsopen''),
     (431, ''fsconfig''), (432, ''fsmount'')] nr of None \<Rightarrow> ''unknown'' | Some s \<Rightarrow> s)"

subsection \<open>Audit records of the broker\<close>

definition errno_field :: "int \<Rightarrow> field list" where
  "errno_field e = (if e \<noteq> 0 then [FInt ''errno'' e] else [])"

definition audit_broker_open ::
    "env \<Rightarrow> notif \<Rightarrow> string option \<Rightarrow> string \<Rightarrow> string \<Rightarrow> string \<Rightarrow> int \<Rightarrow> unit io" where
  "audit_broker_open v req path scope operation decision error_value =
     audit_event (e_fuel v) (e_kernel v) (e_diag v) ''broker.open''
       ([FInt ''pid'' (q_pid req), FStr ''syscall'' (Some (exec_syscall_name (q_nr req))),
         FStr ''scope'' (Some scope), FStr ''operation'' (Some operation)] @
        (if path \<noteq> None then [FStr ''path'' path] else []) @
        [FStr ''decision'' (Some decision)] @ errno_field error_value)"

definition audit_broker_operation :: "string \<Rightarrow> string" where
  "audit_broker_operation event = (if take 7 event = ''broker.'' then drop 7 event else event)"

text \<open>\<open>landlockd_audit_broker_path\<close> and \<open>landlockd_audit_broker_mount\<close> have the same body.\<close>

definition audit_broker_path ::
    "env \<Rightarrow> string \<Rightarrow> notif \<Rightarrow> string option \<Rightarrow> string \<Rightarrow> int \<Rightarrow> unit io" where
  "audit_broker_path v event req path decision error_value =
     audit_event (e_fuel v) (e_kernel v) (e_diag v) event
       ([FInt ''pid'' (q_pid req), FStr ''operation'' (Some (audit_broker_operation event)),
         FStr ''path'' path, FStr ''decision'' (Some decision)] @ errno_field error_value)"

definition audit_broker_mount ::
    "env \<Rightarrow> string \<Rightarrow> notif \<Rightarrow> string option \<Rightarrow> string \<Rightarrow> int \<Rightarrow> unit io" where
  "audit_broker_mount v event req path decision error_value =
     audit_event (e_fuel v) (e_kernel v) (e_diag v) event
       ([FInt ''pid'' (q_pid req), FStr ''operation'' (Some (audit_broker_operation event)),
         FStr ''path'' path, FStr ''decision'' (Some decision)] @ errno_field error_value)"

definition audit_broker_paths ::
    "env \<Rightarrow> string \<Rightarrow> notif \<Rightarrow> string option \<Rightarrow> string option \<Rightarrow> string \<Rightarrow> int \<Rightarrow> unit io" where
  "audit_broker_paths v event req old_path new_path decision error_value =
     audit_event (e_fuel v) (e_kernel v) (e_diag v) event
       ([FInt ''pid'' (q_pid req), FStr ''operation'' (Some (audit_broker_operation event)),
         FStr ''old_path'' old_path, FStr ''new_path'' new_path,
         FStr ''decision'' (Some decision)] @ errno_field error_value)"

definition audit_broker_symlink ::
    "env \<Rightarrow> notif \<Rightarrow> string option \<Rightarrow> string option \<Rightarrow> string \<Rightarrow> int \<Rightarrow> unit io" where
  "audit_broker_symlink v req tgt path decision error_value =
     audit_event (e_fuel v) (e_kernel v) (e_diag v) ''broker.symlink''
       ([FInt ''pid'' (q_pid req), FStr ''operation'' (Some ''symlink''),
         FStr ''target'' tgt, FStr ''path'' path,
         FStr ''decision'' (Some decision)] @ errno_field error_value)"

subsection \<open>Reading the supervised process\<close>

text \<open>The number of bytes read, or -1, and the bytes.\<close>

definition read_tracee_memory :: "env \<Rightarrow> int \<Rightarrow> u64 \<Rightarrow> nat \<Rightarrow> (int \<times> string) io" where
  "read_tracee_memory v pid addr len = do {
     r \<leftarrow> sysd (e_kernel v) (ProcessVmReadv pid addr len);
     State_Monad.return (if fst r < 0 then (-1, []) else (int (length (take len (snd r))), take len (snd r))) }"

text \<open>Each iteration reads at least one byte, so \<open>size\<close> iterations are enough. The second result is
  what the buffer holds up to the last byte read.\<close>

fun read_chunks :: "nat \<Rightarrow> env \<Rightarrow> int \<Rightarrow> u64 \<Rightarrow> nat \<Rightarrow> string \<Rightarrow> (int \<times> string) io" where
  "read_chunks 0 v pid addr bsize buf = do { rc \<leftarrow> fail_with ENAMETOOLONG; State_Monad.return (rc, buf) }"
| "read_chunks (Suc n) v pid addr bsize buf =
     (if length buf + 1 < bsize then do {
        r \<leftarrow> read_tracee_memory v pid (addr + word_of_nat (length buf)) (min 256 (bsize - length buf - 1));
        if fst r \<le> 0 then do {
          _ \<leftarrow> (if fst r = 0 then set_errno EFAULT else State_Monad.return ());
          State_Monad.return (-1, buf) }
        else if NUL \<in> set (snd r) then State_Monad.return (0, cstr (buf @ snd r))
        else read_chunks n v pid addr bsize (buf @ snd r) }
      else do { rc \<leftarrow> fail_with ENAMETOOLONG; State_Monad.return (rc, buf) })"

definition read_tracee_string :: "env \<Rightarrow> int \<Rightarrow> u64 \<Rightarrow> nat \<Rightarrow> (int \<times> string) io" where
  "read_tracee_string v pid addr bsize = (if bsize = 0
     then do { rc \<leftarrow> fail_with EINVAL; State_Monad.return (rc, []) }
     else read_chunks bsize v pid addr bsize [])"

definition read_proc_link :: "env \<Rightarrow> string \<Rightarrow> string option io" where
  "read_proc_link v path = do {
     r \<leftarrow> sysd (e_kernel v) (Readlink path (PATH_MAX - 1));
     State_Monad.return (if fst r < 0 then None else Some (cstr (take (PATH_MAX - 1) (snd r)))) }"

definition proc_dir_path :: "int \<Rightarrow> int \<Rightarrow> string" where
  "proc_dir_path pid dirfd = ''/proc/'' @ dec pid @
     (if dirfd = AT_FDCWD then ''/cwd'' else ''/fd/'' @ dec dirfd)"

definition too_long :: "'a option io" where
  "too_long = do { _ \<leftarrow> fail_with ENAMETOOLONG; State_Monad.return None }"

text \<open>A relative path is joined to what the link of the directory in \<open>/proc\<close> says.\<close>

definition build_tracee_path :: "env \<Rightarrow> int \<Rightarrow> int \<Rightarrow> string \<Rightarrow> string option io" where
  "build_tracee_path v pid dirfd requested =
     (if take 1 requested = ''/'' then
        (if length requested \<ge> PATH_MAX then too_long else State_Monad.return (Some requested))
      else if length (proc_dir_path pid dirfd) \<ge> PATH_MAX then too_long
      else opt_bind_io (read_proc_link v (proc_dir_path pid dirfd)) (\<lambda>base.
        if length (base @ ''/'' @ requested) \<ge> PATH_MAX then too_long
        else State_Monad.return (Some (base @ ''/'' @ requested))))"

definition resolve_tracee_path :: "env \<Rightarrow> int \<Rightarrow> int \<Rightarrow> string \<Rightarrow> string option io" where
  "resolve_tracee_path v pid dirfd requested =
     (if take 1 requested = ''/'' then realpath (e_kernel v) requested
      else if length (proc_dir_path pid dirfd) \<ge> PATH_MAX then too_long
      else opt_bind_io (read_proc_link v (proc_dir_path pid dirfd)) (\<lambda>base.
        if length (base @ ''/'' @ requested) \<ge> PATH_MAX then too_long
        else realpath (e_kernel v) (base @ ''/'' @ requested)))"

text \<open>Everything after the last slash, and everything before it (or \<open>/\<close>).\<close>

definition split_parent_basename :: "string \<Rightarrow> (string \<times> string) res" where
  "split_parent_basename path =
     (if CHR ''/'' \<notin> set path then Inl (Err EINVAL)
      else let base = rev (takeWhile (\<lambda>c. c \<noteq> CHR ''/'') (rev path));
               parent_len = length path - length base - 1;
               parent_len = (if parent_len = 0 then 1 else parent_len) in
      if base = [] \<or> base = ''.'' \<or> base = ''..'' \<or> length base \<ge> NAME_MAX + 1 then Inl (Err EINVAL)
      else if parent_len \<ge> PATH_MAX then Inl (Err ENAMETOOLONG)
      else Inr (take parent_len path, base))"

definition resolve_tracee_parent :: "env \<Rightarrow> int \<Rightarrow> int \<Rightarrow> string \<Rightarrow> (string \<times> string) option io" where
  "resolve_tracee_parent v pid dirfd requested =
     opt_bind_io (build_tracee_path v pid dirfd requested) (\<lambda>joined.
     opt_bind_io (run_am (liftM (split_parent_basename joined))) (\<lambda>(parent, base).
     opt_bind_io (realpath (e_kernel v) parent) (\<lambda>canonical_parent.
       if length canonical_parent \<ge> PATH_MAX then too_long
       else State_Monad.return (Some (canonical_parent, base)))))"

subsection \<open>Answers\<close>

text \<open>A request that is gone (ENOENT, ESRCH) counts as answered.\<close>

definition unless_gone :: "int io" where
  "unless_gone = do {
     e \<leftarrow> get_errno;
     State_Monad.return (if e = ENOENT \<or> e = ESRCH then 0 else -1) }"

definition broker_send_errno :: "env \<Rightarrow> u64 \<Rightarrow> int \<Rightarrow> int io" where
  "broker_send_errno v rid error_value = do {
     r \<leftarrow> sys (e_kernel v) (NotifSend (e_listener v) rid 0 (- error_value));
     if r < 0 then unless_gone else State_Monad.return 0 }"

definition broker_send_success :: "env \<Rightarrow> u64 \<Rightarrow> int io" where
  "broker_send_success v rid = do {
     r \<leftarrow> sys (e_kernel v) (NotifSend (e_listener v) rid 0 0);
     if r < 0 then unless_gone else State_Monad.return 0 }"

text \<open>The second result is the descriptor number in the supervised process, -1 if there is none.\<close>

definition broker_reply_addfd :: "env \<Rightarrow> u64 \<Rightarrow> int \<Rightarrow> u32 \<Rightarrow> (int \<times> int) io" where
  "broker_reply_addfd v rid srcfd newfd_flags = do {
     remote_fd \<leftarrow> sys (e_kernel v) (NotifAddfd (e_listener v) rid SECCOMP_ADDFD_FLAG_SEND srcfd newfd_flags);
     if remote_fd \<ge> 0 then State_Monad.return (0, remote_fd)
     else do {
       e \<leftarrow> get_errno;
       if e \<noteq> EINVAL then do { rc \<leftarrow> unless_gone; State_Monad.return (rc, -1) }
       else do {
         remote_fd \<leftarrow> sys (e_kernel v) (NotifAddfd (e_listener v) rid 0 srcfd newfd_flags);
         if remote_fd < 0 then do { rc \<leftarrow> unless_gone; State_Monad.return (rc, -1) }
         else do {
           r \<leftarrow> sys (e_kernel v) (NotifSend (e_listener v) rid remote_fd 0);
           if r < 0 then do { rc \<leftarrow> unless_gone; State_Monad.return (rc, remote_fd) }
           else State_Monad.return (0, remote_fd) } } } }"

subsection \<open>Mount operations\<close>

text \<open>The rules of all layers, each with the descriptor of its layer's ruleset.\<close>

definition layered_rules :: "ir \<Rightarrow> int list \<Rightarrow> (int \<times> fs_rule) list" where
  "layered_rules ir fds = concat (map (\<lambda>(l, fd). map (\<lambda>r. (fd, r)) (l_rules l)) (zip (fs_layers ir) fds))"

fun attach_rules :: "kernel \<Rightarrow> string \<Rightarrow> (int \<times> fs_rule) list \<Rightarrow> bool \<Rightarrow> int io" where
  "attach_rules K mount_path [] attached =
     (if \<not> attached then fail_with EACCES else State_Monad.return 0)"
| "attach_rules K mount_path ((fd, r) # rs) attached =
     (if path_is_under (r_path r) mount_path \<or> path_has_prefix (r_path r) mount_path then do {
        parent_fd \<leftarrow> sys K (Open (if path_is_under (r_path r) mount_path then mount_path else r_path r) O_PATH_CLOEXEC);
        if parent_fd < 0 then State_Monad.return (-1)
        else do {
          rc \<leftarrow> landlock_add_fs_rule K fd (Some (r_allowed r, parent_fd)) 0;
          if rc < 0 then do {
            saved_errno \<leftarrow> get_errno;
            _ \<leftarrow> sys K (Close parent_fd);
            set_errno saved_errno;
            State_Monad.return (-1) }
          else do { _ \<leftarrow> sys K (Close parent_fd); attach_rules K mount_path rs True } } }
      else attach_rules K mount_path rs attached)"

definition attach_mount_rules :: "kernel \<Rightarrow> ir \<Rightarrow> int list \<Rightarrow> string \<Rightarrow> int io" where
  "attach_mount_rules K ir fds mount_path = attach_rules K mount_path (layered_rules ir fds) False"

text \<open>\<open>st_mode\<close> is what \<open>stat\<close> writes back; its file type is bits 12 to 15.\<close>

definition S_ISDIR :: "string \<Rightarrow> bool" where
  "S_ISDIR st \<longleftrightarrow> le_val st div 4096 mod 16 = 4"

definition S_ISREG :: "string \<Rightarrow> bool" where
  "S_ISREG st \<longleftrightarrow> le_val st div 4096 mod 16 = 8"

definition apply_bind_mount :: "kernel \<Rightarrow> string \<Rightarrow> string \<Rightarrow> bool \<Rightarrow> ir \<Rightarrow> int list \<Rightarrow> int io" where
  "apply_bind_mount K source tgt read_only ir fds = do {
     source_st \<leftarrow> sysd K (Stat source);
     if fst source_st < 0 then State_Monad.return (-1) else do {
     target_st \<leftarrow> sysd K (Stat tgt);
     if fst target_st < 0 then State_Monad.return (-1)
     else if S_ISDIR (snd source_st) \<noteq> S_ISDIR (snd target_st) then fail_with EINVAL
     else if \<not> S_ISDIR (snd source_st) \<and> \<not> S_ISREG (snd source_st) then fail_with EINVAL
     else do {
       m \<leftarrow> sys K (Mount (Some source) tgt None MS_BIND None);
       if m < 0 then State_Monad.return (-1) else do {
       r \<leftarrow> (if read_only then sys K (Mount None tgt None (MS_BIND OR MS_REMOUNT OR MS_RDONLY) None)
            else State_Monad.return 0);
       if r < 0 then State_Monad.return (-1)
       else attach_mount_rules K ir fds tgt } } } }"

subsection \<open>Helper processes\<close>

definition run_child :: "int io \<Rightarrow> int io" where
  "run_child child = State (\<lambda>w. case run_state child w of (code, wc) \<Rightarrow>
     (code, w\<lparr>w_trace := w_trace w @
        map (\<lambda>(e, r). (InChild e, r)) (drop (length (w_trace w)) (w_trace wc))\<rparr>))"

text \<open>\<open>_exit(errno > 0 ? errno : 1)\<close>\<close>

definition exit_errno :: "int io" where
  "exit_errno = do { e \<leftarrow> get_errno; State_Monad.return (if e > 0 then e else 1) }"

definition or_exit :: "int io \<Rightarrow> (int \<Rightarrow> int io) \<Rightarrow> int io" where
  "or_exit f rest = do { r \<leftarrow> f; if r < 0 then exit_errno else rest r }"

datatype wait_status = Exited int | Signaled nat

fun waitpid_retry :: "nat \<Rightarrow> kernel \<Rightarrow> int \<Rightarrow> int \<Rightarrow> wait_status option io" where
  "waitpid_retry n K pid code = do {
     r \<leftarrow> sys K (Waitpid pid);
     if r < 0 then do {
       e \<leftarrow> get_errno;
       (case n of 0 \<Rightarrow> State_Monad.return None
        | Suc n \<Rightarrow> if e \<noteq> EINTR then State_Monad.return None else waitpid_retry n K pid code) }
     else State_Monad.return (Some (if r = 0 then Exited (code mod 256) else Signaled (nat r))) }"

declare waitpid_retry.simps [simp del]

definition broker_wait_helper :: "env \<Rightarrow> int \<Rightarrow> int \<Rightarrow> int io" where
  "broker_wait_helper v helper_pid code = do {
     status \<leftarrow> waitpid_retry (e_fuel v) (e_kernel v) helper_pid code;
     case status of None \<Rightarrow> State_Monad.return (-1)
     | Some (Signaled s) \<Rightarrow> State_Monad.return (-1)
     | Some (Exited c) \<Rightarrow> if c = 0 then State_Monad.return 0 else fail_with c }"

text \<open>Fork a child, wait for it.\<close>

definition in_helper :: "env \<Rightarrow> int io \<Rightarrow> int io" where
  "in_helper v child = do {
     helper_pid \<leftarrow> sys (e_kernel v) Fork;
     if helper_pid < 0 then State_Monad.return (-1)
     else do { code \<leftarrow> run_child child; broker_wait_helper v helper_pid code } }"

definition broker_open_tracee_namespace :: "env \<Rightarrow> int \<Rightarrow> string \<Rightarrow> int io" where
  "broker_open_tracee_namespace v pid kind = (let p = ''/proc/'' @ dec pid @ ''/ns/'' @ kind in
     if length p \<ge> PATH_MAX then fail_with ENAMETOOLONG else sys (e_kernel v) (Open p (ucast O_CLOEXEC)))"

definition broker_enter_tracee_mount_namespace :: "env \<Rightarrow> int \<Rightarrow> int io" where
  "broker_enter_tracee_mount_namespace v pid = (let K = e_kernel v in do {
     user_fd \<leftarrow> broker_open_tracee_namespace v pid ''user'';
     if user_fd < 0 then State_Monad.return (-1) else do {
     mount_fd \<leftarrow> broker_open_tracee_namespace v pid ''mnt'';
     if mount_fd < 0 then do {
       saved_errno \<leftarrow> get_errno; _ \<leftarrow> sys K (Close user_fd); set_errno saved_errno;
       State_Monad.return (-1) }
     else do {
       r \<leftarrow> sys K (Setns user_fd CLONE_NEWUSER);
       if r < 0 then do {
         saved_errno \<leftarrow> get_errno; _ \<leftarrow> sys K (Close user_fd); _ \<leftarrow> sys K (Close mount_fd);
         set_errno saved_errno; State_Monad.return (-1) }
       else do {
         _ \<leftarrow> sys K (Close user_fd);
         r \<leftarrow> sys K (Setns mount_fd CLONE_NEWNS);
         if r < 0 then do {
           saved_errno \<leftarrow> get_errno; _ \<leftarrow> sys K (Close mount_fd); set_errno saved_errno;
           State_Monad.return (-1) }
         else do { _ \<leftarrow> sys K (Close mount_fd); State_Monad.return 0 } } } } })"

text \<open>A child that first enters the mount namespace of the supervised process.\<close>

definition in_namespace :: "env \<Rightarrow> int \<Rightarrow> int io \<Rightarrow> int io" where
  "in_namespace v pid rest = or_exit (broker_enter_tracee_mount_namespace v pid) (\<lambda>_. rest)"

definition broker_dup_tracee_fd :: "env \<Rightarrow> int \<Rightarrow> int \<Rightarrow> int io" where
  "broker_dup_tracee_fd v pid remote_fd = (let K = e_kernel v;
     fallback = (let p = ''/proc/'' @ dec pid @ ''/fd/'' @ dec remote_fd in
       if length p \<ge> PATH_MAX then fail_with ENAMETOOLONG else sys K (Open p (ucast O_CLOEXEC))) in do {
     pidfd \<leftarrow> sys K (PidfdOpen pid);
     if pidfd \<ge> 0 then do {
       local_fd \<leftarrow> sys K (PidfdGetfd pidfd remote_fd);
       saved_errno \<leftarrow> get_errno;
       _ \<leftarrow> sys K (Close pidfd);
       if local_fd \<ge> 0 then State_Monad.return local_fd
       else if saved_errno \<noteq> ENOSYS \<and> saved_errno \<noteq> EPERM \<and> saved_errno \<noteq> EACCES \<and> saved_errno \<noteq> EINVAL
       then fail_with saved_errno
       else do { set_errno saved_errno; fallback } }
     else fallback })"

definition broker_mount_tmpfs_in_tracee_namespace ::
    "env \<Rightarrow> int \<Rightarrow> string \<Rightarrow> u64 \<Rightarrow> ir \<Rightarrow> int list \<Rightarrow> int io" where
  "broker_mount_tmpfs_in_tracee_namespace v pid target_path flags ir fds =
     (if flags AND NOT (MS_RDONLY OR MS_NOEXEC OR MS_NODEV OR MS_NOSUID) \<noteq> 0 then fail_with EACCES
      else let effective_flags = (flags AND (MS_RDONLY OR MS_NOEXEC)) OR (MS_NODEV OR MS_NOSUID) in
      in_helper v (in_namespace v pid
        (or_exit (sys (e_kernel v) (Mount (Some ''tmpfs'') target_path (Some ''tmpfs'') effective_flags (Some ''mode=700''))) (\<lambda>_.
         or_exit (attach_mount_rules (e_kernel v) ir fds target_path) (\<lambda>_. State_Monad.return 0)))))"

definition broker_bind_mount_in_tracee_namespace ::
    "env \<Rightarrow> int \<Rightarrow> string \<Rightarrow> string \<Rightarrow> u64 \<Rightarrow> bool \<Rightarrow> ir \<Rightarrow> int list \<Rightarrow> int io" where
  "broker_bind_mount_in_tracee_namespace v pid source_path target_path flags read_only ir fds =
     (if flags AND NOT (MS_BIND OR MS_RDONLY) \<noteq> 0 \<or> flags AND MS_BIND = 0 then fail_with EACCES
      else let effective_read_only = (read_only \<or> flags AND MS_RDONLY \<noteq> 0) in
      in_helper v (in_namespace v pid
        (or_exit (apply_bind_mount (e_kernel v) source_path target_path effective_read_only ir fds)
          (\<lambda>_. State_Monad.return 0))))"

definition broker_set_readonly_mount :: "env \<Rightarrow> string \<Rightarrow> int io" where
  "broker_set_readonly_mount v target_path = do {
     r \<leftarrow> sys (e_kernel v) (MountSetattr AT_FDCWD target_path 0
       \<lparr>attr_set = 1, attr_clr = 0, propagation = 0, userns_fd = 0\<rparr>);
     if r = 0 then State_Monad.return 0
     else do {
       e \<leftarrow> get_errno;
       if e \<noteq> ENOSYS \<and> e \<noteq> EOPNOTSUPP \<and> e \<noteq> EINVAL then State_Monad.return (-1)
       else sys (e_kernel v) (Mount None target_path None (MS_BIND OR MS_REMOUNT OR MS_RDONLY) None) } }"

text \<open>What both forms of \<open>move_mount\<close> do after the move.\<close>

definition after_move :: "env \<Rightarrow> string \<Rightarrow> bool \<Rightarrow> ir \<Rightarrow> int list \<Rightarrow> int io" where
  "after_move v target_path read_only ir fds =
     or_exit (if read_only then broker_set_readonly_mount v target_path else State_Monad.return 0) (\<lambda>_.
     or_exit (attach_mount_rules (e_kernel v) ir fds target_path) (\<lambda>_. State_Monad.return 0))"

definition broker_move_mount_in_tracee_namespace ::
    "env \<Rightarrow> int \<Rightarrow> string \<Rightarrow> string \<Rightarrow> bool \<Rightarrow> ir \<Rightarrow> int list \<Rightarrow> int io" where
  "broker_move_mount_in_tracee_namespace v pid source_path target_path read_only ir fds =
     in_helper v (in_namespace v pid
       (or_exit (sys (e_kernel v) (OpenTree AT_FDCWD source_path (OPEN_TREE_CLONE OR OPEN_TREE_CLOEXEC))) (\<lambda>tree_fd. do {
          r \<leftarrow> sys (e_kernel v) (MoveMount tree_fd [] AT_FDCWD target_path MOVE_MOUNT_F_EMPTY_PATH);
          if r < 0 then do {
            saved_errno \<leftarrow> get_errno;
            _ \<leftarrow> sys (e_kernel v) (Close tree_fd);
            State_Monad.return (if saved_errno > 0 then saved_errno else 1) }
          else do {
            _ \<leftarrow> sys (e_kernel v) (Close tree_fd);
            after_move v target_path read_only ir fds } })))"

definition broker_move_mount_fd_in_tracee_namespace ::
    "env \<Rightarrow> int \<Rightarrow> int \<Rightarrow> string \<Rightarrow> bool \<Rightarrow> ir \<Rightarrow> int list \<Rightarrow> int io" where
  "broker_move_mount_fd_in_tracee_namespace v pid source_fd target_path read_only ir fds =
     in_helper v (in_namespace v pid
       (or_exit (sys (e_kernel v) (MoveMount source_fd [] AT_FDCWD target_path MOVE_MOUNT_F_EMPTY_PATH))
         (\<lambda>_. after_move v target_path read_only ir fds)))"

definition broker_mount_setattr_in_tracee_namespace ::
    "env \<Rightarrow> int \<Rightarrow> string \<Rightarrow> mount_attr \<Rightarrow> int io" where
  "broker_mount_setattr_in_tracee_namespace v pid target_path attr =
     in_helper v (in_namespace v pid
       (or_exit (sys (e_kernel v) (MountSetattr AT_FDCWD target_path 0 attr)) (\<lambda>_. State_Monad.return 0)))"

definition broker_umount_in_tracee_namespace :: "env \<Rightarrow> int \<Rightarrow> string \<Rightarrow> int \<Rightarrow> int io" where
  "broker_umount_in_tracee_namespace v pid target_path flags =
     (if flags \<noteq> 0 \<and> flags \<noteq> 2 then fail_with EACCES
      else in_helper v (in_namespace v pid
        (or_exit (sys (e_kernel v) (Umount2 target_path flags)) (\<lambda>_. State_Monad.return 0))))"

subsection \<open>Descriptors from a helper\<close>

text \<open>A message without a descriptor is the answer \<open>Fail EINVAL\<close> of \<open>RecvFd\<close>; every other failure, and
  the end of the stream, is reported as EPIPE.\<close>

definition recv_fd :: "kernel \<Rightarrow> int \<Rightarrow> int io" where
  "recv_fd K sock = do {
     fd \<leftarrow> sys K (RecvFd sock);
     if fd < 0 then do { e \<leftarrow> get_errno; fail_with (if e = EINVAL then EINVAL else EPIPE) }
     else State_Monad.return fd }"

definition send_fd :: "kernel \<Rightarrow> int \<Rightarrow> int \<Rightarrow> int io" where
  "send_fd K sock fd = do { r \<leftarrow> sys K (SendFd sock fd); State_Monad.return (if r < 0 then -1 else 0) }"

definition close_if_open :: "kernel \<Rightarrow> int \<Rightarrow> unit io" where
  "close_if_open K fd = (if fd \<ge> 0 then do { _ \<leftarrow> sys K (Close fd); State_Monad.return () } else State_Monad.return ())"

text \<open>A child that ends by sending a descriptor through \<open>sock\<close>.\<close>

definition send_and_exit :: "kernel \<Rightarrow> int \<Rightarrow> int \<Rightarrow> int io" where
  "send_and_exit K sock local_fd = or_exit (send_fd K sock local_fd) (\<lambda>_. do {
     _ \<leftarrow> sys K (Close local_fd);
     _ \<leftarrow> sys K (Close sock);
     State_Monad.return 0 })"

definition fd_from_helper :: "env \<Rightarrow> (int \<Rightarrow> int io) \<Rightarrow> int io" where
  "fd_from_helper v child = (let K = e_kernel v in do {
     socks \<leftarrow> sysd K Socketpair;
     if fst socks < 0 then State_Monad.return (-1)
     else let s0 = fst socks; s1 = int (le_val (snd socks)) in do {
       helper_pid \<leftarrow> sys K Fork;
       if helper_pid < 0 then do {
         saved_errno \<leftarrow> get_errno; _ \<leftarrow> sys K (Close s0); _ \<leftarrow> sys K (Close s1); set_errno saved_errno;
         State_Monad.return (-1) }
       else do {
         code \<leftarrow> run_child (do { _ \<leftarrow> sys K (Close s0); child s1 });
         _ \<leftarrow> sys K (Close s1);
         fd \<leftarrow> recv_fd K s0;
         saved_errno \<leftarrow> get_errno;
         _ \<leftarrow> sys K (Close s0);
         status \<leftarrow> waitpid_retry (e_fuel v) K helper_pid code;
         case status of None \<Rightarrow> do { _ \<leftarrow> close_if_open K fd; State_Monad.return (-1) }
         | Some (Signaled s) \<Rightarrow> do { _ \<leftarrow> close_if_open K fd; fail_with EPERM }
         | Some (Exited c) \<Rightarrow>
             if c \<noteq> 0 then do { _ \<leftarrow> close_if_open K fd; fail_with c }
             else if fd < 0 then fail_with saved_errno
             else State_Monad.return fd } } })"

definition broker_open_tree_in_tracee_namespace :: "env \<Rightarrow> int \<Rightarrow> string \<Rightarrow> u32 \<Rightarrow> int io" where
  "broker_open_tree_in_tracee_namespace v pid source_path flags =
     fd_from_helper v (\<lambda>sock. in_namespace v pid
       (or_exit (sys (e_kernel v) (OpenTree AT_FDCWD source_path flags)) (send_and_exit (e_kernel v) sock)))"

definition broker_fsmount_in_tracee_namespace :: "env \<Rightarrow> int \<Rightarrow> string \<Rightarrow> u32 \<Rightarrow> u32 \<Rightarrow> int io" where
  "broker_fsmount_in_tracee_namespace v pid fs_type fsmount_flags attr_flags =
     fd_from_helper v (\<lambda>sock. in_namespace v pid
       (or_exit (sys (e_kernel v) (Fsopen fs_type 1)) (\<lambda>fsfd.
        or_exit (sys (e_kernel v) (Fsconfig fsfd FSCONFIG_CMD_CREATE)) (\<lambda>_. do {
          local_fd \<leftarrow> sys (e_kernel v) (Fsmount fsfd fsmount_flags attr_flags);
          _ \<leftarrow> sys (e_kernel v) (Close fsfd);
          if local_fd < 0 then exit_errno else send_and_exit (e_kernel v) sock local_fd }))))"

subsection \<open>Calls of a child process\<close>

definition in_child :: "history \<Rightarrow> history" where
  "in_child h = map (\<lambda>(e, r). (InChild e, r)) h"

lemma in_child_simps [simp]: "in_child [] = []" "in_child (g @ h) = in_child g @ in_child h"
    "in_child [(e, r)] = [(InChild e, r)]"
  by (simp_all add: in_child_def)

lemma granted_in_child:
  "all_granted (\<lambda>h e. E (g @ in_child h) (InChild e)) h0 es \<Longrightarrow> all_granted E (g @ in_child h0) (in_child es)"
proof (induction es arbitrary: h0)
  case (Cons x es)
  then show ?case using Cons.IH[of "h0 @ [x]"] by (cases x) (simp add: in_child_def)
qed (simp add: in_child_def)

text \<open>A child is judged on its own calls, with those of the broker before them.\<close>

lemma traced_child:
  assumes "traced (\<lambda>h e. E (g @ in_child h) (InChild e)) [] child (\<lambda>_ _. True)"
    and "\<And>a h. Q a (g @ in_child h)"
  shows "traced E g (run_child child) Q"
proof (rule tracedI)
  fix w
  obtain a wc where c: "run_state child w = (a, wc)" by fastforce
  obtain es where es: "w_trace wc = w_trace w @ es" "all_granted (\<lambda>h e. E (g @ in_child h) (InChild e)) [] es"
    using tracedD[OF assms(1) c] by blast
  have "all_granted E g (in_child es)" using granted_in_child[of E g "[]" es] es(2) by simp
  moreover have "run_state (run_child child) w = (a, w\<lparr>w_trace := w_trace w @ in_child es\<rparr>)"
    unfolding run_child_def in_child_def by (simp add: c es(1))
  ultimately show "\<exists>es. w_trace (snd (run_state (run_child child) w)) = w_trace w @ es \<and> all_granted E g es \<and>
      Q (fst (run_state (run_child child) w)) (g @ es)"
    using assms(2) by (intro exI[of _ "in_child es"]) simp
qed

lemma traced_exit_errno: "(\<And>c. Q c g) \<Longrightarrow> traced E g exit_errno Q"
  unfolding exit_errno_def by (intro io_traced) simp

lemma traced_or_exit:
  "traced E g f (\<lambda>r g'. (r < 0 \<longrightarrow> (\<forall>c. Q c g')) \<and> (r \<ge> 0 \<longrightarrow> traced E g' (rest r) Q)) \<Longrightarrow> traced E g (or_exit f rest) Q"
  unfolding or_exit_def
  by (rule traced_bind, erule traced_mono) (auto intro!: traced_exit_errno)

lemma calls_or_exit: "calls E f (\<lambda>r. r \<ge> 0 \<longrightarrow> calls E (rest r) (\<lambda>_. True)) \<Longrightarrow> calls E (or_exit f rest) (\<lambda>_. True)"
  unfolding or_exit_def exit_errno_def by (rule calls_bind, erule calls_mono) (auto intro!: io_calls)

lemma calls_or_exit_any: "calls E f (\<lambda>_. True) \<Longrightarrow> (\<And>r. calls E (rest r) (\<lambda>_. True)) \<Longrightarrow> calls E (or_exit f rest) (\<lambda>_. True)"
  by (rule calls_or_exit, erule calls_mono) simp

lemma calls_or_exit_sys:
  "(\<And>g. E g e) \<Longrightarrow> (\<And>r. calls E (rest r) (\<lambda>_. True)) \<Longrightarrow> calls E (or_exit (sys K e) rest) (\<lambda>_. True)"
  by (intro calls_or_exit_any calls_sys) simp_all

end
