(* ===== verification/Policy_Process.thy ===== *)
theory Policy_Process
  imports Policy_Loader Tracee
begin

text \<open>
  The processes of the policy loader (\<open>src/src/landlock_policy_loader.c\<close>, lines 28-200, 423-447 and
  1073-1250): finding the helper program, running it with its output in pipes, and reading the policy
  from what it wrote. The two installation paths of the helper are build-time constants and
  parameters here; so is the TOML parser. The helper program itself is \<open>policy_helper_main\<close>; the
  parent sees it only through the kernel's answers to waitpid and read. The text of diagnostics is
  left out.
\<close>

subsection \<open>Finding the helper\<close>

text \<open>\<open>S_IXUSR\<close> is bit 6 of the mode that \<open>stat\<close> writes back.\<close>

definition helper_path_exists :: "kernel \<Rightarrow> string option \<Rightarrow> bool io" where
  "helper_path_exists K path = (case path of None \<Rightarrow> State_Monad.return False
     | Some p \<Rightarrow> if p = [] then State_Monad.return False else do {
         st \<leftarrow> sysd K (Stat p);
         State_Monad.return (fst st = 0 \<and> le_val (snd st) div 64 mod 2 = 1) })"

text \<open>Everything up to the last slash, the slash included.\<close>

definition up_to_slash :: "string \<Rightarrow> string" where
  "up_to_slash s = rev (dropWhile (\<lambda>c. c \<noteq> CHR ''/'') (rev s))"

definition build_sibling_helper_path :: "kernel \<Rightarrow> string \<Rightarrow> string option io" where
  "build_sibling_helper_path K base = do {
     r \<leftarrow> sysd K (Readlink ''/proc/self/exe'' (PATH_MAX - 1));
     if fst r < 0 then State_Monad.return None
     else let buf = cstr (take (PATH_MAX - 1) (snd r)) in
       if CHR ''/'' \<notin> set buf then do { set_errno EINVAL; State_Monad.return None }
       else if length (up_to_slash buf) + length base + 1 > PATH_MAX
       then do { set_errno ENAMETOOLONG; State_Monad.return None }
       else State_Monad.return (Some (up_to_slash buf @ base)) }"

definition build_parent_src_helper_path :: "kernel \<Rightarrow> string \<Rightarrow> string option io" where
  "build_parent_src_helper_path K base = do {
     r \<leftarrow> sysd K (Readlink ''/proc/self/exe'' (PATH_MAX - 1));
     if fst r < 0 then State_Monad.return None
     else let buf = cstr (take (PATH_MAX - 1) (snd r)); dir = butlast (up_to_slash buf);
              parent = butlast (up_to_slash dir) in
       if CHR ''/'' \<notin> set buf \<or> CHR ''/'' \<notin> set dir then do { set_errno EINVAL; State_Monad.return None }
       else if length (parent @ ''/src/'' @ base) \<ge> PATH_MAX
       then do { set_errno ENAMETOOLONG; State_Monad.return None }
       else State_Monad.return (Some (parent @ ''/src/'' @ base)) }"

text \<open>The candidate, if it can be built and is executable.\<close>

definition usable :: "kernel \<Rightarrow> string option io \<Rightarrow> string option io" where
  "usable K candidate = do {
     p \<leftarrow> candidate;
     if p = None then State_Monad.return None
     else do { ok \<leftarrow> helper_path_exists K p; State_Monad.return (if ok then p else None) } }"

fun first_usable :: "string option io list \<Rightarrow> string \<Rightarrow> string io" where
  "first_usable [] fallback = State_Monad.return fallback"
| "first_usable (c # cs) fallback = do {
     p \<leftarrow> c;
     case p of Some q \<Rightarrow> State_Monad.return q | None \<Rightarrow> first_usable cs fallback }"

text \<open>\<open>getenv\<close>; an empty value counts as unset where the code says so.\<close>

definition getenv :: "kernel \<Rightarrow> string \<Rightarrow> string option io" where
  "getenv K name = do {
     r \<leftarrow> sysd K (Getenv name);
     State_Monad.return (if fst r < 0 then None else Some (cstr (snd r))) }"

definition policy_helper_path :: "kernel \<Rightarrow> string \<Rightarrow> string \<Rightarrow> string io" where
  "policy_helper_path K c_path rust_path = (
     let near = (\<lambda>base. [usable K (build_sibling_helper_path K base), usable K (build_parent_src_helper_path K base)]);
         c = ''landlockd-policy-helper''; rust = ''landlockd-policy-helper-rs'' in do {
     override \<leftarrow> getenv K ''LANDLOCKD_POLICY_HELPER'';
     if override \<noteq> None \<and> override \<noteq> Some [] then State_Monad.return (the override)
     else do {
     backend \<leftarrow> getenv K ''LANDLOCKD_POLICY_HELPER_BACKEND'';
     if backend = Some ''rust'' then first_usable (near rust) rust_path
     else if backend = Some ''c'' then first_usable (near c) c_path
     else first_usable (near c @ [usable K (State_Monad.return (Some c_path))] @ near rust @
            [usable K (State_Monad.return (Some rust_path))]) c_path } })"

subsection \<open>Whole reads and writes\<close>

text \<open>Restarted on EINTR and continued after a short write, with fuel.\<close>

fun write_all :: "nat \<Rightarrow> kernel \<Rightarrow> int \<Rightarrow> string \<Rightarrow> int io" where
  "write_all 0 K fd s = State_Monad.return (if s = [] then 0 else -1)"
| "write_all (Suc n) K fd s = (if s = [] then State_Monad.return 0 else do {
     r \<leftarrow> sys K (Write fd s);
     if r < 0 then do {
       e \<leftarrow> get_errno;
       if e = EINTR then write_all n K fd s else State_Monad.return (-1) }
     else write_all n K fd (drop (nat r) s) })"

text \<open>\<open>read\<close>: the number of bytes, or -1, and the bytes.\<close>

definition read_fd :: "kernel \<Rightarrow> int \<Rightarrow> nat \<Rightarrow> (int \<times> string) io" where
  "read_fd K fd len = do {
     r \<leftarrow> sysd K (Host (Read fd len));
     State_Monad.return (if fst r < 0 then (-1, []) else (int (length (take len (snd r))), take len (snd r))) }"

text \<open>Up to the end of the file; the second result is the buffer.\<close>

fun append_fd :: "nat \<Rightarrow> kernel \<Rightarrow> int \<Rightarrow> string \<Rightarrow> (int \<times> string) io" where
  "append_fd 0 K fd buf = State_Monad.return (-1, buf)"
| "append_fd (Suc n) K fd buf = do {
     r \<leftarrow> read_fd K fd 512;
     if fst r = 0 then State_Monad.return (0, buf)
     else if fst r < 0 then do {
       e \<leftarrow> get_errno;
       if e = EINTR then append_fd n K fd buf else State_Monad.return (-1, buf) }
     else do {
       grown \<leftarrow> run_am allocM;
       if grown = None then State_Monad.return (-1, buf)
       else append_fd n K fd (buf @ snd r) } }"

subsection \<open>The parent\<close>

text \<open>The two ends of a pipe.\<close>

definition pipe :: "kernel \<Rightarrow> (int \<times> int) option io" where
  "pipe K = do {
     r \<leftarrow> sysd K (Host Pipe);
     State_Monad.return (if fst r < 0 then None else Some (fst r, int (le_val (snd r)))) }"

fun closes :: "kernel \<Rightarrow> int list \<Rightarrow> unit io" where
  "closes K [] = State_Monad.return ()"
| "closes K (fd # fds) = do { _ \<leftarrow> sys K (Close fd); closes K fds }"

text \<open>\<open>saved_errno = errno; close(...); errno = saved_errno; return -1;\<close>\<close>

definition close_and_fail :: "kernel \<Rightarrow> int list \<Rightarrow> ir \<Rightarrow> (int \<times> ir) io" where
  "close_and_fail K fds out_ir = do {
     saved_errno \<leftarrow> get_errno;
     closes K fds;
     set_errno saved_errno;
     State_Monad.return (-1, out_ir) }"

definition helper_child ::
    "nat \<Rightarrow> kernel \<Rightarrow> string \<Rightarrow> string \<Rightarrow> int \<times> int \<Rightarrow> int \<times> int \<Rightarrow> int \<times> int \<Rightarrow> int io" where
  "helper_child n K helper_path file_path outp errp execp = do {
     closes K [fst outp, fst errp, fst execp];
     _ \<leftarrow> sys K (Host (Dup2 (snd outp) 1));
     _ \<leftarrow> sys K (Host (Dup2 (snd errp) 2));
     closes K [snd outp, snd errp];
     r \<leftarrow> sys K (Host (Execvp helper_path [helper_path, file_path]));
     if r < 0 then do {
       saved_errno \<leftarrow> get_errno;
       _ \<leftarrow> write_all n K (snd execp) (le_bytes 4 (nat saved_errno));
       State_Monad.return 127 }
     else State_Monad.return r }"

text \<open>The part after the helper has ended with \<open>status\<close>.\<close>

definition read_helper ::
    "nat \<Rightarrow> kernel \<Rightarrow> ir \<Rightarrow> int \<Rightarrow> int \<Rightarrow> int \<Rightarrow> wait_status \<Rightarrow> (int \<times> ir) io" where
  "read_helper n K out_ir outp errp execp status = do {
     ex \<leftarrow> read_fd K execp 4;
     _ \<leftarrow> sys K (Close execp);
     wire \<leftarrow> append_fd n K outp [];
     if fst wire < 0 then close_and_fail K [outp, errp] out_ir
     else do {
     stderr_buf \<leftarrow> append_fd n K errp [];
     if fst stderr_buf < 0 then close_and_fail K [outp, errp] out_ir
     else do {
       closes K [outp, errp];
       if fst ex = 4 then do {
         set_errno (sint (word_of_nat (le_val (snd ex)) :: u32));
         State_Monad.return (-1, out_ir) }
       else if status \<noteq> Exited 0 then do { rc \<leftarrow> fail_with EINVAL; State_Monad.return (rc, out_ir) }
       else do {
         r \<leftarrow> run_am (load_ir_from_wire (snd wire) out_ir);
         case r of None \<Rightarrow> State_Monad.return (-1, ir_reset out_ir)
         | Some i \<Rightarrow> State_Monad.return (0, i) } } } }"

definition policy_load_file ::
    "nat \<Rightarrow> kernel \<Rightarrow> string \<Rightarrow> string \<Rightarrow> string option \<Rightarrow> ir \<Rightarrow> (int \<times> ir) io" where
  "policy_load_file n K c_path rust_path file_path out_ir =
     (if file_path = None \<or> \<not> copy_dst_empty out_ir
      then do { rc \<leftarrow> fail_with EINVAL; State_Monad.return (rc, out_ir) }
      else do {
      p1 \<leftarrow> pipe K;
      case p1 of None \<Rightarrow> State_Monad.return (-1, out_ir) | Some outp \<Rightarrow> do {
      p2 \<leftarrow> pipe K;
      case p2 of None \<Rightarrow> State_Monad.return (-1, out_ir) | Some errp \<Rightarrow> do {
      p3 \<leftarrow> pipe K;
      case p3 of None \<Rightarrow> State_Monad.return (-1, out_ir) | Some execp \<Rightarrow> do {
        helper_path \<leftarrow> policy_helper_path K c_path rust_path;
        pid \<leftarrow> sys K Fork;
        if pid < 0
        then close_and_fail K [fst outp, snd outp, fst errp, snd errp, fst execp, snd execp] out_ir
        else do {
          code \<leftarrow> run_child (helper_child n K helper_path (the file_path) outp errp execp);
          closes K [snd outp, snd errp, snd execp];
          status \<leftarrow> waitpid_retry n K pid code;
          case status of None \<Rightarrow> close_and_fail K [fst outp, fst errp, fst execp] out_ir
          | Some s \<Rightarrow> read_helper n K out_ir (fst outp) (fst errp) (fst execp) s } } } } })"

subsection \<open>The helper program\<close>

definition policy_helper_main ::
    "nat \<Rightarrow> kernel \<Rightarrow> (string \<Rightarrow> toml_table option) \<Rightarrow> string list \<Rightarrow> int io" where
  "policy_helper_main n K parse argv = (if length argv \<noteq> 2 then State_Monad.return 1 else do {
     r \<leftarrow> load_file_in_process K parse (Some (argv ! 1)) ir_init;
     if fst r < 0 then State_Monad.return 1
     else do {
       w \<leftarrow> write_all n K 1 (write_ir (snd r));
       State_Monad.return (if w < 0 then 1 else 0) } })"

subsection \<open>Descriptors\<close>

lemma calls_usable:
  assumes "\<And>g p. E g (Stat p)" "calls E c (\<lambda>_. True)"
  shows "calls E (usable K c) (\<lambda>_. True)"
  unfolding usable_def helper_path_exists_def
  by (intro calls_bind calls_mono[OF assms(2)] io_calls assms(1) TrueI)

lemma calls_first_usable: "(\<And>c. c \<in> set cs \<Longrightarrow> calls E c (\<lambda>_. True)) \<Longrightarrow> calls E (first_usable cs f) (\<lambda>_. True)"
proof (induction cs)
  case (Cons c cs)
  then have "calls E c (\<lambda>_. True)" by simp
  then show ?case
    unfolding first_usable.simps by (rule calls_bind[OF calls_mono]) (use Cons in \<open>auto intro!: io_calls split: option.splits\<close>)
qed (simp add: io_calls)

lemma calls_helper_path:
  assumes "\<And>g p. E g (Stat p)" "\<And>g k. E g (Getenv k)" "\<And>g p n. E g (Readlink p n)"
  shows "calls E (policy_helper_path K c_path rust_path) (\<lambda>_. True)"
proof -
  have near: "calls E (build_sibling_helper_path K b) (\<lambda>_. True)" "calls E (build_parent_src_helper_path K b) (\<lambda>_. True)" for b
    unfolding build_sibling_helper_path_def build_parent_src_helper_path_def Let_def
    by (intro io_calls assms TrueI)+
  show ?thesis
    unfolding policy_helper_path_def getenv_def Let_def
    by (intro io_calls calls_first_usable assms TrueI)
      (auto intro!: calls_usable calls_return simp: assms near)
qed

lemma calls_waitpid_neutral: "calls (\<lambda>_. neutral) (waitpid_retry n K pid code) (\<lambda>_. True)"
proof (induction n)
  case (Suc n)
  show ?case by (subst waitpid_retry.simps) (auto intro!: io_calls Suc simp: neutral_def)
next
  case 0
  show ?case by (subst waitpid_retry.simps) (auto intro!: io_calls simp: neutral_def)
qed

lemma calls_read_fd: "(\<And>g. E g (Host (Read fd n))) \<Longrightarrow> calls E (read_fd K fd n) (\<lambda>_. True)"
  unfolding read_fd_def by (intro io_calls TrueI)

lemma calls_append_fd: "(\<And>g. E g (Host (Read fd 512))) \<Longrightarrow> calls E (append_fd n K fd buf) (\<lambda>_. True)"
proof (induction n arbitrary: buf)
  case (Suc n)
  note read = calls_read_fd[of E fd 512, OF Suc(2)]
  show ?case
    unfolding append_fd.simps
    by (intro calls_bind calls_mono[OF read] calls_if calls_return calls_errno Suc TrueI calls_run_am[OF ensures_True] )
qed (simp add: io_calls)

text \<open>Closing the descriptors of a list.\<close>

definition minus_fds :: "(int \<Rightarrow> int) \<Rightarrow> int list \<Rightarrow> int \<Rightarrow> int" where
  "minus_fds b fds = (\<lambda>x. b x - int (count_list fds x))"

lemma minus_fds_simps [simp]:
  "minus_fds b [] = b"
  "minus_fds b (fd # fds) = minus_fds (\<lambda>x. b x - of_bool (x = fd)) fds"
  by (auto simp: minus_fds_def fun_eq_iff)

lemma traced_closes:
  assumes "\<And>g'. balance g' = minus_fds (balance g) fds \<Longrightarrow> Q () g'"
  shows "traced (\<lambda>_ _. True) g (closes K fds) Q"
  using assms
proof (induction fds arbitrary: g)
  case Nil
  then show ?case by (auto intro!: traced_return simp: minus_fds_def)
next
  case (Cons fd fds)
  show ?case
    unfolding closes.simps by (intro traced_bind traced_sys Cons) (auto simp: minus_fds_def fun_eq_iff)
qed

lemma traced_close_and_fail:
  assumes "\<And>g'. balance g' = minus_fds (balance g) fds \<Longrightarrow> Q (-1, out_ir) g'"
  shows "traced (\<lambda>_ _. True) g (close_and_fail K fds out_ir) Q"
  unfolding close_and_fail_def by (intro io_traced traced_closes assms) auto

lemma traced_child_any:
  assumes "\<And>a g'. balance g' = balance g \<Longrightarrow> Q a g'"
  shows "traced (\<lambda>_ _. True) g (run_child child) Q"
proof (rule tracedI)
  fix w
  let ?es = "map (\<lambda>x. (InChild (fst x), snd x)) (drop (length (w_trace w)) (w_trace (snd (run_state child w))))"
  have b: "balance (map (\<lambda>x. (InChild (fst x), snd x)) h) x = 0" for h x
    by (induction h) (auto simp: neutral_delta neutral_def)
  have "all_granted (\<lambda>_ _. True) g' es" for g' es by (induction es arbitrary: g') simp_all
  moreover have "Q (fst (run_state child w)) (g @ ?es)" using b by (intro assms) auto
  ultimately show "\<exists>es. w_trace (snd (run_state (run_child child) w)) = w_trace w @ es \<and>
      all_granted (\<lambda>_ _. True) g es \<and> Q (fst (run_state (run_child child) w)) (g @ es)"
    by (intro exI[of _ ?es]) (simp add: run_child_def case_prod_beta)
qed

lemma traced_read_helper:
  assumes "\<And>r g'. balance g' = minus_fds (balance g) [outp, errp, execp] \<Longrightarrow> Q r g'"
  shows "traced (\<lambda>_ _. True) g (read_helper n K out_ir outp errp execp s) Q"
  unfolding read_helper_def
  by (intro io_traced traced_neutral[OF calls_read_fd] traced_neutral[OF calls_append_fd] traced_closes
      traced_close_and_fail assms ensures_True)
    (auto simp: neutral_def minus_fds_def fun_eq_iff)

definition plus_fds :: "(int \<Rightarrow> int) \<Rightarrow> int \<times> int \<Rightarrow> int \<Rightarrow> int" where
  "plus_fds b p = (\<lambda>x. b x + of_bool (x = fst p) + of_bool (x = snd p))"

lemma pipes_closed:
  "minus_fds (plus_fds (plus_fds (plus_fds b p) q) r) [fst p, snd p, fst q, snd q, fst r, snd r] = b"
  "minus_fds (minus_fds (plus_fds (plus_fds (plus_fds b p) q) r) [snd p, snd q, snd r]) [fst p, fst q, fst r] = b"
  by (simp_all add: plus_fds_def)

lemma traced_pipe:
  assumes "\<And>x g'. (\<And>p. x = Some p \<Longrightarrow> balance g' = plus_fds (balance g) p) \<Longrightarrow>
    (x = None \<Longrightarrow> \<exists>er. (Host Pipe, Fail er) \<in> set g') \<Longrightarrow> Q x g'"
  shows "traced (\<lambda>_ _. True) g (pipe K) Q"
  unfolding pipe_def by (intro io_traced) (auto intro!: assms simp: plus_fds_def)

text \<open>C24: Whatever happens while a policy is loaded through the helper, every descriptor of the three pipes is
  closed exactly once before the function returns, unless creating one of the pipes failed.\<close>

theorem policy_load_file_accounts:
  "traced (\<lambda>_ _. True) [] (policy_load_file n K c_path rust_path file_path out_ir)
     (\<lambda>_ g. (\<forall>x. balance g x = 0) \<or> (\<exists>er. (Host Pipe, Fail er) \<in> set g))"
proof -
  have path: "calls (\<lambda>_. neutral) (policy_helper_path K c_path rust_path) (\<lambda>_. True)"
    by (rule calls_helper_path) (simp_all add: neutral_def)
  have fork: "calls (\<lambda>_. neutral) (sys K Fork) (\<lambda>_. True)" by (intro calls_sys) (simp_all add: neutral_def)
  have "balance [] = (\<lambda>_. 0)" by (simp add: fun_eq_iff)
  then show ?thesis
    unfolding policy_load_file_def
    by (intro traced_if traced_bind traced_fail_with traced_option traced_return traced_pipe traced_neutral[OF path]
        traced_neutral[OF fork] traced_child_any traced_closes traced_neutral[OF calls_waitpid_neutral]
        traced_close_and_fail traced_read_helper)
      (simp_all add: pipes_closed del: minus_fds_simps)
qed

subsection \<open>Delivery\<close>

text \<open>The bytes read from a descriptor and the pipes created in a history.\<close>

definition taken :: "history \<Rightarrow> int \<Rightarrow> nat" where
  "taken h fd = sum_list (map (\<lambda>(e, r). case r of Fail er \<Rightarrow> 0 | Done m d \<Rightarrow>
     (case e of Host c \<Rightarrow> (case c of Read f n \<Rightarrow> if f = fd then length (take n d) else 0 | _ \<Rightarrow> 0) | _ \<Rightarrow> 0)) h)"

definition pipes_made :: "history \<Rightarrow> nat" where
  "pipes_made h = length (filter (\<lambda>(e, r). e = Host Pipe) h)"

text \<open>
  A kernel on which loading works: the environment names the helper; descriptors 10 to 15 are the
  three pipes; the helper exits with 0 and its output is \<open>wire\<close>, which arrives in pieces of any
  size; the other two pipes stay empty.
\<close>

definition pipes_deliver :: "kernel \<Rightarrow> string \<Rightarrow> bool" where
  "pipes_deliver K wire \<longleftrightarrow>
     (\<forall>h. \<exists>p. p \<noteq> [] \<and> is_cstr p \<and> K h (Getenv ''LANDLOCKD_POLICY_HELPER'') = Done 0 p) \<and>
     (\<forall>h. K h (Host Pipe) = Done (10 + 2 * pipes_made h) (le_bytes 4 (11 + 2 * pipes_made h))) \<and>
     (\<forall>h. K h Fork = Done 77 []) \<and> (\<forall>h. K h (Waitpid 77) = Done 0 []) \<and>
     (\<forall>h f args. K h (Host (Execvp f args)) = Done 0 []) \<and>
     (\<forall>h fd n. fd \<noteq> 10 \<longrightarrow> K h (Host (Read fd n)) = Done 0 []) \<and>
     (\<forall>h n. taken h 10 < length wire \<longrightarrow> 0 < n \<longrightarrow>
        (\<exists>m. 0 < m \<and> m \<le> n \<and> K h (Host (Read 10 n)) = Done m (take m (drop (taken h 10) wire)))) \<and>
     (\<forall>h n. length wire \<le> taken h 10 \<longrightarrow> K h (Host (Read 10 n)) = Done 0 [])"

lemma taken_simps [simp]:
  "taken [] fd = 0" "taken (g @ h) fd = taken g fd + taken h fd"
  "taken [(Close x, r)] fd = 0" "taken [(Host Pipe, r)] fd = 0" "taken [(Fork, r)] fd = 0"
  "taken [(Getenv k, r)] fd = 0" "taken [(Waitpid p, r)] fd = 0" "taken [(InChild e, r)] fd = 0"
  "taken [(Host (Read f n), Done m d)] fd = (if f = fd then length (take n d) else 0)"
  by (cases r; simp add: taken_def)+

lemma pipes_made_simps [simp]:
  "pipes_made [] = 0" "pipes_made (g @ h) = pipes_made g + pipes_made h" "pipes_made [(Host Pipe, r)] = 1"
  by (simp_all add: pipes_made_def)

text \<open>No byte of the message has been lost: \<open>n\<close> bytes have been read and memory is available.\<close>

definition at :: "nat \<Rightarrow> world \<Rightarrow> bool" where
  "at n w \<longleftrightarrow> w_alloc w = [] \<and> taken (w_trace w) 10 = n"

lemma wp_closes: "at n w \<Longrightarrow> wp (closes K fds) (\<lambda>_. at n) w"
proof (induction fds arbitrary: w)
  case (Cons fd fds)
  then show ?case by (auto simp: io_wp at_def split: reply.splits intro!: Cons)
qed (simp add: io_wp)

lemma taken_in_child: "taken (map (\<lambda>(e, r). (InChild e, r)) h) fd = 0"
  by (induction h) (auto simp: taken_def split: reply.splits)

lemma wp_run_child:
  assumes "at n w" "fst (run_state child w) = code"
  shows "wp (run_child child) (\<lambda>r w'. r = code \<and> at n w') w"
  using assms by (auto simp: wp_def run_child_def at_def taken_in_child split: prod.splits)

lemma helper_child_exits:
  assumes "pipes_deliver K wire"
  shows "fst (run_state (helper_child n K p f a b c) w) = 0"
proof -
  have "wp (helper_child n K p f a b c) (\<lambda>r w'. r = 0) w"
  proof -
    have any: "(\<And>a w'. Q a w') \<Longrightarrow> wp f Q w" for f :: "'a io" and Q w by (simp add: wp_def split: prod.splits)
    have exec: "K h (Host (Execvp g args)) = Done 0 []" for h g args using assms by (simp add: pipes_deliver_def)
    show ?thesis
      unfolding helper_child_def wp_bind by (rule any, rule any, rule any, rule any) (simp add: io_wp exec)
  qed
  then show ?thesis by (simp add: wp_def split: prod.splits)
qed

lemma deliver_more:
  assumes "pipes_deliver K wire" "taken h 10 < length wire"
  obtains m where "0 < m" "m \<le> 512" "K h (Host (Read 10 512)) = Done m (take m (drop (taken h 10) wire))"
proof -
  have "\<forall>h n. taken h 10 < length wire \<longrightarrow> 0 < n \<longrightarrow>
      (\<exists>m. 0 < m \<and> m \<le> n \<and> K h (Host (Read 10 n)) = Done m (take m (drop (taken h 10) wire)))"
    using assms(1) unfolding pipes_deliver_def by (elim conjE)
  from this[rule_format, OF assms(2), of 512] that show ?thesis by auto
qed

lemma alloc_same: "w_alloc w = m \<Longrightarrow> w\<lparr>w_alloc := m\<rparr> = w"
  by auto

lemma append_rest:
  assumes "pipes_deliver K wire"
  shows "length wire - k < n \<Longrightarrow> at k w \<Longrightarrow> k \<le> length wire \<Longrightarrow>
    wp (append_fd n K 10 (take k wire)) (\<lambda>r w'. r = (0, wire) \<and> at (length wire) w') w"
proof (induction n arbitrary: k w)
  case (Suc n)
  have k: "taken (w_trace w) 10 = k" "w_alloc w = []" using Suc.prems(2) by (simp_all add: at_def)
  show ?case
  proof (cases "k = length wire")
    case True
    then have "K (w_trace w) (Host (Read 10 512)) = Done 0 []"
      using assms k unfolding pipes_deliver_def by simp
    then show ?thesis using True k by (simp add: read_fd_def io_wp at_def)
  next
    case False
    then have "taken (w_trace w) 10 < length wire" using k Suc.prems(3) by simp
    then obtain m where m: "0 < m" "m \<le> 512" "K (w_trace w) (Host (Read 10 512)) = Done m (take m (drop k wire))"
      unfolding k(1)[symmetric] by (rule deliver_more[OF assms])
    define d where "d = take m (drop k wire)"
    let ?w = "w\<lparr>w_trace := w_trace w @ [(Host (Read 10 512), Done m d)]\<rparr>"
    have d: "d \<noteq> []" "length d \<le> 512" "k + length d \<le> length wire" "take (k + length d) wire = take k wire @ d"
      using m False Suc.prems(3) by (auto simp: d_def take_add min_def)
    have "at (k + length d) ?w" using k d by (simp add: at_def)
    then have IH: "wp (append_fd n K 10 (take k wire @ d)) (\<lambda>r w'. r = (0, wire) \<and> at (length wire) w') ?w"
      using Suc.IH[of "k + length d" ?w] Suc.prems d by (cases d) auto
    show ?thesis
      using IH k m(3) d unfolding d_def[symmetric] by (simp add: read_fd_def io_wp allocM_def alloc_same)
  qed
qed simp

lemma wp_pipe:
  assumes "pipes_deliver K wire" "at n w" "pipes_made (w_trace w) = c" "c < 3"
  shows "wp (pipe K) (\<lambda>r w'. r = Some (10 + 2 * int c, 11 + 2 * int c) \<and> at n w' \<and> pipes_made (w_trace w') = Suc c) w"
proof -
  have "K (w_trace w) (Host Pipe) = Done (10 + 2 * c) (le_bytes 4 (11 + 2 * c))"
    using assms(1,3) by (simp add: pipes_deliver_def)
  then show ?thesis using assms(2-4) by (simp add: pipe_def io_wp at_def le_val_le_bytes)
qed

lemma wp_helper_path:
  assumes "pipes_deliver K wire" "at n w"
  shows "wp (policy_helper_path K c_path rust_path) (\<lambda>_. at n) w"
proof -
  obtain p where "p \<noteq> []" "is_cstr p" "K (w_trace w) (Getenv ''LANDLOCKD_POLICY_HELPER'') = Done 0 p"
    using assms(1) unfolding pipes_deliver_def by blast
  then show ?thesis using assms(2) by (simp add: policy_helper_path_def getenv_def io_wp at_def Let_def)
qed

lemma wp_seq: "wp f P w \<Longrightarrow> (\<And>a w'. P a w' \<Longrightarrow> wp (g a) Q w') \<Longrightarrow> wp (State_Monad.bind f g) Q w"
  by (simp add: wp_bind wp_mono)

lemma wp_read_helper:
  assumes "pipes_deliver K wire" "at 0 w" "length wire < n" "load_ir_from_wire wire ir_init [] = (Inr i, [])"
  shows "wp (read_helper n K ir_init 10 12 14 (Exited 0)) (\<lambda>r w'. r = (0, i)) w"
proof -
  have empty: "fd \<noteq> 10 \<Longrightarrow> K h (Host (Read fd k)) = Done 0 []" for h fd k
    using assms(1) unfolding pipes_deliver_def by blast
  obtain m where n: "n = Suc m" using assms(3) by (cases n) auto
  have exec: "wp (read_fd K 14 4) (\<lambda>r w'. r = (0, []) \<and> at 0 w') w"
    using assms(2) by (simp add: read_fd_def io_wp empty at_def)
  have close: "wp (sys K (Close 14)) (\<lambda>_. at 0) w1" if "at 0 w1" for w1
    using that by (auto simp: io_wp at_def split: reply.splits)
  have out: "wp (append_fd n K 10 []) (\<lambda>r w'. r = (0, wire) \<and> at (length wire) w') w1" if "at 0 w1" for w1
    using append_rest[OF assms(1), of 0 n w1] that assms(3) by simp
  have err: "wp (append_fd n K 12 []) (\<lambda>r w'. r = (0, []) \<and> at k w') w1" if "at k w1" for k w1
    using that by (simp add: n read_fd_def io_wp empty at_def)
  have load: "wp (run_am (load_ir_from_wire wire ir_init)) (\<lambda>r w'. r = Some i) w1" if "at k w1" for k w1
    using that assms(4) by (simp add: io_wp at_def)
  show ?thesis
    unfolding read_helper_def
    apply (rule wp_seq[OF exec])
    apply (rule wp_seq[OF close], simp)
    apply (rule wp_seq[OF out], assumption)
    apply (clarsimp simp del: append_fd.simps closes.simps)
    apply (rule wp_seq[OF err], assumption)
    apply (clarsimp simp del: append_fd.simps closes.simps)
    apply (rule wp_seq[OF wp_closes], assumption)
    by (rule wp_seq[OF load]) (simp_all add: io_wp)
qed

lemma load_file_reads:
  assumes "pipes_deliver K wire" "length wire < n" "load_ir_from_wire wire ir_init [] = (Inr i, [])"
    "w_alloc w = []" "w_trace w = []"
  shows "wp (policy_load_file n K c_path rust_path (Some f) ir_init) (\<lambda>r w'. r = (0, i)) w"
proof -
  have start: "at 0 w" "pipes_made (w_trace w) = 0" using assms(4,5) by (simp_all add: at_def)
  have empty: "copy_dst_empty ir_init" by (simp add: copy_dst_empty_def ir_init_def)
  have fork: "wp (sys K Fork) (\<lambda>r w'. r = 77 \<and> at 0 w') w1" if "at 0 w1" for w1
    using that assms(1) by (simp add: pipes_deliver_def io_wp at_def)
  have child: "wp (run_child (helper_child n K p f a b c)) (\<lambda>r w'. r = 0 \<and> at 0 w') w1" if "at 0 w1" for p a b c w1
    by (rule wp_run_child[OF that]) (rule helper_child_exits[OF assms(1)])
  have wait: "wp (waitpid_retry n K 77 0) (\<lambda>r w'. r = Some (Exited 0) \<and> at 0 w') w1" if "at 0 w1" for w1
    using that assms(1) by (subst waitpid_retry.simps) (simp add: pipes_deliver_def io_wp at_def)
  note simps = pipes_made_simps closes.simps append_fd.simps
  show ?thesis
    unfolding policy_load_file_def
    apply (simp add: empty del: simps)
    apply (rule wp_seq[OF wp_pipe[OF assms(1) start]], simp)
    apply (clarsimp simp del: simps)
    apply (rule wp_seq[OF wp_pipe[OF assms(1)]], assumption, assumption, simp)
    apply (clarsimp simp del: simps)
    apply (rule wp_seq[OF wp_pipe[OF assms(1)]], assumption, assumption, simp)
    apply (clarsimp simp del: simps)
    apply (rule wp_seq[OF wp_helper_path[OF assms(1)]], assumption)
    apply (rule wp_seq[OF fork], assumption)
    apply (clarsimp simp del: simps)
    apply (rule wp_seq[OF child], assumption)
    apply (clarsimp simp del: simps)
    apply (rule wp_seq[OF wp_closes], assumption)
    apply (rule wp_seq[OF wait], assumption)
    apply (clarsimp simp del: simps)
    by (rule wp_read_helper[OF assms(1) _ assms(2,3)])
qed


text \<open>A kernel that delivers three bytes at a time.\<close>

definition pipe_kernel :: "string \<Rightarrow> kernel" where
  "pipe_kernel wire h e = (case e of
     Getenv k \<Rightarrow> Done 0 ''/bin/h''
   | Fork \<Rightarrow> Done 77 []
   | Host c \<Rightarrow> (case c of
       Pipe \<Rightarrow> Done (10 + 2 * pipes_made h) (le_bytes 4 (11 + 2 * pipes_made h))
     | Read fd n \<Rightarrow> if fd = 10 then (let d = take (min n 3) (drop (taken h 10) wire) in Done (length d) d) else Done 0 []
     | _ \<Rightarrow> Done 0 [])
   | _ \<Rightarrow> Done 0 [])"

lemma pipe_kernel_delivers: "pipes_deliver (pipe_kernel wire) wire"
proof -
  have "\<exists>m. 0 < m \<and> m \<le> n \<and> pipe_kernel wire h (Host (Read 10 n)) = Done m (take m (drop (taken h 10) wire))"
    if "taken h 10 < length wire" "0 < n" for h n
    using that by (intro exI[of _ "length (take (min n 3) (drop (taken h 10) wire))"]) (auto simp: pipe_kernel_def Let_def min_def)
  then show ?thesis by (auto simp: pipes_deliver_def pipe_kernel_def Let_def NUL_def)
qed


end
