(* ===== verification/Broker.thy ===== *)
theory Broker
  imports Tracee
begin

text \<open>
  The request handlers of the broker and its loop (\<open>src/src/landlockd_exec.c\<close>, lines 2834-4446). Each
  handler decides a notification of the supervised process on the allowlist, performs the
  operation in its place, records the decision in the audit log and answers the notification.
\<close>

subsection \<open>Ends of a handler\<close>

text \<open>\<open>error_value = errno; audit "error"; send error_value\<close>, and a refusal with EACCES.\<close>

definition fail_open :: "env \<Rightarrow> notif \<Rightarrow> string option \<Rightarrow> string \<Rightarrow> string \<Rightarrow> int \<Rightarrow> int io" where
  "fail_open v req path scope operation e = do {
     _ \<leftarrow> audit_broker_open v req path scope operation ''error'' e;
     broker_send_errno v (q_id req) e }"

definition deny_open :: "env \<Rightarrow> notif \<Rightarrow> string option \<Rightarrow> string \<Rightarrow> string \<Rightarrow> int io" where
  "deny_open v req path scope operation = do {
     _ \<leftarrow> audit_broker_open v req path scope operation ''deny'' EACCES;
     broker_send_errno v (q_id req) EACCES }"

definition fail_path :: "env \<Rightarrow> string \<Rightarrow> notif \<Rightarrow> string option \<Rightarrow> int io" where
  "fail_path v event req path = do {
     e \<leftarrow> get_errno;
     _ \<leftarrow> audit_broker_path v event req path ''error'' e;
     broker_send_errno v (q_id req) e }"

definition fail_paths :: "env \<Rightarrow> string \<Rightarrow> notif \<Rightarrow> string option \<Rightarrow> string option \<Rightarrow> int io" where
  "fail_paths v event req old_path new_path = do {
     e \<leftarrow> get_errno;
     _ \<leftarrow> audit_broker_paths v event req old_path new_path ''error'' e;
     broker_send_errno v (q_id req) e }"

definition fail_symlink :: "env \<Rightarrow> notif \<Rightarrow> string option \<Rightarrow> string option \<Rightarrow> int io" where
  "fail_symlink v req tgt path = do {
     e \<leftarrow> get_errno;
     _ \<leftarrow> audit_broker_symlink v req tgt path ''error'' e;
     broker_send_errno v (q_id req) e }"

definition fail_mount :: "env \<Rightarrow> string \<Rightarrow> notif \<Rightarrow> string option \<Rightarrow> int io" where
  "fail_mount v event req path = do {
     e \<leftarrow> get_errno;
     _ \<leftarrow> audit_broker_mount v event req path ''error'' e;
     broker_send_errno v (q_id req) e }"

text \<open>\<open>error_value = errno != 0 ? errno : EINVAL\<close>\<close>

definition fail_mount_or :: "env \<Rightarrow> string \<Rightarrow> notif \<Rightarrow> string option \<Rightarrow> int io" where
  "fail_mount_or v event req path = do {
     e0 \<leftarrow> get_errno;
     let e = (if e0 \<noteq> 0 then e0 else EINVAL);
     _ \<leftarrow> audit_broker_mount v event req path ''error'' e;
     broker_send_errno v (q_id req) e }"

definition deny_mount :: "env \<Rightarrow> string \<Rightarrow> notif \<Rightarrow> string option \<Rightarrow> int io" where
  "deny_mount v event req path = do {
     _ \<leftarrow> audit_broker_mount v event req path ''deny'' EACCES;
     broker_send_errno v (q_id req) EACCES }"

definition allow_mount :: "env \<Rightarrow> string \<Rightarrow> notif \<Rightarrow> string \<Rightarrow> int io" where
  "allow_mount v event req path = do {
     _ \<leftarrow> audit_broker_mount v event req (Some path) ''allow'' 0;
     broker_send_success v (q_id req) }"

text \<open>The error of \<open>open(parent)\<close> is sent without an audit record.\<close>

definition send_open_error :: "env \<Rightarrow> notif \<Rightarrow> int io" where
  "send_open_error v req = do { e \<leftarrow> get_errno; broker_send_errno v (q_id req) e }"

subsection \<open>Opening files\<close>

definition cloexec_flag :: "u64 \<Rightarrow> u32" where
  "cloexec_flag flags = (if flags AND O_CLOEXEC \<noteq> 0 then ucast O_CLOEXEC else 0)"

definition bad_access_mode :: "int \<Rightarrow> bool" where
  "bad_access_mode access_mode \<longleftrightarrow> access_mode \<noteq> 0 \<and> access_mode \<noteq> 1 \<and> access_mode \<noteq> 2"

definition broker_handle_scratch_open ::
    "env \<Rightarrow> notif \<Rightarrow> allowlist \<Rightarrow> int \<Rightarrow> u64 \<Rightarrow> u64 \<Rightarrow> u64 \<Rightarrow> int io" where
  "broker_handle_scratch_open v req A dirfd flags mode resolve = (
     let access_mode = as_int (flags AND O_ACCMODE);
         operation = (if flags AND O_CREAT \<noteq> 0 then ''create'' else open_access_name access_mode);
         K = e_kernel v in
     if bad_access_mode access_mode \<or> resolve \<noteq> 0 \<or>
        flags AND NOT (O_ACCMODE OR O_CLOEXEC OR O_NOFOLLOW OR O_APPEND OR O_TRUNC OR O_CREAT OR
          O_EXCL OR O_DIRECTORY) \<noteq> 0
     then deny_open v req None ''scratch'' operation
     else if flags AND O_CREAT = 0 \<and> mode \<noteq> 0 then deny_open v req None ''scratch'' operation
     else do {
       s \<leftarrow> read_tracee_string v (q_pid req) (arg req 1) PATH_MAX;
       if fst s < 0 then do { e \<leftarrow> get_errno; fail_open v req None ''scratch'' operation e }
       else do {
       p \<leftarrow> resolve_tracee_parent v (q_pid req) dirfd (snd s);
       case p of None \<Rightarrow> do { e \<leftarrow> get_errno; fail_open v req (Some (snd s)) ''scratch'' operation e }
       | Some (parent, base) \<Rightarrow> do {
           c \<leftarrow> join_path parent base;
           case c of None \<Rightarrow> do { e \<leftarrow> get_errno; fail_open v req (Some (snd s)) ''scratch'' operation e }
           | Some path \<Rightarrow>
               if \<not> path_under_list (scratch_paths A) parent
               then deny_open v req (Some path) ''scratch'' operation
               else if \<not> addfd_allowed A ''scratch_open'' path (Some (addfd_mode_name access_mode))
               then deny_open v req (Some path) ''scratch'' operation
               else do {
                 parent_fd \<leftarrow> sys K (Open parent O_PATH_DIRECTORY_CLOEXEC);
                 if parent_fd < 0 then send_open_error v req
                 else do {
                   local_fd \<leftarrow> sys K (Openat parent_fd base (ucast (flags OR O_CLOEXEC OR O_NOFOLLOW)) (ucast mode));
                   e \<leftarrow> get_errno;
                   _ \<leftarrow> sys K (Close parent_fd);
                   if local_fd < 0 then fail_open v req (Some path) ''scratch'' operation e
                   else do {
                     r \<leftarrow> broker_reply_addfd v (q_id req) local_fd (cloexec_flag flags);
                     if fst r < 0 then do {
                       e \<leftarrow> get_errno;
                       _ \<leftarrow> sys K (Close local_fd);
                       fail_open v req (Some path) ''scratch'' operation e }
                     else do {
                       _ \<leftarrow> sys K (Close local_fd);
                       _ \<leftarrow> audit_broker_open v req (Some path) ''scratch'' operation ''allow'' 0;
                       State_Monad.return 0 } } } } } } })"

text \<open>The part of \<open>landlockd_broker_handle_open_request\<close> after the arguments are known.\<close>

definition open_with :: "env \<Rightarrow> notif \<Rightarrow> allowlist \<Rightarrow> int \<Rightarrow> u64 \<Rightarrow> u64 \<Rightarrow> u64 \<Rightarrow> int io" where
  "open_with v req A dirfd flags mode resolve = (
     let access_mode = as_int (flags AND O_ACCMODE);
         operation = open_access_name access_mode;
         K = e_kernel v in
     if bad_access_mode access_mode \<or> mode \<noteq> 0 \<or> resolve \<noteq> 0 \<or>
        flags AND NOT (O_ACCMODE OR O_CLOEXEC OR O_NOFOLLOW OR O_APPEND OR O_TRUNC) \<noteq> 0
     then (if scratch_paths A \<noteq> [] \<and> flags AND (O_CREAT OR O_EXCL) \<noteq> 0 \<and>
              flags AND NOT (O_ACCMODE OR O_CLOEXEC OR O_NOFOLLOW OR O_APPEND OR O_TRUNC OR O_CREAT OR
                O_EXCL OR O_DIRECTORY) = 0
           then broker_handle_scratch_open v req A dirfd flags mode resolve
           else deny_open v req None ''exception'' operation)
     else if access_mode = 0 \<and> flags AND (O_APPEND OR O_TRUNC) \<noteq> 0
     then deny_open v req None ''exception'' ''read''
     else do {
       s \<leftarrow> read_tracee_string v (q_pid req) (arg req 1) PATH_MAX;
       if fst s < 0 then do { e \<leftarrow> get_errno; fail_open v req None ''exception'' operation e }
       else do {
       c \<leftarrow> resolve_tracee_path v (q_pid req) dirfd (snd s);
       case c of None \<Rightarrow> do { e \<leftarrow> get_errno; fail_open v req (Some (snd s)) ''exception'' operation e }
       | Some path \<Rightarrow>
           if \<not> broker_is_allowed A path access_mode
           then (if scratch_paths A \<noteq> [] then broker_handle_scratch_open v req A dirfd flags mode resolve
                 else deny_open v req (Some path) ''exception'' operation)
           else if \<not> addfd_allowed A ''open'' path (Some (addfd_mode_name access_mode))
           then deny_open v req (Some path) ''exception'' operation
           else do {
             local_fd \<leftarrow> sys K (Open path (ucast (flags OR O_CLOEXEC)));
             if local_fd < 0 then do { e \<leftarrow> get_errno; fail_open v req (Some path) ''exception'' operation e }
             else do {
               r \<leftarrow> broker_reply_addfd v (q_id req) local_fd (cloexec_flag flags);
               if fst r < 0 then do {
                 e \<leftarrow> get_errno;
                 _ \<leftarrow> sys K (Close local_fd);
                 fail_open v req (Some path) ''exception'' operation e }
               else do {
                 _ \<leftarrow> sys K (Close local_fd);
                 _ \<leftarrow> audit_broker_open v req (Some path) ''exception'' operation ''allow'' 0;
                 State_Monad.return 0 } } } } })"

text \<open>\<open>struct open_how\<close> is zeroed before it is read, so bytes that were not read are zero.\<close>

definition u64_field :: "nat \<Rightarrow> string \<Rightarrow> u64" where
  "u64_field off bytes = word_of_nat (le_val (take 8 (drop off bytes)))"

definition broker_handle_open_request :: "env \<Rightarrow> notif \<Rightarrow> allowlist \<Rightarrow> int io" where
  "broker_handle_open_request v req A =
     (if q_nr req = 257 then open_with v req A (as_int (arg req 0)) (arg req 2) (arg req 3) 0
      else if q_nr req = 437 then do {
        how \<leftarrow> read_tracee_memory v (q_pid req) (arg req 2) 24;
        if fst how < 0 then fail_open v req None ''exception'' ''unknown'' EFAULT
        else open_with v req A (as_int (arg req 0)) (u64_field 0 (snd how)) (u64_field 8 (snd how))
               (u64_field 16 (snd how)) }
      else fail_open v req None ''exception'' ''unknown'' ENOSYS)"

subsection \<open>Directory operations below the scratch roots\<close>

definition broker_handle_mkdir_request :: "env \<Rightarrow> notif \<Rightarrow> allowlist \<Rightarrow> int io" where
  "broker_handle_mkdir_request v req A = (let K = e_kernel v; ev = ''broker.mkdir'' in do {
     s \<leftarrow> read_tracee_string v (q_pid req) (arg req 1) PATH_MAX;
     if fst s < 0 then fail_path v ev req (Some (snd s))
     else do {
     p \<leftarrow> resolve_tracee_parent v (q_pid req) (as_int (arg req 0)) (snd s);
     case p of None \<Rightarrow> fail_path v ev req (Some (snd s))
     | Some (parent, base) \<Rightarrow> do {
         c \<leftarrow> join_path parent base;
         case c of None \<Rightarrow> fail_path v ev req (Some (snd s))
         | Some path \<Rightarrow>
             if \<not> path_under_list (scratch_paths A) parent then do {
               _ \<leftarrow> audit_broker_path v ev req (Some path) ''deny'' EACCES;
               broker_send_errno v (q_id req) EACCES }
             else do {
               parent_fd \<leftarrow> sys K (Open parent O_PATH_DIRECTORY_CLOEXEC);
               if parent_fd < 0 then send_open_error v req
               else do {
                 r \<leftarrow> sys K (Mkdirat parent_fd base (as_uint (arg req 2)));
                 if r < 0 then do {
                   e \<leftarrow> get_errno;
                   _ \<leftarrow> sys K (Close parent_fd);
                   _ \<leftarrow> audit_broker_path v ev req (Some path) ''error'' e;
                   broker_send_errno v (q_id req) e }
                 else do {
                   _ \<leftarrow> sys K (Close parent_fd);
                   _ \<leftarrow> audit_broker_path v ev req (Some path) ''allow'' 0;
                   broker_send_success v (q_id req) } } } } } })"

definition AT_REMOVEDIR :: int where "AT_REMOVEDIR = 0x200"

definition broker_handle_unlink_request :: "env \<Rightarrow> notif \<Rightarrow> allowlist \<Rightarrow> int io" where
  "broker_handle_unlink_request v req A = (
     let K = e_kernel v; flags = as_int (arg req 2);
         ev = (if flags = AT_REMOVEDIR then ''broker.rmdir'' else ''broker.unlink'') in
     if flags \<noteq> 0 \<and> flags \<noteq> AT_REMOVEDIR then do {
       _ \<leftarrow> audit_broker_path v ev req None ''deny'' EACCES;
       broker_send_errno v (q_id req) EACCES }
     else do {
     s \<leftarrow> read_tracee_string v (q_pid req) (arg req 1) PATH_MAX;
     if fst s < 0 then fail_path v ev req (Some (snd s))
     else do {
     p \<leftarrow> resolve_tracee_parent v (q_pid req) (as_int (arg req 0)) (snd s);
     case p of None \<Rightarrow> fail_path v ev req (Some (snd s))
     | Some (parent, base) \<Rightarrow> do {
         c \<leftarrow> join_path parent base;
         case c of None \<Rightarrow> fail_path v ev req (Some (snd s))
         | Some path \<Rightarrow>
             if \<not> path_under_list (scratch_paths A) parent then do {
               _ \<leftarrow> audit_broker_path v ev req (Some path) ''deny'' EACCES;
               broker_send_errno v (q_id req) EACCES }
             else do {
               parent_fd \<leftarrow> sys K (Open parent O_PATH_DIRECTORY_CLOEXEC);
               if parent_fd < 0 then send_open_error v req
               else do {
                 r \<leftarrow> sys K (Unlinkat parent_fd base flags);
                 if r < 0 then do {
                   e \<leftarrow> get_errno;
                   _ \<leftarrow> sys K (Close parent_fd);
                   _ \<leftarrow> audit_broker_path v ev req (Some path) ''error'' e;
                   broker_send_errno v (q_id req) e }
                 else do {
                   _ \<leftarrow> sys K (Close parent_fd);
                   _ \<leftarrow> audit_broker_path v ev req (Some path) ''allow'' 0;
                   broker_send_success v (q_id req) } } } } } })"

text \<open>
  \<open>renameat2\<close> and \<open>linkat\<close> differ in the flags they take, the record's name and the final call; the
  rest of their handlers is the same code.
\<close>

definition two_names :: "env \<Rightarrow> notif \<Rightarrow> allowlist \<Rightarrow> string \<Rightarrow>
    (int \<Rightarrow> string \<Rightarrow> int \<Rightarrow> string \<Rightarrow> sysevent) \<Rightarrow> int io" where
  "two_names v req A ev call = (let K = e_kernel v in do {
     s \<leftarrow> read_tracee_string v (q_pid req) (arg req 1) PATH_MAX;
     if fst s < 0 then fail_paths v ev req None None
     else do {
     t \<leftarrow> read_tracee_string v (q_pid req) (arg req 3) PATH_MAX;
     if fst t < 0 then fail_paths v ev req None None
     else do {
     p \<leftarrow> resolve_tracee_parent v (q_pid req) (as_int (arg req 0)) (snd s);
     case p of None \<Rightarrow> fail_paths v ev req (Some (snd s)) (Some (snd t))
     | Some (old_parent, old_base) \<Rightarrow> do {
     q \<leftarrow> resolve_tracee_parent v (q_pid req) (as_int (arg req 2)) (snd t);
     case q of None \<Rightarrow> fail_paths v ev req (Some (snd s)) (Some (snd t))
     | Some (new_parent, new_base) \<Rightarrow> do {
     c \<leftarrow> join_path old_parent old_base;
     case c of None \<Rightarrow> fail_paths v ev req (Some (snd s)) (Some (snd t))
     | Some old_path \<Rightarrow> do {
     d \<leftarrow> join_path new_parent new_base;
     case d of None \<Rightarrow> fail_paths v ev req (Some (snd s)) (Some (snd t))
     | Some new_path \<Rightarrow>
       if \<not> path_under_list (scratch_paths A) old_parent \<or>
          (\<not> path_under_list (scratch_paths A) new_parent \<and> \<not> path_under_list (export_paths A) new_parent)
       then do {
         _ \<leftarrow> audit_broker_paths v ev req (Some old_path) (Some new_path) ''deny'' EACCES;
         broker_send_errno v (q_id req) EACCES }
       else do {
         old_parent_fd \<leftarrow> sys K (Open old_parent O_PATH_DIRECTORY_CLOEXEC);
         if old_parent_fd < 0 then send_open_error v req
         else do {
           new_parent_fd \<leftarrow> sys K (Open new_parent O_PATH_DIRECTORY_CLOEXEC);
           if new_parent_fd < 0 then do {
             e \<leftarrow> get_errno;
             _ \<leftarrow> sys K (Close old_parent_fd);
             broker_send_errno v (q_id req) e }
           else do {
             r \<leftarrow> sys K (call old_parent_fd old_base new_parent_fd new_base);
             if r < 0 then do {
               e \<leftarrow> get_errno;
               _ \<leftarrow> sys K (Close old_parent_fd);
               _ \<leftarrow> sys K (Close new_parent_fd);
               _ \<leftarrow> audit_broker_paths v ev req (Some old_path) (Some new_path) ''error'' e;
               broker_send_errno v (q_id req) e }
             else do {
               _ \<leftarrow> sys K (Close old_parent_fd);
               _ \<leftarrow> sys K (Close new_parent_fd);
               _ \<leftarrow> audit_broker_paths v ev req (Some old_path) (Some new_path) ''allow'' 0;
               broker_send_success v (q_id req) } } } } } } } } } })"

definition broker_handle_rename_request :: "env \<Rightarrow> notif \<Rightarrow> allowlist \<Rightarrow> int io" where
  "broker_handle_rename_request v req A = (let flags = as_uint (arg req 4) in
     if flags \<noteq> 0 \<and> flags \<noteq> 1 then do {
       _ \<leftarrow> audit_broker_paths v ''broker.rename'' req None None ''deny'' EACCES;
       broker_send_errno v (q_id req) EACCES }
     else two_names v req A ''broker.rename'' (\<lambda>fd n fd' n'. Renameat2 fd n fd' n' flags))"

definition broker_handle_link_request :: "env \<Rightarrow> notif \<Rightarrow> allowlist \<Rightarrow> int io" where
  "broker_handle_link_request v req A = (let flags = as_int (arg req 4) in
     if flags \<noteq> 0 then do {
       _ \<leftarrow> audit_broker_paths v ''broker.link'' req None None ''deny'' EACCES;
       broker_send_errno v (q_id req) EACCES }
     else two_names v req A ''broker.link'' (\<lambda>fd n fd' n'. Linkat fd n fd' n' flags))"

definition broker_handle_symlink_request :: "env \<Rightarrow> notif \<Rightarrow> allowlist \<Rightarrow> int io" where
  "broker_handle_symlink_request v req A = (let K = e_kernel v in do {
     s \<leftarrow> read_tracee_string v (q_pid req) (arg req 0) PATH_MAX;
     if fst s < 0 then fail_symlink v req (Some (snd s)) (Some [])
     else do {
     t \<leftarrow> read_tracee_string v (q_pid req) (arg req 2) PATH_MAX;
     if fst t < 0 then fail_symlink v req (Some (snd s)) (Some (snd t))
     else do {
     p \<leftarrow> resolve_tracee_parent v (q_pid req) (as_int (arg req 1)) (snd t);
     case p of None \<Rightarrow> fail_symlink v req (Some (snd s)) (Some (snd t))
     | Some (parent, base) \<Rightarrow> do {
         c \<leftarrow> join_path parent base;
         case c of None \<Rightarrow> fail_symlink v req (Some (snd s)) (Some (snd t))
         | Some path \<Rightarrow>
             if \<not> path_under_list (scratch_paths A) parent then do {
               _ \<leftarrow> audit_broker_symlink v req (Some (snd s)) (Some path) ''deny'' EACCES;
               broker_send_errno v (q_id req) EACCES }
             else do {
               parent_fd \<leftarrow> sys K (Open parent O_PATH_DIRECTORY_CLOEXEC);
               if parent_fd < 0 then send_open_error v req
               else do {
                 r \<leftarrow> sys K (Symlinkat (snd s) parent_fd base);
                 if r < 0 then do {
                   e \<leftarrow> get_errno;
                   _ \<leftarrow> sys K (Close parent_fd);
                   _ \<leftarrow> audit_broker_symlink v req (Some (snd s)) (Some path) ''error'' e;
                   broker_send_errno v (q_id req) e }
                 else do {
                   _ \<leftarrow> sys K (Close parent_fd);
                   _ \<leftarrow> audit_broker_symlink v req (Some (snd s)) (Some path) ''allow'' 0;
                   broker_send_success v (q_id req) } } } } } } })"

subsection \<open>Mount requests\<close>

text \<open>The tables of leases the loop keeps.\<close>

record bstate =
  mount_leases :: "mount_fd_lease list"
  fsopen_leases :: "fsopen_lease list"

text \<open>A handler that leaves the tables alone.\<close>

definition keeping :: "bstate \<Rightarrow> int io \<Rightarrow> (int \<times> bstate) io" where
  "keeping st f = do { rc \<leftarrow> f; State_Monad.return (rc, st) }"

definition broker_handle_fsopen_request ::
    "env \<Rightarrow> notif \<Rightarrow> allowlist \<Rightarrow> bstate \<Rightarrow> (int \<times> bstate) io" where
  "broker_handle_fsopen_request v req A st = (
     let K = e_kernel v; ev = ''broker.fsopen''; flags = as_uint (arg req 1) in do {
     s \<leftarrow> (if arg req 0 = 0 then State_Monad.return (-1, []) else read_tracee_string v (q_pid req) (arg req 0) 128);
     if fst s < 0 then keeping st (fail_mount_or v ev req None)
     else if snd s = [] \<or> flags AND NOT 1 \<noteq> 0 then keeping st (deny_mount v ev req (Some (snd s)))
     else case find_mount_object_rule (mount_object_rules A) (snd s) of
       None \<Rightarrow> keeping st (deny_mount v ev req (Some (snd s)))
     | Some rule \<Rightarrow>
         if \<not> mount_object_addfd_covers_action A ''fsopen'' rule
         then keeping st (deny_mount v ev req (Some (snd s)))
         else do {
           token_fd \<leftarrow> sys K (Open ''/dev/null'' (if flags AND 1 \<noteq> 0 then ucast O_CLOEXEC else 0));
           if token_fd < 0 then keeping st (fail_mount v ev req (Some (snd s)))
           else do {
             r \<leftarrow> broker_reply_addfd v (q_id req) token_fd (if flags AND 1 \<noteq> 0 then ucast O_CLOEXEC else 0);
             if fst r < 0 then do {
               e \<leftarrow> get_errno;
               _ \<leftarrow> sys K (Close token_fd);
               _ \<leftarrow> audit_broker_mount v ev req (Some (snd s)) ''error'' e;
               keeping st (broker_send_errno v (q_id req) e) }
             else do {
               _ \<leftarrow> sys K (Close token_fd);
               l \<leftarrow> (if snd r \<ge> 0 then run_am (fsopen_lease_add (snd r) (Some (snd s)) (fsopen_leases st))
                    else State_Monad.return (Some (fsopen_leases st)));
               case l of None \<Rightarrow> do {
                   e \<leftarrow> get_errno;
                   _ \<leftarrow> audit_broker_mount v ev req (Some (snd s)) ''error'' e;
                   State_Monad.return (0, st) }
               | Some ls \<Rightarrow> do {
                   _ \<leftarrow> audit_broker_mount v ev req (Some (snd s)) ''allow'' 0;
                   State_Monad.return (0, st\<lparr>fsopen_leases := ls\<rparr>) } } } } })"

definition broker_handle_fsconfig_request :: "env \<Rightarrow> notif \<Rightarrow> bstate \<Rightarrow> (int \<times> bstate) io" where
  "broker_handle_fsconfig_request v req st = (
     let ev = ''broker.fsconfig''; cmd = as_uint (arg req 1) in do {
     l \<leftarrow> run_am (liftM (fsopen_lease_find (fsopen_leases st) (as_int (arg req 0))));
     case l of None \<Rightarrow> keeping st (deny_mount v ev req None)
     | Some i \<Rightarrow> let lease = fsopen_leases st ! i in
         if cmd \<noteq> FSCONFIG_CMD_CREATE \<or> arg req 2 \<noteq> 0 \<or> arg req 3 \<noteq> 0 \<or> arg req 4 \<noteq> 0 \<or> fl_created lease
         then keeping st (deny_mount v ev req (Some (fl_name lease)))
         else keeping (st\<lparr>fsopen_leases := (fsopen_leases st)[i := lease\<lparr>fl_created := True\<rparr>]\<rparr>)
                (allow_mount v ev req (fl_name lease)) })"

definition broker_handle_fsmount_request ::
    "env \<Rightarrow> notif \<Rightarrow> allowlist \<Rightarrow> bstate \<Rightarrow> (int \<times> bstate) io" where
  "broker_handle_fsmount_request v req A st = (
     let K = e_kernel v; ev = ''broker.fsmount''; flags = as_uint (arg req 1); attr_flags = as_uint (arg req 2) in
     if flags AND NOT 1 \<noteq> 0 then keeping st (deny_mount v ev req None)
     else do {
     t \<leftarrow> run_am (liftM (fsopen_lease_take (fsopen_leases st) (as_int (arg req 0))));
     case t of None \<Rightarrow> keeping st (deny_mount v ev req None)
     | Some (lease, rest) \<Rightarrow> let st = st\<lparr>fsopen_leases := rest\<rparr> in
       if \<not> fl_created lease then keeping st (deny_mount v ev req None)
       else case find_mount_object_rule (mount_object_rules A) (fl_name lease) of
         None \<Rightarrow> keeping st (deny_mount v ev req None)
       | Some rule \<Rightarrow>
         if attr_flags AND NOT (ucast (o_attrs rule)) \<noteq> 0 then keeping st (deny_mount v ev req None)
         else if \<not> mount_object_addfd_covers_action A ''fsmount'' rule
         then keeping st (deny_mount v ev req (Some (o_name rule)))
         else do {
           local_fd \<leftarrow> broker_fsmount_in_tracee_namespace v (q_pid req) (o_fs_type rule) flags attr_flags;
           if local_fd < 0 then keeping st (fail_mount v ev req (Some (o_name rule)))
           else do {
             r \<leftarrow> broker_reply_addfd v (q_id req) local_fd (if flags AND 1 \<noteq> 0 then ucast O_CLOEXEC else 0);
             if fst r < 0 then do {
               e \<leftarrow> get_errno;
               _ \<leftarrow> sys K (Close local_fd);
               _ \<leftarrow> audit_broker_mount v ev req (Some (o_name rule)) ''error'' e;
               keeping st (broker_send_errno v (q_id req) e) }
             else do {
               _ \<leftarrow> sys K (Close local_fd);
               l \<leftarrow> (if snd r \<ge> 0 then run_am (mount_fd_lease_add (snd r) LEASE_OBJECT (Some (fl_name lease)) (mount_leases st))
                    else State_Monad.return (Some (mount_leases st)));
               case l of None \<Rightarrow> do {
                   e \<leftarrow> get_errno;
                   _ \<leftarrow> audit_broker_mount v ev req (Some (o_name rule)) ''error'' e;
                   State_Monad.return (0, st) }
               | Some ls \<Rightarrow> do {
                   _ \<leftarrow> audit_broker_mount v ev req (Some (o_name rule)) ''allow'' 0;
                   State_Monad.return (0, st\<lparr>mount_leases := ls\<rparr>) } } } } })"

definition mount_attr_of :: "string \<Rightarrow> mount_attr" where
  "mount_attr_of b = \<lparr>attr_set = u64_field 0 b, attr_clr = u64_field 8 b,
     propagation = u64_field 16 b, userns_fd = u64_field 24 b\<rparr>"

definition broker_handle_mount_setattr_request :: "env \<Rightarrow> notif \<Rightarrow> allowlist \<Rightarrow> int io" where
  "broker_handle_mount_setattr_request v req A = (let ev = ''broker.mount_setattr'' in do {
     s \<leftarrow> (if arg req 1 = 0 then State_Monad.return (-1, []) else read_tracee_string v (q_pid req) (arg req 1) PATH_MAX);
     if fst s < 0 then fail_mount_or v ev req None
     else if snd s = [] \<or> as_uint (arg req 2) \<noteq> 0 \<or> arg req 3 = 0 \<or> arg req 4 \<noteq> 32
     then deny_mount v ev req (Some (snd s))
     else do {
     m \<leftarrow> read_tracee_memory v (q_pid req) (arg req 3) 32;
     if fst m \<noteq> 32 then deny_mount v ev req (Some (snd s))
     else let attr = mount_attr_of (snd m) in do {
     c \<leftarrow> resolve_tracee_path v (q_pid req) (as_int (arg req 0)) (snd s);
     case c of None \<Rightarrow> fail_mount v ev req (Some (snd s))
     | Some tgt \<Rightarrow>
       (case find_mount_object_rule_for_target (mount_object_rules A) tgt of
         None \<Rightarrow> deny_mount v ev req (Some tgt)
       | Some rule \<Rightarrow>
         if attr_clr attr \<noteq> 0 \<or> propagation attr \<noteq> 0 \<or> userns_fd attr \<noteq> 0 \<or>
            attr_set attr AND NOT (o_attrs rule) \<noteq> 0
         then deny_mount v ev req (Some tgt)
         else do {
           r \<leftarrow> broker_mount_setattr_in_tracee_namespace v (q_pid req) tgt attr;
           if r < 0 then fail_mount v ev req (Some tgt) else allow_mount v ev req tgt }) } } })"

definition broker_handle_open_tree_request ::
    "env \<Rightarrow> notif \<Rightarrow> allowlist \<Rightarrow> bstate \<Rightarrow> (int \<times> bstate) io" where
  "broker_handle_open_tree_request v req A st = (
     let K = e_kernel v; ev = ''broker.open_tree''; flags = as_uint (arg req 2) in do {
     s \<leftarrow> (if arg req 1 = 0 then State_Monad.return (-1, []) else read_tracee_string v (q_pid req) (arg req 1) PATH_MAX);
     if fst s < 0 then keeping st (fail_mount_or v ev req None)
     else if snd s = [] \<or> flags AND NOT (OPEN_TREE_CLONE OR OPEN_TREE_CLOEXEC) \<noteq> 0 \<or> flags AND OPEN_TREE_CLONE = 0
     then keeping st (deny_mount v ev req (Some (snd s)))
     else do {
     c \<leftarrow> resolve_tracee_path v (q_pid req) (as_int (arg req 0)) (snd s);
     case c of None \<Rightarrow> keeping st (fail_mount v ev req (Some (snd s)))
     | Some source \<Rightarrow>
       if \<not> list_ex (\<lambda>r. b_source r = source) (mount_bind_rules A) then keeping st (deny_mount v ev req (Some source))
       else if \<not> addfd_allowed A ''open_tree'' source None then keeping st (deny_mount v ev req (Some source))
       else do {
         tree_fd \<leftarrow> broker_open_tree_in_tracee_namespace v (q_pid req) source
           (if flags AND OPEN_TREE_CLOEXEC \<noteq> 0 then OPEN_TREE_CLONE OR OPEN_TREE_CLOEXEC else OPEN_TREE_CLONE);
         if tree_fd < 0 then keeping st (fail_mount v ev req (Some source))
         else do {
           r \<leftarrow> broker_reply_addfd v (q_id req) tree_fd (if flags AND OPEN_TREE_CLOEXEC \<noteq> 0 then ucast O_CLOEXEC else 0);
           if fst r < 0 then do {
             e \<leftarrow> get_errno;
             _ \<leftarrow> sys K (Close tree_fd);
             _ \<leftarrow> audit_broker_mount v ev req (Some source) ''error'' e;
             keeping st (broker_send_errno v (q_id req) e) }
           else do {
             _ \<leftarrow> sys K (Close tree_fd);
             l \<leftarrow> (if snd r \<ge> 0 then run_am (mount_fd_lease_add (snd r) LEASE_SOURCE (Some source) (mount_leases st))
                  else State_Monad.return (Some (mount_leases st)));
             case l of None \<Rightarrow> do {
                 e \<leftarrow> get_errno;
                 _ \<leftarrow> audit_broker_mount v ev req (Some source) ''error'' e;
                 State_Monad.return (0, st) }
             | Some ls \<Rightarrow> do {
                 _ \<leftarrow> audit_broker_mount v ev req (Some source) ''allow'' 0;
                 State_Monad.return (0, st\<lparr>mount_leases := ls\<rparr>) } } } } } })"

text \<open>An optional string argument; a null pointer leaves the buffer empty.\<close>

definition read_optional :: "env \<Rightarrow> notif \<Rightarrow> nat \<Rightarrow> nat \<Rightarrow> (int \<times> string) io" where
  "read_optional v req i bsize = (if arg req i \<noteq> 0 then read_tracee_string v (q_pid req) (arg req i) bsize
     else State_Monad.return (0, []))"

definition mount_bind_request ::
    "env \<Rightarrow> notif \<Rightarrow> allowlist \<Rightarrow> ir \<Rightarrow> int list \<Rightarrow> string \<Rightarrow> string \<Rightarrow> string \<Rightarrow> int io" where
  "mount_bind_request v req A ir fds source tgt options = (let ev = ''broker.mount''; flags = arg req 3 in
     if source = [] \<or> arg req 2 \<noteq> 0 \<or> options \<noteq> [] then deny_mount v ev req (Some tgt)
     else do {
       cs \<leftarrow> resolve_tracee_path v (q_pid req) AT_FDCWD source;
       case cs of None \<Rightarrow> fail_mount v ev req (Some tgt)
       | Some canonical_source \<Rightarrow> do {
       ct \<leftarrow> resolve_tracee_path v (q_pid req) AT_FDCWD tgt;
       case ct of None \<Rightarrow> fail_mount v ev req (Some tgt)
       | Some canonical_target \<Rightarrow>
         (case find_bind_mount_rule (mount_bind_rules A) canonical_source canonical_target of
           None \<Rightarrow> deny_mount v ev req (Some canonical_target)
         | Some rule \<Rightarrow> do {
             r \<leftarrow> broker_bind_mount_in_tracee_namespace v (q_pid req) canonical_source canonical_target flags
               (b_read_only rule) ir fds;
             if r < 0 then fail_mount v ev req (Some canonical_target)
             else allow_mount v ev req canonical_target }) } })"

definition mount_tmpfs_request ::
    "env \<Rightarrow> notif \<Rightarrow> allowlist \<Rightarrow> ir \<Rightarrow> int list \<Rightarrow> string \<Rightarrow> string \<Rightarrow> string \<Rightarrow> string \<Rightarrow> int io" where
  "mount_tmpfs_request v req A ir fds source tgt fstype options = (let ev = ''broker.mount''; flags = arg req 3 in
     if (source \<noteq> [] \<and> source \<noteq> ''tmpfs'') \<or> arg req 2 = 0 \<or> fstype \<noteq> ''tmpfs'' \<or> options \<noteq> []
     then deny_mount v ev req (Some tgt)
     else do {
       ct \<leftarrow> resolve_tracee_path v (q_pid req) AT_FDCWD tgt;
       case ct of None \<Rightarrow> fail_mount v ev req (Some tgt)
       | Some canonical_target \<Rightarrow>
         if \<not> path_in_list (mount_tmpfs_paths A) canonical_target then deny_mount v ev req (Some canonical_target)
         else do {
           r \<leftarrow> broker_mount_tmpfs_in_tracee_namespace v (q_pid req) canonical_target flags ir fds;
           if r < 0 then fail_mount v ev req (Some canonical_target)
           else allow_mount v ev req canonical_target } })"

definition broker_handle_mount_request :: "env \<Rightarrow> notif \<Rightarrow> allowlist \<Rightarrow> ir \<Rightarrow> int list \<Rightarrow> int io" where
  "broker_handle_mount_request v req A ir fds = (let ev = ''broker.mount'' in do {
     source \<leftarrow> read_optional v req 0 PATH_MAX;
     if fst source < 0 then fail_mount v ev req None
     else do {
     tgt \<leftarrow> read_tracee_string v (q_pid req) (arg req 1) PATH_MAX;
     if fst tgt < 0 then fail_mount_or v ev req (Some (snd tgt))
     else do {
     fstype \<leftarrow> read_optional v req 2 32;
     if fst fstype < 0 then fail_mount_or v ev req (Some (snd tgt))
     else do {
     options \<leftarrow> read_optional v req 4 128;
     if fst options < 0 then fail_mount v ev req (Some (snd tgt))
     else if arg req 3 AND MS_BIND \<noteq> 0
     then mount_bind_request v req A ir fds (snd source) (snd tgt) (snd options)
     else mount_tmpfs_request v req A ir fds (snd source) (snd tgt) (snd fstype) (snd options) } } } })"

text \<open>\<open>move_mount\<close> with an empty source path moves the mount of a leased descriptor.\<close>

definition move_leased :: "env \<Rightarrow> notif \<Rightarrow> allowlist \<Rightarrow> ir \<Rightarrow> int list \<Rightarrow> mount_fd_lease \<Rightarrow> string \<Rightarrow> int io" where
  "move_leased v req A ir fds lease tgt = (
     let ev = ''broker.move_mount''; K = e_kernel v; from_dfd = as_int (arg req 0);
         bind_rule = find_bind_mount_rule (mount_bind_rules A) (ml_value lease) tgt;
         object_rule = find_mount_object_rule (mount_object_rules A) (ml_value lease) in
     if (if ml_kind lease = LEASE_SOURCE then bind_rule = None
         else if ml_kind lease = LEASE_OBJECT
         then object_rule = None \<or> \<not> mount_object_target_allowed object_rule tgt
         else True)
     then deny_mount v ev req (Some tgt)
     else do {
       source_fd \<leftarrow> broker_dup_tracee_fd v (q_pid req) from_dfd;
       if source_fd < 0 then fail_mount v ev req (Some tgt)
       else do {
         r \<leftarrow> broker_move_mount_fd_in_tracee_namespace v (q_pid req) source_fd tgt
           (if ml_kind lease = LEASE_SOURCE then b_read_only (the bind_rule) else False) ir fds;
         if r < 0 then do {
           e \<leftarrow> get_errno;
           _ \<leftarrow> sys K (Close source_fd);
           _ \<leftarrow> audit_broker_mount v ev req (Some tgt) ''error'' e;
           broker_send_errno v (q_id req) e }
         else do { _ \<leftarrow> sys K (Close source_fd); allow_mount v ev req tgt } } })"

definition broker_handle_move_mount_request ::
    "env \<Rightarrow> notif \<Rightarrow> allowlist \<Rightarrow> ir \<Rightarrow> int list \<Rightarrow> bstate \<Rightarrow> (int \<times> bstate) io" where
  "broker_handle_move_mount_request v req A ir fds st = (
     let ev = ''broker.move_mount''; from_dfd = as_int (arg req 0); flags = as_uint (arg req 4) in do {
     t \<leftarrow> (if arg req 3 = 0 then State_Monad.return (-1, []) else read_tracee_string v (q_pid req) (arg req 3) PATH_MAX);
     if fst t < 0 then keeping st (fail_mount_or v ev req (Some (snd t)))
     else if snd t = [] then keeping st (deny_mount v ev req (Some (snd t)))
     else do {
     ct \<leftarrow> resolve_tracee_path v (q_pid req) (as_int (arg req 2)) (snd t);
     case ct of None \<Rightarrow> keeping st (fail_mount v ev req (Some (snd t)))
     | Some tgt \<Rightarrow> do {
     s \<leftarrow> read_optional v req 1 PATH_MAX;
     if fst s < 0 then keeping st (fail_mount_or v ev req (Some (snd t)))
     else if arg req 1 = 0 \<or> snd s = [] then
       (if flags \<noteq> MOVE_MOUNT_F_EMPTY_PATH then keeping st (deny_mount v ev req (Some tgt))
        else do {
          l \<leftarrow> run_am (liftM (mount_fd_lease_take (mount_leases st) from_dfd));
          case l of None \<Rightarrow> keeping st (deny_mount v ev req (Some tgt))
          | Some (lease, rest) \<Rightarrow>
              keeping (st\<lparr>mount_leases := rest\<rparr>) (move_leased v req A ir fds lease tgt) })
     else do {
       cs \<leftarrow> (if flags \<noteq> 0 then State_Monad.return None
             else resolve_tracee_path v (q_pid req) from_dfd (snd s));
       case cs of None \<Rightarrow> do {
           e0 \<leftarrow> get_errno;
           let e = (if e0 \<noteq> 0 then e0 else EACCES);
           _ \<leftarrow> audit_broker_mount v ev req (Some (snd t)) (if flags \<noteq> 0 then ''deny'' else ''error'') e;
           keeping st (broker_send_errno v (q_id req) e) }
       | Some source \<Rightarrow>
         (case find_bind_mount_rule (mount_bind_rules A) source tgt of
           None \<Rightarrow> keeping st (deny_mount v ev req (Some tgt))
         | Some rule \<Rightarrow> do {
             r \<leftarrow> broker_move_mount_in_tracee_namespace v (q_pid req) source tgt (b_read_only rule) ir fds;
             keeping st (if r < 0 then fail_mount v ev req (Some tgt) else allow_mount v ev req tgt) }) } } } })"

definition broker_handle_umount_request :: "env \<Rightarrow> notif \<Rightarrow> allowlist \<Rightarrow> int io" where
  "broker_handle_umount_request v req A = (let ev = ''broker.umount'' in do {
     s \<leftarrow> read_tracee_string v (q_pid req) (arg req 0) PATH_MAX;
     if fst s < 0 then fail_mount v ev req None
     else do {
     ct \<leftarrow> resolve_tracee_path v (q_pid req) AT_FDCWD (snd s);
     case ct of None \<Rightarrow> fail_mount v ev req (Some (snd s))
     | Some tgt \<Rightarrow>
       if \<not> path_in_list (mount_tmpfs_paths A) tgt \<and> \<not> bind_target_in_list (mount_bind_rules A) tgt
       then deny_mount v ev req (Some tgt)
       else do {
         r \<leftarrow> broker_umount_in_tracee_namespace v (q_pid req) tgt (as_int (arg req 1));
         if r < 0 then fail_mount v ev req (Some tgt) else allow_mount v ev req tgt } } })"

subsection \<open>The loop\<close>

definition broker_dispatch ::
    "env \<Rightarrow> notif \<Rightarrow> allowlist \<Rightarrow> ir \<Rightarrow> int list \<Rightarrow> bstate \<Rightarrow> (int \<times> bstate) io" where
  "broker_dispatch v req A ir fds st = (let nr = q_nr req in
     if nr = 257 \<or> nr = 437 then keeping st (broker_handle_open_request v req A)
     else if nr = 258 then keeping st (broker_handle_mkdir_request v req A)
     else if nr = 263 then keeping st (broker_handle_unlink_request v req A)
     else if nr = 316 then keeping st (broker_handle_rename_request v req A)
     else if nr = 266 then keeping st (broker_handle_symlink_request v req A)
     else if nr = 265 then keeping st (broker_handle_link_request v req A)
     else if nr = 165 then keeping st (broker_handle_mount_request v req A ir fds)
     else if nr = 430 then broker_handle_fsopen_request v req A st
     else if nr = 431 then broker_handle_fsconfig_request v req st
     else if nr = 432 then broker_handle_fsmount_request v req A st
     else if nr = 428 then broker_handle_open_tree_request v req A st
     else if nr = 429 then broker_handle_move_mount_request v req A ir fds st
     else if nr = 442 then keeping st (broker_handle_mount_setattr_request v req A)
     else if nr = 166 then keeping st (broker_handle_umount_request v req A)
     else keeping st (broker_send_errno v (q_id req) ENOSYS))"

text \<open>The layout of \<open>struct seccomp_notif\<close>: id, pid, flags, then nr, arch, instruction pointer and six
  arguments.\<close>

definition decode_notif :: "string \<Rightarrow> notif" where
  "decode_notif b = \<lparr>q_id = u64_field 0 b,
     q_pid = sint (word_of_nat (le_val (take 4 (drop 8 b))) :: u32),
     q_nr = sint (word_of_nat (le_val (take 4 (drop 16 b))) :: u32),
     q_args = map (\<lambda>i. u64_field (32 + 8 * i) b) [0..<6]\<rparr>"

text \<open>One iteration per unit of fuel; \<open>None\<close> means that the loop is still running.\<close>

fun broker_serve :: "nat \<Rightarrow> env \<Rightarrow> allowlist \<Rightarrow> ir \<Rightarrow> int list \<Rightarrow> bstate \<Rightarrow> (int option \<times> bstate) io" where
  "broker_serve 0 v A ir fds st = State_Monad.return (None, st)"
| "broker_serve (Suc n) v A ir fds st = do {
     r \<leftarrow> sysd (e_kernel v) (NotifRecv (e_listener v));
     if fst r < 0 then do {
       e \<leftarrow> get_errno;
       if e = EINTR then broker_serve n v A ir fds st
       else State_Monad.return (Some (if e = ENOENT \<or> e = ESRCH \<or> e = EBADF then 0 else -1), st) }
     else do {
       x \<leftarrow> broker_dispatch v (decode_notif (snd r)) A ir fds st;
       if fst x < 0 then State_Monad.return (Some (-1), snd x)
       else broker_serve n v A ir fds (snd x) } }"

text \<open>\<open>v\<close> comes without a listener: the loop receives it from the supervised process.\<close>

definition broker_loop :: "nat \<Rightarrow> env \<Rightarrow> int \<Rightarrow> allowlist \<Rightarrow> ir \<Rightarrow> int list \<Rightarrow> int option io" where
  "broker_loop n v control_sock A ir fds = (let K = e_kernel v in do {
     listener_fd \<leftarrow> recv_fd K control_sock;
     _ \<leftarrow> sys K (Close control_sock);
     if listener_fd < 0 then State_Monad.return (Some (-1))
     else do {
       r \<leftarrow> broker_serve n (v\<lparr>e_listener := listener_fd\<rparr>) A ir fds \<lparr>mount_leases = [], fsopen_leases = []\<rparr>;
       case fst r of None \<Rightarrow> State_Monad.return None
       | Some rc \<Rightarrow> do { _ \<leftarrow> sys K (Close listener_fd); State_Monad.return (Some rc) } } })"

end
