(* ===== verification/Runner.thy ===== *)
theory Runner
  imports Policy_Process Broker
begin

text \<open>
  Running a program under a policy (\<open>src/src/landlockd_exec.c\<close>, lines 186-220, 310-365, 381-500,
  1070-1512, 1580-1880 and 4448-4962): preflight checks, compilation of the rulesets, mounts and
  restrictions in the child, the broker process, and the wait for the program.

  The broker runs beside the program: \<open>run_policy_ir\<close> shows the fork, and \<open>broker_process\<close> is what
  that child does. The child that becomes the program is run at its fork, its calls wrapped in
  \<open>InChild\<close>. Diagnostic messages are left out.
\<close>

subsection \<open>Audit records\<close>

definition audit_run_start :: "env \<Rightarrow> int \<Rightarrow> string option \<Rightarrow> string \<Rightarrow> unit io" where
  "audit_run_start v child_pid policy_file argv0 =
     audit_event (e_fuel v) (e_kernel v) (e_diag v) ''run.start''
       [FInt ''pid'' child_pid, FStr ''policy_file'' policy_file, FStr ''argv0'' (Some argv0)]"

definition audit_run_exit :: "env \<Rightarrow> int \<Rightarrow> wait_status \<Rightarrow> unit io" where
  "audit_run_exit v child_pid status = (case status of
     Exited c \<Rightarrow> audit_event (e_fuel v) (e_kernel v) (e_diag v) ''run.exit''
       [FInt ''pid'' child_pid, FInt ''status'' c]
   | Signaled s \<Rightarrow> audit_event (e_fuel v) (e_kernel v) (e_diag v) ''run.signal''
       [FInt ''pid'' child_pid, FInt ''signal'' (int s)])"

text \<open>A record of the process itself: the pid is read after the record was begun.\<close>

definition audit_own_event :: "env \<Rightarrow> string \<Rightarrow> field list \<Rightarrow> unit io" where
  "audit_own_event v event fs = do {
     fa \<leftarrow> audit_begin (e_kernel v) (e_diag v) event (True, audit_idle);
     pid \<leftarrow> sys (e_kernel v) (Host Getpid);
     fa \<leftarrow> put_fields (e_diag v) (FInt ''pid'' pid # fs) fa;
     _ \<leftarrow> audit_end (e_fuel v) (e_kernel v) (e_diag v) (snd fa);
     State_Monad.return () }"

definition audit_mount_event :: "env \<Rightarrow> string \<Rightarrow> string \<Rightarrow> string \<Rightarrow> int \<Rightarrow> unit io" where
  "audit_mount_event v event path decision error_value = audit_own_event v event
     ([FStr ''path'' (Some path), FStr ''decision'' (Some decision)] @ errno_field error_value)"

definition audit_tmpfs_mount :: "env \<Rightarrow> string \<Rightarrow> string \<Rightarrow> int \<Rightarrow> unit io" where
  "audit_tmpfs_mount v path decision error_value = audit_mount_event v ''mount.tmpfs'' path decision error_value"

definition audit_proc_mount :: "env \<Rightarrow> string \<Rightarrow> string \<Rightarrow> int \<Rightarrow> unit io" where
  "audit_proc_mount v path decision error_value = audit_mount_event v ''mount.proc'' path decision error_value"

definition audit_bind_mount :: "env \<Rightarrow> bind_rule \<Rightarrow> string \<Rightarrow> int \<Rightarrow> unit io" where
  "audit_bind_mount v r decision error_value = audit_own_event v ''mount.bind''
     ([FStr ''source'' (Some (b_source r)), FStr ''target'' (Some (b_target r)),
       FInt ''read_only'' (of_bool (b_read_only r)), FStr ''decision'' (Some decision)] @ errno_field error_value)"

subsection \<open>Rulesets\<close>

definition exec_cleanup_fs :: "kernel \<Rightarrow> int list \<Rightarrow> unit io" where
  "exec_cleanup_fs K fds = close_fds K fds"

interpretation exec: fd_cleanup exec_cleanup_fs
proof
  fix K fds x w
  show "wp (exec_cleanup_fs K fds)
    (\<lambda>_ w'. balance (w_trace w') x = balance (w_trace w) x - fd_count fds x) w"
    unfolding exec_cleanup_fs_def by (rule close_fds_balance)
qed

definition exec_layers :: "ir \<Rightarrow> (u64 \<times> (string \<times> u64) list) list" where
  "exec_layers ir = map (\<lambda>l. (l_handled l, map (\<lambda>r. (r_path r, r_allowed r)) (l_rules l))) (fs_layers ir)"

definition exec_compile_fs :: "kernel \<Rightarrow> ir \<Rightarrow> int list option io" where
  "exec_compile_fs K ir = (if fs_layers ir = [] then State_Monad.return (Some [])
     else do {
       fds \<leftarrow> run_am allocM;
       if fds = None then State_Monad.return None
       else compile_fs_layers K (exec_cleanup_fs K) (exec_layers ir) [] })"

definition exec_net_rules :: "ir \<Rightarrow> ir_net_rule list" where
  "exec_net_rules ir = map (\<lambda>r. \<lparr>nr_port = n_port r, nr_allowed = n_allowed r\<rparr>) (net_rules ir)"

text \<open>\<open>Some (-1)\<close>: the policy has no network part.\<close>

definition exec_compile_net :: "kernel \<Rightarrow> ir \<Rightarrow> int option io" where
  "exec_compile_net K ir = (if \<not> net_enabled ir then State_Monad.return (Some (-1))
     else do {
       r \<leftarrow> landlock_create_net_ruleset K (net_handled ir) None;
       let ruleset_fd = fst r;
       if ruleset_fd < 0 then State_Monad.return None
       else do {
         ok \<leftarrow> add_net_rules K (do { _ \<leftarrow> sys K (Close ruleset_fd); State_Monad.return () }) ruleset_fd (exec_net_rules ir);
         State_Monad.return (if ok then Some ruleset_fd else None) } })"

subsection \<open>Mount namespaces\<close>

definition MS_REC :: u64 where "MS_REC = 0x4000"
definition MS_PRIVATE :: u64 where "MS_PRIVATE = 0x40000"
definition MNT_DETACH :: int where "MNT_DETACH = 2"

definition write_exact_file :: "kernel \<Rightarrow> string \<Rightarrow> string \<Rightarrow> int io" where
  "write_exact_file K path content = do {
     fd \<leftarrow> sys K (Open path (1 OR ucast O_CLOEXEC));
     if fd < 0 then State_Monad.return (-1)
     else do {
       nwritten \<leftarrow> sys K (Write fd content);
       _ \<leftarrow> sys K (Close fd);
       if nwritten < 0 then State_Monad.return (-1)
       else if nwritten \<noteq> int (length content) then fail_with EIO
       else State_Monad.return 0 } }"

definition id_map :: "int \<Rightarrow> string" where
  "id_map n = ''0 '' @ dec n @ '' 1'' @ [CHR 0x0A]"

definition setup_mount_namespace :: "kernel \<Rightarrow> int io" where
  "setup_mount_namespace K = do {
     uid \<leftarrow> sys K (Host Getuid);
     gid \<leftarrow> sys K (Host Getgid);
     r \<leftarrow> sys K (Host (Unshare (CLONE_NEWUSER OR CLONE_NEWNS)));
     if r < 0 then State_Monad.return (-1) else do {
     r \<leftarrow> write_exact_file K ''/proc/self/setgroups'' (''deny'' @ [CHR 0x0A]);
     e \<leftarrow> get_errno;
     if r < 0 \<and> e \<noteq> ENOENT then State_Monad.return (-1) else do {
     r \<leftarrow> (if length (id_map uid) \<ge> 64 then State_Monad.return (-1)
          else write_exact_file K ''/proc/self/uid_map'' (id_map uid));
     if r < 0 then State_Monad.return (-1) else do {
     r \<leftarrow> (if length (id_map gid) \<ge> 64 then State_Monad.return (-1)
          else write_exact_file K ''/proc/self/gid_map'' (id_map gid));
     if r < 0 then State_Monad.return (-1) else do {
     r \<leftarrow> sys K (Mount None ''/'' None (MS_REC OR MS_PRIVATE) None);
     State_Monad.return (if r < 0 then -1 else 0) } } } } }"

subsection \<open>Probing for mount features\<close>

fun rmdirs :: "kernel \<Rightarrow> string list \<Rightarrow> unit io" where
  "rmdirs K [] = State_Monad.return ()"
| "rmdirs K (p # ps) = do { _ \<leftarrow> sys K (Host (Rmdir p)); rmdirs K ps }"

text \<open>\<open>status = errno; rmdir(...); errno = status; return -1;\<close>\<close>

definition rmdirs_and_fail :: "kernel \<Rightarrow> string list \<Rightarrow> int io" where
  "rmdirs_and_fail K ps = do { e \<leftarrow> get_errno; rmdirs K ps; fail_with e }"

record mount_needs =
  need_tmpfs :: bool
  need_bind :: bool
  need_bind_read_only :: bool
  need_proc :: bool
  need_pivot_root :: bool
  need_new_mount_api :: bool

definition old_root_name :: string where
  "old_root_name = ''.landlockd-oldroot''"

text \<open>What is done in the probe's new root directory.\<close>

definition pivot_into :: "kernel \<Rightarrow> (int \<Rightarrow> int io) \<Rightarrow> int io" where
  "pivot_into K rest = or_exit (sys K (Host (PivotRoot ''.'' old_root_name))) (\<lambda>_.
     or_exit (sys K (Host (Chdir ''/''))) (\<lambda>_.
     or_exit (sys K (Umount2 (''/'' @ old_root_name) MNT_DETACH)) (\<lambda>_.
     or_exit (sys K (Host (Rmdir (''/'' @ old_root_name)))) rest)))"

definition probe_pivot :: "kernel \<Rightarrow> string \<Rightarrow> int io \<Rightarrow> int io" where
  "probe_pivot K bind_source rest =
     or_exit (sys K (Mount (Some bind_source) bind_source None MS_BIND None)) (\<lambda>_. do {
     old_root \<leftarrow> join_path bind_source old_root_name;
     case old_root of None \<Rightarrow> exit_errno
     | Some old_root \<Rightarrow>
         or_exit (sys K (Host (Mkdir old_root 448))) (\<lambda>_.
         or_exit (sys K (Host (Chdir bind_source))) (\<lambda>_. pivot_into K (\<lambda>_. rest))) })"

definition probe_bind :: "kernel \<Rightarrow> mount_needs \<Rightarrow> string \<Rightarrow> string \<Rightarrow> int io \<Rightarrow> int io" where
  "probe_bind K need bind_source bind_target rest = (if \<not> need_bind need then rest else
     or_exit (sys K (Mount (Some bind_source) bind_target None MS_BIND None)) (\<lambda>_.
     or_exit (if need_bind_read_only need
              then sys K (Mount None bind_target None (MS_BIND OR MS_REMOUNT OR MS_RDONLY) None)
              else State_Monad.return 0) (\<lambda>_.
     or_exit (sys K (Umount2 bind_target MNT_DETACH)) (\<lambda>_.
     if need_pivot_root need then probe_pivot K bind_source rest else rest))))"

definition probe_mount :: "kernel \<Rightarrow> bool \<Rightarrow> string \<Rightarrow> string \<Rightarrow> u64 \<Rightarrow> string option \<Rightarrow> int io \<Rightarrow> int io" where
  "probe_mount K needed fs tgt flags data rest = (if \<not> needed then rest else
     or_exit (sys K (Mount (Some fs) tgt (Some fs) flags data)) (\<lambda>_.
     or_exit (sys K (Umount2 tgt MNT_DETACH)) (\<lambda>_. rest)))"

definition probe_new_api :: "kernel \<Rightarrow> mount_needs \<Rightarrow> string \<Rightarrow> int io" where
  "probe_new_api K need tmpfs_target = (if \<not> need_new_mount_api need then State_Monad.return 0 else
     or_exit (sys K (Fsopen ''tmpfs'' 1)) (\<lambda>fsfd.
     or_exit (sys K (Fsconfig fsfd FSCONFIG_CMD_CREATE)) (\<lambda>_. do {
     mntfd \<leftarrow> sys K (Fsmount fsfd 1 0);
     _ \<leftarrow> sys K (Close fsfd);
     if mntfd < 0 then exit_errno else
     or_exit (sys K (MoveMount mntfd [] AT_FDCWD tmpfs_target MOVE_MOUNT_F_EMPTY_PATH)) (\<lambda>_. do {
     _ \<leftarrow> sys K (Close mntfd);
     or_exit (sys K (MountSetattr AT_FDCWD tmpfs_target 0
       \<lparr>attr_set = 1, attr_clr = 0, propagation = 0, userns_fd = 0\<rparr>)) (\<lambda>_.
     or_exit (sys K (Umount2 tmpfs_target MNT_DETACH)) (\<lambda>_. State_Monad.return 0)) }) })))"

definition probe_child :: "kernel \<Rightarrow> mount_needs \<Rightarrow> string \<Rightarrow> int io" where
  "probe_child K need root = or_exit (setup_mount_namespace K) (\<lambda>_.
     probe_bind K need (root @ ''/source'') (root @ ''/target'')
       (probe_mount K (need_tmpfs need) ''tmpfs'' (root @ ''/tmpfs'') (MS_NODEV OR MS_NOSUID) (Some ''mode=700'')
       (probe_mount K (need_proc need) ''proc'' (root @ ''/proc'') (MS_NODEV OR MS_NOSUID OR MS_NOEXEC) None
       (probe_new_api K need (root @ ''/tmpfs'')))))"

text \<open>Create a directory of the probe or give up, removing the ones made before.\<close>

definition probe_dir :: "kernel \<Rightarrow> string \<Rightarrow> string list \<Rightarrow> int io \<Rightarrow> int io" where
  "probe_dir K p made rest = (if length p \<ge> PATH_MAX then do { rmdirs K made; fail_with ENAMETOOLONG }
     else do {
       r \<leftarrow> sys K (Host (Mkdir p 448));
       if r < 0 then rmdirs_and_fail K made else rest })"

definition probe_bind_dirs :: "kernel \<Rightarrow> string \<Rightarrow> int io \<Rightarrow> int io" where
  "probe_bind_dirs K root rest = (let bind_source = root @ ''/source''; bind_target = root @ ''/target'' in
     if length bind_source \<ge> PATH_MAX \<or> length bind_target \<ge> PATH_MAX
     then do { rmdirs K [root]; fail_with ENAMETOOLONG }
     else do {
       r \<leftarrow> sys K (Host (Mkdir bind_source 448));
       if r < 0 then rmdirs_and_fail K [bind_target, bind_source, root]
       else do {
         r \<leftarrow> sys K (Host (Mkdir bind_target 448));
         if r < 0 then rmdirs_and_fail K [bind_target, bind_source, root] else rest } })"

text \<open>The positive errno that the code returns when waitpid fails is kept.\<close>

definition probe_mount_features :: "env \<Rightarrow> mount_needs \<Rightarrow> int io" where
  "probe_mount_features v need = (let K = e_kernel v in do {
     d \<leftarrow> sysd K (Host (Mkdtemp ''/tmp/landlockd-mount-probe-XXXXXX''));
     if fst d < 0 then State_Monad.return (-1)
     else let root = cstr (snd d); bind_dirs = (if need_bind need then [root @ ''/target'', root @ ''/source''] else []);
              tmpfs_dir = (if need_tmpfs need then [root @ ''/tmpfs''] else []);
              proc_dir = (if need_proc need then [root @ ''/proc''] else []);
              cleanup = rmdirs K (tmpfs_dir @ proc_dir @ bind_dirs @ [root]) in
       (if need_bind need then probe_bind_dirs K root else id)
       ((if need_tmpfs need then probe_dir K (root @ ''/tmpfs'') (bind_dirs @ [root]) else id)
       ((if need_proc need then probe_dir K (root @ ''/proc'') (tmpfs_dir @ bind_dirs @ [root]) else id)
       (do {
         pid \<leftarrow> sys K Fork;
         if pid < 0 then rmdirs_and_fail K (tmpfs_dir @ proc_dir @ bind_dirs @ [root])
         else do {
           code \<leftarrow> run_child (probe_child K need root);
           status \<leftarrow> waitpid_retry (e_fuel v) K pid code;
           case status of
             None \<Rightarrow> do { e \<leftarrow> get_errno; cleanup; State_Monad.return e }
           | Some (Signaled s) \<Rightarrow> do { set_errno EPERM; cleanup; State_Monad.return (-1) }
           | Some (Exited c) \<Rightarrow>
               if c \<noteq> 0 then do { set_errno c; cleanup; State_Monad.return (-1) }
               else do { cleanup; State_Monad.return 0 } } }))) })"

subsection \<open>Preflight\<close>

definition PREFLIGHT_ABI_FLOOR :: int where "PREFLIGHT_ABI_FLOOR = 1"
definition MOUNT_ATTR_RDONLY :: u64 where "MOUNT_ATTR_RDONLY = 1"

text \<open>The conditions of the code on the counts of the policy.\<close>

definition wants_broker :: "ir \<Rightarrow> bool" where
  "wants_broker ir \<longleftrightarrow> broker_open_read ir \<noteq> [] \<or> broker_open_write ir \<noteq> [] \<or> broker_scratch ir \<noteq> [] \<or>
     broker_export ir \<noteq> [] \<or> broker_mount_tmpfs ir \<noteq> [] \<or> broker_mount_bind ir \<noteq> [] \<or> broker_mount_object ir \<noteq> []"

definition need_mount_namespace :: "ir \<Rightarrow> bool" where
  "need_mount_namespace ir \<longleftrightarrow> mount_tmpfs ir \<noteq> [] \<or> mount_bind ir \<noteq> [] \<or> mount_proc ir \<noteq> [] \<or>
     broker_mount_tmpfs ir \<noteq> [] \<or> broker_mount_bind ir \<noteq> [] \<or> broker_mount_object ir \<noteq> [] \<or> runtime_root ir \<noteq> None"

definition mount_needs_of :: "ir \<Rightarrow> mount_needs" where
  "mount_needs_of ir = (let objects = broker_mount_object ir; new_api = (objects \<noteq> []) in
     \<lparr>need_tmpfs = (mount_tmpfs ir \<noteq> [] \<or> broker_mount_tmpfs ir \<noteq> [] \<or> list_ex (\<lambda>x. o_fs_type x = ''tmpfs'') objects \<or> new_api),
      need_bind = (mount_bind ir \<noteq> [] \<or> broker_mount_bind ir \<noteq> [] \<or> runtime_root ir \<noteq> None),
      need_bind_read_only = (list_ex b_read_only (mount_bind ir) \<or> list_ex b_read_only (broker_mount_bind ir) \<or>
        list_ex (\<lambda>x. o_attrs x AND MOUNT_ATTR_RDONLY \<noteq> 0) objects),
      need_proc = (mount_proc ir \<noteq> [] \<or> list_ex (\<lambda>x. o_fs_type x = ''proc'') objects),
      need_pivot_root = (runtime_root ir \<noteq> None),
      need_new_mount_api = new_api\<rparr>)"

definition preflight_notify :: "kernel \<Rightarrow> ir \<Rightarrow> preflight_report \<Rightarrow> int io" where
  "preflight_notify K ir report = (if \<not> wants_broker ir then State_Monad.return 0 else do {
     s \<leftarrow> landlockd_preflight_probe_seccomp_user_notif K (Some report);
     if fst s < 0 then State_Monad.return (-1)
     else if \<not> seccomp_user_notif_supported (the (snd s)) then fail_with (seccomp_probe_errno (the (snd s)))
     else State_Monad.return 0 })"

definition run_preflight :: "env \<Rightarrow> ir \<Rightarrow> int io" where
  "run_preflight v ir = do {
     p \<leftarrow> landlockd_preflight_run (e_kernel v) PREFLIGHT_ABI_FLOOR (Some preflight_zero);
     let report = the (snd p);
     if fst p < 0 then State_Monad.return (-1)
     else if probe_errno report = ENOSYS \<or> probe_errno report = EOPNOTSUPP then fail_with (probe_errno report)
     else if \<not> meets_abi_floor report then fail_with ENOSYS
     else if net_enabled ir \<and> abi_version report < 4 then fail_with ENOSYS
     else do {
       r \<leftarrow> preflight_notify (e_kernel v) ir report;
       if r < 0 then State_Monad.return (-1)
       else if need_mount_namespace ir then do {
         r \<leftarrow> probe_mount_features v (mount_needs_of ir);
         State_Monad.return (if r < 0 then -1 else 0) }
       else State_Monad.return 0 } }"

subsection \<open>Mounts of the program\<close>

definition bind_mount_self :: "kernel \<Rightarrow> string \<Rightarrow> int io" where
  "bind_mount_self K path = do {
     st \<leftarrow> sysd K (Stat path);
     if fst st < 0 then State_Monad.return (-1)
     else if \<not> S_ISDIR (snd st) then fail_with ENOTDIR
     else do {
       r \<leftarrow> sys K (Mount (Some path) path None MS_BIND None);
       State_Monad.return (if r < 0 then -1 else 0) } }"

text \<open>\<open>saved_errno = errno; audit(..., "deny", saved_errno); ...; errno = saved_errno; return -1;\<close>\<close>

definition audit_and_fail :: "(int \<Rightarrow> unit io) \<Rightarrow> int io" where
  "audit_and_fail audit = do { e \<leftarrow> get_errno; audit e; fail_with e }"

text \<open>The common body of the loops over tmpfs and proc rules.\<close>

definition mount_dir :: "env \<Rightarrow> ir \<Rightarrow> int list \<Rightarrow> (string \<Rightarrow> int \<Rightarrow> unit io) \<Rightarrow> string \<Rightarrow> u64 \<Rightarrow> string option
    \<Rightarrow> string \<Rightarrow> int io" where
  "mount_dir v ir fds audit fs flags data path = (let K = e_kernel v in do {
     st \<leftarrow> sysd K (Stat path);
     if fst st < 0 then audit_and_fail (audit ''deny'')
     else if \<not> S_ISDIR (snd st) then do { set_errno ENOTDIR; audit ''deny'' ENOTDIR; State_Monad.return (-1) }
     else do {
       r \<leftarrow> sys K (Mount (Some fs) path (Some fs) flags data);
       if r < 0 then audit_and_fail (audit ''deny'')
       else do {
         r \<leftarrow> attach_mount_rules K ir fds path;
         if r < 0 then audit_and_fail (audit ''deny'')
         else do { audit ''allow'' 0; State_Monad.return 0 } } } })"

fun each_or_fail :: "('a \<Rightarrow> int io) \<Rightarrow> 'a list \<Rightarrow> int io" where
  "each_or_fail f [] = State_Monad.return 0"
| "each_or_fail f (x # xs) = do { r \<leftarrow> f x; if r < 0 then State_Monad.return (-1) else each_or_fail f xs }"

definition setup_tmpfs_mounts :: "env \<Rightarrow> ir \<Rightarrow> int list \<Rightarrow> int io" where
  "setup_tmpfs_mounts v ir fds = each_or_fail (\<lambda>path. mount_dir v ir fds (audit_tmpfs_mount v path) ''tmpfs''
     (MS_NODEV OR MS_NOSUID) (Some ''mode=700'') path) (mount_tmpfs ir)"

definition setup_bind_mount :: "env \<Rightarrow> ir \<Rightarrow> int list \<Rightarrow> bind_rule \<Rightarrow> int io" where
  "setup_bind_mount v ir fds rule = do {
     r \<leftarrow> apply_bind_mount (e_kernel v) (b_source rule) (b_target rule) (b_read_only rule) ir fds;
     if r < 0 then audit_and_fail (audit_bind_mount v rule ''deny'')
     else do { audit_bind_mount v rule ''allow'' 0; State_Monad.return 0 } }"

definition setup_bind_mounts :: "env \<Rightarrow> ir \<Rightarrow> int list \<Rightarrow> int io" where
  "setup_bind_mounts v ir fds = each_or_fail (setup_bind_mount v ir fds) (mount_bind ir)"

definition setup_proc_mounts :: "env \<Rightarrow> ir \<Rightarrow> int list \<Rightarrow> int io" where
  "setup_proc_mounts v ir fds = each_or_fail (\<lambda>path. mount_dir v ir fds (audit_proc_mount v path) ''proc''
     (MS_NODEV OR MS_NOSUID OR MS_NOEXEC) None path) (mount_proc ir)"

text \<open>\<open>if (f() < 0) return -1;\<close>\<close>

definition or_fail :: "int io \<Rightarrow> int io \<Rightarrow> int io" where
  "or_fail f rest = do { r \<leftarrow> f; if r < 0 then State_Monad.return (-1) else rest }"

text \<open>The new root is entered and the old one detached.\<close>

definition enter_root :: "kernel \<Rightarrow> string \<Rightarrow> int io" where
  "enter_root K root = or_fail (sys K (Host (Chdir root)))
     (or_fail (sys K (Host (PivotRoot ''.'' old_root_name)))
     (or_fail (sys K (Host (Chdir ''/'')))
     (or_fail (sys K (Umount2 (''/'' @ old_root_name) MNT_DETACH))
     (or_fail (sys K (Host (Rmdir (''/'' @ old_root_name)))) (State_Monad.return 0)))))"

definition setup_runtime_root :: "kernel \<Rightarrow> ir \<Rightarrow> int list \<Rightarrow> int io" where
  "setup_runtime_root K ir fds = (case runtime_root ir of None \<Rightarrow> State_Monad.return 0
   | Some root \<Rightarrow>
       or_fail (bind_mount_self K root) (or_fail (attach_mount_rules K ir fds root) (do {
         old_root \<leftarrow> join_path root old_root_name;
         case old_root of None \<Rightarrow> State_Monad.return (-1)
         | Some old_root \<Rightarrow> do {
             r \<leftarrow> sys K (Host (Mkdir old_root 448));
             e \<leftarrow> get_errno;
             if r < 0 \<and> e \<noteq> EEXIST then State_Monad.return (-1) else enter_root K root } })))"

definition setup_runtime_cwd :: "kernel \<Rightarrow> ir \<Rightarrow> int io" where
  "setup_runtime_cwd K ir = (case runtime_cwd ir of None \<Rightarrow> State_Monad.return 0
   | Some cwd \<Rightarrow> or_fail (sys K (Host (Chdir cwd))) (State_Monad.return 0))"

definition setup_policy_mounts :: "env \<Rightarrow> ir \<Rightarrow> int list \<Rightarrow> int io" where
  "setup_policy_mounts v ir fds =
     (if \<not> need_mount_namespace ir \<and> runtime_cwd ir = None then State_Monad.return 0
      else or_fail (if need_mount_namespace ir then setup_mount_namespace (e_kernel v) else State_Monad.return 0)
        (or_fail (setup_tmpfs_mounts v ir fds)
        (or_fail (setup_bind_mounts v ir fds)
        (or_fail (setup_proc_mounts v ir fds)
        (or_fail (setup_runtime_root (e_kernel v) ir fds) (setup_runtime_cwd (e_kernel v) ir))))))"

subsection \<open>Restricting the program\<close>

fun restrict_layers :: "kernel \<Rightarrow> int list \<Rightarrow> int io" where
  "restrict_layers K [] = State_Monad.return 0"
| "restrict_layers K (fd # fds) = or_fail (landlockd_apply_sandbox K fd 0) (restrict_layers K fds)"

definition restrict_net :: "kernel \<Rightarrow> int \<Rightarrow> int io" where
  "restrict_net K net_ruleset_fd =
     (if net_ruleset_fd \<ge> 0 then landlockd_apply_sandbox K net_ruleset_fd 0 else State_Monad.return 0)"

definition plan_given :: "seccomp_plan option \<Rightarrow> bool" where
  "plan_given p = (case p of None \<Rightarrow> False | Some p \<Rightarrow> plan_count p > 0)"

text \<open>The seccomp part: no_new_privs, the deny list, the notification filter. The result is the
  listener, \<open>-1\<close> for none.\<close>

definition install_filters :: "kernel \<Rightarrow> seccomp_plan option \<Rightarrow> seccomp_plan option \<Rightarrow> u16 \<Rightarrow> int option io" where
  "install_filters K notify_plan deny_plan deny_errno_ret =
     (if \<not> plan_given notify_plan \<and> \<not> plan_given deny_plan then State_Monad.return (Some (-1)) else do {
       r \<leftarrow> landlockd_set_no_new_privs K;
       if r < 0 then State_Monad.return None else do {
       r \<leftarrow> (if plan_given deny_plan then seccomp_install_denylist K deny_plan deny_errno_ret else State_Monad.return 0);
       if r < 0 then State_Monad.return None else do {
       fd \<leftarrow> (if plan_given notify_plan then seccomp_install K notify_plan else State_Monad.return (-1));
       State_Monad.return (if plan_given notify_plan \<and> fd < 0 then None else Some fd) } } })"

definition apply_policy_in_child ::
    "kernel \<Rightarrow> int list \<Rightarrow> int \<Rightarrow> seccomp_plan option \<Rightarrow> seccomp_plan option \<Rightarrow> u16 \<Rightarrow> int \<Rightarrow> int io" where
  "apply_policy_in_child K fds net_ruleset_fd notify_plan deny_plan deny_errno_ret broker_sock_fd = do {
     l \<leftarrow> install_filters K notify_plan deny_plan deny_errno_ret;
     case l of None \<Rightarrow> State_Monad.return (-1)
     | Some listener_fd \<Rightarrow>
         if broker_sock_fd \<ge> 0 \<and> listener_fd < 0 then fail_with EINVAL
         else do {
           sent \<leftarrow> (if broker_sock_fd \<ge> 0 then send_fd K broker_sock_fd listener_fd else State_Monad.return 0);
           if sent < 0 then State_Monad.return (-1)
           else do {
             (if broker_sock_fd \<ge> 0 then closes K [listener_fd, broker_sock_fd] else State_Monad.return ());
             or_fail (restrict_layers K fds) (or_fail (restrict_net K net_ruleset_fd) (do {
               (if broker_sock_fd < 0 then close_if_open K listener_fd else State_Monad.return ());
               State_Monad.return 0 })) } } }"

definition child_close_policy_fds :: "kernel \<Rightarrow> int list \<Rightarrow> int \<Rightarrow> unit io" where
  "child_close_policy_fds K fds net_ruleset_fd = do { close_fds K fds; close_if_open K net_ruleset_fd }"

definition status_to_exit_code :: "wait_status \<Rightarrow> int" where
  "status_to_exit_code status = (case status of Exited c \<Rightarrow> c | Signaled s \<Rightarrow> 128 + int s)"

subsection \<open>A run\<close>

text \<open>The calls the program loses when it runs in a mount namespace of its own, in the order the
  code adds them.\<close>

definition namespace_syscalls :: "int list" where
  "namespace_syscalls = [SYS_mount, SYS_umount2, SYS_open_tree, SYS_move_mount, SYS_mount_setattr, SYS_fsopen,
     SYS_fsconfig, SYS_fsmount, SYS_pivot_root]"

definition broker_mounts :: "allowlist \<Rightarrow> bool" where
  "broker_mounts A \<longleftrightarrow> mount_tmpfs_paths A \<noteq> [] \<or> mount_bind_rules A \<noteq> [] \<or> mount_object_rules A \<noteq> []"

definition broker_active :: "allowlist \<Rightarrow> bool" where
  "broker_active A \<longleftrightarrow> read_paths A \<noteq> [] \<or> write_paths A \<noteq> [] \<or> scratch_paths A \<noteq> [] \<or> export_paths A \<noteq> [] \<or>
     broker_mounts A"

definition notify_syscalls :: "ir \<Rightarrow> allowlist \<Rightarrow> int list" where
  "notify_syscalls ir A = (if need_mount_namespace ir \<and> broker_mounts A then namespace_syscalls else []) @
     (if broker_active A then [SYS_openat, SYS_openat2] @
        (if scratch_paths A \<noteq> [] \<or> export_paths A \<noteq> []
         then [SYS_mkdirat, SYS_unlinkat, SYS_renameat2, SYS_symlinkat, SYS_linkat] else []) else [])"

text \<open>What the deny plan holds before and after the broker is started.\<close>

definition deny_mount_syscalls :: "ir \<Rightarrow> allowlist \<Rightarrow> int list" where
  "deny_mount_syscalls ir A = (if need_mount_namespace ir \<and> \<not> broker_mounts A then namespace_syscalls else [])"

definition deny_policy_syscalls :: "ir \<Rightarrow> int list" where
  "deny_policy_syscalls ir = (if seccomp_enabled ir then seccomp_deny ir else [])"

text \<open>The process that serves the program, forked before it. It starts with its end of the socket pair.\<close>

definition broker_process :: "nat \<Rightarrow> env \<Rightarrow> int \<Rightarrow> int \<Rightarrow> allowlist \<Rightarrow> ir \<Rightarrow> int list \<Rightarrow> int option io" where
  "broker_process n v sock0 sock1 A ir fds = do {
     _ \<leftarrow> sys (e_kernel v) (Close sock1);
     r \<leftarrow> seccomp_apply_broker_hardening (e_kernel v) (broker_mounts A);
     if r < 0 then State_Monad.return (Some 1)
     else do {
       r \<leftarrow> broker_loop n v sock0 A ir fds;
       State_Monad.return (map_option (\<lambda>r. if r = 0 then 0 else 1) r) } }"

definition release :: "kernel \<Rightarrow> int list \<Rightarrow> int \<Rightarrow> unit io" where
  "release K fds net_ruleset_fd = do { exec_cleanup_fs K fds; close_if_open K net_ruleset_fd }"

definition give_up :: "kernel \<Rightarrow> unit io \<Rightarrow> int list \<Rightarrow> int \<Rightarrow> int io" where
  "give_up K before fds net_ruleset_fd = do {
     saved_errno \<leftarrow> get_errno; before; release K fds net_ruleset_fd; set_errno saved_errno; State_Monad.return 1 }"

definition set_failure :: "failure \<Rightarrow> unit io" where
  "set_failure f = (case f of Err e \<Rightarrow> set_errno e | Stale \<Rightarrow> State_Monad.return ())"

text \<open>The program's process, up to the exec. \<open>execvp\<close> answers only when it failed or, in this model, when
  the program has ended.\<close>

definition program_process ::
    "env \<Rightarrow> ir \<Rightarrow> int list \<Rightarrow> int \<Rightarrow> seccomp_plan \<Rightarrow> seccomp_plan \<Rightarrow> int \<Rightarrow> string list \<Rightarrow> int io" where
  "program_process v ir fds net_ruleset_fd notify_plan deny_plan sock1 argv = (let K = e_kernel v in do {
     r \<leftarrow> setup_policy_mounts v ir fds;
     if r < 0 then State_Monad.return 1 else do {
     r \<leftarrow> apply_policy_in_child K fds net_ruleset_fd
            (if plan_count notify_plan > 0 then Some notify_plan else None)
            (if plan_count deny_plan > 0 then Some deny_plan else None)
            (if seccomp_enabled ir then seccomp_errno ir else 1) sock1;
     if r < 0 then State_Monad.return 1 else do {
     child_close_policy_fds K fds net_ruleset_fd;
     code \<leftarrow> sys K (Host (Execvp (hd argv) argv));
     State_Monad.return (if code < 0 then 127 else code) } } })"

definition stop_broker :: "kernel \<Rightarrow> int \<Rightarrow> unit io" where
  "stop_broker K broker_pid = (if broker_pid > 0 then do {
       _ \<leftarrow> sys K (Host (Kill broker_pid 15));
       _ \<leftarrow> sys K (Waitpid broker_pid);
       State_Monad.return () } else State_Monad.return ())"

text \<open>From the fork of the program on. \<open>sock1\<close> and \<open>broker_pid\<close> are \<open>-1\<close> without a broker.\<close>

definition run_program ::
    "env \<Rightarrow> ir \<Rightarrow> string option \<Rightarrow> string list \<Rightarrow> int list \<Rightarrow> int \<Rightarrow> seccomp_plan \<Rightarrow> seccomp_plan \<Rightarrow> int \<Rightarrow> int
      \<Rightarrow> (int \<times> wait_status option) io" where
  "run_program v ir label argv fds net_ruleset_fd notify_plan deny_plan sock1 broker_pid = (let K = e_kernel v;
     abandon = do { rc \<leftarrow> give_up K (do { close_if_open K sock1; stop_broker K broker_pid }) fds net_ruleset_fd;
                    State_Monad.return (rc, None) } in
     case plan_add_all deny_plan (deny_policy_syscalls ir) of
       Inl f \<Rightarrow> do { set_failure f; abandon }
     | Inr deny_plan \<Rightarrow> do {
         child_pid \<leftarrow> sys K Fork;
         if child_pid < 0 then abandon else do {
           code \<leftarrow> run_child (program_process v ir fds net_ruleset_fd notify_plan deny_plan sock1 argv);
           audit_run_start v child_pid label (hd argv);
           close_if_open K sock1;
           status \<leftarrow> waitpid_retry (e_fuel v) K child_pid code;
           stop_broker K broker_pid;
           release K fds net_ruleset_fd;
           case status of None \<Rightarrow> State_Monad.return (1, None)
           | Some s \<Rightarrow> do {
               audit_run_exit v child_pid s;
               State_Monad.return (status_to_exit_code s, Some s) } } })"

text \<open>The broker's process, and then the program.\<close>

definition start_broker ::
    "env \<Rightarrow> ir \<Rightarrow> string option \<Rightarrow> string list \<Rightarrow> int list \<Rightarrow> int \<Rightarrow> seccomp_plan \<Rightarrow> seccomp_plan
      \<Rightarrow> (int \<times> wait_status option) io" where
  "start_broker v ir label argv fds net_ruleset_fd notify_plan deny_plan = (let K = e_kernel v in do {
     socks \<leftarrow> sysd K Socketpair;
     if fst socks < 0 then do { rc \<leftarrow> give_up K (State_Monad.return ()) fds net_ruleset_fd; State_Monad.return (rc, None) }
     else let s0 = fst socks; s1 = int (le_val (snd socks)) in do {
       broker_pid \<leftarrow> sys K Fork;
       if broker_pid < 0 then do { rc \<leftarrow> give_up K (closes K [s0, s1]) fds net_ruleset_fd; State_Monad.return (rc, None) }
       else do {
         _ \<leftarrow> sys K (Close s0);
         run_program v ir label argv fds net_ruleset_fd notify_plan deny_plan s1 broker_pid } } })"

definition run_policy_ir ::
    "env \<Rightarrow> ir \<Rightarrow> string option \<Rightarrow> string list \<Rightarrow> (int \<times> wait_status option) io" where
  "run_policy_ir v ir label argv = (let K = e_kernel v in
     if argv = [] then do { set_errno EINVAL; State_Monad.return (1, None) }
     else do {
       r \<leftarrow> run_preflight v ir;
       if r < 0 then State_Monad.return (1, None) else do {
       compiled \<leftarrow> exec_compile_fs K ir;
       case compiled of None \<Rightarrow> State_Monad.return (1, None) | Some fds \<Rightarrow> do {
       net \<leftarrow> exec_compile_net K ir;
       case net of None \<Rightarrow> do { rc \<leftarrow> give_up K (State_Monad.return ()) fds (-1); State_Monad.return (rc, None) }
       | Some net_ruleset_fd \<Rightarrow> do {
       allowed \<leftarrow> allowlist_init K ir;
       case allowed of None \<Rightarrow> do { rc \<leftarrow> give_up K (State_Monad.return ()) fds net_ruleset_fd; State_Monad.return (rc, None) }
       | Some A \<Rightarrow>
       (case plan_add_all plan_local (notify_syscalls ir A) of
          Inl f \<Rightarrow> do { set_failure f; rc \<leftarrow> give_up K (State_Monad.return ()) fds net_ruleset_fd; State_Monad.return (rc, None) }
        | Inr notify_plan \<Rightarrow>
       (case plan_add_all plan_local (deny_mount_syscalls ir A) of
          Inl f \<Rightarrow> do { set_failure f; rc \<leftarrow> give_up K (State_Monad.return ()) fds net_ruleset_fd; State_Monad.return (rc, None) }
        | Inr deny_plan \<Rightarrow>
            if broker_active A then start_broker v ir label argv fds net_ruleset_fd notify_plan deny_plan
            else run_program v ir label argv fds net_ruleset_fd notify_plan deny_plan (-1) (-1))) } } } })"

definition run_policy_ir_loaded :: "env \<Rightarrow> ir option \<Rightarrow> string option \<Rightarrow> string list \<Rightarrow> int io" where
  "run_policy_ir_loaded v ir label argv = (if ir = None \<or> argv = [] then do { set_errno EINVAL; State_Monad.return 1 }
     else do { r \<leftarrow> run_policy_ir v (the ir) label argv; State_Monad.return (fst r) })"

text \<open>\<open>c_path\<close> and \<open>rust_path\<close> are the helper names configured at build time.\<close>

definition run_policy_file_wait_status ::
    "env \<Rightarrow> string \<Rightarrow> string \<Rightarrow> string option \<Rightarrow> string list \<Rightarrow> (int \<times> wait_status option) io" where
  "run_policy_file_wait_status v c_path rust_path policy_file argv =
     (if policy_file = None \<or> argv = [] then do { set_errno EINVAL; State_Monad.return (1, None) }
      else do {
        l \<leftarrow> policy_load_file (e_fuel v) (e_kernel v) c_path rust_path policy_file ir_init;
        if fst l < 0 then State_Monad.return (1, None)
        else run_policy_ir v (snd l) policy_file argv })"

definition run_policy_file :: "env \<Rightarrow> string \<Rightarrow> string \<Rightarrow> string option \<Rightarrow> string list \<Rightarrow> int io" where
  "run_policy_file v c_path rust_path policy_file argv = do {
     r \<leftarrow> run_policy_file_wait_status v c_path rust_path policy_file argv;
     State_Monad.return (fst r) }"

end
