(* ===== verification/Broker_Spec.thy ===== *)
theory Broker_Spec
  imports Broker
begin

text \<open>
  What the broker promises. \<open>permitted\<close> says which calls it may make while it serves a request, on
  the allowlist, the leases and the calls it has made for that request so far; \<open>answered\<close> that the
  request has been replied to; \<open>leases_ok\<close> is the invariant of the lease tables. The locale
  \<open>mediation\<close> states what such a condition must grant for the broker to look at the process and to
  write its audit log. Nothing is assumed of the kernel.
\<close>

lemma calls_opt_bind [io_calls]:
  "calls E f (\<lambda>x. case x of None \<Rightarrow> R None | Some a \<Rightarrow> calls E (h a) R) \<Longrightarrow> calls E (opt_bind_io f h) R"
  unfolding opt_bind_io_def by (rule calls_bind, erule calls_mono) (auto intro: io_calls split: option.splits)

text \<open>A name that stays in its directory.\<close>

definition plain_name :: "string \<Rightarrow> bool" where
  "plain_name base \<longleftrightarrow> base \<noteq> [] \<and> base \<noteq> ''.'' \<and> base \<noteq> ''..'' \<and> CHR ''/'' \<notin> set base \<and> length base \<le> NAME_MAX"

lemma split_plain: "split_parent_basename p = Inr (parent, base) \<Longrightarrow> plain_name base"
  unfolding split_parent_basename_def plain_name_def Let_def
  by (auto split: if_splits dest: set_takeWhileD)

subsection \<open>Auditing and inspecting the supervised process\<close>

lemma put_fields_None: "put_fields None fs fa = State_Monad.return fa"
proof (induction fs arbitrary: fa)
  case (Cons f fs)
  then show ?case by (cases f) (simp_all add: audit_field_string_def audit_field_int_def audit_field_uint_def)
qed simp

text \<open>What a condition on calls must grant for a process to write its audit log.\<close>

locale audited =
  fixes E :: "history \<Rightarrow> sysevent \<Rightarrow> bool" and diag :: "int option"
  assumes audit_granted: "E g Timestamp" "E g (Getenv k)" "diag = Some fd \<Longrightarrow> E g (Write fd s)"
begin

text \<open>Appending keeps the descriptor of the record.\<close>

lemma calls_append_text: "calls E (append_text s a) (\<lambda>a'. au_diag a' = au_diag a)"
  unfolding append_text_def audit_append_def Let_def
  by (intro io_calls) (auto simp: ensures_def intro!: io_calls)

lemma calls_emit_chars: "calls E (emit_chars s a) (\<lambda>a'. au_diag a' = au_diag a)"
proof (induction s arbitrary: a)
  case (Cons c s)
  show ?case unfolding emit_chars.simps
    by (rule calls_bind, rule calls_mono[OF calls_append_text], rule calls_mono[OF Cons]) simp
qed (simp add: io_calls)

lemma calls_escaped: "calls E (audit_emit_escaped x a) (\<lambda>a'. au_diag a' = au_diag a)"
  unfolding audit_emit_escaped_def
  by (auto intro!: calls_option calls_bind calls_append_text calls_mono[OF calls_append_text]
      calls_mono[OF calls_emit_chars])

lemma calls_put_field: "calls E (put_field d f fa) (\<lambda>fa'. au_diag (snd fa') = au_diag (snd fa))"
  by (cases f) (auto simp: audit_field_string_def audit_field_int_def audit_field_uint_def audit_field_prefix_def
      intro!: calls_if calls_bind calls_return calls_mono[OF calls_escaped] calls_mono[OF calls_append_text]
        calls_append_text)

lemma calls_put_fields: "calls E (put_fields d fs fa) (\<lambda>fa'. au_diag (snd fa') = au_diag (snd fa))"
proof (induction fs arbitrary: fa)
  case (Cons f fs)
  show ?case unfolding put_fields.simps
    by (rule calls_bind, rule calls_mono[OF calls_put_field], rule calls_mono[OF Cons]) simp
qed (simp add: io_calls)

lemma calls_write: "diag = Some fd \<Longrightarrow> calls E (audit_write N K fd s) (\<lambda>_. True)"
proof (induction N arbitrary: s)
  case (Suc N)
  show ?case
    unfolding audit_write.simps
    by (intro io_calls audit_granted Suc TrueI)
qed (simp add: io_calls)

lemma calls_begin: "diag \<noteq> None \<Longrightarrow> calls E (audit_begin K diag ev fa) (\<lambda>fa'. au_diag (snd fa') = diag)"
proof -
  assume "diag \<noteq> None"
  note field = calls_put_field[of _ "FStr _ _", unfolded put_field.simps]
  show ?thesis
    unfolding audit_begin_def
    by (rule calls_if, simp add: \<open>diag \<noteq> None\<close>)
      (intro calls_bind calls_sysd calls_if calls_return audit_granted
        calls_mono[OF calls_append_text] calls_mono[OF field], auto)
qed

lemma calls_end: "diag \<noteq> None \<Longrightarrow> au_diag a = diag \<Longrightarrow> calls E (audit_end N K diag a) (\<lambda>_. True)"
  unfolding audit_end_def
  by (intro calls_if calls_return TrueI calls_bind calls_mono[OF calls_append_text] calls_option
      calls_mono[OF calls_write]) auto

lemma calls_audit: "calls E (audit_event N K diag ev fs) (\<lambda>_. True)"
proof (cases "diag = None")
  case True
  then show ?thesis by (simp add: put_fields_None audit_event_def audit_begin_def audit_end_def io_calls)
next
  case False
  then show ?thesis
    unfolding audit_event_def
    by (intro calls_bind calls_mono[OF calls_begin[OF False]] calls_mono[OF calls_put_fields] calls_return TrueI)
      (metis (no_types, lifting) calls_end calls_mono calls_return)
qed

end

text \<open>And for the broker to look at the process \<open>pid\<close>.\<close>

locale mediation = audited E diag for E diag +
  fixes pid :: int
  assumes inspect_granted: "E g (ProcessVmReadv pid addr n)" "E g (Realpath p)" "E g (Readlink p n)"
begin

lemma calls_read_memory: "calls E (read_tracee_memory v pid addr n) (\<lambda>_. True)"
  unfolding read_tracee_memory_def by (intro io_calls inspect_granted TrueI)

lemma calls_read_chunks: "calls E (read_chunks m v pid addr n buf) (\<lambda>r. fst r \<ge> 0 \<longrightarrow> is_cstr (snd r))"
proof (induction m arbitrary: buf)
  case (Suc m)
  show ?case
    unfolding read_chunks.simps by (intro io_calls calls_mono[OF calls_read_memory] Suc) simp_all
next
  case 0
  show ?case unfolding read_chunks.simps by (intro io_calls) simp
qed

lemma calls_read_string: "calls E (read_tracee_string v pid addr n) (\<lambda>r. fst r \<ge> 0 \<longrightarrow> is_cstr (snd r))"
  unfolding read_tracee_string_def by (intro io_calls calls_read_chunks) simp

lemma calls_realpath: "calls E (realpath K p) (\<lambda>x. \<forall>q. x = Some q \<longrightarrow> is_cstr q)"
  unfolding realpath_def by (intro io_calls inspect_granted) auto

lemma calls_too_long: "calls E too_long (\<lambda>x. \<forall>q. x \<noteq> Some q)"
  unfolding too_long_def by (intro io_calls) simp

lemma calls_proc_link: "calls E (read_proc_link v p) (\<lambda>_. True)"
  unfolding read_proc_link_def by (intro io_calls inspect_granted TrueI)

lemma calls_opt: "calls E f (\<lambda>_. True) \<Longrightarrow> (\<And>a. calls E (h a) R) \<Longrightarrow> R None \<Longrightarrow> calls E (opt_bind_io f h) R"
  by (rule calls_opt_bind, erule calls_mono) (simp split: option.splits)

lemma calls_resolve: "calls E (resolve_tracee_path v pid dirfd p) (\<lambda>x. \<forall>q. x = Some q \<longrightarrow> is_cstr q)"
  unfolding resolve_tracee_path_def
  by (intro calls_if calls_realpath calls_mono[OF calls_too_long] calls_opt calls_proc_link) auto

lemma calls_build: "calls E (build_tracee_path v pid dirfd p) (\<lambda>_. True)"
  unfolding build_tracee_path_def
  by (intro calls_if calls_mono[OF calls_too_long] calls_opt calls_proc_link calls_return TrueI)

lemma calls_parent:
  "calls E (resolve_tracee_parent v pid dirfd p) (\<lambda>x. \<forall>parent base. x = Some (parent, base) \<longrightarrow> plain_name base)"
proof -
  let ?P = "\<lambda>x :: (string \<times> string) option. \<forall>parent base. x = Some (parent, base) \<longrightarrow> plain_name base"
  have split: "calls E (run_am (liftM (split_parent_basename joined))) ?P" for joined
    by (rule calls_run_am[OF ensures_lift]) (auto dest: split_plain)
  have long: "calls E too_long ?P" by (rule calls_mono[OF calls_too_long]) simp
  have rest: "calls E (opt_bind_io (realpath (e_kernel v) parent) (\<lambda>c. if length c \<ge> PATH_MAX then too_long
      else State_Monad.return (Some (c, base)))) ?P" if "plain_name base" for parent base
    by (intro calls_opt calls_mono[OF calls_realpath] calls_if long calls_return TrueI) (use that in auto)
  show ?thesis
    unfolding resolve_tracee_parent_def
    by (rule calls_opt[OF calls_build], rule calls_opt_bind, rule calls_mono[OF split])
      (auto split: option.splits intro: rest)
qed

end

subsection \<open>What the broker may do for a request\<close>

definition joined :: "string \<Rightarrow> string \<Rightarrow> string" where
  "joined parent base = (if parent = ''/'' then ''/'' @ base else parent @ ''/'' @ base)"

text \<open>Descriptors obtained while the request is served: a directory \<open>p\<close> with \<open>P p\<close>, a file that can be
  handed over, a copy of the descriptor \<open>rfd\<close> of the process \<open>pid\<close>, a detached copy of a mount.\<close>

definition dir_opened :: "history \<Rightarrow> int \<Rightarrow> (string \<Rightarrow> bool) \<Rightarrow> bool" where
  "dir_opened g fd P = list_ex (\<lambda>(e, r). case r of Fail er \<Rightarrow> False | Done n d \<Rightarrow> int n = fd \<and>
     (case e of Open p f \<Rightarrow> f = O_PATH_DIRECTORY_CLOEXEC \<and> P p | _ \<Rightarrow> False)) g"

definition file_opened :: "history \<Rightarrow> int \<Rightarrow> bool" where
  "file_opened g fd = list_ex (\<lambda>(e, r). case r of Fail er \<Rightarrow> False | Done n d \<Rightarrow> int n = fd \<and>
     (case e of Open p f \<Rightarrow> f \<noteq> O_PATH_DIRECTORY_CLOEXEC | Openat dfd p f m \<Rightarrow> True | RecvFd s \<Rightarrow> True | _ \<Rightarrow> False)) g"

definition proc_fd_path :: "int \<Rightarrow> int \<Rightarrow> string" where
  "proc_fd_path pid rfd = ''/proc/'' @ dec pid @ ''/fd/'' @ dec rfd"

definition fd_copied :: "history \<Rightarrow> int \<Rightarrow> int \<Rightarrow> int \<Rightarrow> bool" where
  "fd_copied g fd pid rfd = list_ex (\<lambda>(e, r). case r of Fail er \<Rightarrow> False | Done n d \<Rightarrow> int n = fd \<and>
     (case e of PidfdGetfd pfd x \<Rightarrow> x = rfd | Open p f \<Rightarrow> p = proc_fd_path pid rfd | _ \<Rightarrow> False)) g"

definition tree_cloned :: "history \<Rightarrow> int \<Rightarrow> (string \<Rightarrow> bool) \<Rightarrow> bool" where
  "tree_cloned g fd P = list_ex (\<lambda>(e, r). case r of Fail er \<Rightarrow> False | Done n d \<Rightarrow> int n = fd \<and>
     (case e of InChild c \<Rightarrow> (case c of OpenTree dfd p f \<Rightarrow> P p | _ \<Rightarrow> False) | _ \<Rightarrow> False)) g"

text \<open>Descriptors put into the supervised process.\<close>

definition installed :: "history \<Rightarrow> int \<Rightarrow> bool" where
  "installed g fd = list_ex (\<lambda>(e, r). case r of Fail er \<Rightarrow> False | Done n d \<Rightarrow> int n = fd \<and>
     (case e of NotifAddfd l i fl src nf \<Rightarrow> True | _ \<Rightarrow> False)) g"

definition is_open :: "notif \<Rightarrow> bool" where
  "is_open req \<longleftrightarrow> q_nr req = 257 \<or> q_nr req = 437"

text \<open>Opening a path the policy lists, with the flags \<open>f\<close>: nothing is created.\<close>

definition exception_open :: "allowlist \<Rightarrow> string \<Rightarrow> u32 \<Rightarrow> bool" where
  "exception_open A p f \<longleftrightarrow> (let access_mode = sint (f AND 3) in
     f AND NOT (3 OR 0x80000 OR 0x20000 OR 0x400 OR 0x200) = 0 \<and> broker_is_allowed A p access_mode \<and>
     addfd_allowed A ''open'' p (Some (addfd_mode_name access_mode)) \<and> (access_mode = 0 \<longrightarrow> f AND 0x600 = 0))"

definition scratch_dir :: "allowlist \<Rightarrow> string \<Rightarrow> bool" where
  "scratch_dir A p = path_under_list (scratch_paths A) p"

definition export_dir :: "allowlist \<Rightarrow> string \<Rightarrow> bool" where
  "export_dir A p = path_under_list (export_paths A) p"

definition bind_listed :: "allowlist \<Rightarrow> string \<Rightarrow> string \<Rightarrow> bool" where
  "bind_listed A source tgt = list_ex (\<lambda>r. b_source r = source \<and> b_target r = tgt) (mount_bind_rules A)"

definition bind_source_listed :: "allowlist \<Rightarrow> string \<Rightarrow> bool" where
  "bind_source_listed A source = list_ex (\<lambda>r. b_source r = source) (mount_bind_rules A)"

definition lease_target :: "allowlist \<Rightarrow> mount_fd_lease \<Rightarrow> string \<Rightarrow> bool" where
  "lease_target A l tgt \<longleftrightarrow> (ml_kind l = LEASE_SOURCE \<and> bind_listed A (ml_value l) tgt) \<or>
     (ml_kind l = LEASE_OBJECT \<and>
      mount_object_target_allowed (find_mount_object_rule (mount_object_rules A) (ml_value l)) tgt)"

text \<open>A mount object for which the process holds a configured \<open>fsopen\<close> descriptor \<open>fd\<close>.\<close>

definition object_leased :: "allowlist \<Rightarrow> bstate \<Rightarrow> int \<Rightarrow> (object_rule \<Rightarrow> bool) \<Rightarrow> bool" where
  "object_leased A st fd P = list_ex (\<lambda>l. fl_fd l = fd \<and> fl_created l \<and>
     (case find_mount_object_rule (mount_object_rules A) (fl_name l) of None \<Rightarrow> False
      | Some r \<Rightarrow> P r \<and> mount_object_addfd_covers_action A ''fsmount'' r)) (fsopen_leases st)"

definition tmpfs_flags :: "u64 \<Rightarrow> bool" where
  "tmpfs_flags f \<longleftrightarrow> f AND MS_NODEV \<noteq> 0 \<and> f AND MS_NOSUID \<noteq> 0 \<and>
     f AND NOT (MS_RDONLY OR MS_NOEXEC OR MS_NODEV OR MS_NOSUID) = 0"

definition read_only_remount :: u64 where
  "read_only_remount = MS_BIND OR MS_REMOUNT OR MS_RDONLY"

definition read_only_attr :: mount_attr where
  "read_only_attr = \<lparr>attr_set = 1, attr_clr = 0, propagation = 0, userns_fd = 0\<rparr>"

text \<open>Calls of a helper process; \<open>g\<close> is the history of the broker, with the helper's calls wrapped.\<close>

definition child_permitted ::
    "notif \<Rightarrow> allowlist \<Rightarrow> ir \<Rightarrow> int list \<Rightarrow> bstate \<Rightarrow> history \<Rightarrow> sysevent \<Rightarrow> bool" where
  "child_permitted req A ir fds st g e = (case e of
     Open p f \<Rightarrow> (f = O_PATH_CLOEXEC \<or> (f = ucast O_CLOEXEC \<and>
     (p = ''/proc/'' @ dec (q_pid req) @ ''/ns/user'' \<or> p = ''/proc/'' @ dec (q_pid req) @ ''/ns/mnt'')))
   | Close fd \<Rightarrow> True
   | Setns fd kind \<Rightarrow> True
   | Stat p \<Rightarrow> True
   | SendFd s fd \<Rightarrow> True
   | LandlockAddRule fd kind r fl \<Rightarrow> (\<exists>x \<in> set (layered_rules ir fds).
     fst x = fd \<and> (\<exists>pfd. r = PathBeneath (r_allowed (snd x)) pfd))
   | Mount source tgt ty f data \<Rightarrow> (q_nr req = 165 \<and>
     source = Some ''tmpfs'' \<and> ty = Some ''tmpfs'' \<and> data = Some ''mode=700'' \<and> tmpfs_flags f \<and>
       path_in_list (mount_tmpfs_paths A) tgt \<or>
     q_nr req = 165 \<and> ty = None \<and> data = None \<and> f = MS_BIND \<and>
       (\<exists>s. source = Some s \<and> bind_listed A s tgt) \<or>
     source = None \<and> ty = None \<and> data = None \<and> f = read_only_remount \<and>
       bind_target_in_list (mount_bind_rules A) tgt)
   | Umount2 tgt f \<Rightarrow> (q_nr req = 166 \<and> (f = 0 \<or> f = 2) \<and>
     (path_in_list (mount_tmpfs_paths A) tgt \<or> bind_target_in_list (mount_bind_rules A) tgt))
   | OpenTree dfd p f \<Rightarrow> (dfd = AT_FDCWD \<and> bind_source_listed A p \<and>
     f AND OPEN_TREE_CLONE \<noteq> 0)
   | MoveMount fd p dfd tgt f \<Rightarrow> (q_nr req = 429 \<and> p = [] \<and> dfd = AT_FDCWD \<and>
     f = MOVE_MOUNT_F_EMPTY_PATH \<and>
     (tree_cloned g fd (\<lambda>source. bind_listed A source tgt) \<or>
      fd_copied g fd (q_pid req) (as_int (arg req 0)) \<and>
        list_ex (\<lambda>l. ml_fd l = as_int (arg req 0) \<and> lease_target A l tgt) (mount_leases st)))
   | MountSetattr dfd tgt f attr \<Rightarrow> (dfd = AT_FDCWD \<and> f = 0 \<and>
     (q_nr req = 429 \<and> attr = read_only_attr \<and> bind_target_in_list (mount_bind_rules A) tgt \<or>
      q_nr req = 442 \<and> attr_clr attr = 0 \<and> propagation attr = 0 \<and> userns_fd attr = 0 \<and>
        list_ex (\<lambda>r. tgt \<in> set (o_attach r) \<and> attr_set attr AND NOT (o_attrs r) = 0) (mount_object_rules A)))
   | Fsopen ty f \<Rightarrow> (q_nr req = 432 \<and>
     object_leased A st (as_int (arg req 0)) (\<lambda>r. o_fs_type r = ty))
   | Fsconfig fd cmd \<Rightarrow> (q_nr req = 432 \<and> cmd = FSCONFIG_CMD_CREATE)
   | Fsmount fd f attrs \<Rightarrow> (q_nr req = 432 \<and> f AND NOT 1 = 0 \<and>
     object_leased A st (as_int (arg req 0)) (\<lambda>r. attrs AND NOT (ucast (o_attrs r)) = 0))
   | _ \<Rightarrow> False)"

lemma child_permitted_simps [simp]:
  "\<And>p f. child_permitted req A ir fds st g (Open p f) = (f = O_PATH_CLOEXEC \<or> (f = ucast O_CLOEXEC \<and>
     (p = ''/proc/'' @ dec (q_pid req) @ ''/ns/user'' \<or> p = ''/proc/'' @ dec (q_pid req) @ ''/ns/mnt'')))"
  "\<And>fd. child_permitted req A ir fds st g (Close fd) = True"
  "\<And>fd kind. child_permitted req A ir fds st g (Setns fd kind) = True"
  "\<And>p. child_permitted req A ir fds st g (Stat p) = True"
  "\<And>s fd. child_permitted req A ir fds st g (SendFd s fd) = True"
  "\<And>fd kind r fl. child_permitted req A ir fds st g (LandlockAddRule fd kind r fl) = (\<exists>x \<in> set (layered_rules ir fds).
     fst x = fd \<and> (\<exists>pfd. r = PathBeneath (r_allowed (snd x)) pfd))"
  "\<And>source tgt ty f data. child_permitted req A ir fds st g (Mount source tgt ty f data) = (q_nr req = 165 \<and>
     source = Some ''tmpfs'' \<and> ty = Some ''tmpfs'' \<and> data = Some ''mode=700'' \<and> tmpfs_flags f \<and>
       path_in_list (mount_tmpfs_paths A) tgt \<or>
     q_nr req = 165 \<and> ty = None \<and> data = None \<and> f = MS_BIND \<and>
       (\<exists>s. source = Some s \<and> bind_listed A s tgt) \<or>
     source = None \<and> ty = None \<and> data = None \<and> f = read_only_remount \<and>
       bind_target_in_list (mount_bind_rules A) tgt)"
  "\<And>tgt f. child_permitted req A ir fds st g (Umount2 tgt f) = (q_nr req = 166 \<and> (f = 0 \<or> f = 2) \<and>
     (path_in_list (mount_tmpfs_paths A) tgt \<or> bind_target_in_list (mount_bind_rules A) tgt))"
  "\<And>dfd p f. child_permitted req A ir fds st g (OpenTree dfd p f) = (dfd = AT_FDCWD \<and> bind_source_listed A p \<and>
     f AND OPEN_TREE_CLONE \<noteq> 0)"
  "\<And>fd p dfd tgt f. child_permitted req A ir fds st g (MoveMount fd p dfd tgt f) = (q_nr req = 429 \<and> p = [] \<and> dfd = AT_FDCWD \<and>
     f = MOVE_MOUNT_F_EMPTY_PATH \<and>
     (tree_cloned g fd (\<lambda>source. bind_listed A source tgt) \<or>
      fd_copied g fd (q_pid req) (as_int (arg req 0)) \<and>
        list_ex (\<lambda>l. ml_fd l = as_int (arg req 0) \<and> lease_target A l tgt) (mount_leases st)))"
  "\<And>dfd tgt f attr. child_permitted req A ir fds st g (MountSetattr dfd tgt f attr) = (dfd = AT_FDCWD \<and> f = 0 \<and>
     (q_nr req = 429 \<and> attr = read_only_attr \<and> bind_target_in_list (mount_bind_rules A) tgt \<or>
      q_nr req = 442 \<and> attr_clr attr = 0 \<and> propagation attr = 0 \<and> userns_fd attr = 0 \<and>
        list_ex (\<lambda>r. tgt \<in> set (o_attach r) \<and> attr_set attr AND NOT (o_attrs r) = 0) (mount_object_rules A)))"
  "\<And>ty f. child_permitted req A ir fds st g (Fsopen ty f) = (q_nr req = 432 \<and>
     object_leased A st (as_int (arg req 0)) (\<lambda>r. o_fs_type r = ty))"
  "\<And>fd cmd. child_permitted req A ir fds st g (Fsconfig fd cmd) = (q_nr req = 432 \<and> cmd = FSCONFIG_CMD_CREATE)"
  "\<And>fd f attrs. child_permitted req A ir fds st g (Fsmount fd f attrs) = (q_nr req = 432 \<and> f AND NOT 1 = 0 \<and>
     object_leased A st (as_int (arg req 0)) (\<lambda>r. attrs AND NOT (ucast (o_attrs r)) = 0))"
  by (simp_all add: child_permitted_def)

definition permitted ::
    "env \<Rightarrow> notif \<Rightarrow> allowlist \<Rightarrow> ir \<Rightarrow> int list \<Rightarrow> bstate \<Rightarrow> history \<Rightarrow> sysevent \<Rightarrow> bool" where
  "permitted v req A ir fds st g e = (case e of
     Open p f \<Rightarrow> (
     f = O_PATH_DIRECTORY_CLOEXEC \<and> (scratch_dir A p \<or> export_dir A p) \<or>
     is_open req \<and> exception_open A p f \<or>
     q_nr req = 430 \<and> p = ''/dev/null'' \<and> (f = 0 \<or> f = ucast O_CLOEXEC) \<or>
     q_nr req = 429 \<and> p = proc_fd_path (q_pid req) (as_int (arg req 0)) \<and> f = ucast O_CLOEXEC)
   | Openat fd base f m \<Rightarrow> (is_open req \<and> plain_name base \<and> f AND 0x20000 \<noteq> 0 \<and>
     dir_opened g fd (\<lambda>p. scratch_dir A p \<and>
       addfd_allowed A ''scratch_open'' (joined p base) (Some (addfd_mode_name (sint (f AND 3))))))
   | Mkdirat fd base m \<Rightarrow> (q_nr req = 258 \<and> plain_name base \<and>
     dir_opened g fd (scratch_dir A))
   | Unlinkat fd base f \<Rightarrow> (q_nr req = 263 \<and> plain_name base \<and>
     dir_opened g fd (scratch_dir A) \<and> (f = 0 \<or> f = AT_REMOVEDIR))
   | Symlinkat tgt fd base \<Rightarrow> (q_nr req = 266 \<and> plain_name base \<and>
     dir_opened g fd (scratch_dir A))
   | Renameat2 fd base fd' base' f \<Rightarrow> (q_nr req = 316 \<and> plain_name base \<and>
     plain_name base' \<and> dir_opened g fd (scratch_dir A) \<and>
     dir_opened g fd' (\<lambda>p. scratch_dir A p \<or> export_dir A p) \<and> (f = 0 \<or> f = 1))
   | Linkat fd base fd' base' f \<Rightarrow> (q_nr req = 265 \<and> plain_name base \<and>
     plain_name base' \<and> dir_opened g fd (scratch_dir A) \<and>
     dir_opened g fd' (\<lambda>p. scratch_dir A p \<or> export_dir A p) \<and> f = 0)
   | Close fd \<Rightarrow> True
   | Realpath p \<Rightarrow> True
   | Readlink p n \<Rightarrow> True
   | ProcessVmReadv pid a n \<Rightarrow> (pid = q_pid req)
   | Timestamp \<Rightarrow> True
   | Getenv k \<Rightarrow> True
   | Write fd s \<Rightarrow> (e_diag v = Some fd)
   | NotifSend l i x e \<Rightarrow> (l = e_listener v \<and> i = q_id req \<and> (x = 0 \<or> installed g x))
   | NotifAddfd l i fl src nf \<Rightarrow> (l = e_listener v \<and> i = q_id req \<and> file_opened g src)
   | PidfdOpen pid \<Rightarrow> (q_nr req = 429 \<and> pid = q_pid req)
   | PidfdGetfd pfd fd \<Rightarrow> (q_nr req = 429 \<and> fd = as_int (arg req 0))
   | Fork \<Rightarrow> True
   | Waitpid pid \<Rightarrow> True
   | Socketpair \<Rightarrow> True
   | RecvFd s \<Rightarrow> True
   | InChild e \<Rightarrow> child_permitted req A ir fds st g e
   | _ \<Rightarrow> False)"

lemma permitted_simps [simp]:
  "\<And>p f. permitted v req A ir fds st g (Open p f) = (
     f = O_PATH_DIRECTORY_CLOEXEC \<and> (scratch_dir A p \<or> export_dir A p) \<or>
     is_open req \<and> exception_open A p f \<or>
     q_nr req = 430 \<and> p = ''/dev/null'' \<and> (f = 0 \<or> f = ucast O_CLOEXEC) \<or>
     q_nr req = 429 \<and> p = proc_fd_path (q_pid req) (as_int (arg req 0)) \<and> f = ucast O_CLOEXEC)"
  "\<And>fd base f m. permitted v req A ir fds st g (Openat fd base f m) = (is_open req \<and> plain_name base \<and> f AND 0x20000 \<noteq> 0 \<and>
     dir_opened g fd (\<lambda>p. scratch_dir A p \<and>
       addfd_allowed A ''scratch_open'' (joined p base) (Some (addfd_mode_name (sint (f AND 3))))))"
  "\<And>fd base m. permitted v req A ir fds st g (Mkdirat fd base m) = (q_nr req = 258 \<and> plain_name base \<and>
     dir_opened g fd (scratch_dir A))"
  "\<And>fd base f. permitted v req A ir fds st g (Unlinkat fd base f) = (q_nr req = 263 \<and> plain_name base \<and>
     dir_opened g fd (scratch_dir A) \<and> (f = 0 \<or> f = AT_REMOVEDIR))"
  "\<And>tgt fd base. permitted v req A ir fds st g (Symlinkat tgt fd base) = (q_nr req = 266 \<and> plain_name base \<and>
     dir_opened g fd (scratch_dir A))"
  "\<And>fd base fd' base' f. permitted v req A ir fds st g (Renameat2 fd base fd' base' f) = (q_nr req = 316 \<and> plain_name base \<and>
     plain_name base' \<and> dir_opened g fd (scratch_dir A) \<and>
     dir_opened g fd' (\<lambda>p. scratch_dir A p \<or> export_dir A p) \<and> (f = 0 \<or> f = 1))"
  "\<And>fd base fd' base' f. permitted v req A ir fds st g (Linkat fd base fd' base' f) = (q_nr req = 265 \<and> plain_name base \<and>
     plain_name base' \<and> dir_opened g fd (scratch_dir A) \<and>
     dir_opened g fd' (\<lambda>p. scratch_dir A p \<or> export_dir A p) \<and> f = 0)"
  "\<And>fd. permitted v req A ir fds st g (Close fd) = True"
  "\<And>p. permitted v req A ir fds st g (Realpath p) = True"
  "\<And>p n. permitted v req A ir fds st g (Readlink p n) = True"
  "\<And>pid a n. permitted v req A ir fds st g (ProcessVmReadv pid a n) = (pid = q_pid req)"
  "permitted v req A ir fds st g Timestamp = True"
  "\<And>k. permitted v req A ir fds st g (Getenv k) = True"
  "\<And>fd s. permitted v req A ir fds st g (Write fd s) = (e_diag v = Some fd)"
  "\<And>l i x e. permitted v req A ir fds st g (NotifSend l i x e) = (l = e_listener v \<and> i = q_id req \<and> (x = 0 \<or> installed g x))"
  "\<And>l i fl src nf. permitted v req A ir fds st g (NotifAddfd l i fl src nf) = (l = e_listener v \<and> i = q_id req \<and> file_opened g src)"
  "\<And>pid. permitted v req A ir fds st g (PidfdOpen pid) = (q_nr req = 429 \<and> pid = q_pid req)"
  "\<And>pfd fd. permitted v req A ir fds st g (PidfdGetfd pfd fd) = (q_nr req = 429 \<and> fd = as_int (arg req 0))"
  "permitted v req A ir fds st g Fork = True"
  "\<And>pid. permitted v req A ir fds st g (Waitpid pid) = True"
  "permitted v req A ir fds st g Socketpair = True"
  "\<And>s. permitted v req A ir fds st g (RecvFd s) = True"
  "\<And>e. permitted v req A ir fds st g (InChild e) = child_permitted req A ir fds st g e"
  by (simp_all add: permitted_def)

text \<open>A reply has been sent, or the kernel said that the request is gone.\<close>

definition answered :: "notif \<Rightarrow> history \<Rightarrow> bool" where
  "answered req g = list_ex (\<lambda>(e, r). case e of NotifSend l i x er \<Rightarrow> i = q_id req
     | NotifAddfd l i fl src nf \<Rightarrow> i = q_id req \<and>
         (case r of Done n d \<Rightarrow> fl = SECCOMP_ADDFD_FLAG_SEND | Fail er \<Rightarrow> er = ENOENT \<or> er = ESRCH)
     | _ \<Rightarrow> False) g"

text \<open>Every lease is for a descriptor that was put into the process and names an object of the policy.\<close>

definition leases_ok :: "allowlist \<Rightarrow> history \<Rightarrow> bstate \<Rightarrow> bool" where
  "leases_ok A h st \<longleftrightarrow>
     list_all (\<lambda>l. installed h (ml_fd l) \<and> (ml_kind l = LEASE_SOURCE \<and> bind_source_listed A (ml_value l) \<or>
       ml_kind l = LEASE_OBJECT \<and> find_mount_object_rule (mount_object_rules A) (ml_value l) \<noteq> None)) (mount_leases st) \<and>
     list_all (\<lambda>l. installed h (fl_fd l) \<and> is_cstr (fl_name l) \<and>
       find_mount_object_rule (mount_object_rules A) (fl_name l) \<noteq> None) (fsopen_leases st)"

interpretation broker: mediation "permitted v req A ir fds st" "e_diag v" "q_pid req" for v req A ir fds st
  by unfold_locales simp_all

end
