(* ===== verification/Broker_Safety.thy ===== *)
theory Broker_Safety
  imports Broker_Spec
begin

text \<open>
  Complete mediation by the broker: every handler, and so the broker's loop, makes only calls that
  \<open>permitted\<close> grants, answers the request and keeps the lease tables valid, whatever the kernel and
  the supervised process do.
\<close>

subsection \<open>Histories that grow\<close>

lemma opened_simps [simp]:
  "dir_opened (g @ h) fd P \<longleftrightarrow> dir_opened g fd P \<or> dir_opened h fd P"
  "file_opened (g @ h) fd \<longleftrightarrow> file_opened g fd \<or> file_opened h fd"
  "fd_copied (g @ h) fd pid rfd \<longleftrightarrow> fd_copied g fd pid rfd \<or> fd_copied h fd pid rfd"
  "tree_cloned (g @ h) fd Q \<longleftrightarrow> tree_cloned g fd Q \<or> tree_cloned h fd Q"
  "installed (g @ h) fd \<longleftrightarrow> installed g fd \<or> installed h fd"
  "answered req (g @ h) \<longleftrightarrow> answered req g \<or> answered req h"
  by (simp_all add: dir_opened_def file_opened_def fd_copied_def tree_cloned_def installed_def answered_def)

lemma opened_Nil [simp]:
  "\<not> dir_opened [] fd P" "\<not> file_opened [] fd" "\<not> fd_copied [] fd pid rfd" "\<not> tree_cloned [] fd Q"
  "\<not> installed [] fd" "\<not> answered req []"
  by (simp_all add: dir_opened_def file_opened_def fd_copied_def tree_cloned_def installed_def answered_def)

lemma opened_Cons [simp]:
  "dir_opened ((e, r) # g) fd P \<longleftrightarrow> (case r of Fail er \<Rightarrow> False | Done n d \<Rightarrow> int n = fd \<and>
     (case e of Open p f \<Rightarrow> f = O_PATH_DIRECTORY_CLOEXEC \<and> P p | _ \<Rightarrow> False)) \<or> dir_opened g fd P"
  "file_opened ((e, r) # g) fd \<longleftrightarrow> (case r of Fail er \<Rightarrow> False | Done n d \<Rightarrow> int n = fd \<and>
     (case e of Open p f \<Rightarrow> f \<noteq> O_PATH_DIRECTORY_CLOEXEC | Openat dfd p f m \<Rightarrow> True | RecvFd s \<Rightarrow> True | _ \<Rightarrow> False)) \<or>
     file_opened g fd"
  "fd_copied ((e, r) # g) fd pid rfd \<longleftrightarrow> (case r of Fail er \<Rightarrow> False | Done n d \<Rightarrow> int n = fd \<and>
     (case e of PidfdGetfd pfd x \<Rightarrow> x = rfd | Open p f \<Rightarrow> p = proc_fd_path pid rfd | _ \<Rightarrow> False)) \<or>
     fd_copied g fd pid rfd"
  "tree_cloned ((e, r) # g) fd Q \<longleftrightarrow> (case r of Fail er \<Rightarrow> False | Done n d \<Rightarrow> int n = fd \<and>
     (case e of InChild c \<Rightarrow> (case c of OpenTree dfd p f \<Rightarrow> Q p | _ \<Rightarrow> False) | _ \<Rightarrow> False)) \<or> tree_cloned g fd Q"
  "installed ((e, r) # g) fd \<longleftrightarrow> (case r of Fail er \<Rightarrow> False | Done n d \<Rightarrow> int n = fd \<and>
     (case e of NotifAddfd l i fl src nf \<Rightarrow> True | _ \<Rightarrow> False)) \<or> installed g fd"
  "answered req ((e, r) # g) \<longleftrightarrow> (case e of NotifSend l i x er \<Rightarrow> i = q_id req
     | NotifAddfd l i fl src nf \<Rightarrow> i = q_id req \<and>
         (case r of Done n d \<Rightarrow> fl = SECCOMP_ADDFD_FLAG_SEND | Fail er \<Rightarrow> er = ENOENT \<or> er = ESRCH)
     | _ \<Rightarrow> False) \<or> answered req g"
  by (simp_all add: dir_opened_def file_opened_def fd_copied_def tree_cloned_def installed_def answered_def)

lemma file_opened_mono: "file_opened g fd \<Longrightarrow> set g \<subseteq> set h \<Longrightarrow> file_opened h fd"
  by (auto simp: file_opened_def list_ex_iff)

lemma answered_mono: "answered req g \<Longrightarrow> set g \<subseteq> set h \<Longrightarrow> answered req h"
  by (auto simp: answered_def list_ex_iff)

lemma installed_mono: "installed g fd \<Longrightarrow> set g \<subseteq> set h \<Longrightarrow> installed h fd"
  by (auto simp: installed_def list_ex_iff)

lemma leases_ok_mono: "leases_ok A h st \<Longrightarrow> set h \<subseteq> set h' \<Longrightarrow> leases_ok A h' st"
  unfolding leases_ok_def list_all_iff using installed_mono[of h _ h'] by blast

subsection \<open>Helper processes\<close>

abbreviation helper :: "notif \<Rightarrow> allowlist \<Rightarrow> ir \<Rightarrow> int list \<Rightarrow> bstate \<Rightarrow> history \<Rightarrow> history \<Rightarrow> sysevent \<Rightarrow> bool" where
  "helper req A ir fds st g \<equiv> \<lambda>h e. child_permitted req A ir fds st (g @ in_child h) e"

lemma calls_waitpid: "calls (permitted v req A ir fds st) (waitpid_retry n K pid code) (\<lambda>_. True)"
proof (induction n)
  case (Suc n)
  show ?case by (subst waitpid_retry.simps) (auto intro!: io_calls Suc)
next
  case 0
  show ?case by (subst waitpid_retry.simps) (auto intro!: io_calls)
qed

lemma calls_wait_helper: "calls (permitted v req A ir fds st) (broker_wait_helper v' pid code) (\<lambda>_. True)"
  unfolding broker_wait_helper_def
  by (rule calls_bind, rule calls_mono[OF calls_waitpid]) (auto intro!: io_calls split: option.splits wait_status.splits)

lemma traced_in_helper:
  assumes "\<And>n d. traced (helper req A ir fds st (g @ [(Fork, Done n d)])) [] child (\<lambda>_ _. True)"
    and "\<And>a g'. set g \<subseteq> set g' \<Longrightarrow> Q a g'"
  shows "traced (permitted v req A ir fds st) g (in_helper v' child) Q"
  unfolding in_helper_def
  by (intro traced_bind traced_sys traced_if traced_return traced_child traced_calls[OF calls_wait_helper])
    (use assms(1) in \<open>auto intro!: assms(2)\<close>)

lemma calls_in_helper:
  assumes "\<And>g. calls (helper req A ir fds st g) child (\<lambda>_. True)"
  shows "calls (permitted v req A ir fds st) (in_helper v' child) (\<lambda>_. True)"
  unfolding calls_def by (intro allI traced_in_helper traced_calls[OF assms]) simp_all

lemma calls_add_fs_rule:
  "(\<And>g. E g (LandlockAddRule fd LANDLOCK_RULE_PATH_BENEATH (PathBeneath acc pfd) fl)) \<Longrightarrow>
   calls E (landlock_add_fs_rule K fd (Some (acc, pfd)) fl) (\<lambda>_. True)"
  unfolding landlock_add_fs_rule_def landlock_add_rule_def
  by (auto intro!: io_calls)

lemma calls_attach_rules:
  "set rs \<subseteq> set (layered_rules ir fds) \<Longrightarrow> calls (helper req A ir fds st g) (attach_rules K p rs b) (\<lambda>_. True)"
proof (induction K p rs b rule: attach_rules.induct)
  case (1 K p b)
  show ?case by (auto intro!: io_calls)
next
  case (2 K p fd r rs b)
  have add: "calls (helper req A ir fds st g) (landlock_add_fs_rule K fd (Some (r_allowed r, pfd)) 0) (\<lambda>_. True)" for pfd
    using 2(3) by (intro calls_add_fs_rule) force
  show ?case
    unfolding attach_rules.simps by (intro io_calls calls_mono[OF add]) (use 2 in auto)
qed

lemma calls_attach: "calls (helper req A ir fds st g) (attach_mount_rules K ir fds p) (\<lambda>_. True)"
  unfolding attach_mount_rules_def by (rule calls_attach_rules) simp

lemma calls_enter:
  "calls (helper req A ir fds st g) (broker_enter_tracee_mount_namespace v (q_pid req)) (\<lambda>_. True)"
  unfolding broker_enter_tracee_mount_namespace_def broker_open_tracee_namespace_def Let_def
  by (intro io_calls) simp_all

lemma calls_in_namespace:
  "calls (helper req A ir fds st g) rest (\<lambda>_. True) \<Longrightarrow>
   calls (helper req A ir fds st g) (in_namespace v (q_pid req) rest) (\<lambda>_. True)"
  unfolding in_namespace_def by (intro calls_or_exit_any calls_enter)

lemma find_bind_listed: "find_bind_mount_rule (mount_bind_rules A) s t = Some r \<Longrightarrow>
    bind_listed A s t \<and> bind_source_listed A s \<and> bind_target_in_list (mount_bind_rules A) t"
  unfolding find_bind_mount_rule_def bind_listed_def bind_source_listed_def bind_target_in_list_def list_ex_iff
  by (auto simp: find_Some_iff)

lemma calls_mount_tmpfs:
  assumes "q_nr req = 165" "path_in_list (mount_tmpfs_paths A) p"
  shows "calls (permitted v req A ir fds st) (broker_mount_tmpfs_in_tracee_namespace v (q_pid req) p flags ir fds) (\<lambda>_. True)"
proof -
  have "tmpfs_flags ((flags AND (MS_RDONLY OR MS_NOEXEC)) OR (MS_NODEV OR MS_NOSUID))"
    by (simp add: tmpfs_flags_def MS_RDONLY_def MS_NOEXEC_def MS_NODEV_def MS_NOSUID_def bit.conj_disj_distrib2 and.assoc)
  then show ?thesis
    unfolding broker_mount_tmpfs_in_tracee_namespace_def Let_def
    by (intro calls_if calls_errno TrueI calls_in_helper calls_in_namespace calls_or_exit_sys calls_or_exit_any
        calls_attach calls_return) (use assms in simp)
qed

lemma calls_bind_mount:
  assumes "q_nr req = 165" "bind_listed A s t" "bind_target_in_list (mount_bind_rules A) t"
  shows "calls (permitted v req A ir fds st)
    (broker_bind_mount_in_tracee_namespace v (q_pid req) s t flags ro ir fds) (\<lambda>_. True)"
proof -
  have "calls (helper req A ir fds st g) (apply_bind_mount K s t b ir fds) (\<lambda>_. True)" for g K b
    unfolding apply_bind_mount_def
    by (intro io_calls calls_attach) (use assms in \<open>simp_all add: read_only_remount_def\<close>)
  then show ?thesis
    unfolding broker_bind_mount_in_tracee_namespace_def Let_def
    by (intro calls_if calls_errno TrueI calls_in_helper calls_in_namespace calls_or_exit_any calls_return)
qed

lemma calls_umount:
  assumes "q_nr req = 166" "path_in_list (mount_tmpfs_paths A) t \<or> bind_target_in_list (mount_bind_rules A) t"
  shows "calls (permitted v req A ir fds st) (broker_umount_in_tracee_namespace v (q_pid req) t flags) (\<lambda>_. True)"
  unfolding broker_umount_in_tracee_namespace_def
  by (intro calls_if calls_errno TrueI calls_in_helper calls_in_namespace calls_or_exit_sys calls_return)
    (use assms in auto)

lemma calls_setattr:
  assumes "q_nr req = 442" "attr_clr a = 0" "propagation a = 0" "userns_fd a = 0"
    "list_ex (\<lambda>r. t \<in> set (o_attach r) \<and> attr_set a AND NOT (o_attrs r) = 0) (mount_object_rules A)"
  shows "calls (permitted v req A ir fds st) (broker_mount_setattr_in_tracee_namespace v (q_pid req) t a) (\<lambda>_. True)"
  unfolding broker_mount_setattr_in_tracee_namespace_def
  by (intro TrueI calls_in_helper calls_in_namespace calls_or_exit_sys calls_return) (use assms in simp)

lemma calls_after_move:
  assumes "q_nr req = 429" "ro \<Longrightarrow> bind_target_in_list (mount_bind_rules A) t"
  shows "calls (helper req A ir fds st g) (after_move v t ro ir fds) (\<lambda>_. True)"
  unfolding after_move_def broker_set_readonly_mount_def
  by (intro calls_or_exit_any io_calls calls_attach TrueI)
    (use assms in \<open>simp_all add: read_only_attr_def read_only_remount_def\<close>)

lemma traced_move_mount:
  assumes "q_nr req = 429" "bind_listed A s t" "bind_source_listed A s" "bind_target_in_list (mount_bind_rules A) t"
    and "\<And>a g'. set g \<subseteq> set g' \<Longrightarrow> Q a g'"
  shows "traced (permitted v req A ir fds st) g
    (broker_move_mount_in_tracee_namespace v (q_pid req) s t ro ir fds) Q"
  unfolding broker_move_mount_in_tracee_namespace_def in_namespace_def
  by (rule traced_in_helper, rule traced_or_exit, rule traced_calls[OF calls_enter],
      intro conjI impI allI TrueI traced_or_exit io_traced traced_calls[OF calls_after_move])
    (use assms in \<open>auto simp: OPEN_TREE_CLONE_def OPEN_TREE_CLOEXEC_def\<close>)

lemma traced_move_mount_fd:
  assumes "q_nr req = 429" "fd_copied g fd (q_pid req) (as_int (arg req 0))"
    "list_ex (\<lambda>l. ml_fd l = as_int (arg req 0) \<and> lease_target A l t) (mount_leases st)"
    "ro \<Longrightarrow> bind_target_in_list (mount_bind_rules A) t"
    and "\<And>a g'. set g \<subseteq> set g' \<Longrightarrow> Q a g'"
  shows "traced (permitted v req A ir fds st) g
    (broker_move_mount_fd_in_tracee_namespace v (q_pid req) fd t ro ir fds) Q"
  unfolding broker_move_mount_fd_in_tracee_namespace_def in_namespace_def
  by (rule traced_in_helper, rule traced_or_exit, rule traced_calls[OF calls_enter],
      intro conjI impI allI TrueI traced_or_exit io_traced traced_calls[OF calls_after_move])
    (use assms in auto)

subsection \<open>Descriptors and answers\<close>

lemma traced_dup:
  assumes "q_nr req = 429" "\<And>g' r. set g \<subseteq> set g' \<Longrightarrow> r < 0 \<or> fd_copied g' r (q_pid req) (as_int (arg req 0)) \<Longrightarrow> Q r g'"
  shows "traced (permitted v req A ir fds st) g (broker_dup_tracee_fd v (q_pid req) (as_int (arg req 0))) Q"
  unfolding broker_dup_tracee_fd_def Let_def
  by (intro io_traced; (intro assms(2))?) (use assms(1) in \<open>auto simp: proc_fd_path_def\<close>)

lemma traced_status:
  "(\<And>s. x = Signaled s \<Longrightarrow> traced E g (f s) Q) \<Longrightarrow> (\<And>c. x = Exited c \<Longrightarrow> traced E g (h c) Q) \<Longrightarrow>
   traced E g (case x of Exited c \<Rightarrow> h c | Signaled s \<Rightarrow> f s) Q"
  by (cases x) simp_all

lemma traced_fd_from_helper:
  assumes "\<And>g s. calls (helper req A ir fds st g) (child s) (\<lambda>_. True)"
    and "\<And>g' r. set g \<subseteq> set g' \<Longrightarrow> r < 0 \<or> file_opened g' r \<Longrightarrow> Q r g'"
  shows "traced (permitted v req A ir fds st) g (fd_from_helper v' child) Q"
proof -
  have child: "traced (\<lambda>h e. permitted v req A ir fds st (g' @ in_child h) (InChild e)) h0 (child s) (\<lambda>_ _. True)"
    for g' h0 s using traced_calls[OF assms(1), of h0 "\<lambda>_ _. True" g' s] by simp
  have recv: "(RecvFd s, Done n d) \<in> set g' \<Longrightarrow> file_opened g' (int n)" for s n d g'
    by (force simp: file_opened_def list_ex_iff)
  show ?thesis
    unfolding fd_from_helper_def Let_def recv_fd_def close_if_open_def
    by (intro io_traced traced_child traced_calls[OF calls_waitpid] child traced_status;
        (intro assms(2))?) (auto intro: recv)
qed

lemma calls_send_and_exit: "calls (helper req A ir fds st g) (send_and_exit K sock fd) (\<lambda>_. True)"
  unfolding send_and_exit_def send_fd_def by (intro calls_or_exit_any io_calls) simp_all

lemma traced_open_tree:
  assumes "bind_source_listed A s" "f AND OPEN_TREE_CLONE \<noteq> 0"
    and "\<And>g' r. set g \<subseteq> set g' \<Longrightarrow> r < 0 \<or> file_opened g' r \<Longrightarrow> Q r g'"
  shows "traced (permitted v req A ir fds st) g (broker_open_tree_in_tracee_namespace v (q_pid req) s f) Q"
  unfolding broker_open_tree_in_tracee_namespace_def
  by (intro traced_fd_from_helper calls_in_namespace calls_or_exit_sys calls_send_and_exit assms(3))
    (use assms in simp)

lemma traced_fsmount:
  assumes "q_nr req = 432" "object_leased A st (as_int (arg req 0)) (\<lambda>r. o_fs_type r = ty)" "f AND NOT 1 = 0"
    "object_leased A st (as_int (arg req 0)) (\<lambda>r. attrs AND NOT (ucast (o_attrs r)) = 0)"
    and "\<And>g' r. set g \<subseteq> set g' \<Longrightarrow> r < 0 \<or> file_opened g' r \<Longrightarrow> Q r g'"
  shows "traced (permitted v req A ir fds st) g (broker_fsmount_in_tracee_namespace v (q_pid req) ty f attrs) Q"
  unfolding broker_fsmount_in_tracee_namespace_def exit_errno_def
  by (intro traced_fd_from_helper calls_in_namespace calls_or_exit_sys calls_send_and_exit io_calls assms(5) TrueI)
    (use assms in simp_all)

lemma traced_send:
  assumes "\<And>g' r. set g \<subseteq> set g' \<Longrightarrow> answered req g' \<Longrightarrow> Q r g'"
  shows "traced (permitted v req A ir fds st) g (broker_send_errno v (q_id req) e) Q"
    "traced (permitted v req A ir fds st) g (broker_send_success v (q_id req)) Q"
  unfolding broker_send_errno_def broker_send_success_def unless_gone_def
  by (intro io_traced assms; auto)+

text \<open>When the reply with a descriptor succeeds, the request has been answered or is gone.\<close>

lemma traced_reply_addfd:
  assumes "file_opened g src"
    and "\<And>g' r. set g \<subseteq> set g' \<Longrightarrow> fst r \<ge> 0 \<longrightarrow> answered req g' \<Longrightarrow> snd r \<ge> 0 \<longrightarrow> installed g' (snd r) \<Longrightarrow> Q r g'"
  shows "traced (permitted v req A ir fds st) g (broker_reply_addfd v (q_id req) src nf) Q"
proof -
  have *: "traced (permitted v req A ir fds st) g (broker_reply_addfd v (q_id req) src nf)
      (\<lambda>r g'. set g \<subseteq> set g' \<and> (fst r \<ge> 0 \<longrightarrow> answered req g') \<and> (snd r \<ge> 0 \<longrightarrow> installed g' (snd r)))"
    using assms(1)
    by (auto simp: traced_def broker_reply_addfd_def unless_gone_def sys_def sysd_def get_errno_def Let_def
        split: reply.splits)
  show ?thesis by (rule traced_mono[OF *]) (use assms(2) in blast)
qed

end
