(* ===== verification/Broker_Mediation.thy ===== *)
theory Broker_Mediation
  imports Broker_Safety
begin

text \<open>
  Complete mediation by the broker: every handler, and so the broker's loop, makes only calls that
  \<open>permitted\<close> grants, answers the request and keeps the lease tables valid, whatever the kernel and
  the supervised process do.
\<close>

subsection \<open>Steps of a handler\<close>

named_theorems mediated \<open>steps that are always permitted\<close>

lemma traced_audits [mediated]:
  assumes "\<And>a g'. set g \<subseteq> set g' \<Longrightarrow> Q a g'"
  shows "traced (permitted v req A ir fds st) g (audit_broker_open v req p sc op decision e) Q"
    "traced (permitted v req A ir fds st) g (audit_broker_path v ev req p decision e) Q"
    "traced (permitted v req A ir fds st) g (audit_broker_mount v ev req p decision e) Q"
    "traced (permitted v req A ir fds st) g (audit_broker_paths v ev req p p' decision e) Q"
    "traced (permitted v req A ir fds st) g (audit_broker_symlink v req p p' decision e) Q"
  unfolding audit_broker_open_def audit_broker_path_def audit_broker_mount_def audit_broker_paths_def
    audit_broker_symlink_def
  by (rule traced_calls[OF broker.calls_audit], rule assms, assumption)+

lemma traced_ends:
  assumes "\<And>a g'. set g \<subseteq> set g' \<Longrightarrow> answered req g' \<Longrightarrow> Q a g'"
  shows "traced (permitted v req A ir fds st) g (fail_open v req p sc op e) Q"
    "traced (permitted v req A ir fds st) g (deny_open v req p sc op) Q"
    "traced (permitted v req A ir fds st) g (fail_path v ev req p) Q"
    "traced (permitted v req A ir fds st) g (fail_paths v ev req p p') Q"
    "traced (permitted v req A ir fds st) g (fail_symlink v req p p') Q"
    "traced (permitted v req A ir fds st) g (fail_mount v ev req p) Q"
    "traced (permitted v req A ir fds st) g (fail_mount_or v ev req p) Q"
    "traced (permitted v req A ir fds st) g (deny_mount v ev req p) Q"
    "traced (permitted v req A ir fds st) g (allow_mount v ev req tgt) Q"
    "traced (permitted v req A ir fds st) g (send_open_error v req) Q"
  unfolding fail_open_def deny_open_def fail_path_def fail_paths_def fail_symlink_def fail_mount_def
    fail_mount_or_def deny_mount_def allow_mount_def send_open_error_def Let_def
  by (intro traced_bind traced_get_errno mediated traced_send assms; blast)+

lemma traced_inspect [mediated]:
  assumes "\<And>a g'. set g \<subseteq> set g' \<Longrightarrow> Q a g'"
  shows "traced (permitted v req A ir fds st) g (read_tracee_memory v (q_pid req) a n) Q"
  by (rule traced_calls[OF broker.calls_read_memory], rule assms, assumption)

lemma traced_read_string [mediated]:
  assumes "\<And>a g'. set g \<subseteq> set g' \<Longrightarrow> fst a \<ge> 0 \<longrightarrow> is_cstr (snd a) \<Longrightarrow> Q a g'"
  shows "traced (permitted v req A ir fds st) g (read_tracee_string v (q_pid req) a n) Q"
  by (rule traced_calls[OF broker.calls_read_string], rule assms)

lemma traced_resolve [mediated]:
  assumes "\<And>x g'. set g \<subseteq> set g' \<Longrightarrow> (\<And>p. x = Some p \<Longrightarrow> is_cstr p) \<Longrightarrow> Q x g'"
  shows "traced (permitted v req A ir fds st) g (resolve_tracee_path v (q_pid req) d p) Q"
  by (rule traced_calls[OF broker.calls_resolve], rule assms) blast+

lemma traced_parent [mediated]:
  assumes "\<And>x g'. set g \<subseteq> set g' \<Longrightarrow> (\<And>parent base. x = Some (parent, base) \<Longrightarrow> plain_name base) \<Longrightarrow> Q x g'"
  shows "traced (permitted v req A ir fds st) g (resolve_tracee_parent v (q_pid req) d p) Q"
  by (rule traced_calls[OF broker.calls_parent], rule assms) blast+

lemma traced_join [mediated]:
  "(\<And>x. (\<And>path. x = Some path \<Longrightarrow> path = joined parent base) \<Longrightarrow> Q x g) \<Longrightarrow> traced E g (join_path parent base) Q"
  unfolding join_path_def joined_def[symmetric] Let_def by (intro io_traced) auto

text \<open>A call whose result is only looked at through its sign.\<close>

lemma traced_call:
  assumes "E g e" "\<And>r rep. r < 0 \<or> (\<exists>n d. rep = Done n d \<and> r = int n) \<Longrightarrow> Q r (g @ [(e, rep)])"
  shows "traced E g (sys K e) Q"
  by (rule traced_sys, rule assms) (auto intro!: assms(2))

lemma traced_pair_option:
  "(x = None \<Longrightarrow> traced E g f Q) \<Longrightarrow> (\<And>a b. x = Some (a, b) \<Longrightarrow> traced E g (h a b) Q) \<Longrightarrow>
   traced E g (case x of None \<Rightarrow> f | Some (a, b) \<Rightarrow> h a b) Q"
  by (cases x) auto

lemma traced_read_optional [mediated]:
  "(\<And>a g'. set g \<subseteq> set g' \<Longrightarrow> Q a g') \<Longrightarrow> traced (permitted v req A ir fds st) g (read_optional v req i n) Q"
  unfolding read_optional_def by (intro traced_if mediated traced_return) auto

lemmas steps = traced_bind mediated traced_if traced_ends traced_pair_option traced_option traced_call
  traced_get_errno traced_send traced_return

subsection \<open>Directory operations\<close>

lemma traced_mkdir:
  assumes "q_nr req = 258"
  shows "traced (permitted v req A ir fds st) g (broker_handle_mkdir_request v req A) (\<lambda>_. answered req)"
  unfolding broker_handle_mkdir_request_def Let_def
  by (intro steps) (auto simp: assms scratch_dir_def)

lemma traced_unlink:
  assumes "q_nr req = 263"
  shows "traced (permitted v req A ir fds st) g (broker_handle_unlink_request v req A) (\<lambda>_. answered req)"
  unfolding broker_handle_unlink_request_def Let_def
  by (intro steps) (auto simp: assms scratch_dir_def)

lemma traced_symlink:
  assumes "q_nr req = 266"
  shows "traced (permitted v req A ir fds st) g (broker_handle_symlink_request v req A) (\<lambda>_. answered req)"
  unfolding broker_handle_symlink_request_def Let_def
  by (intro steps) (auto simp: assms scratch_dir_def)

lemma traced_two_names:
  assumes call: "\<And>g fd base fd' base'. plain_name base \<Longrightarrow> plain_name base' \<Longrightarrow> dir_opened g fd (scratch_dir A) \<Longrightarrow>
    dir_opened g fd' (\<lambda>p. scratch_dir A p \<or> export_dir A p) \<Longrightarrow>
    permitted v req A ir fds st g (call fd base fd' base')"
  shows "traced (permitted v req A ir fds st) g (two_names v req A ev call) (\<lambda>_. answered req)"
  unfolding two_names_def Let_def
  by (intro steps; (intro call)?) (auto simp: scratch_dir_def export_dir_def)

lemma traced_rename:
  assumes "q_nr req = 316"
  shows "traced (permitted v req A ir fds st) g (broker_handle_rename_request v req A) (\<lambda>_. answered req)"
  unfolding broker_handle_rename_request_def Let_def
  by (intro steps traced_two_names) (auto simp: assms)

lemma traced_link:
  assumes "q_nr req = 265"
  shows "traced (permitted v req A ir fds st) g (broker_handle_link_request v req A) (\<lambda>_. answered req)"
  unfolding broker_handle_link_request_def Let_def
  by (intro steps traced_two_names) (auto simp: assms)

subsection \<open>Opening\<close>

lemma access_bits: "sint ((ucast (flags OR O_CLOEXEC) :: u32) AND 3) = as_int (flags AND O_ACCMODE)"
    "sint ((ucast (flags OR O_CLOEXEC OR O_NOFOLLOW) :: u32) AND 3) = as_int (flags AND O_ACCMODE)"
  unfolding as_int_def
  by (simp_all add: unsigned_or_eq unsigned_and_eq bit.conj_disj_distrib2 O_CLOEXEC_def O_NOFOLLOW_def O_ACCMODE_def)

lemma nofollow_bit: "(ucast (flags OR O_CLOEXEC OR O_NOFOLLOW) :: u32) AND 0x20000 \<noteq> 0"
proof
  assume "(ucast (flags OR O_CLOEXEC OR O_NOFOLLOW) :: u32) AND 0x20000 = 0"
  then have "bit ((ucast (flags OR O_CLOEXEC OR O_NOFOLLOW) :: u32) AND 0x20000) 17 = False" by simp
  then show False by (simp add: bit_simps O_NOFOLLOW_def)
qed

lemma exception_flags:
  assumes "flags AND NOT (O_ACCMODE OR O_CLOEXEC OR O_NOFOLLOW OR O_APPEND OR O_TRUNC) = 0"
  shows "(ucast (flags OR O_CLOEXEC) :: u32) AND NOT (3 OR 0x80000 OR 0x20000 OR 0x400 OR 0x200) = 0"
proof -
  have "(ucast (flags AND NOT (O_ACCMODE OR O_CLOEXEC OR O_NOFOLLOW OR O_APPEND OR O_TRUNC)) :: u32) = 0"
    using assms by simp
  moreover have "(18446744073708894716 :: u32) = - 656900" by simp
  ultimately show ?thesis
    by (simp add: unsigned_or_eq unsigned_and_eq unsigned_not_eq bit.conj_disj_distrib2 O_CLOEXEC_def O_NOFOLLOW_def O_ACCMODE_def O_APPEND_def O_TRUNC_def)
qed

lemma append_bits: assumes "flags AND (O_APPEND OR O_TRUNC) = 0" shows "(ucast (flags OR O_CLOEXEC) :: u32) AND 0x600 = 0"
proof -
  have "(ucast (flags AND (O_APPEND OR O_TRUNC)) :: u32) = 0" using assms by simp
  then show ?thesis
    by (simp add: unsigned_or_eq unsigned_and_eq bit.conj_disj_distrib2 O_CLOEXEC_def O_APPEND_def O_TRUNC_def)
qed

lemma traced_scratch_open:
  assumes "is_open req"
  shows "traced (permitted v req A ir fds st) g (broker_handle_scratch_open v req A dirfd flags mode resolve)
    (\<lambda>_. answered req)"
  unfolding broker_handle_scratch_open_def Let_def
  by (intro steps traced_reply_addfd) (auto simp: assms scratch_dir_def access_bits nofollow_bit intro: answered_mono)

lemma exception_openI:
  assumes "flags AND NOT (O_ACCMODE OR O_CLOEXEC OR O_NOFOLLOW OR O_APPEND OR O_TRUNC) = 0"
    "as_int (flags AND O_ACCMODE) = 0 \<longrightarrow> flags AND (O_APPEND OR O_TRUNC) = 0"
    "broker_is_allowed A path (as_int (flags AND O_ACCMODE))"
    "addfd_allowed A ''open'' path (Some (addfd_mode_name (as_int (flags AND O_ACCMODE))))"
  shows "exception_open A path (ucast (flags OR O_CLOEXEC))"
  using assms exception_flags[OF assms(1)] append_bits[of flags]
  unfolding exception_open_def Let_def access_bits by blast

lemma exception_not_dir:
  "flags AND NOT (O_ACCMODE OR O_CLOEXEC OR O_NOFOLLOW OR O_APPEND OR O_TRUNC) = 0 \<Longrightarrow>
   ucast (flags OR O_CLOEXEC) \<noteq> O_PATH_DIRECTORY_CLOEXEC"
  by (drule exception_flags) (auto simp: O_PATH_DIRECTORY_CLOEXEC_def)

lemma traced_open_with:
  assumes "is_open req"
  shows "traced (permitted v req A ir fds st) g (open_with v req A dirfd flags mode resolve) (\<lambda>_. answered req)"
  unfolding open_with_def Let_def
  by (intro steps traced_reply_addfd traced_scratch_open assms)
    (auto simp: assms exception_openI exception_not_dir intro: answered_mono simp del: bit.de_Morgan_disj)

lemma traced_open:
  assumes "is_open req"
  shows "traced (permitted v req A ir fds st) g (broker_handle_open_request v req A) (\<lambda>_. answered req)"
  unfolding broker_handle_open_request_def
  by (intro steps traced_open_with assms) auto

subsection \<open>Mount requests\<close>

text \<open>What a request leaves behind: it has been answered, and the leases are as good as before.\<close>

definition left_ok :: "notif \<Rightarrow> allowlist \<Rightarrow> bstate \<Rightarrow> int \<times> bstate \<Rightarrow> history \<Rightarrow> bool" where
  "left_ok req A st x g \<longleftrightarrow> answered req g \<and> (\<forall>h. leases_ok A h st \<longrightarrow> leases_ok A (h @ g) (snd x))"

lemma left_same: "answered req g \<Longrightarrow> left_ok req A st (rc, st) g"
  unfolding left_ok_def by (auto intro: leases_ok_mono)

lemma left_later: "answered req g \<Longrightarrow> set g \<subseteq> set g' \<Longrightarrow> left_ok req A st (rc, st) g'"
  by (rule left_same) (rule answered_mono)

lemma traced_keeping: "traced E g f (\<lambda>rc. left_ok req A st (rc, st')) \<Longrightarrow> traced E g (keeping st' f) (left_ok req A st)"
  unfolding keeping_def by (rule traced_bind, erule traced_mono) (rule traced_return)

lemma traced_keep:
  "traced E g f (\<lambda>_. answered req) \<Longrightarrow> traced E g (keeping st f) (left_ok req A st)"
  by (rule traced_keeping, erule traced_mono) (rule left_same)

lemma traced_mount:
  assumes "q_nr req = 165"
  shows "traced (permitted v req A ir fds st) g (broker_handle_mount_request v req A ir fds) (\<lambda>_. answered req)"
  unfolding broker_handle_mount_request_def mount_bind_request_def mount_tmpfs_request_def Let_def
  by (intro steps traced_calls[OF calls_mount_tmpfs] traced_calls[OF calls_bind_mount])
    (auto simp: assms dest: find_bind_listed)

lemma traced_umount:
  assumes "q_nr req = 166"
  shows "traced (permitted v req A ir fds st) g (broker_handle_umount_request v req A) (\<lambda>_. answered req)"
  unfolding broker_handle_umount_request_def Let_def
  by (intro steps traced_calls[OF calls_umount]) (auto simp: assms)

lemma find_object_listed:
  "find_mount_object_rule_for_target rs tgt = Some r \<Longrightarrow> r \<in> set rs \<and> tgt \<in> set (o_attach r)"
  unfolding find_mount_object_rule_for_target_def by (auto simp: find_Some_iff)

lemma traced_setattr:
  assumes "q_nr req = 442"
  shows "traced (permitted v req A ir fds st) g (broker_handle_mount_setattr_request v req A) (\<lambda>_. answered req)"
  unfolding broker_handle_mount_setattr_request_def Let_def
  by (intro steps traced_calls[OF calls_setattr]) (auto simp: assms list_ex_iff dest!: find_object_listed)

subsection \<open>Leases\<close>

lemma ensures_lease_add:
  "ensures (mount_fd_lease_add fd kind (Some value) ls)
     (\<lambda>ls'. ls' = ls @ [\<lparr>ml_fd = fd, ml_kind = kind, ml_value = cstr value\<rparr>])"
  "ensures (fsopen_lease_add fd (Some value) fs)
     (\<lambda>fs'. fs' = fs @ [\<lparr>fl_fd = fd, fl_created = False, fl_name = cstr value\<rparr>])"
  unfolding mount_fd_lease_add_def fsopen_lease_add_def strdup_def option.sel
  by (intro am_rule; simp)+

text \<open>The new lease of a descriptor that has been installed.\<close>

lemma left_add_fsopen:
  assumes "answered req g" "installed g fd" "find_mount_object_rule (mount_object_rules A) name \<noteq> None" "is_cstr name"
  shows "left_ok req A st (rc, st\<lparr>fsopen_leases := fsopen_leases st @ [\<lparr>fl_fd = fd, fl_created = b, fl_name = name\<rparr>]\<rparr>) g"
  using assms leases_ok_mono[of A _ st "_ @ g"] unfolding left_ok_def leases_ok_def by (simp add: list_all_iff)

lemma left_add_mount:
  assumes "answered req g" "installed g fd" "set (fsopen_leases st') \<subseteq> set (fsopen_leases st)" "mount_leases st' = mount_leases st"
    "kind = LEASE_SOURCE \<and> bind_source_listed A value \<or>
     kind = LEASE_OBJECT \<and> find_mount_object_rule (mount_object_rules A) value \<noteq> None"
  shows "left_ok req A st (rc, st'\<lparr>mount_leases := mount_leases st' @ [\<lparr>ml_fd = fd, ml_kind = kind, ml_value = value\<rparr>]\<rparr>) g"
  using assms leases_ok_mono[of A _ st "_ @ g"] unfolding left_ok_def leases_ok_def by (auto simp: list_all_iff)

lemma left_fewer:
  assumes "answered req g" "set (mount_leases st') \<subseteq> set (mount_leases st)" "set (fsopen_leases st') \<subseteq> set (fsopen_leases st)"
  shows "left_ok req A st (rc, st') g"
  using assms leases_ok_mono[of A _ st "_ @ g"] unfolding left_ok_def leases_ok_def by (auto simp: list_all_iff)

lemma traced_fsopen:
  assumes "q_nr req = 430"
  shows "traced (permitted v req A ir fds st) g (broker_handle_fsopen_request v req A st) (left_ok req A st)"
  unfolding broker_handle_fsopen_request_def Let_def
  by (intro traced_keep steps traced_reply_addfd traced_run_am[OF ensures_lease_add(2)])
    (auto simp: assms O_PATH_DIRECTORY_CLOEXEC_def O_CLOEXEC_def
      intro: left_later left_add_fsopen answered_mono installed_mono)

lemma traced_open_tree_request:
  assumes "q_nr req = 428"
  shows "traced (permitted v req A ir fds st) g (broker_handle_open_tree_request v req A st) (left_ok req A st)"
proof -
  have flags: "OPEN_TREE_CLONE OR OPEN_TREE_CLOEXEC AND OPEN_TREE_CLONE \<noteq> 0" "OPEN_TREE_CLONE AND OPEN_TREE_CLONE \<noteq> 0"
    by (simp_all add: OPEN_TREE_CLONE_def OPEN_TREE_CLOEXEC_def)
  show ?thesis
    unfolding broker_handle_open_tree_request_def Let_def
    by (intro traced_keep steps traced_reply_addfd traced_open_tree traced_run_am[OF ensures_lease_add(1)])
      (auto simp: assms flags bind_source_listed_def LEASE_SOURCE_def
        intro: left_later left_add_mount answered_mono installed_mono file_opened_mono)
qed

lemma left_created:
  assumes "answered req g" "i < length (fsopen_leases st)"
  shows "left_ok req A st (rc, st\<lparr>fsopen_leases := (fsopen_leases st)[i := (fsopen_leases st ! i)\<lparr>fl_created := True\<rparr>]\<rparr>) g"
proof -
  have "list_all P ((fsopen_leases st)[i := (fsopen_leases st ! i)\<lparr>fl_created := True\<rparr>])"
    if "list_all P (fsopen_leases st)" "\<And>l. P l \<Longrightarrow> P (l\<lparr>fl_created := True\<rparr>)" for P
    using that(1) that(2)[of "fsopen_leases st ! i"] assms(2) unfolding list_all_length
    by (simp add: nth_list_update)
  then show ?thesis
    using assms(1) leases_ok_mono[of A _ st "_ @ g"] unfolding left_ok_def leases_ok_def by fastforce
qed

lemma traced_fsconfig:
  "traced (permitted v req A ir fds st) g (broker_handle_fsconfig_request v req st) (left_ok req A st)"
  unfolding broker_handle_fsconfig_request_def Let_def
  by (intro traced_keeping steps traced_run_am[OF ensures_lift[where Q = "\<lambda>i. i < length (fsopen_leases st)"]])
    (simp_all add: left_same left_created fsopen_find_nth)

lemma left_taken:
  "answered req g \<Longrightarrow> set rest \<subseteq> set (fsopen_leases st) \<Longrightarrow> left_ok req A st (rc, st\<lparr>fsopen_leases := rest\<rparr>) g"
  "answered req g \<Longrightarrow> set rest' \<subseteq> set (mount_leases st) \<Longrightarrow> left_ok req A st (rc, st\<lparr>mount_leases := rest'\<rparr>) g"
  by (simp_all add: left_fewer)

lemma left_taken_later: "answered req g \<Longrightarrow> set g \<subseteq> set g' \<Longrightarrow> set rest \<subseteq> set (fsopen_leases st) \<Longrightarrow>
    left_ok req A st (rc, st\<lparr>fsopen_leases := rest\<rparr>) g'"
  by (rule left_taken) (rule answered_mono)

lemma left_add_object:
  assumes "answered req g" "installed g fd" "l \<in> set (fsopen_leases st)" "set rest \<subseteq> set (fsopen_leases st)"
  shows "left_ok req A st (rc, st\<lparr>fsopen_leases := rest, mount_leases := mount_leases st @
    [\<lparr>ml_fd = fd, ml_kind = LEASE_OBJECT, ml_value = cstr (fl_name l)\<rparr>]\<rparr>) g"
  using assms leases_ok_mono[of A _ st "_ @ g"] unfolding left_ok_def leases_ok_def by (auto simp: list_all_iff)

lemma object_leasedI:
  assumes "l \<in> set (fsopen_leases st)" "fl_fd l = fd" "fl_created l"
    "find_mount_object_rule (mount_object_rules A) (fl_name l) = Some r" "P r"
    "mount_object_addfd_covers_action A ''fsmount'' r"
  shows "object_leased A st fd P"
  using assms unfolding object_leased_def list_ex_iff by (intro bexI[of _ l]) simp_all

lemma traced_fsmount_request:
  assumes "q_nr req = 432"
  shows "traced (permitted v req A ir fds st) g (broker_handle_fsmount_request v req A st) (left_ok req A st)"
proof -
  let ?P = "\<lambda>x. fst x \<in> set (fsopen_leases st) \<and> fl_fd (fst x) = as_int (arg req 0) \<and>
    set (snd x) \<subseteq> set (fsopen_leases st)"
  have "ensures (liftM (fsopen_lease_take (fsopen_leases st) (as_int (arg req 0)))) ?P"
    by (rule ensures_lift) (metis fsopen_leases.take_set prod.collapse)
  note taken = traced_run_am[OF this]
  show ?thesis
    unfolding broker_handle_fsmount_request_def Let_def
    by (intro traced_keeping steps taken traced_fsmount traced_reply_addfd traced_run_am[OF ensures_lease_add(1)])
      (auto simp: assms left_same left_taken intro: object_leasedI left_taken_later left_add_object answered_mono
        installed_mono file_opened_mono)
qed

lemma lease_guard:
  assumes "\<not> (if ml_kind l = LEASE_SOURCE then find_bind_mount_rule (mount_bind_rules A) (ml_value l) t = None
     else if ml_kind l = LEASE_OBJECT then find_mount_object_rule (mount_object_rules A) (ml_value l) = None \<or>
       \<not> mount_object_target_allowed (find_mount_object_rule (mount_object_rules A) (ml_value l)) t
     else True)"
  shows "lease_target A l t" "ml_kind l = LEASE_SOURCE \<Longrightarrow> bind_target_in_list (mount_bind_rules A) t"
  using assms unfolding lease_target_def by (auto split: if_splits dest: find_bind_listed)

lemma traced_move_leased:
  assumes "q_nr req = 429" "l \<in> set (mount_leases st)" "ml_fd l = as_int (arg req 0)"
  shows "traced (permitted v req A ir fds st) g (move_leased v req A ir fds l t) (\<lambda>_. answered req)"
proof -
  have leased: "list_ex (\<lambda>l. ml_fd l = as_int (arg req 0) \<and> lease_target A l t) (mount_leases st)" if "lease_target A l t"
    using assms that by (auto simp: list_ex_iff)
  show ?thesis
    unfolding move_leased_def Let_def
    by (intro steps traced_dup traced_move_mount_fd leased lease_guard(1); (rule lease_guard(2))?)
      (auto simp: assms(1) split: if_splits)
qed

lemma traced_move_mount_request:
  assumes "q_nr req = 429"
  shows "traced (permitted v req A ir fds st) g (broker_handle_move_mount_request v req A ir fds st) (left_ok req A st)"
proof -
  let ?P = "\<lambda>x. fst x \<in> set (mount_leases st) \<and> ml_fd (fst x) = as_int (arg req 0) \<and>
    set (snd x) \<subseteq> set (mount_leases st)"
  have "ensures (liftM (mount_fd_lease_take (mount_leases st) (as_int (arg req 0)))) ?P"
    by (rule ensures_lift) (metis mount_leases.take_set prod.collapse)
  note taken = traced_run_am[OF this]
  show ?thesis
    unfolding broker_handle_move_mount_request_def Let_def
    by (intro traced_keeping steps taken traced_move_mount traced_mono[OF traced_move_leased])
      (auto simp: assms left_same left_taken dest: find_bind_listed)
qed

subsection \<open>Every request\<close>

lemma traced_dispatch:
  "traced (permitted v req A ir fds st) g (broker_dispatch v req A ir fds st) (left_ok req A st)"
  unfolding broker_dispatch_def Let_def
  by (intro traced_if traced_keep[OF traced_open] traced_keep[OF traced_mkdir] traced_keep[OF traced_unlink]
      traced_keep[OF traced_rename] traced_keep[OF traced_symlink] traced_keep[OF traced_link]
      traced_keep[OF traced_mount] traced_fsopen traced_fsconfig traced_fsmount_request traced_open_tree_request
      traced_move_mount_request traced_keep[OF traced_setattr] traced_keep[OF traced_umount]
      traced_keep[OF traced_send(1)]) (simp_all add: is_open_def)


subsection \<open>The loop\<close>

text \<open>A session of the broker: what it received, and what it did before it received the next request.
  The leases it held when a request arrived were those of descriptors it had put into the process.\<close>

inductive session :: "env \<Rightarrow> allowlist \<Rightarrow> ir \<Rightarrow> int list \<Rightarrow> history \<Rightarrow> bool" for v A ir fds where
  start: "session v A ir fds []"
| nothing: "session v A ir fds h \<Longrightarrow> session v A ir fds (h @ [(NotifRecv (e_listener v), Fail er)])"
| request: "session v A ir fds h \<Longrightarrow> leases_ok A h st \<Longrightarrow>
    all_granted (permitted v (decode_notif d) A ir fds st) [] es \<Longrightarrow> answered (decode_notif d) es \<Longrightarrow>
    session v A ir fds (h @ (NotifRecv (e_listener v), Done n d) # es)"

inductive broker_step :: "env \<Rightarrow> allowlist \<Rightarrow> ir \<Rightarrow> int list \<Rightarrow> world \<times> bstate \<Rightarrow> world \<times> bstate \<Rightarrow> bool"
  for v A ir fds where
  interrupted: "run_state (sysd (e_kernel v) (NotifRecv (e_listener v))) w = ((rc, d), w1) \<Longrightarrow> rc < 0 \<Longrightarrow>
    broker_step v A ir fds (w, st) (w1, st)"
| served: "run_state (sysd (e_kernel v) (NotifRecv (e_listener v))) w = ((rc, d), w1) \<Longrightarrow> rc \<ge> 0 \<Longrightarrow>
    run_state (broker_dispatch v (decode_notif d) A ir fds st) w1 = ((rc', st'), w') \<Longrightarrow>
    broker_step v A ir fds (w, st) (w', st')"

inductive_cases stepE: "broker_step v A ir fds (w, st) (w', st')"

lemma run_recv:
  "run_state (sysd K e) w = ((rc, d), w1) \<Longrightarrow> rc < 0 \<Longrightarrow> \<exists>er. w_trace w1 = w_trace w @ [(e, Fail er)]"
  "run_state (sysd K e) w = ((rc, d), w1) \<Longrightarrow> rc \<ge> 0 \<Longrightarrow> \<exists>n. w_trace w1 = w_trace w @ [(e, Done n d)]"
  by (auto simp: sysd_def Let_def split: reply.splits)

lemma leases_ok_append: "leases_ok A h st \<Longrightarrow> leases_ok A (h @ h') st"
  by (erule leases_ok_mono) simp

lemma step_session:
  assumes "broker_step v A ir fds (w, st) (w', st')" "w_trace w = h0 @ h" "session v A ir fds h" "leases_ok A h st"
  obtains h' where "w_trace w' = h0 @ h'" "session v A ir fds h'" "leases_ok A h' st'"
proof -
  let ?recv = "run_state (sysd (e_kernel v) (NotifRecv (e_listener v))) w"
  consider (interrupted) rc d where "st' = st" "?recv = ((rc, d), w')" "rc < 0"
    | (served) rc d w1 rc' where "?recv = ((rc, d), w1)" "rc \<ge> 0"
        "run_state (broker_dispatch v (decode_notif d) A ir fds st) w1 = ((rc', st'), w')"
    using assms(1) by (auto elim!: stepE)
  then show ?thesis
  proof cases
    case interrupted
    then obtain er where "w_trace w' = h0 @ (h @ [(NotifRecv (e_listener v), Fail er)])"
      using run_recv(1) assms(2) by fastforce
    moreover have "leases_ok A (h @ [(NotifRecv (e_listener v), Fail er)]) st'"
      by (simp add: leases_ok_append assms(4) interrupted(1))
    ultimately show ?thesis using that session.nothing[OF assms(3)] by blast
  next
    case served
    then obtain n where n: "w_trace w1 = h0 @ (h @ [(NotifRecv (e_listener v), Done n d)])"
      using run_recv(2) assms(2) by fastforce
    obtain es where es: "w_trace w' = w_trace w1 @ es" "all_granted (permitted v (decode_notif d) A ir fds st) [] es"
      "left_ok (decode_notif d) A st (rc', st') ([] @ es)"
      using tracedD[OF traced_dispatch served(3)] by blast
    let ?h = "h @ (NotifRecv (e_listener v), Done n d) # es"
    have "leases_ok A (h @ [(NotifRecv (e_listener v), Done n d)]) st" by (rule leases_ok_append[OF assms(4)])
    then have "leases_ok A ((h @ [(NotifRecv (e_listener v), Done n d)]) @ es) st'"
      using es(3) unfolding left_ok_def by (metis append_Nil snd_conv)
    moreover have "session v A ir fds ?h"
      using session.request[OF assms(3,4) es(2)] es(3) unfolding left_ok_def by simp
    ultimately show ?thesis using that[of ?h] es(1) n by simp
  qed
qed

lemma steps_session:
  assumes "(broker_step v A ir fds)\<^sup>*\<^sup>* (w, st) (w', st')" "w_trace w = h0 @ h" "session v A ir fds h" "leases_ok A h st"
  shows "\<exists>h'. w_trace w' = h0 @ h' \<and> session v A ir fds h' \<and> leases_ok A h' st'"
  using assms
proof (induction "(w', st')" arbitrary: w' st' rule: rtranclp_induct)
  case (step y)
  then show ?case by (cases y) (metis step_session)
qed auto

lemma serve_steps:
  "run_state (broker_serve n v A ir fds st) w = ((r, st'), w') \<Longrightarrow> (broker_step v A ir fds)\<^sup>*\<^sup>* (w, st) (w', st')"
proof (induction n arbitrary: st w)
  case (Suc n)
  obtain rc d w1 where recv: "run_state (sysd (e_kernel v) (NotifRecv (e_listener v))) w = ((rc, d), w1)"
    by (metis prod.collapse)
  show ?case
  proof (cases "rc < 0")
    case True
    then have "broker_step v A ir fds (w, st) (w1, st)" by (rule interrupted[OF recv])
    moreover have "st' = st \<and> w' = w1 \<or> run_state (broker_serve n v A ir fds st) w1 = ((r, st'), w')"
      using Suc.prems recv True by (auto simp: get_errno_def split: if_splits)
    ultimately show ?thesis using Suc.IH[of st w1] by (auto intro: converse_rtranclp_into_rtranclp)
  next
    case False
    obtain rc1 st1 w2 where x: "run_state (broker_dispatch v (decode_notif d) A ir fds st) w1 = ((rc1, st1), w2)"
      by (metis prod.collapse)
    have "broker_step v A ir fds (w, st) (w2, st1)" using False by (intro served[OF recv _ x]) simp
    moreover have "st' = st1 \<and> w' = w2 \<or> run_state (broker_serve n v A ir fds st1) w2 = ((r, st'), w')"
      using Suc.prems recv False x by (auto split: if_splits)
    ultimately show ?thesis using Suc.IH[of st1 w2] by (auto intro: converse_rtranclp_into_rtranclp)
  qed
qed simp


text \<open>The number of requests the broker has asked for.\<close>

definition recvs :: "history \<Rightarrow> nat" where
  "recvs h = length (filter (\<lambda>(e, r). case e of NotifRecv l \<Rightarrow> True | _ \<Rightarrow> False) h)"

text \<open>A kernel that hangs up after \<open>N\<close> requests: the process being supervised has ended.\<close>

definition hangs_up :: "kernel \<Rightarrow> int \<Rightarrow> nat \<Rightarrow> bool" where
  "hangs_up K l N \<longleftrightarrow> (\<forall>h. N \<le> recvs h \<longrightarrow> (\<exists>er. K h (NotifRecv l) = Fail er \<and> er \<noteq> EINTR))"

lemma recvs_append [simp]: "recvs (h @ h') = recvs h + recvs h'"
  by (simp add: recvs_def)

lemma recvs_recv [simp]: "recvs [(NotifRecv l, r)] = 1"
  by (simp add: recvs_def)

lemma serve_ends:
  assumes "hangs_up (e_kernel v) (e_listener v) N" "N \<le> recvs (w_trace w) + n"
  shows "\<exists>rc. fst (fst (run_state (broker_serve (Suc n) v A ir fds st) w)) = Some rc"
  using assms(2)
proof (induction n arbitrary: st w)
  case 0
  then obtain er where "e_kernel v (w_trace w) (NotifRecv (e_listener v)) = Fail er" "er \<noteq> EINTR"
    using assms(1) unfolding hangs_up_def by auto
  then show ?case by (simp add: sysd_def get_errno_def Let_def)
next
  case (Suc n)
  let ?K = "e_kernel v" and ?l = "e_listener v"
  obtain rc d w1 where recv: "run_state (sysd ?K (NotifRecv ?l)) w = ((rc, d), w1)"
    by (metis prod.collapse)
  have r1: "recvs (w_trace w1) = recvs (w_trace w) + 1"
    using run_recv[OF recv] by (cases "rc < 0") auto
  show ?case
  proof (cases "rc < 0")
    case True
    then show ?thesis
      using recv r1 Suc.IH[of w1 st] Suc.prems by (subst broker_serve.simps) (simp add: get_errno_def del: broker_serve.simps)
  next
    case False
    obtain rc1 st1 w2 where x: "run_state (broker_dispatch v (decode_notif d) A ir fds st) w1 = ((rc1, st1), w2)"
      by (metis prod.collapse)
    obtain es where "w_trace w2 = w_trace w1 @ es" using tracedD[OF traced_dispatch x] by blast
    then show ?thesis
      using recv r1 x False Suc.IH[of w2 st1] Suc.prems
      by (subst broker_serve.simps) (simp del: broker_serve.simps)
  qed
qed



end
