(* ===== verification/Confinement.thy ===== *)
theory Confinement
  imports Runner Broker_Mediation
begin

text \<open>
  What a run promises (\<open>Runner\<close>). The program is executed only in a process that is confined:
  \<open>confined\<close> names the rulesets, filters and the hand-over of the listener that must have succeeded
  before. Every descriptor a run takes is given back, and the broker's process serves requests only
  after it has been hardened. Nothing is assumed of the kernel.
\<close>

subsection \<open>Ordinary calls\<close>

text \<open>Calls that, here or in a child, execute no program and take no connection.\<close>

fun routine :: "sysevent \<Rightarrow> bool" where
  "routine (InChild e) = routine e"
| "routine (Host c) = (case c of Execvp p a \<Rightarrow> False | Accept fd \<Rightarrow> False | PeerCred fd \<Rightarrow> False | _ \<Rightarrow> True)"
| "routine _ = True"

text \<open>Calls that, besides, neither hand out nor close a descriptor.\<close>

definition plain :: "sysevent \<Rightarrow> bool" where
  "plain e \<longleftrightarrow> routine e \<and> neutral e"

lemma granted_weaken: "all_granted E g es \<Longrightarrow> (\<And>g e. E g e \<Longrightarrow> F g e) \<Longrightarrow> all_granted F g es"
  by (induction es arbitrary: g) auto

lemma traced_weaken: "traced E g f Q \<Longrightarrow> (\<And>g e. E g e \<Longrightarrow> F g e) \<Longrightarrow> traced F g f Q"
  unfolding traced_def case_prod_beta using granted_weaken by (metis (no_types, lifting))

lemma calls_weaken: "calls E f R \<Longrightarrow> (\<And>g e. E g e \<Longrightarrow> F g e) \<Longrightarrow> calls F f R"
  unfolding calls_def using traced_weaken by blast

lemma plain_routine: "calls (\<lambda>_. plain) f R \<Longrightarrow> calls (\<lambda>_. routine) f R"
  by (erule calls_weaken) (simp add: plain_def)

lemma plain_neutral: "calls (\<lambda>_. plain) f R \<Longrightarrow> calls (\<lambda>_. neutral) f R"
  by (erule calls_weaken) (simp add: plain_def)

text \<open>What a child does is ordinary for its parent.\<close>

lemma plain_child: "calls (\<lambda>_. routine) child R \<Longrightarrow> calls (\<lambda>_. plain) (run_child child) (\<lambda>_. True)"
  unfolding calls_def
  by (intro allI traced_child, rule traced_weaken[OF traced_mono], erule spec)
    (simp_all add: plain_def neutral_def)

interpretation plain: audited "\<lambda>_. plain" diag for diag
  by unfold_locales (simp_all add: plain_def neutral_def)

named_theorems plain_calls \<open>computations that only make ordinary calls\<close>

lemma plain_own_event: "calls (\<lambda>_. plain) (audit_own_event v event fs) (\<lambda>_. True)"
proof (cases "e_diag v = None")
  case True
  show ?thesis
    unfolding audit_own_event_def True put_fields_None audit_begin_def audit_end_def
    by (auto intro!: io_calls simp: plain_def neutral_def)
next
  case False
  show ?thesis
    unfolding audit_own_event_def
    by (intro calls_bind calls_mono[OF plain.calls_begin[OF False]] calls_sys calls_mono[OF plain.calls_put_fields]
        calls_mono[OF plain.calls_end[OF False]] calls_return TrueI) (simp_all add: plain_def neutral_def)
qed

lemma plain_audit [plain_calls]:
  "calls (\<lambda>_. plain) (audit_run_start v pid label a) (\<lambda>_. True)"
  "calls (\<lambda>_. plain) (audit_run_exit v pid s) (\<lambda>_. True)"
  "calls (\<lambda>_. plain) (audit_tmpfs_mount v path d e) (\<lambda>_. True)"
  "calls (\<lambda>_. plain) (audit_proc_mount v path d e) (\<lambda>_. True)"
  "calls (\<lambda>_. plain) (audit_bind_mount v r d e) (\<lambda>_. True)"
  unfolding audit_run_start_def audit_run_exit_def audit_tmpfs_mount_def audit_proc_mount_def audit_bind_mount_def
    audit_mount_event_def
  by (auto intro: plain.calls_audit plain_own_event split: wait_status.split)

text \<open>The parts of a run, first those of the process itself.\<close>

lemma plain_fork [plain_calls]: "calls (\<lambda>_. plain) (sys K Fork) (\<lambda>_. True)"
  by (intro calls_sys) (simp_all add: plain_def neutral_def)

lemma plain_waitpid [plain_calls]: "calls (\<lambda>_. plain) (waitpid_retry n K pid code) (\<lambda>_. True)"
proof (induction n)
  case (Suc n)
  show ?case by (subst waitpid_retry.simps) (auto intro!: io_calls Suc simp: plain_def neutral_def)
next
  case 0
  show ?case by (subst waitpid_retry.simps) (auto intro!: io_calls simp: plain_def neutral_def)
qed

lemma plain_stop_broker [plain_calls]: "calls (\<lambda>_. plain) (stop_broker K pid) (\<lambda>_. True)"
  unfolding stop_broker_def by (intro io_calls TrueI) (simp_all add: plain_def neutral_def)

lemma plain_rmdirs [plain_calls]: "calls (\<lambda>_. plain) (rmdirs K ps) (\<lambda>_. True)"
  by (induction ps) (auto intro!: io_calls simp: plain_def neutral_def)

lemma plain_rmdirs_and_fail [plain_calls]: "calls (\<lambda>_. plain) (rmdirs_and_fail K ps) (\<lambda>_. True)"
  unfolding rmdirs_and_fail_def by (intro io_calls calls_mono[OF plain_rmdirs] TrueI)

lemma routine_write: "calls (\<lambda>_. routine) (write_exact_file K p s) (\<lambda>_. True)"
  unfolding write_exact_file_def by (intro io_calls TrueI) simp_all

lemma routine_namespace: "calls (\<lambda>_. routine) (setup_mount_namespace K) (\<lambda>_. True)"
proof -
  have "calls (\<lambda>_. routine) (if b then State_Monad.return (-1) else write_exact_file K p s) (\<lambda>_. True)" for b p s
    by (intro calls_if calls_return routine_write TrueI)
  then show ?thesis
    unfolding setup_mount_namespace_def
    by (intro calls_bind calls_if calls_return calls_sys calls_errno calls_mono[OF routine_write] TrueI
        calls_mono[of _ "if _ then _ else _"]) simp_all
qed

lemma routine_or_exit:
  "routine e \<Longrightarrow> (\<And>r. calls (\<lambda>_. routine) (rest r) (\<lambda>_. True)) \<Longrightarrow> calls (\<lambda>_. routine) (or_exit (sys K e) rest) (\<lambda>_. True)"
  by (rule calls_or_exit_sys)

lemma routine_exit: "calls (\<lambda>_. routine) exit_errno (\<lambda>_. True)"
  unfolding exit_errno_def by (intro io_calls TrueI)

lemma routine_probe_bind:
  assumes "calls (\<lambda>_. routine) rest (\<lambda>_. True)"
  shows "calls (\<lambda>_. routine) (probe_bind K need s t rest) (\<lambda>_. True)"
proof -
  have "calls (\<lambda>_. routine) (probe_pivot K s rest) (\<lambda>_. True)"
    unfolding probe_pivot_def pivot_into_def join_path_def Let_def
    by (intro routine_or_exit calls_bind calls_if calls_return calls_errno calls_option routine_exit assms) simp_all
  then show ?thesis
    unfolding probe_bind_def by (intro routine_or_exit calls_or_exit_any calls_if calls_sys calls_return assms) simp_all
qed

lemma routine_probe_mount:
  "calls (\<lambda>_. routine) rest (\<lambda>_. True) \<Longrightarrow> calls (\<lambda>_. routine) (probe_mount K b fs t fl d rest) (\<lambda>_. True)"
  unfolding probe_mount_def by (intro routine_or_exit calls_if) simp_all

lemma routine_probe_api: "calls (\<lambda>_. routine) (probe_new_api K need t) (\<lambda>_. True)"
  unfolding probe_new_api_def by (intro routine_or_exit routine_exit io_calls TrueI) simp_all

lemma routine_probe: "calls (\<lambda>_. routine) (probe_child K need root) (\<lambda>_. True)"
  unfolding probe_child_def
  by (intro calls_or_exit_any routine_namespace routine_probe_bind routine_probe_mount routine_probe_api)

lemma plain_probe_dir:
  "calls (\<lambda>_. plain) rest (\<lambda>_. True) \<Longrightarrow> calls (\<lambda>_. plain) (probe_dir K p made rest) (\<lambda>_. True)"
  unfolding probe_dir_def
  by (intro io_calls calls_mono[OF plain_rmdirs] plain_rmdirs_and_fail TrueI) (simp_all add: plain_def neutral_def)

lemma plain_probe_bind_dirs:
  "calls (\<lambda>_. plain) rest (\<lambda>_. True) \<Longrightarrow> calls (\<lambda>_. plain) (probe_bind_dirs K root rest) (\<lambda>_. True)"
  unfolding probe_bind_dirs_def Let_def
  by (intro io_calls calls_mono[OF plain_rmdirs] plain_rmdirs_and_fail TrueI) (simp_all add: plain_def neutral_def)

lemma plain_probe_mounts: "calls (\<lambda>_. plain) (probe_mount_features v need) (\<lambda>_. True)"
proof -
  have rest: "calls (\<lambda>_. plain) (do {
         pid \<leftarrow> sys (e_kernel v) Fork;
         if pid < 0 then rmdirs_and_fail (e_kernel v) ds
         else do {
           code \<leftarrow> run_child (probe_child (e_kernel v) need root);
           status \<leftarrow> waitpid_retry (e_fuel v) (e_kernel v) pid code;
           case status of
             None \<Rightarrow> do { e \<leftarrow> get_errno; rmdirs (e_kernel v) ds; State_Monad.return e }
           | Some (Signaled s) \<Rightarrow> do { set_errno EPERM; rmdirs (e_kernel v) ds; State_Monad.return (-1) }
           | Some (Exited c) \<Rightarrow>
               if c \<noteq> 0 then do { set_errno c; rmdirs (e_kernel v) ds; State_Monad.return (-1) }
               else do { rmdirs (e_kernel v) ds; State_Monad.return 0 } } }) (\<lambda>_. True)" for ds root
    by (intro calls_bind calls_mono[OF plain_fork] calls_if plain_rmdirs_and_fail calls_mono[OF plain_child[OF routine_probe]]
        calls_mono[OF plain_waitpid] calls_option)
      (auto intro!: io_calls calls_mono[OF plain_rmdirs] split: wait_status.split)
  show ?thesis
    unfolding probe_mount_features_def Let_def
    by (rule calls_bind, rule calls_sysd)
      (auto simp: plain_def[of "Host _"] neutral_def intro!: calls_return plain_probe_dir plain_probe_bind_dirs rest)
qed

lemma plain_preflight [plain_calls]: "calls (\<lambda>_. plain) (run_preflight v ir) (\<lambda>_. True)"
  unfolding run_preflight_def preflight_notify_def landlockd_preflight_run_def landlock_probe_abi_def
    landlockd_preflight_probe_seccomp_user_notif_def Let_def
  by (intro io_calls calls_mono[OF plain_probe_mounts] TrueI)
    (simp_all add: plain_def neutral_def LANDLOCK_CREATE_RULESET_VERSION_def)

lemma traced_meet:
  assumes "traced E g f P" "traced F g f Q"
  shows "traced E g f (\<lambda>a g'. P a g' \<and> Q a g')"
  using assms unfolding traced_def case_prod_beta by (metis same_append_eq)

text \<open>Sequencing when nothing has to be known of the first result.\<close>

lemma calls_seq: "calls E f (\<lambda>_. True) \<Longrightarrow> (\<And>a. calls E (h a) R) \<Longrightarrow> calls E (State_Monad.bind f h) R"
  by (rule calls_bind, erule calls_mono) simp

lemma calls_each_io: "(\<And>x. calls E (f x) (\<lambda>_. True)) \<Longrightarrow> calls E (each_io f xs) (\<lambda>_. True)"
  by (induction xs) (auto intro!: calls_seq calls_option calls_return)

lemma plain_realpath: "calls (\<lambda>_. plain) (realpath K p) (\<lambda>_. True)"
  unfolding realpath_def by (intro io_calls TrueI) (simp_all add: plain_def neutral_def)

lemma plain_am: "calls (\<lambda>_. plain) (run_am f) (\<lambda>_. True)"
  by (intro calls_run_am[OF ensures_True] TrueI)

lemma plain_opt: "calls E f (\<lambda>_. True) \<Longrightarrow> (\<And>a. calls E (h a) (\<lambda>_. True)) \<Longrightarrow> calls E (opt_bind_io f h) (\<lambda>_. True)"
  by (rule calls_opt_bind, erule calls_mono) (simp split: option.split)

lemma plain_allowlist [plain_calls]: "calls (\<lambda>_. plain) (allowlist_init K ir) (\<lambda>_. True)"
proof -
  have list: "calls (\<lambda>_. plain) (if xs = [] then State_Monad.return (Some [])
      else opt_bind_io (run_am allocM) (\<lambda>_. each_io f xs)) (\<lambda>_. True)" if "\<And>x. calls (\<lambda>_. plain) (f x) (\<lambda>_. True)"
    for f :: "'b \<Rightarrow> 'c option io" and xs
    by (intro calls_if calls_return plain_opt plain_am calls_each_io that TrueI)
  note defs = canonicalize_rules_def canonicalize_bind_rules_def canonicalize_mount_object_rules_def
    canonicalize_addfd_rules_def canonicalize_bind_rule_def canonicalize_mount_object_rule_def canonicalize_addfd_rule_def
  show ?thesis
    unfolding allowlist_init_def defs
    by (intro plain_opt list plain_realpath plain_am calls_each_io calls_option calls_return TrueI)
qed

text \<open>Then those of the program's process before the exec.\<close>

lemma routine_sys: "routine e \<Longrightarrow> calls (\<lambda>_. routine) (sys K e) (\<lambda>_. True)" "routine e \<Longrightarrow> calls (\<lambda>_. routine) (sysd K e) (\<lambda>_. True)"
  by (intro calls_sys calls_sysd; simp)+

lemma routine_add_fs_rule: "calls (\<lambda>_. routine) (landlock_add_fs_rule K fd r fl) (\<lambda>_. True)"
  unfolding landlock_add_fs_rule_def landlock_add_rule_def
  by (auto intro!: calls_if calls_option calls_errno calls_seq routine_sys calls_return)

lemma routine_attach: "calls (\<lambda>_. routine) (attach_rules K p rs b) (\<lambda>_. True)"
proof (induction K p rs b rule: attach_rules.induct)
  case (2 K p fd r rs b)
  then show ?case
    unfolding attach_rules.simps
    by (auto intro!: calls_seq calls_if routine_sys routine_add_fs_rule calls_errno calls_return)
qed (auto intro!: io_calls)

lemmas routine_steps = calls_seq calls_if calls_option routine_sys calls_errno calls_return TrueI

lemma routine_or_fail:
  "calls E f (\<lambda>_. True) \<Longrightarrow> calls E rest (\<lambda>_. True) \<Longrightarrow> calls E (or_fail f rest) (\<lambda>_. True)"
  unfolding or_fail_def by (intro calls_seq calls_if calls_return TrueI)

lemma routine_bind_mount: "calls (\<lambda>_. routine) (apply_bind_mount K s t b ir fds) (\<lambda>_. True)"
  unfolding apply_bind_mount_def attach_mount_rules_def by (intro routine_steps routine_attach) simp_all

lemma calls_each_or_fail: "(\<And>x. calls E (f x) (\<lambda>_. True)) \<Longrightarrow> calls E (each_or_fail f xs) (\<lambda>_. True)"
  by (induction xs) (auto intro!: calls_seq calls_if calls_return)

lemma routine_mount_dir:
  assumes "\<And>d e. calls (\<lambda>_. plain) (audit d e) (\<lambda>_. True)"
  shows "calls (\<lambda>_. routine) (mount_dir v ir fds audit fs flags data path) (\<lambda>_. True)"
  unfolding mount_dir_def audit_and_fail_def attach_mount_rules_def Let_def
  by (intro routine_steps routine_attach plain_routine[OF assms]) simp_all

lemma routine_mounts: "calls (\<lambda>_. routine) (setup_policy_mounts v ir fds) (\<lambda>_. True)"
proof -
  have "calls (\<lambda>_. routine) (setup_bind_mount v ir fds r) (\<lambda>_. True)" for r
    unfolding setup_bind_mount_def audit_and_fail_def
    by (intro routine_steps routine_bind_mount plain_routine plain_audit)
  moreover have "calls (\<lambda>_. routine) (setup_runtime_root (e_kernel v) ir fds) (\<lambda>_. True)"
    unfolding setup_runtime_root_def enter_root_def bind_mount_self_def attach_mount_rules_def join_path_def Let_def
    by (intro routine_steps routine_or_fail routine_attach) simp_all
  moreover have "calls (\<lambda>_. routine) (setup_runtime_cwd (e_kernel v) ir) (\<lambda>_. True)"
    unfolding setup_runtime_cwd_def by (intro routine_steps routine_or_fail) simp_all
  ultimately show ?thesis
    unfolding setup_policy_mounts_def setup_tmpfs_mounts_def setup_bind_mounts_def setup_proc_mounts_def
    by (intro calls_if calls_return routine_or_fail routine_namespace calls_each_or_fail routine_mount_dir plain_audit TrueI)
qed

lemma routine_closes: "calls (\<lambda>_. routine) (closes K fds) (\<lambda>_. True)" "calls (\<lambda>_. routine) (close_fds K fds) (\<lambda>_. True)"
    "calls (\<lambda>_. routine) (close_if_open K fd) (\<lambda>_. True)"
  by (induction fds) (auto simp: close_if_open_def intro!: routine_steps)

lemma routine_path_rules:
  "calls (\<lambda>_. routine) cl (\<lambda>_. True) \<Longrightarrow> calls (\<lambda>_. routine) (add_path_rules K cl fd rs) (\<lambda>_. True)"
  by (induction rs) (auto intro!: routine_steps routine_add_fs_rule)

lemma routine_create:
  "calls (\<lambda>_. routine) (landlock_create_fs_ruleset K h out) (\<lambda>_. True)"
  "calls (\<lambda>_. routine) (landlock_create_net_ruleset K h out) (\<lambda>_. True)"
  unfolding landlock_create_fs_ruleset_def landlock_create_net_ruleset_def landlock_create_ruleset_for_abi_def
    landlock_create_ruleset_def landlock_abi_version_def landlock_probe_abi_def Let_def
  by (intro routine_steps; simp)+

lemma routine_layers: "calls (\<lambda>_. routine) (compile_fs_layers K (exec_cleanup_fs K) ls fds) (\<lambda>_. True)"
  by (induction ls arbitrary: fds)
    (auto simp: exec_cleanup_fs_def intro!: routine_steps routine_create routine_path_rules routine_closes)

lemma routine_compile_net: "calls (\<lambda>_. routine) (exec_compile_net K ir) (\<lambda>_. True)"
proof -
  have rules: "calls (\<lambda>_. routine) (add_net_rules K cl fd rs) (\<lambda>_. True)" if "calls (\<lambda>_. routine) cl (\<lambda>_. True)" for cl fd rs
    using that
    by (induction rs) (auto simp: landlock_add_net_rule_def landlock_add_rule_def intro!: routine_steps)
  then show ?thesis
    unfolding exec_compile_net_def Let_def by (auto intro!: routine_steps routine_create rules)
qed

subsection \<open>Compilation\<close>

lemma traced_of_wp:
  assumes "calls E f R" "\<And>w. wp f (\<lambda>r w'. \<forall>es. w_trace w' = w_trace w @ es \<longrightarrow> P r es) w"
  shows "traced E g f (\<lambda>r g'. \<exists>es. g' = g @ es \<and> P r es)"
proof (rule tracedI)
  fix w
  obtain a w' where f: "run_state f w = (a, w')" by fastforce
  have "traced E g f (\<lambda>a g'. set g \<subseteq> set g' \<and> R a)" using assms(1) unfolding calls_def by blast
  then obtain es where es: "w_trace w' = w_trace w @ es" "all_granted E g es" by (rule tracedD[OF _ f])
  have "P a es" using wp_run[OF assms(2) f] es(1) by blast
  with es f show "\<exists>es. w_trace (snd (run_state f w)) = w_trace w @ es \<and> all_granted E g es \<and>
      (\<exists>es'. g @ es = g @ es' \<and> P (fst (run_state f w)) es')" by auto
qed

lemma wp_all: "(\<And>x. wp f (Q x) w) \<Longrightarrow> wp f (\<lambda>r w'. \<forall>x. Q x r w') w"
  by (simp add: wp_def case_prod_beta)

lemma traced_compile_fs:
  "traced (\<lambda>_. routine) g (exec_compile_fs K ir) (\<lambda>r g'. \<exists>es. g' = g @ es \<and> (case r of
     None \<Rightarrow> \<forall>x. balance es x = 0 | Some fds \<Rightarrow> layer_events (exec_layers ir) fds es))"
proof -
  have "wp (compile_fs_layers K (exec_cleanup_fs K) (exec_layers ir) []) (\<lambda>r w'. \<forall>x. case r of
     Some fds \<Rightarrow> \<exists>es. w_trace w' = w_trace w @ es \<and> layer_events (exec_layers ir) fds es
   | None \<Rightarrow> balance (w_trace w') x = balance (w_trace w) x) w" for w
    by (rule wp_all, rule wp_mono[OF exec.fs_layers_ok]) (auto split: option.splits)
  from wp_mono[OF this] have "traced (\<lambda>_. routine) g (compile_fs_layers K (exec_cleanup_fs K) (exec_layers ir) [])
     (\<lambda>r g'. \<exists>es. g' = g @ es \<and> (case r of
     None \<Rightarrow> \<forall>x. balance es x = 0 | Some fds \<Rightarrow> layer_events (exec_layers ir) fds es))"
    by (rule traced_of_wp[OF routine_layers]) (auto split: option.splits)
  then show ?thesis
    unfolding exec_compile_fs_def
    by (intro traced_if traced_return traced_bind traced_run_am[OF ensures_True])
      (simp_all add: exec_layers_def traced_return)
qed

text \<open>The network layer of a policy as a list of at most one layer.\<close>

definition exec_net_layers :: "ir \<Rightarrow> (u64 \<times> ir_net_rule list) list" where
  "exec_net_layers ir = (if net_enabled ir then [(net_handled ir, exec_net_rules ir)] else [])"

definition net_fds :: "int \<Rightarrow> int list" where
  "net_fds fd = (if fd \<ge> 0 then [fd] else [])"

lemma traced_compile_net:
  "traced (\<lambda>_. routine) g (exec_compile_net K ir) (\<lambda>r g'. \<exists>es. g' = g @ es \<and> (case r of
     None \<Rightarrow> \<forall>x. balance es x = 0 | Some fd \<Rightarrow> net_layer_events (exec_net_layers ir) (net_fds fd) es))"
proof -
  let ?layers = "compile_net_layers K (exec_cleanup_fs K) (exec_net_layers ir) []"
  have bind_if: "State_Monad.bind (if b then f else g) h = (if b then State_Monad.bind f h else State_Monad.bind g h)"
    for b and f g :: "'b io" and h :: "'b \<Rightarrow> int option io" by simp
  have same: "do { e \<leftarrow> get_errno; _ \<leftarrow> set_errno e; f } = f" for f :: "int option io"
    by (rule state.expand) (simp add: get_errno_def set_errno_def fun_eq_iff)
  have code: "exec_compile_net K ir = do { r \<leftarrow> ?layers; State_Monad.return (map_option (\<lambda>fds. if fds = [] then -1 else hd fds) r) }"
    by (simp add: exec_compile_net_def exec_net_layers_def exec_cleanup_fs_def Let_def bind_if same
        if_distrib[of State_Monad.return] cong: if_cong)
  have "wp ?layers (\<lambda>r w'. \<forall>x. case r of
     Some fds \<Rightarrow> \<exists>es. w_trace w' = w_trace w @ es \<and> net_layer_events (exec_net_layers ir) fds es
   | None \<Rightarrow> balance (w_trace w') x = balance (w_trace w) x) w" for w
    by (rule wp_all, rule wp_mono[OF exec.net_layers_ok]) (auto split: option.splits)
  note layers = wp_mono[OF this]
  have one: "net_layer_events (exec_net_layers ir) [] es \<Longrightarrow> net_layer_events (exec_net_layers ir) (net_fds (-1)) es"
    "net_layer_events (exec_net_layers ir) fds es \<Longrightarrow> fds \<noteq> [] \<Longrightarrow> net_layer_events (exec_net_layers ir) (net_fds (hd fds)) es"
    for fds es by (auto simp: exec_net_layers_def net_fds_def split: if_splits)
  show ?thesis
    by (rule traced_of_wp[OF routine_compile_net], unfold code wp_bind wp_return, rule layers)
      (auto intro: one split: option.splits)
qed

subsection \<open>The confined process\<close>

text \<open>A call that succeeded, and one that returned a given value.\<close>

definition done_in :: "history \<Rightarrow> sysevent \<Rightarrow> bool" where
  "done_in g e \<longleftrightarrow> (\<exists>n d. (e, Done n d) \<in> set g)"

definition gave :: "history \<Rightarrow> sysevent \<Rightarrow> int \<Rightarrow> bool" where
  "gave g e l \<longleftrightarrow> (\<exists>n d. l = int n \<and> (e, Done n d) \<in> set g)"

lemma done_in_simps [simp]:
  "\<not> done_in [] e" "done_in ((e', Done n d) # g) e \<longleftrightarrow> e = e' \<or> done_in g e" "done_in ((e', Fail x) # g) e \<longleftrightarrow> done_in g e"
  "done_in (g @ h) e \<longleftrightarrow> done_in g e \<or> done_in h e"
  by (auto simp: done_in_def)

lemma gave_simps [simp]:
  "\<not> gave [] e l" "gave ((e', Done n d) # g) e l \<longleftrightarrow> e = e' \<and> l = int n \<or> gave g e l" "gave ((e', Fail x) # g) e l \<longleftrightarrow> gave g e l"
  "gave (g @ h) e l \<longleftrightarrow> gave g e l \<or> gave h e l"
  by (auto simp: gave_def)

lemma done_in_mono: "done_in g e \<Longrightarrow> set g \<subseteq> set h \<Longrightarrow> done_in h e"
  unfolding done_in_def by blast

lemma gave_mono: "gave g e l \<Longrightarrow> set g \<subseteq> set h \<Longrightarrow> gave h e l"
  unfolding gave_def by blast

lemma done_in_child [simp]: "done_in (in_child h) (InChild e) \<longleftrightarrow> done_in h e" "gave (in_child h) (InChild e) l \<longleftrightarrow> gave h e l"
  by (force simp: done_in_def gave_def in_child_def)+

text \<open>What the child's own calls must show before the exec: the deny list, the notification filter with
  its listener, and every ruleset enforced under no_new_privs.\<close>

definition filters_in :: "seccomp_plan option \<Rightarrow> seccomp_plan option \<Rightarrow> u16 \<Rightarrow> int \<Rightarrow> history \<Rightarrow> bool" where
  "filters_in notify_plan deny_plan err l h \<longleftrightarrow>
     (plan_given deny_plan \<longrightarrow> done_in h (SeccompSetModeFilter 0 (deny_filter err (the deny_plan)))) \<and>
     (plan_given notify_plan \<longrightarrow>
       gave h (SeccompSetModeFilter SECCOMP_FILTER_FLAG_NEW_LISTENER (notify_filter (the notify_plan))) l)"

definition enforced :: "int list \<Rightarrow> history \<Rightarrow> bool" where
  "enforced fds h \<longleftrightarrow> (\<forall>fd \<in> set fds. done_in h (LandlockRestrictSelf fd 0)) \<and>
     (fds \<noteq> [] \<longrightarrow> done_in h (Prctl PR_SET_NO_NEW_PRIVS 1))"

lemma filters_in_mono: "filters_in np dp err l g \<Longrightarrow> set g \<subseteq> set h \<Longrightarrow> filters_in np dp err l h"
  unfolding filters_in_def using done_in_mono gave_mono by blast

lemma enforced_mono: "enforced fds g \<Longrightarrow> set g \<subseteq> set h \<Longrightarrow> enforced fds h"
  unfolding enforced_def using done_in_mono by blast

lemma enforced_append: "enforced fds g \<Longrightarrow> enforced gds g \<Longrightarrow> enforced (fds @ gds) g"
  unfolding enforced_def by auto

lemma traced_install_filters:
  assumes "\<And>l g'. set g \<subseteq> set g' \<Longrightarrow> filters_in notify_plan deny_plan err l g' \<Longrightarrow> Q (Some l) g'"
    and "\<And>g'. Q None g'"
  shows "traced (\<lambda>_. routine) g (install_filters K notify_plan deny_plan err) Q"
  unfolding install_filters_def landlockd_set_no_new_privs_def seccomp_install_denylist_def seccomp_install_def
  by (intro io_traced) (auto simp: plan_given_def filters_in_def intro!: assms split: option.splits)

lemma traced_apply_sandbox:
  assumes "\<And>g'. set g \<subseteq> set g' \<Longrightarrow> enforced [fd] g' \<Longrightarrow> Q 0 g'" "\<And>g'. Q (-1) g'"
  shows "traced (\<lambda>_. routine) g (landlockd_apply_sandbox K fd 0) Q"
proof -
  have warned: "traced E g e2big_warned Q" if "\<And>b. Q b g" for E g Q using that by (simp add: traced_def e2big_warned_def)
  have warn: "traced E g set_e2big_warned Q" if "Q () g" for E g Q using that by (simp add: traced_def set_e2big_warned_def)
  show ?thesis
    unfolding landlockd_apply_sandbox_def landlock_restrict_self_with_no_new_privs_def landlockd_set_no_new_privs_def
      landlock_restrict_self_def
    by (intro io_traced warned warn) (auto simp: enforced_def intro!: assms)
qed

text \<open>A step that returns 0 with \<open>P\<close> established or -1.\<close>

lemma traced_or_fail:
  assumes "\<And>R :: int \<Rightarrow> history \<Rightarrow> bool. (\<And>g'. P g' \<Longrightarrow> R 0 g') \<Longrightarrow> (\<And>g'. R (-1) g') \<Longrightarrow> traced E g f R"
    and "\<And>g'. P g' \<Longrightarrow> traced E g' rest Q" "\<And>g'. Q (-1) g'"
  shows "traced E g (or_fail f rest) Q"
  unfolding or_fail_def by (rule traced_bind, rule assms(1)) (simp_all add: assms(2,3) traced_return)

lemma traced_restrict_layers:
  assumes "\<And>g'. set g \<subseteq> set g' \<Longrightarrow> enforced fds g' \<Longrightarrow> Q 0 g'" "\<And>g'. Q (-1) g'"
  shows "traced (\<lambda>_. routine) g (restrict_layers K fds) Q"
  using assms
proof (induction fds arbitrary: g)
  case (Cons fd fds)
  have "Q 0 g2" if "set g \<subseteq> set g1 \<and> enforced [fd] g1" "set g1 \<subseteq> set g2" "enforced fds g2" for g1 g2
    using that enforced_append[of "[fd]" g2 fds] enforced_mono[of "[fd]" g1 g2] by (intro Cons.prems(1)) auto
  then show ?case
    unfolding restrict_layers.simps
    by (intro traced_or_fail[where P = "\<lambda>g'. set g \<subseteq> set g' \<and> enforced [fd] g'"] traced_apply_sandbox Cons.IH)
      (simp_all add: Cons.prems(2))
qed (simp add: traced_return enforced_def)

lemma traced_quiet:
  "calls (\<lambda>_. routine) f R \<Longrightarrow> (\<And>a g'. set g \<subseteq> set g' \<Longrightarrow> Q a g') \<Longrightarrow> traced (\<lambda>_. routine) g f Q"
  by (erule traced_calls) simp

definition restricted_as :: "int list \<Rightarrow> seccomp_plan option \<Rightarrow> seccomp_plan option \<Rightarrow> u16 \<Rightarrow> int \<Rightarrow> history \<Rightarrow> bool" where
  "restricted_as fds notify_plan deny_plan err sock h \<longleftrightarrow> enforced fds h \<and>
     (\<exists>l. filters_in notify_plan deny_plan err l h \<and> (sock \<ge> 0 \<longrightarrow> done_in h (SendFd sock l)))"

lemma restricted_as_mono: "restricted_as fds np dp err sock g \<Longrightarrow> set g \<subseteq> set h \<Longrightarrow> restricted_as fds np dp err sock h"
  unfolding restricted_as_def using enforced_mono filters_in_mono done_in_mono by meson

lemma traced_apply_policy:
  assumes "\<And>g'. restricted_as (fds @ net_fds net) notify_plan deny_plan err sock g' \<Longrightarrow> Q 0 g'" "\<And>g'. Q (-1) g'"
  shows "traced (\<lambda>_. routine) g (apply_policy_in_child K fds net notify_plan deny_plan err sock) Q"
proof -
  let ?P = "\<lambda>l h. filters_in notify_plan deny_plan err l h \<and> (sock \<ge> 0 \<longrightarrow> done_in h (SendFd sock l))"
  have P_mono: "?P l g1 \<Longrightarrow> set g1 \<subseteq> set g2 \<Longrightarrow> ?P l g2" for l g1 g2 using filters_in_mono done_in_mono by blast
  have net: "traced (\<lambda>_. routine) g1 (restrict_net K net) R"
    if "\<And>g'. set g1 \<subseteq> set g' \<Longrightarrow> enforced (net_fds net) g' \<Longrightarrow> R 0 g'" "\<And>g'. R (-1) g'" for g1 R
    unfolding restrict_net_def
    by (intro traced_if traced_apply_sandbox traced_return that) (simp_all add: net_fds_def enforced_def)
  have ok: "restricted_as (fds @ net_fds net) notify_plan deny_plan err sock g4"
    if "?P l g1" "set g1 \<subseteq> set g2" "enforced fds g2" "set g2 \<subseteq> set g3" "enforced (net_fds net) g3" "set g3 \<subseteq> set g4"
    for l g1 g2 g3 g4
  proof -
    have "set g1 \<subseteq> set g4" "set g2 \<subseteq> set g4" using that by auto
    then show ?thesis
      unfolding restricted_as_def using that P_mono enforced_append[of fds g4 "net_fds net"] enforced_mono by blast
  qed
  have rest: "traced (\<lambda>_. routine) g1 (or_fail (restrict_layers K fds) (or_fail (restrict_net K net) (do {
       (if sock < 0 then close_if_open K l else State_Monad.return ());
       State_Monad.return 0 }))) Q" if P: "?P l g1" for l g1
  proof (rule traced_or_fail[where P = "\<lambda>g'. set g1 \<subseteq> set g' \<and> enforced fds g'"], goal_cases)
    case (2 g2)
    note g2 = 2
    show ?case
    proof (rule traced_or_fail[where P = "\<lambda>g'. set g2 \<subseteq> set g' \<and> enforced (net_fds net) g'"], goal_cases)
      case (2 g3)
      show ?case
        by (intro traced_bind traced_if traced_return traced_quiet[OF routine_closes(3)] assms(1))
          (use g2 2 ok[OF P, of g2 g3] in auto)
    qed (simp_all add: assms(2) net)
  qed (simp_all add: assms(2) traced_restrict_layers)
  have sent: "traced (\<lambda>_. routine) g1 (send_fd K sock l) R"
    if "\<And>r g'. set g1 \<subseteq> set g' \<Longrightarrow> (r \<ge> 0 \<Longrightarrow> done_in g' (SendFd sock l)) \<Longrightarrow> R r g'" for g1 R l
    unfolding send_fd_def by (intro io_traced) (auto intro!: that)
  show ?thesis
    unfolding apply_policy_in_child_def
    by (intro traced_bind traced_install_filters traced_option traced_if traced_return traced_fail_with sent
        traced_quiet[OF routine_closes(1)] rest)
      (auto intro: assms(2), (meson filters_in_mono done_in_mono)+)
qed

lemma program_restricted:
  assumes "np = (if plan_count notify_plan > 0 then Some notify_plan else None)"
    and "dp = (if plan_count deny_plan > 0 then Some deny_plan else None)"
    and "err = (if seccomp_enabled ir then seccomp_errno ir else 1)"
  shows "traced (\<lambda>h e. routine e \<or> e = Host (Execvp (hd argv) argv) \<and> restricted_as (fds @ net_fds net) np dp err sock h)
     g (program_process v ir fds net notify_plan deny_plan sock argv) (\<lambda>_ _. True)"
proof -
  let ?E = "\<lambda>h e. routine e \<or> e = Host (Execvp (hd argv) argv) \<and> restricted_as (fds @ net_fds net) np dp err sock h"
  have quiet: "traced ?E g f Q" if "calls (\<lambda>_. routine) f (\<lambda>_. True)" "\<And>a g'. set g \<subseteq> set g' \<Longrightarrow> Q a g'"
    for g Q and f :: "'b io" by (rule traced_weaken[OF traced_quiet[OF that]]) simp_all
  have closing: "calls (\<lambda>_. routine) (child_close_policy_fds K fds net) (\<lambda>_. True)" for K
    unfolding child_close_policy_fds_def by (intro calls_seq routine_closes)
  have policy: "traced ?E g (apply_policy_in_child K fds net np dp err sock) Q"
    if "\<And>g'. restricted_as (fds @ net_fds net) np dp err sock g' \<Longrightarrow> Q 0 g'" "\<And>g'. Q (-1) g'" for g K Q
    by (rule traced_weaken[OF traced_apply_policy[OF that]]) simp_all
  show ?thesis
    unfolding program_process_def Let_def assms[symmetric]
    by (intro traced_bind quiet[OF routine_mounts] traced_if traced_return TrueI policy quiet[OF closing] traced_sys disjI2 conjI)
      (auto elim: restricted_as_mono)
qed

subsection \<open>What confinement means for a policy\<close>

definition within :: "history \<Rightarrow> history \<Rightarrow> bool" where
  "within es g \<longleftrightarrow> (\<exists>g1 g2. g = g1 @ es @ g2)"

lemma within_append: "within es g \<Longrightarrow> within es (g @ h)"
  unfolding within_def by (metis append.assoc)

lemma within_trans: "within es g \<Longrightarrow> within g h \<Longrightarrow> within es h"
  unfolding within_def by (metis append.assoc)

text \<open>The program's process refuses the call with \<open>err\<close>; or it asks the broker, which holds the listener,
  having been sent it over a socket pair.\<close>

definition denied :: "history \<Rightarrow> u16 \<Rightarrow> int \<Rightarrow> bool" where
  "denied g err nr \<longleftrightarrow> (\<exists>prog. done_in g (InChild (SeccompSetModeFilter 0 prog)) \<and>
     (\<forall>rest. verdict prog rest (word_of_int nr) = Some (SECCOMP_RET_ERRNO OR ucast err)))"

definition notified :: "history \<Rightarrow> int \<Rightarrow> bool" where
  "notified g nr \<longleftrightarrow> (\<exists>prog l s0 sd. gave g (InChild (SeccompSetModeFilter SECCOMP_FILTER_FLAG_NEW_LISTENER prog)) l \<and>
     (\<forall>rest. verdict prog rest (word_of_int nr) = Some SECCOMP_RET_USER_NOTIF) \<and>
     (Socketpair, Done s0 sd) \<in> set g \<and> done_in g (InChild (SendFd (int (le_val sd)) l)))"

definition deny_errno :: "ir \<Rightarrow> u16" where
  "deny_errno ir = (if seccomp_enabled ir then seccomp_errno ir else 1)"

text \<open>The calls that must go to the broker.\<close>

definition brokered_syscalls :: "ir \<Rightarrow> int list" where
  "brokered_syscalls ir = (if wants_broker ir then [SYS_openat, SYS_openat2] @
     (if broker_scratch ir \<noteq> [] \<or> broker_export ir \<noteq> []
      then [SYS_mkdirat, SYS_unlinkat, SYS_renameat2, SYS_symlinkat, SYS_linkat] else []) else [])"

text \<open>The rulesets were compiled from the layers of the policy and nothing else, and the process is under
  every one of them; the filters refuse or forward what the policy says.\<close>

definition confined :: "ir \<Rightarrow> history \<Rightarrow> bool" where
  "confined ir g \<longleftrightarrow>
     (\<exists>fds es. layer_events (exec_layers ir) fds es \<and> within es g \<and>
       (\<forall>fd \<in> set fds. done_in g (InChild (LandlockRestrictSelf fd 0)))) \<and>
     (\<exists>fds es. net_layer_events (exec_net_layers ir) fds es \<and> within es g \<and>
       (\<forall>fd \<in> set fds. done_in g (InChild (LandlockRestrictSelf fd 0)))) \<and>
     (\<forall>nr \<in> set (deny_policy_syscalls ir). denied g (deny_errno ir) nr) \<and>
     (need_mount_namespace ir \<longrightarrow> (\<forall>nr \<in> set namespace_syscalls. denied g (deny_errno ir) nr \<or> notified g nr)) \<and>
     (\<forall>nr \<in> set (brokered_syscalls ir). notified g nr)"

lemma plan_add_all_ok:
  "plan_add_all p nrs = Inr p' \<Longrightarrow> plan_wf p \<Longrightarrow>
     plan_wf p' \<and> plan_nrs p' = plan_nrs p @ map word_of_int nrs \<and> plan_count p' = plan_count p + length nrs"
proof (induction nrs arbitrary: p)
  case (Cons nr nrs)
  then obtain p1 where p1: "plan_add (Some p) nr = Inr p1" "plan_add_all p1 nrs = Inr p'" by (auto split: sum.splits)
  moreover have "plan_count p1 = plan_count p + 1" using p1(1) by (auto simp: plan_add_def split: if_splits)
  ultimately show ?case using Cons.IH[OF p1(2)] Cons.prems plan_add_wf plan_add_nrs by fastforce
qed simp

definition plan_option :: "seccomp_plan \<Rightarrow> seccomp_plan option" where
  "plan_option p = (if plan_count p > 0 then Some p else None)"

lemma plan_option_given:
  assumes "plan_add_all plan_local nrs = Inr p" "nr \<in> set nrs"
  shows "plan_given (plan_option p)" "the (plan_option p) = p" "plan_wf p" "word_of_int nr \<in> set (plan_nrs p)"
  using plan_add_all_ok[OF assms(1)] assms(2) by (auto simp: plan_given_def plan_option_def)

text \<open>Before the program is forked: \<open>A\<close> is the allowlist, \<open>sock\<close> the program's end of the socket pair.\<close>

definition prepared :: "ir \<Rightarrow> allowlist \<Rightarrow> int list \<Rightarrow> int \<Rightarrow> int \<Rightarrow> history \<Rightarrow> bool" where
  "prepared ir A fds net sock g \<longleftrightarrow>
     (\<exists>es. layer_events (exec_layers ir) fds es \<and> within es g) \<and>
     (\<exists>es. net_layer_events (exec_net_layers ir) (net_fds net) es \<and> within es g) \<and>
     (\<exists>h. allowlist_of h ir A) \<and>
     (broker_active A \<longrightarrow> (\<exists>s0 sd. (Socketpair, Done s0 sd) \<in> set g \<and> sock = int (le_val sd)))"

lemma list_all2_empty: "list_all2 P xs ys \<Longrightarrow> ys = [] \<longleftrightarrow> xs = []"
  by (auto dest: list_all2_lengthD)

lemma allowlist_empty:
  assumes "allowlist_of h ir A"
  shows "broker_active A \<longleftrightarrow> wants_broker ir" "scratch_paths A = [] \<longleftrightarrow> broker_scratch ir = []"
    "export_paths A = [] \<longleftrightarrow> broker_export ir = []"
  using assms list_all2_empty unfolding allowlist_of_def broker_active_def wants_broker_def broker_mounts_def by metis+

lemma restricted_confined:
  assumes p: "prepared ir A fds net sock g" and N: "plan_add_all plan_local (notify_syscalls ir A) = Inr np"
    and D: "plan_add_all plan_local (deny_mount_syscalls ir A @ deny_policy_syscalls ir) = Inr dp"
    and r: "restricted_as (fds @ net_fds net) (plan_option np) (plan_option dp) (deny_errno ir) sock h"
  shows "confined ir (g @ in_child h)"
proof -
  obtain ha where A: "allowlist_of ha ir A" using p unfolding prepared_def by blast
  obtain l where l: "filters_in (plan_option np) (plan_option dp) (deny_errno ir) l h" "sock \<ge> 0 \<longrightarrow> done_in h (SendFd sock l)"
    and e: "enforced (fds @ net_fds net) h" using r unfolding restricted_as_def by blast
  have deny: "denied (g @ in_child h) (deny_errno ir) nr" if "nr \<in> set (deny_mount_syscalls ir A @ deny_policy_syscalls ir)" for nr
    using plan_option_given[OF D that] l(1) deny.verdict_emit[of dp "deny_errno ir"]
    unfolding denied_def filters_in_def by (intro exI[of _ "deny_filter (deny_errno ir) dp"]) simp
  have notify: "notified (g @ in_child h) nr" if nr: "nr \<in> set (notify_syscalls ir A)" for nr
  proof -
    have "broker_active A" using nr by (auto simp: notify_syscalls_def broker_active_def split: if_splits)
    then obtain s0 sd where s: "(Socketpair, Done s0 sd) \<in> set g" "sock = int (le_val sd)"
      using p unfolding prepared_def by blast
    show ?thesis
      using plan_option_given[OF N nr] l notify.verdict_emit[of np] s unfolding notified_def filters_in_def
      by (intro exI[of _ "notify_filter np"] exI[of _ l] exI[of _ s0] exI[of _ sd]) simp
  qed
  have b: "set (brokered_syscalls ir) \<subseteq> set (notify_syscalls ir A)"
    using allowlist_empty[OF A] by (auto simp: brokered_syscalls_def notify_syscalls_def)
  have m: "need_mount_namespace ir \<Longrightarrow> nr \<in> set namespace_syscalls \<Longrightarrow>
      nr \<in> set (notify_syscalls ir A) \<or> nr \<in> set (deny_mount_syscalls ir A)" for nr
    by (auto simp: notify_syscalls_def deny_mount_syscalls_def)
  have on: "done_in (g @ in_child h) (InChild (LandlockRestrictSelf fd 0))" if "fd \<in> set fds \<or> fd \<in> set (net_fds net)" for fd
    using e that by (auto simp: enforced_def)
  obtain es ns where es: "layer_events (exec_layers ir) fds es" "within es g"
    and ns: "net_layer_events (exec_net_layers ir) (net_fds net) ns" "within ns g"
    using p unfolding prepared_def by blast
  show ?thesis
    unfolding confined_def
  proof (intro conjI ballI impI)
    show "\<exists>fds es. layer_events (exec_layers ir) fds es \<and> within es (g @ in_child h) \<and>
        (\<forall>fd \<in> set fds. done_in (g @ in_child h) (InChild (LandlockRestrictSelf fd 0)))"
      using es on within_append by blast
    show "\<exists>fds es. net_layer_events (exec_net_layers ir) fds es \<and> within es (g @ in_child h) \<and>
        (\<forall>fd \<in> set fds. done_in (g @ in_child h) (InChild (LandlockRestrictSelf fd 0)))"
      using ns on within_append by blast
  qed (use b m deny notify in auto)
qed

subsection \<open>The program runs confined\<close>

definition run_granted :: "ir \<Rightarrow> string list \<Rightarrow> history \<Rightarrow> sysevent \<Rightarrow> bool" where
  "run_granted ir argv g e \<longleftrightarrow> routine e \<or> e = InChild (Host (Execvp (hd argv) argv)) \<and> confined ir g"

lemma granted_quiet: "calls (\<lambda>_. routine) f R \<Longrightarrow> calls (run_granted ir argv) f R"
  by (erule calls_weaken) (simp add: run_granted_def)

lemma granted_plain: "calls (\<lambda>_. plain) f R \<Longrightarrow> calls (run_granted ir argv) f R"
  by (rule granted_quiet, rule plain_routine)

lemma routine_release: "calls (\<lambda>_. routine) (release K fds net) (\<lambda>_. True)"
  unfolding release_def exec_cleanup_fs_def by (intro calls_seq routine_closes)

lemma routine_give_up:
  "calls (\<lambda>_. routine) before (\<lambda>_. True) \<Longrightarrow> calls (\<lambda>_. routine) (give_up K before fds net) (\<lambda>_. True)"
  unfolding give_up_def by (intro calls_seq routine_release calls_errno calls_return TrueI)

lemma routine_set_failure: "calls (\<lambda>_. routine) (set_failure f) (\<lambda>_. True)"
  unfolding set_failure_def by (auto intro!: io_calls split: failure.split)

lemma granted_program:
  assumes "prepared ir A fds net sock g" "plan_add_all plan_local (notify_syscalls ir A) = Inr np"
    and "plan_add_all plan_local (deny_mount_syscalls ir A @ deny_policy_syscalls ir) = Inr dp"
    and "\<And>a h. Q a (g @ in_child h)"
  shows "traced (run_granted ir argv) g (run_child (program_process v ir fds net np dp sock argv)) Q"
proof (rule traced_child, rule traced_weaken[OF program_restricted[OF refl refl refl]])
  fix h e
  assume "routine e \<or> e = Host (Execvp (hd argv) argv) \<and>
    restricted_as (fds @ net_fds net) (if plan_count np > 0 then Some np else None)
      (if plan_count dp > 0 then Some dp else None) (if seccomp_enabled ir then seccomp_errno ir else 1) sock h"
  then show "run_granted ir argv (g @ in_child h) (InChild e)"
    using restricted_confined[OF assms(1-3), unfolded plan_option_def deny_errno_def]
    unfolding run_granted_def by auto
qed (rule assms(4))

lemma plan_add_all_append:
  "plan_add_all p (xs @ ys) = (case plan_add_all p xs of Inl e \<Rightarrow> Inl e | Inr p' \<Rightarrow> plan_add_all p' ys)"
  by (induction xs arbitrary: p) (auto split: sum.split)

lemma prepared_snoc: "prepared ir A fds net sock g \<Longrightarrow> prepared ir A fds net sock (g @ h)"
  unfolding prepared_def using within_append by fastforce

lemma granted_run_program:
  assumes p: "prepared ir A fds net sock g" and N: "plan_add_all plan_local (notify_syscalls ir A) = Inr np"
    and D: "plan_add_all plan_local (deny_mount_syscalls ir A) = Inr dp"
  shows "traced (run_granted ir argv) g (run_program v ir label argv fds net np dp sock broker_pid) (\<lambda>_ _. True)"
proof -
  note quiet = granted_quiet[OF routine_closes(3)] granted_plain[OF plain_stop_broker] granted_quiet[OF routine_release]
    granted_plain[OF plain_audit(1)] granted_plain[OF plain_audit(2)] granted_plain[OF plain_waitpid]
    granted_quiet[OF routine_set_failure]
  have rest: "traced (run_granted ir argv) g' f (\<lambda>_ _. True)" if "calls (run_granted ir argv) f (\<lambda>_. True)"
    for g' and f :: "'b io" by (rule traced_calls[OF that]) simp
  have abandon: "calls (run_granted ir argv) (do { rc \<leftarrow> give_up (e_kernel v)
      (do { close_if_open (e_kernel v) sock; stop_broker (e_kernel v) broker_pid }) fds net;
      State_Monad.return (rc, None :: wait_status option) }) (\<lambda>_. True)"
    by (intro calls_seq granted_quiet[OF routine_give_up] routine_closes plain_routine plain_stop_broker calls_return TrueI)
  show ?thesis
  proof (cases "plan_add_all dp (deny_policy_syscalls ir)")
    case (Inl f)
    show ?thesis unfolding run_program_def Let_def Inl sum.case by (intro rest calls_seq quiet abandon)
  next
    case (Inr dp')
    have D': "plan_add_all plan_local (deny_mount_syscalls ir A @ deny_policy_syscalls ir) = Inr dp'"
      by (simp add: plan_add_all_append D Inr)
    have after: "traced (run_granted ir argv) g' (do {
           audit_run_start v pid label (hd argv);
           close_if_open (e_kernel v) sock;
           status \<leftarrow> waitpid_retry (e_fuel v) (e_kernel v) pid code;
           stop_broker (e_kernel v) broker_pid;
           release (e_kernel v) fds net;
           case status of None \<Rightarrow> State_Monad.return (1, None)
           | Some s \<Rightarrow> do {
               audit_run_exit v pid s;
               State_Monad.return (status_to_exit_code s, Some s) } }) (\<lambda>_ _. True)" for g' pid code
      by (intro rest calls_seq quiet calls_option calls_return TrueI)
    show ?thesis
      unfolding run_program_def Let_def Inr sum.case
      by (intro traced_bind traced_sys traced_if rest[OF abandon] granted_program[OF prepared_snoc[OF p] N D'] after)
        (simp_all add: run_granted_def)
  qed
qed

lemma granted_give_up:
  "calls (run_granted ir argv) (do { rc \<leftarrow> give_up K (State_Monad.return ()) fds net; State_Monad.return (rc, None :: wait_status option) }) (\<lambda>_. True)"
  "calls (run_granted ir argv) (do { rc \<leftarrow> give_up K (closes K gds) fds net; State_Monad.return (rc, None :: wait_status option) }) (\<lambda>_. True)"
  by (intro calls_seq granted_quiet[OF routine_give_up] routine_closes calls_return TrueI)+

lemma granted_start_broker:
  assumes p: "\<And>sock s0 sd g'. (Socketpair, Done s0 sd) \<in> set g' \<Longrightarrow> within g g' \<Longrightarrow> sock = int (le_val sd) \<Longrightarrow>
      prepared ir A fds net sock g'"
    and N: "plan_add_all plan_local (notify_syscalls ir A) = Inr np" and D: "plan_add_all plan_local (deny_mount_syscalls ir A) = Inr dp"
  shows "traced (run_granted ir argv) g (start_broker v ir label argv fds net np dp) (\<lambda>_ _. True)"
proof -
  have rest: "traced (run_granted ir argv) g' f (\<lambda>_ _. True)" if "calls (run_granted ir argv) f (\<lambda>_. True)"
    for g' and f :: "'b io" by (rule traced_calls[OF that]) simp
  have ok: "run_granted ir argv g' Socketpair" "run_granted ir argv g' Fork" "run_granted ir argv g' (Close fd)" for g' fd
    by (simp_all add: run_granted_def)
  have w: "within g (g @ xs)" for xs unfolding within_def by (metis append_Nil)
  show ?thesis
    unfolding start_broker_def Let_def
    by (intro traced_bind traced_sysd traced_sys traced_if rest[OF granted_give_up(1)] rest[OF granted_give_up(2)] ok
        granted_run_program[OF _ N D] p) (auto simp: w)
qed

lemma granted_rest: "calls (run_granted ir argv) f (\<lambda>_. True) \<Longrightarrow> traced (run_granted ir argv) g f (\<lambda>_ _. True)"
  by (erule traced_calls) simp

lemma granted_fs:
  assumes "\<And>g'. traced (run_granted ir argv) g' f (\<lambda>_ _. True)"
    and "\<And>fds es. layer_events (exec_layers ir) fds es \<Longrightarrow> traced (run_granted ir argv) (g @ es) (k fds) (\<lambda>_ _. True)"
  shows "traced (run_granted ir argv) g (do { r \<leftarrow> exec_compile_fs K ir; case r of None \<Rightarrow> f | Some fds \<Rightarrow> k fds }) (\<lambda>_ _. True)"
proof (rule traced_bind, rule traced_mono[OF traced_weaken[OF traced_compile_fs]], goal_cases)
  case (2 r g')
  then show ?case by (cases r) (auto simp: assms)
qed (simp add: run_granted_def)

lemma granted_net:
  assumes "\<And>g'. traced (run_granted ir argv) g' f (\<lambda>_ _. True)"
    and "\<And>fd es. net_layer_events (exec_net_layers ir) (net_fds fd) es \<Longrightarrow>
      traced (run_granted ir argv) (g @ es) (k fd) (\<lambda>_ _. True)"
  shows "traced (run_granted ir argv) g (do { r \<leftarrow> exec_compile_net K ir; case r of None \<Rightarrow> f | Some fd \<Rightarrow> k fd }) (\<lambda>_ _. True)"
proof (rule traced_bind, rule traced_mono[OF traced_weaken[OF traced_compile_net]], goal_cases)
  case (2 r g')
  then show ?case by (cases r) (auto simp: assms)
qed (simp add: run_granted_def)

lemma granted_allowlist:
  assumes "\<And>g'. traced (run_granted ir argv) g' f (\<lambda>_ _. True)"
    and "\<And>A es h. allowlist_of h ir A \<Longrightarrow> traced (run_granted ir argv) (g @ es) (k A) (\<lambda>_ _. True)"
  shows "traced (run_granted ir argv) g (do { r \<leftarrow> allowlist_init K ir; case r of None \<Rightarrow> f | Some A \<Rightarrow> k A }) (\<lambda>_ _. True)"
proof (rule traced_bind, rule traced_mono[OF traced_meet[OF traced_of_wp[OF granted_plain[OF plain_allowlist],
      where P = "\<lambda>_ _. True"] finds_allowlist[unfolded finds_def, THEN spec]]], goal_cases)
  case (2 r g')
  then show ?case by (cases r) (auto simp: assms)
qed (simp add: wp_def case_prod_beta)

lemma prepared_of:
  assumes "layer_events (exec_layers ir) fds es" "net_layer_events (exec_net_layers ir) (net_fds fd) ns" "allowlist_of h ir A"
    and "within ((g @ es) @ ns) g'" "broker_active A \<longrightarrow> (\<exists>s0 sd. (Socketpair, Done s0 sd) \<in> set g' \<and> sock = int (le_val sd))"
  shows "prepared ir A fds fd sock g'"
proof -
  have "\<exists>g1 g2. g' = g1 @ ((g @ es) @ ns) @ g2" using assms(4) unfolding within_def .
  then have "within es g'" "within ns g'" unfolding within_def by (metis append.assoc)+
  with assms show ?thesis unfolding prepared_def by blast
qed

lemma granted_launch:
  assumes known: "layer_events (exec_layers ir) fds es" "net_layer_events (exec_net_layers ir) (net_fds fd) ns" "allowlist_of h ir A"
  shows "traced (run_granted ir argv) (((g @ es) @ ns) @ as) (case plan_add_all plan_local (notify_syscalls ir A) of
          Inl f \<Rightarrow> do { set_failure f; rc \<leftarrow> give_up K (State_Monad.return ()) fds fd; State_Monad.return (rc, None) }
        | Inr np \<Rightarrow> (case plan_add_all plan_local (deny_mount_syscalls ir A) of
          Inl f \<Rightarrow> do { set_failure f; rc \<leftarrow> give_up K (State_Monad.return ()) fds fd; State_Monad.return (rc, None) }
        | Inr dp \<Rightarrow>
            if broker_active A then start_broker v ir label argv fds fd np dp
            else run_program v ir label argv fds fd np dp (-1) (-1))) (\<lambda>_ _. True)" (is "traced _ ?g _ _")
proof -
  have w: "within ((g @ es) @ ns) ?g" unfolding within_def by (metis append_Nil)
  have "traced (run_granted ir argv) ?g (start_broker v ir label argv fds fd np dp) (\<lambda>_ _. True)"
    if "broker_active A" "plan_add_all plan_local (notify_syscalls ir A) = Inr np"
      "plan_add_all plan_local (deny_mount_syscalls ir A) = Inr dp" for np dp
    by (rule granted_start_broker[OF _ that(2,3)], rule prepared_of[OF known within_trans[OF w]]) auto
  moreover have "traced (run_granted ir argv) ?g (run_program v ir label argv fds fd np dp (-1) (-1)) (\<lambda>_ _. True)"
    if "\<not> broker_active A" "plan_add_all plan_local (notify_syscalls ir A) = Inr np"
      "plan_add_all plan_local (deny_mount_syscalls ir A) = Inr dp" for np dp
    by (rule granted_run_program[OF _ that(2,3)], rule prepared_of[OF known w]) (simp add: that(1))
  moreover have "traced (run_granted ir argv) ?g (do { set_failure f; rc \<leftarrow> give_up K (State_Monad.return ()) fds fd;
      State_Monad.return (rc, None :: wait_status option) }) (\<lambda>_ _. True)" for f
    by (intro granted_rest calls_seq granted_quiet[OF routine_set_failure] granted_give_up)
  ultimately show ?thesis by (auto split: sum.split)
qed

lemma granted_run:
  "traced (run_granted ir argv) [] (run_policy_ir v ir label argv) (\<lambda>_ _. True)"
  unfolding run_policy_ir_def Let_def
  by (rule traced_if, intro traced_bind traced_set_errno traced_return TrueI,
      rule traced_bind, rule traced_calls[OF granted_plain[OF plain_preflight]], rule traced_if, rule traced_return, rule TrueI)
    (rule granted_fs, intro traced_return TrueI, rule granted_net, rule granted_rest[OF granted_give_up(1)], rule granted_allowlist,
      rule granted_rest[OF granted_give_up(1)], rule granted_launch)

text \<open>C4: Whatever the kernel answers, a run executes the program of its command line, in a child process, and
  only after that process has been confined: it is under every ruleset, each compiled from a layer
  of the policy; the system calls the policy denies are refused with its errno; in a mount namespace
  of its own every mount call is refused or goes to the broker; and with broker rules the calls they
  speak of go to the broker, which was sent the listener. Nothing else is ever executed.\<close>

theorem program_runs_confined:
  "traced (run_granted ir argv) [] (run_policy_ir v ir label argv) (\<lambda>_ _. True)"
  by (rule granted_run)

subsection \<open>Descriptors of a run\<close>

definition drop_fds :: "(int \<Rightarrow> int) \<Rightarrow> int list \<Rightarrow> int \<Rightarrow> int" where
  "drop_fds b fds = (\<lambda>x. b x - fd_count fds x)"

lemma drop_fds_append: "drop_fds (drop_fds b fds) gds = drop_fds b (fds @ gds)"
  by (simp add: drop_fds_def fun_eq_iff)

lemma traced_close_fds:
  assumes "\<And>g'. balance g' = drop_fds (balance g) fds \<Longrightarrow> Q () g'"
  shows "traced (\<lambda>_ _. True) g (close_fds K fds) Q"
  using assms
proof (induction fds arbitrary: g)
  case (Cons fd fds)
  show ?case
    unfolding close_fds.simps
    by (intro traced_if traced_bind traced_sys Cons.IH Cons.prems) (auto simp: drop_fds_def fun_eq_iff)
qed (simp add: traced_return drop_fds_def)

lemma traced_close_if_open:
  assumes "\<And>g'. balance g' = drop_fds (balance g) [fd] \<Longrightarrow> Q () g'"
  shows "traced (\<lambda>_ _. True) g (close_if_open K fd) Q"
proof -
  have "close_if_open K fd = close_fds K [fd]" by (simp add: close_if_open_def)
  then show ?thesis using traced_close_fds[of g "[fd]" Q, OF assms] by simp
qed

lemma traced_release:
  assumes "\<And>g'. balance g' = drop_fds (balance g) (fds @ [net]) \<Longrightarrow> Q () g'"
  shows "traced (\<lambda>_ _. True) g (release K fds net) Q"
  unfolding release_def exec_cleanup_fs_def
  by (intro traced_bind traced_close_fds traced_close_if_open assms) (simp add: drop_fds_append)

lemma traced_give_up:
  assumes "traced (\<lambda>_ _. True) g before (\<lambda>_ g'. balance g' = drop_fds (balance g) gds)"
    and "\<And>g'. balance g' = drop_fds (balance g) (gds @ fds @ [net]) \<Longrightarrow> Q 1 g'"
  shows "traced (\<lambda>_ _. True) g (give_up K before fds net) Q"
  unfolding give_up_def
  by (intro traced_bind traced_get_errno traced_mono[OF assms(1)] traced_release traced_set_errno traced_return assms(2))
    (simp add: drop_fds_append)

lemma traced_plain:
  assumes "calls (\<lambda>_. plain) f R" "\<And>a g'. balance g' = balance g \<Longrightarrow> R a \<Longrightarrow> Q a g'"
  shows "traced (\<lambda>_ _. True) g f Q"
  by (rule traced_neutral[OF plain_neutral[OF assms(1)]]) (rule assms(2))

lemma plain_set_failure [plain_calls]: "calls (\<lambda>_. plain) (set_failure f) (\<lambda>_. True)"
  unfolding set_failure_def by (auto intro!: io_calls split: failure.split)

lemma run_program_balance:
  "traced (\<lambda>_ _. True) g (run_program v ir label argv fds net np dp sock broker_pid)
     (\<lambda>_ g'. balance g' = drop_fds (balance g) (sock # fds @ [net]))"
proof -
  let ?Q = "\<lambda>_ :: int \<times> wait_status option. \<lambda>g'. balance g' = drop_fds (balance g) (sock # fds @ [net])"
  have abandon: "traced (\<lambda>_ _. True) g' (do { rc \<leftarrow> give_up (e_kernel v)
      (do { close_if_open (e_kernel v) sock; stop_broker (e_kernel v) broker_pid }) fds net;
      State_Monad.return (rc, None) }) ?Q" if "balance g' = balance g" for g'
    by (intro traced_bind traced_give_up[where gds = "[sock]"] traced_close_if_open traced_plain[OF plain_stop_broker]
        traced_return) (simp_all add: that)
  have wait: "traced (\<lambda>_ _. True) g' (run_child (program_process v ir fds net np p sock argv)) Q"
    if "\<And>a g''. balance g'' = balance g' \<Longrightarrow> Q a g''" for g' p Q
    by (rule traced_child_any) (rule that)
  show ?thesis
  proof (cases "plan_add_all dp (deny_policy_syscalls ir)")
    case (Inl f)
    show ?thesis
      unfolding run_program_def Let_def Inl sum.case by (intro traced_bind[of _ _ "set_failure f"] traced_plain[OF plain_set_failure] abandon)
  next
    case (Inr dp')
    show ?thesis
      unfolding run_program_def Let_def Inr sum.case
      apply (rule traced_bind, rule traced_plain[OF plain_fork], rule traced_if, erule abandon)
      by (intro traced_bind wait traced_plain[OF plain_audit(1)] traced_plain[OF plain_audit(2)] traced_close_if_open
          traced_plain[OF plain_waitpid] traced_plain[OF plain_stop_broker] traced_release traced_option traced_return)
        (simp_all add: drop_fds_append)
  qed
qed

lemma give_up_balance:
  "traced (\<lambda>_ _. True) g (do { rc \<leftarrow> give_up K (State_Monad.return ()) fds net; State_Monad.return (rc, None :: wait_status option) })
     (\<lambda>_ g'. balance g' = drop_fds (balance g) (fds @ [net]))"
  by (intro traced_bind traced_give_up[where gds = "[]"] traced_return) (simp_all add: drop_fds_def)

lemma start_broker_balance:
  "traced (\<lambda>_ _. True) g (start_broker v ir label argv fds net np dp) (\<lambda>_ g'. balance g' = drop_fds (balance g) (fds @ [net]))"
proof -
  let ?Q = "\<lambda>_ :: int \<times> wait_status option. \<lambda>g'. balance g' = drop_fds (balance g) (fds @ [net])"
  let ?pair = "\<lambda>n m. (\<lambda>x. balance g x + of_bool (x = int n) + of_bool (x = int m))"
  have both: "traced (\<lambda>_ _. True) g' (do { rc \<leftarrow> give_up K (closes K [int n, int m]) fds net; State_Monad.return (rc, None) }) ?Q"
    if "balance g' = ?pair n m" for g' K n m
    by (intro traced_bind traced_give_up[where gds = "[int n, int m]"] traced_closes traced_return)
      (simp_all add: that drop_fds_def fun_eq_iff)
  have one: "traced (\<lambda>_ _. True) g' (do { _ \<leftarrow> sys K (Close (int n)); run_program v ir label argv fds net np dp (int m) pid }) ?Q"
    if "balance g' = ?pair n m" for g' K n m pid
    by (rule traced_bind, rule traced_sys, simp)
      (rule traced_mono[OF run_program_balance], simp add: that drop_fds_def fun_eq_iff)+
  show ?thesis
    unfolding start_broker_def Let_def
  proof (rule traced_bind, rule traced_sysd, goal_cases)
    case (2 n d)
    have g: "balance (g @ [(Socketpair, Done n d)]) = ?pair n (le_val d)" by (simp add: fun_eq_iff)
    show ?case
      unfolding fst_conv snd_conv
      by (rule traced_if, simp, rule traced_bind, rule traced_plain[OF plain_fork], rule traced_if)
        (simp_all only: both one g)
  next
    case (3 er)
    have "balance (g @ [(Socketpair, Fail er)]) = balance g" by (simp add: fun_eq_iff)
    then show ?case using traced_mono[OF give_up_balance[of "g @ [(Socketpair, Fail er)]"]] by simp
  qed simp
qed

lemma launch_balance:
  "traced (\<lambda>_ _. True) g (case plan_add_all plan_local (notify_syscalls ir A) of
          Inl f \<Rightarrow> do { set_failure f; rc \<leftarrow> give_up K (State_Monad.return ()) fds net; State_Monad.return (rc, None) }
        | Inr np \<Rightarrow> (case plan_add_all plan_local (deny_mount_syscalls ir A) of
          Inl f \<Rightarrow> do { set_failure f; rc \<leftarrow> give_up K (State_Monad.return ()) fds net; State_Monad.return (rc, None) }
        | Inr dp \<Rightarrow>
            if broker_active A then start_broker v ir label argv fds net np dp
            else run_program v ir label argv fds net np dp (-1) (-1))) (\<lambda>_ g'. balance g' = drop_fds (balance g) (fds @ [net]))"
proof -
  have failed: "traced (\<lambda>_ _. True) g (do { set_failure f; rc \<leftarrow> give_up K (State_Monad.return ()) fds net; State_Monad.return (rc, None) })
      (\<lambda>_ :: int \<times> wait_status option. \<lambda>g'. balance g' = drop_fds (balance g) (fds @ [net]))" for f
    by (rule traced_bind, rule traced_plain[OF plain_set_failure], rule traced_mono[OF give_up_balance]) simp
  have direct: "traced (\<lambda>_ _. True) g (run_program v ir label argv fds net np dp (-1) (-1))
      (\<lambda>_ g'. balance g' = drop_fds (balance g) (fds @ [net]))" for np dp
    by (rule traced_mono[OF run_program_balance]) (simp add: drop_fds_def)
  show ?thesis using failed direct start_broker_balance by (auto split: sum.split)
qed

text \<open>C22: A run gives back every descriptor it takes, on every path and whatever the kernel answers: rulesets,
  rule paths, the probe's and the broker's socket are closed exactly once in the process that returns.\<close>

theorem run_keeps_descriptors:
  "traced (\<lambda>_ _. True) [] (run_policy_ir v ir label argv) (\<lambda>_ g. \<forall>x. balance g x = 0)"
proof -
  let ?Q = "\<lambda>_ :: int \<times> wait_status option. \<lambda>g :: history. \<forall>x. balance g x = 0"
  have fs: "traced (\<lambda>_ _. True) g (do { r \<leftarrow> exec_compile_fs K ir; case r of None \<Rightarrow> State_Monad.return (1, None) | Some fds \<Rightarrow> k fds }) ?Q"
    if "\<And>x. balance g x = 0" "\<And>fds g'. (\<And>x. balance g' x = fd_count fds x) \<Longrightarrow> traced (\<lambda>_ _. True) g' (k fds) ?Q" for g K k
  proof (rule traced_bind, rule traced_mono[OF traced_weaken[OF traced_compile_fs]], goal_cases)
    case (2 r g')
    then show ?case by (cases r) (auto simp: that layer_events_balance intro!: traced_return)
  qed simp
  have net: "traced (\<lambda>_ _. True) g (do { r \<leftarrow> exec_compile_net K ir; case r of None \<Rightarrow> do { rc \<leftarrow> give_up K' (State_Monad.return ()) fds (-1);
      State_Monad.return (rc, None) } | Some fd \<Rightarrow> k fd }) ?Q"
    if g: "\<And>x. balance g x = fd_count fds x" "\<And>fd g'. (\<And>x. balance g' x = fd_count (fds @ [fd]) x) \<Longrightarrow> traced (\<lambda>_ _. True) g' (k fd) ?Q"
    for g K K' fds k
  proof (rule traced_bind, rule traced_mono[OF traced_weaken[OF traced_compile_net]], goal_cases)
    case (2 r g')
    show ?case
    proof (cases r)
      case None
      show ?thesis
        unfolding None option.case by (rule traced_mono[OF give_up_balance]) (use 2 g in \<open>auto simp: None drop_fds_def\<close>)
    next
      case (Some fd)
      show ?thesis
        unfolding Some option.case by (rule g(2)) (use 2 g in \<open>auto simp: Some net_layer_events_balance net_fds_def\<close>)
    qed
  qed simp
  have finish: "traced (\<lambda>_ _. True) g f ?Q"
    if "traced (\<lambda>_ _. True) g f (\<lambda>_ g'. balance g' = drop_fds (balance g) fds)" "\<And>x. balance g x = fd_count fds x" for g f fds
    by (rule traced_mono[OF that(1)]) (simp add: drop_fds_def that(2))
  show ?thesis
    unfolding run_policy_ir_def Let_def
    apply (rule traced_if, intro traced_bind traced_set_errno traced_return, simp)
    apply (rule traced_bind, rule traced_plain[OF plain_preflight], rule traced_if, rule traced_return, simp)
    apply (rule fs, simp, rule net, assumption, rule traced_bind, rule traced_plain[OF plain_allowlist], rule traced_option)
     apply (rule finish[OF give_up_balance], simp)
    by (rule finish[OF launch_balance], simp)
qed

subsection \<open>The broker's process\<close>

definition hardened_as :: "int list \<Rightarrow> history \<Rightarrow> bool" where
  "hardened_as nrs k \<longleftrightarrow> (\<exists>n1 d1 n2 d2 prog.
     k = [(Prctl PR_SET_NO_NEW_PRIVS 1, Done n1 d1), (SeccompSetModeFilter 0 prog, Done n2 d2)] \<and>
     (\<forall>rest nr. verdict prog rest nr = Some (if nr \<in> word_of_int ` set nrs
        then SECCOMP_RET_ERRNO OR 1 else SECCOMP_RET_ALLOW)))"

definition hardening_call :: "sysevent \<Rightarrow> bool" where
  "hardening_call e \<longleftrightarrow> e = Prctl PR_SET_NO_NEW_PRIVS 1 \<or> (\<exists>p. e = SeccompSetModeFilter 0 p)"

text \<open>Having received the listener \<open>l\<close>, the process is in a session until it stops and closes it.\<close>

definition broker_life :: "env \<Rightarrow> allowlist \<Rightarrow> ir \<Rightarrow> int list \<Rightarrow> int \<Rightarrow> int option \<Rightarrow> history \<Rightarrow> bool" where
  "broker_life v A ir fds sock r h \<longleftrightarrow>
     (\<exists>er c. h = [(RecvFd sock, Fail er), (Close sock, c)] \<and> r = Some 1) \<or>
     (\<exists>l d c s t. h = (RecvFd sock, Done l d) # (Close sock, c) # s @ t \<and>
        session (v\<lparr>e_listener := int l\<rparr>) A ir fds s \<and>
        (if r = None then t = [] else \<exists>c. t = [(Close (int l), c)]))"

lemma serve_session:
  assumes "run_state (broker_serve n v A ir fds \<lparr>mount_leases = [], fsopen_leases = []\<rparr>) w = ((r, st), w')"
  obtains s where "w_trace w' = w_trace w @ s" "session v A ir fds s"
proof -
  have "leases_ok A [] \<lparr>mount_leases = [], fsopen_leases = []\<rparr>" by (simp add: leases_ok_def)
  from steps_session[OF serve_steps[OF assms] _ session.start this, of "w_trace w"] that show ?thesis by auto
qed

lemma wp_broker_hardening:
  "wp (seccomp_apply_broker_hardening K allow) (\<lambda>rc w'. \<exists>k. w_trace w' = w_trace w @ k \<and>
     (if rc < 0 then list_all (\<lambda>x. hardening_call (fst x)) k else hardened_as (broker_denied allow) k)) w"
proof -
  let ?nrs = "broker_denied allow"
  obtain p where p: "plan_add_all plan_local ?nrs = Inr p" "plan_count p = length ?nrs"
    "\<And>rest nr. verdict (deny_filter 1 p) rest nr = Some (if nr \<in> word_of_int ` set ?nrs
       then SECCOMP_RET_ERRNO OR ucast (1 :: u16) else SECCOMP_RET_ALLOW)"
    by (rule hardening_plan[of ?nrs 1])
      (auto simp: broker_denied_def mount_syscalls_def kernel_attack_syscalls_def MAX_EXCEPTIONS_def)
  have a: "add_hardening_syscalls plan_local allow = Inr p"
    using p(1) by (simp add: add_hardening_syscalls_def broker_denied_def kernel_attack_syscalls_def)
  have c: "0 < plan_count p" "plan_count p \<le> MAX_EXCEPTIONS"
    using p(2) by (auto simp: broker_denied_def mount_syscalls_def kernel_attack_syscalls_def MAX_EXCEPTIONS_def)
  show ?thesis
    using c p(3)
    by (simp add: seccomp_apply_broker_hardening_def landlockd_set_no_new_privs_def seccomp_install_denylist_def of_res_def a
        io_wp hardening_call_def hardened_as_def split: reply.splits)
qed

lemma loop_life:
  assumes "run_state (broker_loop n v sock A ir fds) w = (r, w')"
  obtains h where "w_trace w' = w_trace w @ h" "broker_life v A ir fds sock (map_option (\<lambda>r. if r = 0 then 0 else 1) r) h"
proof (cases "e_kernel v (w_trace w) (RecvFd sock)")
  case (Fail er)
  then show ?thesis
    using assms that[of "[(RecvFd sock, Fail er), (Close sock, c)]" for c]
    by (auto simp: broker_loop_def broker_life_def recv_fd_def sys_def sysd_def fail_with_def get_errno_def set_errno_def Let_def
        split: reply.splits)
next
  case (Done l d)
  let ?K = "e_kernel v" and ?v = "v\<lparr>e_listener := int l\<rparr>"
  obtain c w1 where c: "run_state (sys ?K (Close sock)) (w\<lparr>w_trace := w_trace w @ [(RecvFd sock, Done l d)]\<rparr>) = (c, w1)"
    by fastforce
  then obtain rc where w1: "w_trace w1 = w_trace w @ [(RecvFd sock, Done l d), (Close sock, rc)]"
    by (auto simp: sys_def sysd_def Let_def split: reply.splits)
  obtain rs st w2 where s: "run_state (broker_serve n ?v A ir fds \<lparr>mount_leases = [], fsopen_leases = []\<rparr>) w1 = ((rs, st), w2)"
    by (metis prod.collapse)
  obtain h where h: "w_trace w2 = w_trace w1 @ h" "session ?v A ir fds h" using serve_session[OF s] by blast
  have recv: "run_state (recv_fd ?K sock) w = (int l, w\<lparr>w_trace := w_trace w @ [(RecvFd sock, Done l d)]\<rparr>)"
    by (simp add: recv_fd_def sys_def sysd_def Done Let_def)
  show ?thesis
  proof (cases rs)
    case None
    then have "r = None" "w' = w2" using assms by (simp_all add: broker_loop_def recv c s Let_def)
    then show ?thesis using h w1
      by (intro that[of "(RecvFd sock, Done l d) # (Close sock, rc) # h"]) (auto simp: broker_life_def)
  next
    case (Some x)
    obtain y w3 where y: "run_state (sys ?K (Close (int l))) w2 = (y, w3)" by fastforce
    then obtain cl where cl: "w_trace w3 = w_trace w2 @ [(Close (int l), cl)]"
      by (auto simp: sys_def sysd_def Let_def split: reply.splits)
    have "r = Some x" "w' = w3" using assms by (simp_all add: broker_loop_def recv c s Let_def Some y)
    then show ?thesis using h w1 cl
      by (intro that[of "(RecvFd sock, Done l d) # (Close sock, rc) # h @ [(Close (int l), cl)]"]) (auto simp: broker_life_def)
  qed
qed

text \<open>C5: The process that serves the program closes the program's end of the socket and then hardens itself:
  without no_new_privs and a filter that refuses exactly the listed calls it receives nothing and
  ends; with them it receives the listener and is in a session, in which every call is one the
  policy permits for the request being served, until it closes the listener.\<close>

theorem broker_process_hardened:
  "case run_state (broker_process n v sock0 sock1 A ir fds) w of (r, w') \<Rightarrow>
     \<exists>c k h. w_trace w' = w_trace w @ (Close sock1, c) # k @ h \<and>
       (r = Some 1 \<and> h = [] \<and> list_all (\<lambda>x. hardening_call (fst x)) k \<or>
        hardened_as (broker_denied (broker_mounts A)) k \<and> broker_life v A ir fds sock0 r h)"
proof -
  let ?K = "e_kernel v"
  obtain x w1 where c: "run_state (sys ?K (Close sock1)) w = (x, w1)" by fastforce
  then obtain rc where w1: "w_trace w1 = w_trace w @ [(Close sock1, rc)]"
    by (auto simp: sys_def sysd_def Let_def split: reply.splits)
  obtain y w2 where y: "run_state (seccomp_apply_broker_hardening ?K (broker_mounts A)) w1 = (y, w2)" by fastforce
  obtain k where k: "w_trace w2 = w_trace w1 @ k"
    "if y < 0 then list_all (\<lambda>x. hardening_call (fst x)) k else hardened_as (broker_denied (broker_mounts A)) k"
    using wp_run[OF wp_broker_hardening y] by blast
  obtain r w3 where r: "run_state (broker_loop n v sock0 A ir fds) w2 = (r, w3)" by fastforce
  obtain h where h: "w_trace w3 = w_trace w2 @ h" "broker_life v A ir fds sock0 (map_option (\<lambda>r. if r = 0 then 0 else 1) r) h"
    by (rule loop_life[OF r])
  show ?thesis
    using w1 k h by (cases "y < 0") (auto simp: broker_process_def c y r)
qed

end
