(* ===== verification/Daemon.thy ===== *)
theory Daemon
  imports Confinement
begin

text \<open>
  The daemon (\<open>src/src/landlockd_daemon.c\<close>): a server that runs programs for clients of the same
  user, with a cache of loaded policies, and the client side of its protocol. The layouts of the
  protocol's structures are those of x86-64. The answer of \<open>stat\<close> holds st_mode in its first four
  bytes and then, eight bytes each, st_dev, st_ino, st_size and the two parts of st_mtim.

  Loops that wait carry fuel: one unit per attempt of a read or write and one per connection.
\<close>

subsection \<open>Constants and structures\<close>

definition DAEMON_MAGIC :: u32 where "DAEMON_MAGIC = 0x4c444344"
definition DAEMON_VERSION :: u32 where "DAEMON_VERSION = 1"
definition CMD_RUN :: u32 where "CMD_RUN = 1"
definition CMD_STOP :: u32 where "CMD_STOP = 2"
definition CMD_STATUS :: u32 where "CMD_STATUS = 3"
definition MAX_ARGS :: u32 where "MAX_ARGS = 128"
definition MAX_POLICY_LEN :: u32 where "MAX_POLICY_LEN = 16384"
definition MAX_ARG_LEN :: u32 where "MAX_ARG_LEN = 65535"
definition MAX_REQUEST_BYTES :: u32 where "MAX_REQUEST_BYTES = 1048576"
definition MAX_CACHE_ENTRIES :: nat where "MAX_CACHE_ENTRIES = 16"
definition SYSTEMD_FD_START :: int where "SYSTEMD_FD_START = 3"
definition SUN_PATH_SIZE :: nat where "SUN_PATH_SIZE = 108"

record request_header =
  h_magic :: u32
  h_version :: u32
  h_command :: u32
  h_argc :: u32
  h_policy_len :: u32

record daemon_response =
  p_magic :: u32
  p_version :: u32
  p_status :: u32
  p_error_value :: u32

record status_response =
  p_base :: daemon_response
  p_protocol_version :: u32
  p_cache_entries :: u32
  p_cache_hits :: u64
  p_cache_misses :: u64

text \<open>What identifies a version of a file: device, inode, size, seconds and nanoseconds.\<close>

type_synonym stamp = "nat list"

definition stamp_of :: "string \<Rightarrow> stamp" where
  "stamp_of st = map (\<lambda>i. le_val (take 8 (drop (4 + 8 * i) st))) [0..<5]"

definition no_stamp :: stamp where
  "no_stamp = [0, 0, 0, 0, 0]"

record cache_entry =
  c_file :: "string option"
  c_stamp :: stamp
  c_ir :: ir

record daemon_state =
  d_uid :: int
  d_entries :: nat
  d_hits :: u64
  d_misses :: u64
  d_cache :: "cache_entry list"

text \<open>Little-endian fields.\<close>

definition put32 :: "u32 \<Rightarrow> string" where "put32 x = le_bytes 4 (unat x)"
definition put64 :: "u64 \<Rightarrow> string" where "put64 x = le_bytes 8 (unat x)"

definition get32 :: "nat \<Rightarrow> string \<Rightarrow> u32" where
  "get32 off s = word_of_nat (le_val (take 4 (drop off s)))"

definition get64 :: "nat \<Rightarrow> string \<Rightarrow> u64" where
  "get64 off s = word_of_nat (le_val (take 8 (drop off s)))"

definition put_header :: "request_header \<Rightarrow> string" where
  "put_header h = put32 (h_magic h) @ put32 (h_version h) @ put32 (h_command h) @ put32 (h_argc h) @ put32 (h_policy_len h)"

definition get_header :: "string \<Rightarrow> request_header" where
  "get_header s = \<lparr>h_magic = get32 0 s, h_version = get32 4 s, h_command = get32 8 s, h_argc = get32 12 s,
     h_policy_len = get32 16 s\<rparr>"

definition put_response :: "daemon_response \<Rightarrow> string" where
  "put_response r = put32 (p_magic r) @ put32 (p_version r) @ put32 (p_status r) @ put32 (p_error_value r)"

definition get_response :: "string \<Rightarrow> daemon_response" where
  "get_response s = \<lparr>p_magic = get32 0 s, p_version = get32 4 s, p_status = get32 8 s, p_error_value = get32 12 s\<rparr>"

definition put_status_response :: "status_response \<Rightarrow> string" where
  "put_status_response r = put_response (p_base r) @ put32 (p_protocol_version r) @ put32 (p_cache_entries r) @
     put64 (p_cache_hits r) @ put64 (p_cache_misses r)"

definition get_status_response :: "string \<Rightarrow> status_response" where
  "get_status_response s = \<lparr>p_base = get_response s, p_protocol_version = get32 16 s, p_cache_entries = get32 20 s,
     p_cache_hits = get64 24 s, p_cache_misses = get64 32 s\<rparr>"

subsection \<open>Audit records\<close>

definition daemon_audit_listener :: "env \<Rightarrow> string \<Rightarrow> string option \<Rightarrow> string option \<Rightarrow> unit io" where
  "daemon_audit_listener v event socket_label mode = audit_own_event v event
     (FStr ''socket'' socket_label # (if mode \<noteq> None then [FStr ''mode'' mode] else []))"

definition daemon_audit_request :: "env \<Rightarrow> string \<Rightarrow> string option \<Rightarrow> u32 \<Rightarrow> unit io" where
  "daemon_audit_request v command policy_file argc = audit_own_event v ''daemon.request''
     ([FStr ''command'' (Some command)] @ (if policy_file \<noteq> None then [FStr ''policy_file'' policy_file] else []) @
      [FUint ''argc'' (unat argc)])"

definition daemon_audit_peer :: "env \<Rightarrow> int \<Rightarrow> int \<Rightarrow> string \<Rightarrow> unit io" where
  "daemon_audit_peer v uid pid decision = audit_event (e_fuel v) (e_kernel v) (e_diag v) ''daemon.peer''
     [FInt ''uid'' uid, FInt ''pid'' pid, FStr ''decision'' (Some decision)]"

subsection \<open>Whole reads and writes\<close>

text \<open>\<open>landlockd_daemon_write_all\<close> is the loop of the policy helper's \<open>write_all\<close>.\<close>

definition daemon_write_all :: "nat \<Rightarrow> kernel \<Rightarrow> int \<Rightarrow> string \<Rightarrow> int io" where
  "daemon_write_all n K fd s = write_all n K fd s"

fun daemon_read_all :: "nat \<Rightarrow> kernel \<Rightarrow> int \<Rightarrow> nat \<Rightarrow> (int \<times> string) io" where
  "daemon_read_all 0 K fd len = State_Monad.return (if len = 0 then 0 else -1, [])"
| "daemon_read_all (Suc n) K fd len = (if len = 0 then State_Monad.return (0, []) else do {
     r \<leftarrow> read_fd K fd len;
     if fst r = 0 then do { rc \<leftarrow> fail_with EPIPE; State_Monad.return (rc, []) }
     else if fst r < 0 then do {
       e \<leftarrow> get_errno;
       if e = EINTR then daemon_read_all n K fd len else State_Monad.return (-1, []) }
     else do {
       rest \<leftarrow> daemon_read_all n K fd (len - nat (fst r));
       State_Monad.return (fst rest, snd r @ snd rest) } })"

definition daemon_connect :: "kernel \<Rightarrow> string \<Rightarrow> int io" where
  "daemon_connect K socket_path = do {
     fd \<leftarrow> sys K (Host Socket);
     if fd < 0 then State_Monad.return (-1)
     else if length socket_path \<ge> SUN_PATH_SIZE then do { _ \<leftarrow> sys K (Close fd); fail_with ENAMETOOLONG }
     else do {
       r \<leftarrow> sys K (Host (Connect fd socket_path));
       if r < 0 then do { saved_errno \<leftarrow> get_errno; _ \<leftarrow> sys K (Close fd); fail_with saved_errno }
       else State_Monad.return fd } }"

definition daemon_send_response :: "env \<Rightarrow> int \<Rightarrow> int \<Rightarrow> int \<Rightarrow> int io" where
  "daemon_send_response v client_fd status error_value = daemon_write_all (e_fuel v) (e_kernel v) client_fd
     (put_response \<lparr>p_magic = DAEMON_MAGIC, p_version = DAEMON_VERSION, p_status = word_of_int status,
        p_error_value = word_of_int error_value\<rparr>)"

definition daemon_send_status_response :: "env \<Rightarrow> int \<Rightarrow> daemon_state \<Rightarrow> int io" where
  "daemon_send_status_response v client_fd st = daemon_write_all (e_fuel v) (e_kernel v) client_fd
     (put_status_response \<lparr>p_base = \<lparr>p_magic = DAEMON_MAGIC, p_version = DAEMON_VERSION, p_status = 0, p_error_value = 0\<rparr>,
        p_protocol_version = DAEMON_VERSION, p_cache_entries = word_of_nat (d_entries st), p_cache_hits = d_hits st,
        p_cache_misses = d_misses st\<rparr>)"

subsection \<open>The policy cache\<close>

definition cache_entry_reset :: "cache_entry \<Rightarrow> cache_entry" where
  "cache_entry_reset e = \<lparr>c_file = None, c_stamp = no_stamp, c_ir = ir_reset (c_ir e)\<rparr>"

definition initial_state :: "int \<Rightarrow> daemon_state" where
  "initial_state uid = \<lparr>d_uid = uid, d_entries = 0, d_hits = 0, d_misses = 0, d_cache = []\<rparr>"

definition cache_cleanup :: "daemon_state \<Rightarrow> daemon_state" where
  "cache_cleanup st = st\<lparr>d_cache := [], d_entries := 0\<rparr>"

definition cache_stat_matches :: "cache_entry \<Rightarrow> stamp \<Rightarrow> bool" where
  "cache_stat_matches e s \<longleftrightarrow> c_stamp e = s"

text \<open>\<open>Some\<close> entry: loaded. On failure the entry's policy has been reset.\<close>

definition cache_load_entry :: "env \<Rightarrow> string \<Rightarrow> string \<Rightarrow> string \<Rightarrow> stamp \<Rightarrow> cache_entry option io" where
  "cache_load_entry v c_path rust_path policy_file s = do {
     l \<leftarrow> policy_load_file (e_fuel v) (e_kernel v) c_path rust_path (Some policy_file) ir_init;
     if fst l < 0 then State_Monad.return None
     else do {
       name \<leftarrow> run_am (strdup policy_file);
       State_Monad.return (map_option (\<lambda>n. \<lparr>c_file = Some n, c_stamp = s, c_ir = snd l\<rparr>) name) } }"

definition cache_evict_tail :: "daemon_state \<Rightarrow> daemon_state" where
  "cache_evict_tail st = (if d_entries st < MAX_CACHE_ENTRIES then st
     else if d_cache st = [] then st
     else st\<lparr>d_cache := butlast (d_cache st), d_entries := d_entries st - 1\<rparr>)"

text \<open>The first entry of the file.\<close>

fun cache_find :: "string \<Rightarrow> cache_entry list \<Rightarrow> nat option" where
  "cache_find f [] = None"
| "cache_find f (e # es) = (if c_file e = Some f then Some 0 else map_option Suc (cache_find f es))"

text \<open>The search and the loads, once \<open>stat\<close> has said which version of the file there is.\<close>

definition cache_search ::
    "env \<Rightarrow> string \<Rightarrow> string \<Rightarrow> string \<Rightarrow> stamp \<Rightarrow> daemon_state \<Rightarrow> (ir option \<times> daemon_state) io" where
  "cache_search v c_path rust_path policy_file now st = (case cache_find policy_file (d_cache st) of
     Some i \<Rightarrow>
       (let e = d_cache st ! i in
        if cache_stat_matches e now then State_Monad.return (Some (c_ir e), st\<lparr>d_hits := d_hits st + 1\<rparr>)
        else do {
          l \<leftarrow> cache_load_entry v c_path rust_path policy_file now;
          case l of None \<Rightarrow> State_Monad.return (None, st\<lparr>d_cache := (d_cache st)[i := cache_entry_reset e]\<rparr>)
          | Some e' \<Rightarrow> State_Monad.return (Some (c_ir e'),
              st\<lparr>d_cache := (d_cache st)[i := e'], d_misses := d_misses st + 1\<rparr>) })
   | None \<Rightarrow> (let st = cache_evict_tail st in do {
       a \<leftarrow> run_am allocM;
       if a = None then State_Monad.return (None, st)
       else do {
         l \<leftarrow> cache_load_entry v c_path rust_path policy_file now;
         case l of None \<Rightarrow> State_Monad.return (None, st)
         | Some e \<Rightarrow> State_Monad.return (Some (c_ir e),
             st\<lparr>d_cache := e # d_cache st, d_entries := d_entries st + 1, d_misses := d_misses st + 1\<rparr>) } }))"

definition cache_get_policy ::
    "env \<Rightarrow> string \<Rightarrow> string \<Rightarrow> string \<Rightarrow> daemon_state \<Rightarrow> (ir option \<times> daemon_state) io" where
  "cache_get_policy v c_path rust_path policy_file st = do {
     s \<leftarrow> sysd (e_kernel v) (Stat policy_file);
     if fst s < 0 then State_Monad.return (None, st)
     else cache_search v c_path rust_path policy_file (stamp_of (snd s)) st }"

subsection \<open>The server\<close>

text \<open>\<open>struct ucred\<close>: pid, uid, gid.\<close>

definition daemon_peer_authorized :: "env \<Rightarrow> int \<Rightarrow> daemon_state \<Rightarrow> int io" where
  "daemon_peer_authorized v client_fd st = do {
     c \<leftarrow> sysd (e_kernel v) (Host (PeerCred client_fd));
     let pid = sint (get32 0 (snd c));
     let uid = uint (get32 4 (snd c));
     if fst c < 0 then State_Monad.return (-1)
     else if uid \<noteq> d_uid st then do {
       daemon_audit_peer v uid pid ''deny''; set_errno EPERM; State_Monad.return 0 }
     else do { daemon_audit_peer v uid pid ''allow''; State_Monad.return 1 } }"

text \<open>The arguments, each with its length in front; \<open>Inl e\<close>: the request fails with \<open>e\<close>. A C string ends
  at the first NUL byte of the buffer.\<close>

fun read_args :: "nat \<Rightarrow> kernel \<Rightarrow> int \<Rightarrow> nat \<Rightarrow> u32 \<Rightarrow> (int + string list) io" where
  "read_args n K fd 0 total_bytes = State_Monad.return (Inr [])"
| "read_args n K fd (Suc k) total_bytes = do {
     l \<leftarrow> daemon_read_all n K fd 4;
     if fst l < 0 then do { e \<leftarrow> get_errno; State_Monad.return (Inl e) }
     else let arg_len = get32 0 (snd l); total_bytes = total_bytes + 4 in
       if arg_len = 0 \<or> arg_len > MAX_ARG_LEN \<or> total_bytes > MAX_REQUEST_BYTES \<or> total_bytes + arg_len > MAX_REQUEST_BYTES
       then State_Monad.return (Inl EINVAL)
       else do {
         a \<leftarrow> run_am allocM;
         if a = None then do { e \<leftarrow> get_errno; State_Monad.return (Inl e) }
         else do {
           b \<leftarrow> daemon_read_all n K fd (unat arg_len);
           if fst b < 0 then do { e \<leftarrow> get_errno; State_Monad.return (Inl e) }
           else do {
             rest \<leftarrow> read_args n K fd k (total_bytes + arg_len);
             State_Monad.return (case rest of Inl e \<Rightarrow> Inl e | Inr args \<Rightarrow> Inr (cstr (snd b) # args)) } } } }"

definition run_request ::
    "env \<Rightarrow> string \<Rightarrow> string \<Rightarrow> int \<Rightarrow> u32 \<Rightarrow> string \<Rightarrow> string list \<Rightarrow> daemon_state \<Rightarrow> (int \<times> daemon_state) io" where
  "run_request v c_path rust_path client_fd argc policy_file argv st = do {
     daemon_audit_request v ''run'' (Some policy_file) argc;
     p \<leftarrow> cache_get_policy v c_path rust_path policy_file st;
     case fst p of
       None \<Rightarrow> do { e \<leftarrow> get_errno; rc \<leftarrow> daemon_send_response v client_fd 1 e; State_Monad.return (rc, snd p) }
     | Some ir \<Rightarrow> do {
         status \<leftarrow> run_policy_ir_loaded v (Some ir) (Some policy_file) argv;
         rc \<leftarrow> daemon_send_response v client_fd status 0;
         State_Monad.return (rc, snd p) } }"

definition daemon_handle_run ::
    "env \<Rightarrow> string \<Rightarrow> string \<Rightarrow> int \<Rightarrow> request_header \<Rightarrow> daemon_state \<Rightarrow> (int \<times> daemon_state) io" where
  "daemon_handle_run v c_path rust_path client_fd hdr st = (let K = e_kernel v;
     refuse = (\<lambda>e. do { rc \<leftarrow> daemon_send_response v client_fd 1 e; State_Monad.return (rc, st) }) in
     if h_argc hdr = 0 \<or> h_argc hdr > MAX_ARGS \<or> h_policy_len hdr = 0 \<or> h_policy_len hdr > MAX_POLICY_LEN then refuse EINVAL
     else do {
       a \<leftarrow> run_am allocM;
       if a = None then do { e \<leftarrow> get_errno; refuse e } else do {
       p \<leftarrow> daemon_read_all (e_fuel v) K client_fd (unat (h_policy_len hdr));
       if fst p < 0 then State_Monad.return (-1, st) else do {
       a \<leftarrow> run_am allocM;
       if a = None then do { e \<leftarrow> get_errno; refuse e } else do {
       args \<leftarrow> read_args (e_fuel v) K client_fd (unat (h_argc hdr)) (h_policy_len hdr);
       case args of Inl e \<Rightarrow> refuse e
       | Inr argv \<Rightarrow> run_request v c_path rust_path client_fd (h_argc hdr) (cstr (snd p)) argv st } } } })"

text \<open>The close of a connection; the first result is \<open>should_stop\<close>.\<close>

definition hang_up :: "kernel \<Rightarrow> int \<Rightarrow> bool \<Rightarrow> daemon_state \<Rightarrow> (bool \<times> daemon_state) io" where
  "hang_up K client_fd should_stop st = do { _ \<leftarrow> sys K (Close client_fd); State_Monad.return (should_stop, st) }"

definition refuse_client :: "env \<Rightarrow> int \<Rightarrow> int \<Rightarrow> daemon_state \<Rightarrow> (bool \<times> daemon_state) io" where
  "refuse_client v client_fd e st = do {
     _ \<leftarrow> daemon_send_response v client_fd 1 e;
     hang_up (e_kernel v) client_fd False st }"

text \<open>The request of an authorized peer.\<close>

definition daemon_command :: "env \<Rightarrow> string \<Rightarrow> string \<Rightarrow> int \<Rightarrow> daemon_state \<Rightarrow> (bool \<times> daemon_state) io" where
  "daemon_command v c_path rust_path client_fd st = (let K = e_kernel v in do {
     b \<leftarrow> daemon_read_all (e_fuel v) K client_fd 20;
     if fst b < 0 then hang_up K client_fd False st
     else let hdr = get_header (snd b) in
     if h_magic hdr \<noteq> DAEMON_MAGIC \<or> h_version hdr \<noteq> DAEMON_VERSION then refuse_client v client_fd EPROTO st
     else if h_command hdr = CMD_RUN then do {
       r \<leftarrow> daemon_handle_run v c_path rust_path client_fd hdr st;
       hang_up K client_fd False (snd r) }
     else if h_command hdr = CMD_STOP then do {
       daemon_audit_request v ''stop'' None 0;
       _ \<leftarrow> daemon_send_response v client_fd 0 0;
       hang_up K client_fd True st }
     else if h_command hdr = CMD_STATUS then do {
       daemon_audit_request v ''status'' None 0;
       _ \<leftarrow> daemon_send_status_response v client_fd st;
       hang_up K client_fd False st }
     else refuse_client v client_fd EINVAL st })"

definition daemon_client :: "env \<Rightarrow> string \<Rightarrow> string \<Rightarrow> int \<Rightarrow> daemon_state \<Rightarrow> (bool \<times> daemon_state) io" where
  "daemon_client v c_path rust_path client_fd st = do {
     peer_ok \<leftarrow> daemon_peer_authorized v client_fd st;
     if peer_ok < 0 then hang_up (e_kernel v) client_fd False st
     else if peer_ok = 0 then refuse_client v client_fd EPERM st
     else daemon_command v c_path rust_path client_fd st }"

text \<open>One connection, or one failed accept, per unit of fuel; \<open>False\<close>: still serving.\<close>

fun serve_clients :: "nat \<Rightarrow> env \<Rightarrow> string \<Rightarrow> string \<Rightarrow> int \<Rightarrow> daemon_state \<Rightarrow> (bool \<times> daemon_state) io" where
  "serve_clients 0 v c_path rust_path listen_fd st = State_Monad.return (False, st)"
| "serve_clients (Suc n) v c_path rust_path listen_fd st = do {
     client_fd \<leftarrow> sys (e_kernel v) (Host (Accept listen_fd));
     if client_fd < 0 then do {
       e \<leftarrow> get_errno;
       if e = EINTR then serve_clients n v c_path rust_path listen_fd st else State_Monad.return (True, st) }
     else do {
       r \<leftarrow> daemon_client v c_path rust_path client_fd st;
       if fst r then State_Monad.return (True, snd r)
       else serve_clients n v c_path rust_path listen_fd (snd r) } }"

text \<open>\<open>landlockd_daemon_serve_listener\<close>; \<open>None\<close>: still serving when the fuel ran out.\<close>

definition unlink_socket :: "kernel \<Rightarrow> bool \<Rightarrow> string option \<Rightarrow> unit io" where
  "unlink_socket K unlink_on_exit socket_label = (if unlink_on_exit \<and> socket_label \<noteq> None
     then do { _ \<leftarrow> sys K (Host (Unlink (the socket_label))); State_Monad.return () } else State_Monad.return ())"

definition daemon_serve_listener ::
    "nat \<Rightarrow> env \<Rightarrow> string \<Rightarrow> string \<Rightarrow> int \<Rightarrow> string option \<Rightarrow> bool \<Rightarrow> (int \<times> daemon_state) option io" where
  "daemon_serve_listener n v c_path rust_path listen_fd socket_label unlink_on_exit = (let K = e_kernel v in do {
     uid \<leftarrow> sys K (Host Getuid);
     daemon_audit_listener v ''daemon.listen'' socket_label (Some (if unlink_on_exit then ''socket'' else ''systemd''));
     rc \<leftarrow> seccomp_apply_daemon_hardening K;
     if rc < 0 then do {
       _ \<leftarrow> sys K (Close listen_fd);
       unlink_socket K unlink_on_exit socket_label;
       State_Monad.return (Some (1, initial_state uid)) }
     else do {
       r \<leftarrow> serve_clients n v c_path rust_path listen_fd (initial_state uid);
       if \<not> fst r then State_Monad.return None
       else do {
         _ \<leftarrow> sys K (Close listen_fd);
         unlink_socket K unlink_on_exit socket_label;
         daemon_audit_listener v ''daemon.exit'' socket_label None;
         State_Monad.return (Some (0, cache_cleanup (snd r))) } } })"

definition daemon_listen_path :: "kernel \<Rightarrow> string \<Rightarrow> int io" where
  "daemon_listen_path K socket_path = do {
     listen_fd \<leftarrow> sys K (Host Socket);
     if listen_fd < 0 then State_Monad.return (-1)
     else do {
       _ \<leftarrow> sys K (Host (Unlink socket_path));
       if length socket_path \<ge> SUN_PATH_SIZE then do { _ \<leftarrow> sys K (Close listen_fd); fail_with ENAMETOOLONG }
       else do {
         rc \<leftarrow> or_fail (sys K (Host (Bind listen_fd socket_path))) (sys K (Host (Listen listen_fd)));
         if rc < 0 then do {
           saved_errno \<leftarrow> get_errno;
           _ \<leftarrow> sys K (Close listen_fd);
           _ \<leftarrow> sys K (Host (Unlink socket_path));
           fail_with saved_errno }
         else State_Monad.return listen_fd } } }"

subsection \<open>Socket activation\<close>

text \<open>What \<open>strtol\<close> and \<open>strtoul\<close> scan in base 10: white space, a sign, digits. The sign is negative, the
  number and the rest of the string; \<open>None\<close>: no digits, so \<open>end\<close> is the start.\<close>

definition is_space :: "char \<Rightarrow> bool" where
  "is_space c \<longleftrightarrow> c \<in> set [CHR 0x20, CHR 0x09, CHR 0x0A, CHR 0x0B, CHR 0x0C, CHR 0x0D]"

definition scan_number :: "string \<Rightarrow> (bool \<times> nat \<times> string) option" where
  "scan_number s = (let s = dropWhile is_space s;
       neg = (take 1 s = ''-'');
       s = (if take 1 s = ''-'' \<or> take 1 s = ''+'' then drop 1 s else s) in
     if takeWhile is_digit s = [] then None
     else Some (neg, digits_value (takeWhile is_digit s), dropWhile is_digit s))"

text \<open>\<open>strtoul\<close> negates a number with a minus sign and reports one that does not fit.\<close>

definition parse_uint_env :: "kernel \<Rightarrow> string \<Rightarrow> u32 option io" where
  "parse_uint_env K name = do {
     value_str \<leftarrow> getenv K name;
     if value_str = None \<or> value_str = Some [] then do { set_errno ENOENT; State_Monad.return None }
     else do {
       set_errno 0;
       case scan_number (the value_str) of
         None \<Rightarrow> do { set_errno EINVAL; State_Monad.return None }
       | Some (neg, n, rest) \<Rightarrow>
           if n > 2 ^ 64 - 1 \<or> rest \<noteq> [] then do { set_errno EINVAL; State_Monad.return None }
           else (let value = (if neg then - word_of_nat n else word_of_nat n) :: u64 in
             State_Monad.return (Some (ucast value))) } }"

text \<open>\<open>struct sockaddr_un\<close>: the family in two bytes, then the path in 108.\<close>

definition AF_UNIX :: nat where "AF_UNIX = 1"

definition daemon_describe_listener :: "kernel \<Rightarrow> int \<Rightarrow> nat \<Rightarrow> string option io" where
  "daemon_describe_listener K listen_fd buf_size = (if buf_size = 0 then do { set_errno EINVAL; State_Monad.return None }
     else do {
       a \<leftarrow> sysd K (Host (Getsockname listen_fd));
       let sun_path = cstr (take SUN_PATH_SIZE (drop 2 (snd a)));
       if fst a < 0 then State_Monad.return None
       else if le_val (take 2 (snd a)) \<noteq> AF_UNIX \<or> sun_path = [] then do { set_errno EINVAL; State_Monad.return None }
       else if length sun_path \<ge> buf_size then do { set_errno ENAMETOOLONG; State_Monad.return None }
       else State_Monad.return (Some sun_path) })"

definition accepting :: "kernel \<Rightarrow> int \<Rightarrow> bool io" where
  "accepting K fd = do {
     r \<leftarrow> sysd K (Host (AcceptConn fd));
     State_Monad.return (0 \<le> fst r \<and> le_val (take 4 (snd r)) \<noteq> 0) }"

text \<open>The listener and its label.\<close>

definition daemon_get_systemd_listener :: "kernel \<Rightarrow> nat \<Rightarrow> (int \<times> string) option io" where
  "daemon_get_systemd_listener K socket_label_size = (let refuse = do { set_errno EINVAL; State_Monad.return None } in do {
     listen_pid \<leftarrow> parse_uint_env K ''LISTEN_PID'';
     if listen_pid = None then refuse else do {
     listen_fds \<leftarrow> parse_uint_env K ''LISTEN_FDS'';
     if listen_fds = None then refuse else do {
     pid \<leftarrow> sys K (Host Getpid);
     if the listen_pid \<noteq> word_of_int pid then refuse
     else if the listen_fds \<noteq> 1 then refuse
     else do {
       ok \<leftarrow> accepting K SYSTEMD_FD_START;
       if \<not> ok then refuse
       else do {
         l \<leftarrow> daemon_describe_listener K SYSTEMD_FD_START socket_label_size;
         State_Monad.return (Some (SYSTEMD_FD_START,
           case l of None \<Rightarrow> take (socket_label_size - 1) ''(socket-activated)'' | Some p \<Rightarrow> p)) } } } } })"

definition daemon_serve :: "nat \<Rightarrow> env \<Rightarrow> string \<Rightarrow> string \<Rightarrow> string \<Rightarrow> int option io" where
  "daemon_serve n v c_path rust_path socket_path = do {
     listen_fd \<leftarrow> daemon_listen_path (e_kernel v) socket_path;
     if listen_fd < 0 then State_Monad.return (Some 1)
     else do {
       r \<leftarrow> daemon_serve_listener n v c_path rust_path listen_fd (Some socket_path) True;
       State_Monad.return (map_option fst r) } }"

definition daemon_serve_systemd :: "nat \<Rightarrow> env \<Rightarrow> string \<Rightarrow> string \<Rightarrow> int option io" where
  "daemon_serve_systemd n v c_path rust_path = do {
     l \<leftarrow> daemon_get_systemd_listener (e_kernel v) SUN_PATH_SIZE;
     case l of None \<Rightarrow> State_Monad.return (Some 1)
     | Some fl \<Rightarrow> do {
         r \<leftarrow> daemon_serve_listener n v c_path rust_path (fst fl) (Some (snd fl)) False;
         State_Monad.return (map_option fst r) } }"

subsection \<open>The client\<close>

text \<open>The bytes the arguments take in a request; \<open>None\<close>: an empty or too long argument, or too many bytes.\<close>

fun args_total :: "u32 \<Rightarrow> string list \<Rightarrow> u32 option" where
  "args_total total_bytes [] = Some total_bytes"
| "args_total total_bytes (a # args) = (let len = word_of_nat (length a) in
     if len = 0 \<or> len > MAX_ARG_LEN then None
     else let total_bytes = total_bytes + (4 + len) in
       if total_bytes > MAX_REQUEST_BYTES then None else args_total total_bytes args)"

definition run_sizes_ok :: "string \<Rightarrow> string list \<Rightarrow> bool" where
  "run_sizes_ok policy_file argv = (let argc = word_of_nat (length argv); len = word_of_nat (length policy_file) in
     case args_total 0 argv of None \<Rightarrow> False
     | Some total_bytes \<Rightarrow> argc \<noteq> 0 \<and> argc \<le> MAX_ARGS \<and>
         len \<noteq> 0 \<and> len \<le> MAX_POLICY_LEN \<and> len \<le> MAX_REQUEST_BYTES \<and> total_bytes + len \<le> MAX_REQUEST_BYTES)"

text \<open>Whole writes, one after the other; -1 as soon as one fails.\<close>

definition write_parts :: "env \<Rightarrow> int \<Rightarrow> string list \<Rightarrow> int io" where
  "write_parts v fd = each_or_fail (daemon_write_all (e_fuel v) (e_kernel v) fd)"

definition run_header :: "string \<Rightarrow> string list \<Rightarrow> request_header" where
  "run_header policy_file argv = \<lparr>h_magic = DAEMON_MAGIC, h_version = DAEMON_VERSION, h_command = CMD_RUN,
     h_argc = word_of_nat (length argv), h_policy_len = word_of_nat (length policy_file)\<rparr>"

definition run_parts :: "string \<Rightarrow> string list \<Rightarrow> string list" where
  "run_parts policy_file argv = [put_header (run_header policy_file argv), policy_file] @
     concat (map (\<lambda>a. [put32 (word_of_nat (length a)), a]) argv)"

text \<open>The request is sent, the answer of \<open>len\<close> bytes is read and the connection closed. \<open>None\<close>: no answer.\<close>

definition daemon_exchange :: "env \<Rightarrow> int \<Rightarrow> string list \<Rightarrow> nat \<Rightarrow> string option io" where
  "daemon_exchange v fd parts len = (let K = e_kernel v in do {
     rc \<leftarrow> write_parts v fd parts;
     if rc < 0 then do { _ \<leftarrow> sys K (Close fd); State_Monad.return None }
     else do {
       b \<leftarrow> daemon_read_all (e_fuel v) K fd len;
       _ \<leftarrow> sys K (Close fd);
       State_Monad.return (if fst b < 0 then None else Some (snd b)) } })"

definition take_response :: "daemon_response \<Rightarrow> int io" where
  "take_response r = (if p_magic r \<noteq> DAEMON_MAGIC \<or> p_version r \<noteq> DAEMON_VERSION
     then do { set_errno EPROTO; State_Monad.return 1 }
     else if p_error_value r \<noteq> 0 then do { set_errno (sint (p_error_value r)); State_Monad.return (sint (p_status r)) }
     else State_Monad.return (sint (p_status r)))"

definition daemon_run :: "env \<Rightarrow> string \<Rightarrow> string \<Rightarrow> string list \<Rightarrow> int io" where
  "daemon_run v socket_path policy_file argv = (if \<not> run_sizes_ok policy_file argv
     then do { set_errno EINVAL; State_Monad.return 1 }
     else do {
       fd \<leftarrow> daemon_connect (e_kernel v) socket_path;
       if fd < 0 then State_Monad.return 1
       else do {
         answer \<leftarrow> daemon_exchange v fd (run_parts policy_file argv) 16;
         case answer of None \<Rightarrow> State_Monad.return 1 | Some b \<Rightarrow> take_response (get_response b) } })"

definition bare_header :: "u32 \<Rightarrow> request_header" where
  "bare_header command = \<lparr>h_magic = DAEMON_MAGIC, h_version = DAEMON_VERSION, h_command = command, h_argc = 0, h_policy_len = 0\<rparr>"

definition status_text :: "status_response \<Rightarrow> string" where
  "status_text r = record_text [FUint ''protocol_version'' (unat (p_protocol_version r)),
     FUint ''cache_entries'' (unat (p_cache_entries r)), FUint ''cache_hits'' (unat (p_cache_hits r)),
     FUint ''cache_misses'' (unat (p_cache_misses r))]"

definition take_status_response :: "kernel \<Rightarrow> status_response \<Rightarrow> int io" where
  "take_status_response K r = (let base = p_base r in
     if p_magic base \<noteq> DAEMON_MAGIC \<or> p_version base \<noteq> DAEMON_VERSION then do { set_errno EPROTO; State_Monad.return 1 }
     else if p_error_value base \<noteq> 0 then do { set_errno (sint (p_error_value base)); State_Monad.return (sint (p_status base)) }
     else do { _ \<leftarrow> sys K (Host (Stdout (status_text r))); State_Monad.return (sint (p_status base)) })"

definition daemon_status :: "env \<Rightarrow> string \<Rightarrow> int io" where
  "daemon_status v socket_path = do {
     fd \<leftarrow> daemon_connect (e_kernel v) socket_path;
     if fd < 0 then State_Monad.return 1
     else do {
       answer \<leftarrow> daemon_exchange v fd [put_header (bare_header CMD_STATUS)] 40;
       case answer of None \<Rightarrow> State_Monad.return 1
       | Some b \<Rightarrow> take_status_response (e_kernel v) (get_status_response b) } }"

definition daemon_stop :: "env \<Rightarrow> string \<Rightarrow> int io" where
  "daemon_stop v socket_path = do {
     fd \<leftarrow> daemon_connect (e_kernel v) socket_path;
     if fd < 0 then State_Monad.return 1
     else do {
       answer \<leftarrow> daemon_exchange v fd [put_header (bare_header CMD_STOP)] 16;
       case answer of None \<Rightarrow> State_Monad.return 1 | Some b \<Rightarrow> take_response (get_response b) } }"

end
