(* ===== verification/CLI_Parse.thy ===== *)
theory CLI_Parse
  imports Daemon
begin

text \<open>
  The command line (\<open>src/src/cli_parse.c\<close>, \<open>landlockd_cli.h\<close>). \<open>argv\<close> is the list of the arguments, the
  program's name first; a NULL pointer of the options is \<open>None\<close>. Parsing allocates the two arrays of
  the direct mode, and fails with the errno of the failing branch.
\<close>

subsection \<open>Options\<close>

datatype cli_verb = VERB_NONE | VERB_RUN | VERB_LINT | VERB_SERVE | VERB_STATUS | VERB_STOP

record cli_options =
  opt_argv :: "string list option"
  opt_verb :: cli_verb
  opt_policy_name :: "string option"
  opt_policy_file :: "string option"
  opt_socket_path :: "string option"
  opt_systemd :: bool
  opt_preflight_only :: bool
  opt_dry_run :: bool
  opt_ro_paths :: "string list"
  opt_notify_syscalls :: "int list"
  opt_command_argv :: "string list option"
  opt_show_help :: bool

definition no_options :: cli_options where
  "no_options = \<lparr>opt_argv = None, opt_verb = VERB_NONE, opt_policy_name = None, opt_policy_file = None, opt_socket_path = None,
     opt_systemd = False, opt_preflight_only = False, opt_dry_run = False, opt_ro_paths = [], opt_notify_syscalls = [],
     opt_command_argv = None, opt_show_help = False\<rparr>"

subsection \<open>Parsing\<close>

text \<open>\<open>strtol\<close> reports a number outside the range of a long.\<close>

definition INT_MAX :: int where "INT_MAX = 2 ^ 31 - 1"

definition cli_parse_syscall_nr :: "string \<Rightarrow> int option" where
  "cli_parse_syscall_nr s = (case scan_number s of None \<Rightarrow> None
     | Some (neg, n, rest) \<Rightarrow> (let value = (if neg then - int n else int n) in
         if value < - (2 ^ 63) \<or> value > 2 ^ 63 - 1 \<or> rest \<noteq> [] \<or> value < 0 \<or> value > INT_MAX then None else Some value))"

definition cli_basename :: "string option \<Rightarrow> string" where
  "cli_basename path = (case path of None \<Rightarrow> [] | Some p \<Rightarrow> rev (takeWhile (\<lambda>c. c \<noteq> CHR ''/'') (rev p)))"

abbreviation (input) einval :: "'a res" where
  "einval \<equiv> Inl (Err EINVAL)"

text \<open>The options of \<open>run\<close> and \<open>lint\<close> up to the end or \<open>--\<close>; the rest starts there.\<close>

definition policy_chosen :: "cli_options \<Rightarrow> bool" where
  "policy_chosen opts \<longleftrightarrow> opt_policy_name opts \<noteq> None \<or> opt_policy_file opts \<noteq> None"

fun policy_verb_options :: "string list \<Rightarrow> cli_options \<Rightarrow> (cli_options \<times> string list) res" where
  "policy_verb_options [] opts = Inr (opts, [])"
| "policy_verb_options (a # args) opts = (
     if a = ''--'' then Inr (opts, a # args)
     else if a = ''--preflight'' then policy_verb_options args (opts\<lparr>opt_preflight_only := True\<rparr>)
     else if a = ''--dry-run'' then policy_verb_options args (opts\<lparr>opt_dry_run := True\<rparr>)
     else (case args of [] \<Rightarrow> einval | b # args' \<Rightarrow>
       if b = ''--'' then einval
       else if a = ''--policy'' then
         (if policy_chosen opts then einval else policy_verb_options args' (opts\<lparr>opt_policy_name := Some b\<rparr>))
       else if a = ''--policy-file'' then
         (if policy_chosen opts then einval else policy_verb_options args' (opts\<lparr>opt_policy_file := Some b\<rparr>))
       else if a = ''--socket'' then
         (if opt_socket_path opts \<noteq> None then einval else policy_verb_options args' (opts\<lparr>opt_socket_path := Some b\<rparr>))
       else einval))"

definition cli_parse_policy_verb :: "string list \<Rightarrow> cli_options \<Rightarrow> cli_verb \<Rightarrow> nat \<Rightarrow> cli_options res" where
  "cli_parse_policy_verb argv opts verb argi =
     (case policy_verb_options (drop argi argv) (opts\<lparr>opt_verb := verb\<rparr>) of Inl e \<Rightarrow> Inl e
      | Inr (opts, rest) \<Rightarrow>
        if opt_preflight_only opts \<and> opt_dry_run opts then einval
        else if \<not> policy_chosen opts then einval
        else if verb = VERB_LINT then (if rest \<noteq> [] then einval else Inr (opts\<lparr>opt_argv := Some argv\<rparr>))
        else if rest = [] then
          (if \<not> opt_preflight_only opts \<and> \<not> opt_dry_run opts then einval else Inr (opts\<lparr>opt_argv := Some argv\<rparr>))
        else if length rest < 2 then einval
        else Inr (opts\<lparr>opt_argv := Some argv, opt_command_argv := Some (tl rest)\<rparr>))"

text \<open>The direct mode: a first pass checks and counts, a second one stores.\<close>

fun count_direct :: "string list \<Rightarrow> nat \<Rightarrow> nat \<Rightarrow> (nat \<times> nat \<times> string list) res" where
  "count_direct [] ro_count notify_count = Inr (ro_count, notify_count, [])"
| "count_direct (a # args) ro_count notify_count = (
     if a = ''--'' then Inr (ro_count, notify_count, a # args)
     else (case args of [] \<Rightarrow> einval | b # args' \<Rightarrow>
       if b = ''--'' then einval
       else if a = ''--ro'' then count_direct args' (Suc ro_count) notify_count
       else if a = ''--notify'' then
         (if cli_parse_syscall_nr b = None then einval else count_direct args' ro_count (Suc notify_count))
       else einval))"

fun store_direct :: "string list \<Rightarrow> cli_options \<Rightarrow> cli_options" where
  "store_direct (a # b # args) opts = (
     if a = ''--'' then opts
     else if a = ''--ro'' then store_direct args (opts\<lparr>opt_ro_paths := opt_ro_paths opts @ [b]\<rparr>)
     else store_direct args (opts\<lparr>opt_notify_syscalls := opt_notify_syscalls opts @
       [case cli_parse_syscall_nr b of None \<Rightarrow> 0 | Some nr \<Rightarrow> nr]\<rparr>))"
| "store_direct _ opts = opts"

definition cli_parse_direct :: "string list \<Rightarrow> cli_options am" where
  "cli_parse_direct argv = bindM (liftM (count_direct (drop 1 argv) 0 0)) (\<lambda>(ro_count, notify_count, rest).
     bindM (guardM (ro_count \<noteq> 0 \<and> 2 \<le> length rest) (Err EINVAL)) (\<lambda>_.
     bindM allocM (\<lambda>_.
     bindM (if notify_count > 0 then allocM else returnM ()) (\<lambda>_.
     returnM ((store_direct (drop 1 argv) no_options)\<lparr>opt_argv := Some argv, opt_command_argv := Some (tl rest)\<rparr>)))))"

definition arg_is :: "string list \<Rightarrow> nat \<Rightarrow> string \<Rightarrow> bool" where
  "arg_is argv i s \<longleftrightarrow> i < length argv \<and> argv ! i = s"

definition cli_parse :: "string list \<Rightarrow> cli_options am" where
  "cli_parse argv = (let argc = length argv; base = cli_basename (if argc \<ge> 1 then Some (argv ! 0) else None);
       opts = no_options;
       socket = (\<lambda>verb. returnM (opts\<lparr>opt_verb := verb, opt_socket_path := Some (argv ! 3), opt_argv := Some argv\<rparr>)) in
     if argc = 2 \<and> arg_is argv 1 ''--help'' then returnM (opts\<lparr>opt_show_help := True\<rparr>)
     else if argc \<ge> 1 \<and> base = ''landlockd-run'' then liftM (cli_parse_policy_verb argv opts VERB_RUN 1)
     else if argc \<ge> 1 \<and> base = ''landlockd-policy'' \<and> arg_is argv 1 ''lint'' then
       liftM (cli_parse_policy_verb argv opts VERB_LINT 2)
     else if argc \<ge> 1 \<and> base = ''landlockd-policy'' \<and> arg_is argv 1 ''dry-run'' then
       liftM (cli_parse_policy_verb argv (opts\<lparr>opt_dry_run := True\<rparr>) VERB_RUN 2)
     else if arg_is argv 1 ''run'' then liftM (cli_parse_policy_verb argv opts VERB_RUN 2)
     else if arg_is argv 1 ''lint'' then liftM (cli_parse_policy_verb argv opts VERB_LINT 2)
     else if argc = 4 \<and> arg_is argv 1 ''serve'' \<and> arg_is argv 2 ''--socket'' then socket VERB_SERVE
     else if argc = 3 \<and> arg_is argv 1 ''serve'' \<and> arg_is argv 2 ''--systemd'' then
       returnM (opts\<lparr>opt_verb := VERB_SERVE, opt_systemd := True, opt_argv := Some argv\<rparr>)
     else if argc = 4 \<and> arg_is argv 1 ''stop'' \<and> arg_is argv 2 ''--socket'' then socket VERB_STOP
     else if argc = 4 \<and> arg_is argv 1 ''status'' \<and> arg_is argv 2 ''--socket'' then socket VERB_STATUS
     else cli_parse_direct argv)"

definition cli_build_seccomp_plan :: "cli_options \<Rightarrow> seccomp_plan res" where
  "cli_build_seccomp_plan opts = (case plan_init (Some plan_local) of Inl e \<Rightarrow> Inl e
     | Inr plan \<Rightarrow> plan_add_all plan (opt_notify_syscalls opts))"

definition cli_options_release :: "cli_options \<Rightarrow> cli_options" where
  "cli_options_release opts = opts\<lparr>opt_ro_paths := [], opt_notify_syscalls := []\<rparr>"

subsection \<open>What an accepted command line looks like\<close>

text \<open>The command starts after the first \<open>--\<close> that follows the program's name.\<close>

definition command_of :: "string list \<Rightarrow> string list \<Rightarrow> bool" where
  "command_of argv cmd \<longleftrightarrow> cmd \<noteq> [] \<and> (\<exists>pre. argv = pre @ ''--'' # cmd \<and> ''--'' \<notin> set (drop 1 pre))"

definition runnable :: "cli_options \<Rightarrow> string list \<Rightarrow> bool" where
  "runnable opts argv = (case opt_command_argv opts of None \<Rightarrow> False | Some cmd \<Rightarrow> command_of argv cmd)"

definition options_ok :: "string list \<Rightarrow> cli_options \<Rightarrow> bool" where
  "options_ok argv opts \<longleftrightarrow> (case opt_verb opts of
     VERB_NONE \<Rightarrow> opt_show_help opts \<or>
       opt_ro_paths opts \<noteq> [] \<and> runnable opts argv \<and>
       list_all (\<lambda>nr. 0 \<le> nr \<and> nr \<le> INT_MAX) (opt_notify_syscalls opts)
   | VERB_RUN \<Rightarrow> (opt_policy_name opts = None) \<noteq> (opt_policy_file opts = None) \<and>
       \<not> (opt_preflight_only opts \<and> opt_dry_run opts) \<and>
       (runnable opts argv \<or> opt_command_argv opts = None \<and> (opt_preflight_only opts \<or> opt_dry_run opts))
   | VERB_LINT \<Rightarrow> (opt_policy_name opts = None) \<noteq> (opt_policy_file opts = None) \<and> opt_command_argv opts = None
   | VERB_SERVE \<Rightarrow> opt_systemd opts \<noteq> (opt_socket_path opts \<noteq> None)
   | VERB_STATUS \<Rightarrow> opt_socket_path opts \<noteq> None
   | VERB_STOP \<Rightarrow> opt_socket_path opts \<noteq> None)"

text \<open>Where option parsing stops.\<close>

definition stops_at :: "string list \<Rightarrow> string list \<Rightarrow> bool" where
  "stops_at args rest \<longleftrightarrow> (\<exists>pre. args = pre @ rest \<and> ''--'' \<notin> set pre \<and> (rest = [] \<or> hd rest = ''--''))"

lemma stops_at_here [simp]: "stops_at [] []" "stops_at (''--'' # args) (''--'' # args)"
  unfolding stops_at_def by (intro exI[of _ "[]"]; simp)+

lemma stops_at_skip: "stops_at args rest \<Longrightarrow> a \<noteq> ''--'' \<Longrightarrow> stops_at (a # args) rest"
  unfolding stops_at_def by (metis append_Cons set_ConsD)

lemma stops_at_command:
  assumes "stops_at (drop i argv) rest" "2 \<le> length rest" "0 < i" "''--'' \<notin> set (drop 1 (take i argv))"
  shows "command_of argv (tl rest)"
proof -
  obtain pre where pre: "drop i argv = pre @ rest" "''--'' \<notin> set pre" "hd rest = ''--''"
    using assms(1,2) by (auto simp: stops_at_def)
  then have "rest = ''--'' # tl rest" "tl rest \<noteq> []" using assms(2) by (cases rest; auto)+
  moreover from this have "argv = (take i argv @ pre) @ ''--'' # tl rest" using pre(1) append_take_drop_id[of i argv] by simp
  moreover have "''--'' \<notin> set (drop 1 (take i argv @ pre))"
    using assms(4) pre(2) by (auto dest: in_set_dropD)
  ultimately show ?thesis unfolding command_of_def by blast
qed

lemma verb_options_ok:
  "policy_verb_options args opts = Inr (opts', rest) \<Longrightarrow> opt_policy_name opts = None \<or> opt_policy_file opts = None \<Longrightarrow>
   stops_at args rest \<and> (opt_policy_name opts' = None \<or> opt_policy_file opts' = None) \<and>
   opt_verb opts' = opt_verb opts \<and> opt_command_argv opts' = opt_command_argv opts"
proof (induction args opts rule: policy_verb_options.induct)
  case (2 a args opts)
  note eq = "2.prems"(1)[unfolded policy_verb_options.simps]
  consider (stop) "a = ''--''" | (pre) "a \<noteq> ''--''" "a = ''--preflight''" | (dry) "a \<noteq> ''--''" "a \<noteq> ''--preflight''" "a = ''--dry-run''"
    | (val) "a \<noteq> ''--''" "a \<noteq> ''--preflight''" "a \<noteq> ''--dry-run''" by blast
  then show ?case
  proof cases
    case stop
    with eq "2.prems"(2) show ?thesis by auto
  next
    case pre
    have "policy_verb_options args (opts\<lparr>opt_preflight_only := True\<rparr>) = Inr (opts', rest)"
      using eq unfolding if_not_P[OF pre(1)] if_P[OF pre(2)] .
    from "2.IH"(1)[OF pre this] "2.prems"(2) show ?thesis by (simp add: stops_at_skip[OF _ pre(1)])
  next
    case dry
    have "policy_verb_options args (opts\<lparr>opt_dry_run := True\<rparr>) = Inr (opts', rest)"
      using eq unfolding if_not_P[OF dry(1)] if_not_P[OF dry(2)] if_P[OF dry(3)] .
    from "2.IH"(2)[OF dry this] "2.prems"(2) show ?thesis by (simp add: stops_at_skip[OF _ dry(1)])
  next
    case val
    note eq = eq[unfolded if_not_P[OF val(1)] if_not_P[OF val(2)] if_not_P[OF val(3)]]
    then obtain b args' where args: "args = b # args'" "b \<noteq> ''--''" by (cases args) (auto split: if_split_asm)
    note eq = eq[unfolded args(1) list.case if_not_P[OF args(2)]]
    note IH = "2.IH"(3-5)[OF val args]
    have skip: "stops_at args' rest \<Longrightarrow> stops_at (a # args) rest" unfolding args(1) by (intro stops_at_skip val(1) args(2))
    show ?thesis
    proof (cases "a = ''--policy''")
      case True
      with eq have "\<not> policy_chosen opts" "policy_verb_options args' (opts\<lparr>opt_policy_name := Some b\<rparr>) = Inr (opts', rest)"
        by (simp_all split: if_split_asm)
      from IH(1)[OF True this] this(1) skip show ?thesis by (simp add: policy_chosen_def)
    next
      case no: False
      show ?thesis
      proof (cases "a = ''--policy-file''")
        case True
        with eq no have "\<not> policy_chosen opts" "policy_verb_options args' (opts\<lparr>opt_policy_file := Some b\<rparr>) = Inr (opts', rest)"
          by (simp_all split: if_split_asm)
        from IH(2)[OF no True this] this(1) skip show ?thesis by (simp add: policy_chosen_def)
      next
        case False
        note eq = eq[unfolded if_not_P[OF no] if_not_P[OF False]]
        then have "a = ''--socket''" "\<not> opt_socket_path opts \<noteq> None"
            "policy_verb_options args' (opts\<lparr>opt_socket_path := Some b\<rparr>) = Inr (opts', rest)"
          by (auto split: if_split_asm)
        from IH(3)[OF no False this] "2.prems"(2) skip show ?thesis by simp
      qed
    qed
  qed
qed simp

lemma policy_verb_ok:
  assumes "cli_parse_policy_verb argv opts verb i = Inr opts'" "opt_policy_name opts = None" "opt_policy_file opts = None"
    and "opt_command_argv opts = None" "verb = VERB_RUN \<or> verb = VERB_LINT" "0 < i" "''--'' \<notin> set (drop 1 (take i argv))"
  shows "options_ok argv opts'"
proof -
  obtain o2 rest where o2: "policy_verb_options (drop i argv) (opts\<lparr>opt_verb := verb\<rparr>) = Inr (o2, rest)"
    using assms(1) by (auto simp: cli_parse_policy_verb_def split: sum.splits)
  have v: "stops_at (drop i argv) rest" "opt_policy_name o2 = None \<or> opt_policy_file o2 = None" "opt_verb o2 = verb"
      "opt_command_argv o2 = None"
    using verb_options_ok[OF o2] assms(2,4) by simp_all
  have cmd: "2 \<le> length rest \<Longrightarrow> command_of argv (tl rest)"
    using stops_at_command[OF v(1) _ assms(6,7)] by blast
  show ?thesis
    using assms(1,5) o2 v cmd
    by (auto simp: cli_parse_policy_verb_def options_ok_def runnable_def policy_chosen_def not_less split: if_splits)
qed

text \<open>The passes of the direct mode agree.\<close>

lemma syscall_nr_range: "cli_parse_syscall_nr s = Some nr \<Longrightarrow> 0 \<le> nr \<and> nr \<le> INT_MAX"
  by (auto simp: cli_parse_syscall_nr_def Let_def split: option.splits if_splits)

lemma direct_ok:
  "count_direct args r n = Inr (r', n', rest) \<Longrightarrow> stops_at args rest \<and> (\<exists>xs ys. r' = r + length xs \<and> n' = n + length ys \<and>
     list_all (\<lambda>nr. 0 \<le> nr \<and> nr \<le> INT_MAX) ys \<and>
     store_direct args opts = opts\<lparr>opt_ro_paths := opt_ro_paths opts @ xs, opt_notify_syscalls := opt_notify_syscalls opts @ ys\<rparr>)"
proof (induction args r n arbitrary: opts rule: count_direct.induct)
  case (2 a args r n)
  show ?case
  proof (cases "a = ''--''")
    case True
    with 2 show ?thesis by (cases args) auto
  next
    case False
    with 2 obtain b args' where args: "args = b # args'" "b \<noteq> ''--''" by (auto split: list.splits if_splits)
    show ?thesis
    proof (cases "a = ''--ro''")
      case True
      from "2.IH"(1)[OF False args True, of "opts\<lparr>opt_ro_paths := opt_ro_paths opts @ [b]\<rparr>"] "2.prems" False args True
      obtain xs ys where "stops_at args' rest" "r' = Suc r + length xs" "n' = n + length ys"
        "list_all (\<lambda>nr. 0 \<le> nr \<and> nr \<le> INT_MAX) ys"
        "store_direct args' (opts\<lparr>opt_ro_paths := opt_ro_paths opts @ [b]\<rparr>) =
          opts\<lparr>opt_ro_paths := opt_ro_paths opts @ [b] @ xs, opt_notify_syscalls := opt_notify_syscalls opts @ ys\<rparr>" by auto
      then show ?thesis using False args True by (intro conjI exI[of _ "b # xs"] exI[of _ ys]) (auto simp: stops_at_skip)
    next
      case no: False
      with 2 False args obtain nr where nr: "a = ''--notify''" "cli_parse_syscall_nr b = Some nr" by (auto split: if_splits)
      from "2.IH"(2)[OF False args no nr(1), of "opts\<lparr>opt_notify_syscalls := opt_notify_syscalls opts @ [nr]\<rparr>"] "2.prems" False args nr
      obtain xs ys where "stops_at args' rest" "r' = r + length xs" "n' = Suc n + length ys"
        "list_all (\<lambda>nr. 0 \<le> nr \<and> nr \<le> INT_MAX) ys"
        "store_direct args' (opts\<lparr>opt_notify_syscalls := opt_notify_syscalls opts @ [nr]\<rparr>) =
          opts\<lparr>opt_ro_paths := opt_ro_paths opts @ xs, opt_notify_syscalls := opt_notify_syscalls opts @ [nr] @ ys\<rparr>" by auto
      then show ?thesis using False args nr syscall_nr_range[OF nr(2)]
        by (intro conjI exI[of _ xs] exI[of _ "nr # ys"]) (auto simp: stops_at_skip)
    qed
  qed
qed simp

text \<open>C31: The direct mode of the command line scans its arguments twice, once to count and allocate, once to
  store: the second pass stores exactly as many read-only paths and system call numbers as the first
  one counted, so it stays within the two arrays.\<close>

theorem direct_arrays_fit:
  "case count_direct args 0 0 of Inl e \<Rightarrow> True
   | Inr (ro_count, notify_count, rest) \<Rightarrow>
       length (opt_ro_paths (store_direct args no_options)) = ro_count \<and>
       length (opt_notify_syscalls (store_direct args no_options)) = notify_count"
  using direct_ok[of args 0 0 _ _ _ no_options] by (fastforce simp: no_options_def split: sum.split)

lemma parse_direct_ok: "ensures (cli_parse_direct argv) (options_ok argv)"
proof (rule ensuresI)
  fix m a m'
  assume "cli_parse_direct argv m = (Inr a, m')"
  then obtain r n rest where c: "count_direct (drop 1 argv) 0 0 = Inr (r, n, rest)" "r \<noteq> 0" "2 \<le> length rest"
    and a: "a = (store_direct (drop 1 argv) no_options)\<lparr>opt_argv := Some argv, opt_command_argv := Some (tl rest)\<rparr>"
    by (auto simp: cli_parse_direct_def bindM_def liftM_def guardM_def returnM_def failM_def split: prod.splits sum.splits if_splits)
  obtain xs ys where d: "stops_at (drop 1 argv) rest" "r = length xs" "list_all (\<lambda>nr. 0 \<le> nr \<and> nr \<le> INT_MAX) ys"
    "store_direct (drop 1 argv) no_options = no_options\<lparr>opt_ro_paths := xs, opt_notify_syscalls := ys\<rparr>"
    using direct_ok[OF c(1), of no_options] by (auto simp: no_options_def)
  have "command_of argv (tl rest)" using stops_at_command[OF d(1) c(3)] by (cases argv) auto
  with d c(2) show "options_ok argv a" unfolding a by (auto simp: options_ok_def runnable_def no_options_def)
qed

lemma parse_ok: "ensures (cli_parse argv) (options_ok argv)"
proof -
  have verb: "options_ok argv o'" if "cli_parse_policy_verb argv opts v i = Inr o'" "opts = no_options \<or> opts = no_options\<lparr>opt_dry_run := True\<rparr>"
      "v = VERB_RUN \<or> v = VERB_LINT" "i = 1 \<or> i = 2 \<and> (\<exists>s. s \<noteq> ''--'' \<and> arg_is argv 1 s)" for o' opts v i
  proof -
    have "''--'' \<notin> set (drop 1 (take i argv))"
      using that(4) by (cases argv; cases "tl argv") (auto simp: arg_is_def take_Suc numeral_2_eq_2)
    then show ?thesis using that by (intro policy_verb_ok[of argv opts v i]) (auto simp: no_options_def)
  qed
  have run: "ensures (liftM (cli_parse_policy_verb argv opts v i)) (options_ok argv)"
    if "opts = no_options \<or> opts = no_options\<lparr>opt_dry_run := True\<rparr>" "v = VERB_RUN \<or> v = VERB_LINT"
      "i = 1 \<or> i = 2 \<and> (\<exists>s. s \<noteq> ''--'' \<and> arg_is argv 1 s)" for opts v i
    using verb[OF _ that] by (rule ensures_lift)
  have runs: "ensures (liftM (cli_parse_policy_verb argv no_options VERB_RUN 1)) (options_ok argv)"
    "arg_is argv 1 ''run'' \<Longrightarrow> ensures (liftM (cli_parse_policy_verb argv no_options VERB_RUN 2)) (options_ok argv)"
    "arg_is argv 1 ''lint'' \<Longrightarrow> ensures (liftM (cli_parse_policy_verb argv no_options VERB_LINT 2)) (options_ok argv)"
    "arg_is argv 1 ''dry-run'' \<Longrightarrow>
      ensures (liftM (cli_parse_policy_verb argv (no_options\<lparr>opt_dry_run := True\<rparr>) VERB_RUN 2)) (options_ok argv)"
    by (rule run; simp; fail | rule run, simp, simp, rule disjI2, rule conjI[OF refl], rule exI, rule conjI[rotated], assumption, simp)+
  have plain: "options_ok argv (no_options\<lparr>opt_show_help := True\<rparr>)"
    "options_ok argv (no_options\<lparr>opt_verb := VERB_SERVE, opt_systemd := True, opt_argv := Some argv\<rparr>)"
    "options_ok argv (no_options\<lparr>opt_verb := VERB_SERVE, opt_socket_path := Some s, opt_argv := Some argv\<rparr>)"
    "options_ok argv (no_options\<lparr>opt_verb := VERB_STOP, opt_socket_path := Some s, opt_argv := Some argv\<rparr>)"
    "options_ok argv (no_options\<lparr>opt_verb := VERB_STATUS, opt_socket_path := Some s, opt_argv := Some argv\<rparr>)" for s
    by (simp_all add: options_ok_def no_options_def)
  show ?thesis
    unfolding cli_parse_def Let_def
    by (intro ensures_if ensures_return parse_direct_ok runs plain; (elim conjE)?; assumption)
qed

text \<open>C30: A command line that is accepted has one of the shapes the rest of the program relies on: a verb has
  the socket or the single policy it needs; \<open>run\<close> has a command, and so has the direct mode, which
  also has at least one path and only system call numbers an int can hold; and the command is what
  follows the first \<open>--\<close>, never empty.\<close>

theorem cli_parse_shapes: "ensures (cli_parse argv) (options_ok argv)"
  by (rule parse_ok)

end
