(* ===== verification/Dry_Run.thy ===== *)
theory Dry_Run
  imports Audit_Log Policy_IR "HOL-Library.Multiset"
begin

text \<open>
  The dry run (\<open>src/src/landlockd_cli.c\<close>, lines 302-598): the rules of a policy are sorted and printed.
  \<open>qsort\<close> is the C library's; only that its result is a sorted permutation is used of it.
\<close>

subsection \<open>Text\<close>

fun hex_nat :: "nat \<Rightarrow> string" where
  "hex_nat n = (if n < 16 then [hex_digit n] else hex_nat (n div 16) @ [hex_digit (n mod 16)])"

declare hex_nat.simps [simp del]

definition line :: "string \<Rightarrow> string" where
  "line s = s @ [CHR 0x0A]"

definition dry_run_char :: "char \<Rightarrow> string" where
  "dry_run_char c = (let n = of_char c :: nat in
     if n = 0x5C then [CHR 0x5C, c]
     else if n = 0x0A then [CHR 0x5C, CHR ''n'']
     else if n = 0x0D then [CHR 0x5C, CHR ''r'']
     else if n = 0x09 then [CHR 0x5C, CHR ''t'']
     else if n < 0x20 then [CHR 0x5C] @ ''u00'' @ [hex_digit (n div 16), hex_digit (n mod 16)]
     else [c])"

definition dry_run_string :: "string \<Rightarrow> string" where
  "dry_run_string value = concat (map dry_run_char (cstr value))"

subsection \<open>Comparators\<close>

definition cmp_u64 :: "u64 \<Rightarrow> u64 \<Rightarrow> int" where
  "cmp_u64 a b = of_bool (a > b) - of_bool (a < b)"

text \<open>\<open>strcmp\<close> compares bytes as unsigned numbers; only the sign of its result is used.\<close>

fun strcmp :: "string \<Rightarrow> string \<Rightarrow> int" where
  "strcmp [] [] = 0"
| "strcmp [] (y # ys) = -1"
| "strcmp (x # xs) [] = 1"
| "strcmp (x # xs) (y # ys) = (if (of_char x :: nat) < of_char y then -1 else if (of_char y :: nat) < of_char x then 1 else strcmp xs ys)"

definition cmp_str :: "string option \<Rightarrow> string option \<Rightarrow> int" where
  "cmp_str a b = (case (a, b) of (None, None) \<Rightarrow> 0 | (None, Some _) \<Rightarrow> -1 | (Some _, None) \<Rightarrow> 1 | (Some a, Some b) \<Rightarrow> strcmp a b)"

text \<open>\<open>cmp = f(a, b); if (cmp != 0) return cmp; return rest;\<close>\<close>

definition cmp_then :: "int \<Rightarrow> int \<Rightarrow> int" where
  "cmp_then cmp rest = (if cmp \<noteq> 0 then cmp else rest)"

definition dry_run_fs_rule_cmp :: "fs_rule \<Rightarrow> fs_rule \<Rightarrow> int" where
  "dry_run_fs_rule_cmp a b = cmp_then (cmp_str (Some (r_path a)) (Some (r_path b))) (cmp_u64 (r_allowed a) (r_allowed b))"

definition dry_run_net_rule_cmp :: "net_rule \<Rightarrow> net_rule \<Rightarrow> int" where
  "dry_run_net_rule_cmp a b = cmp_then (of_bool (n_port a > n_port b) - of_bool (n_port a < n_port b))
     (cmp_u64 (n_allowed a) (n_allowed b))"

text \<open>Broker and mount rules of one path, and the attach paths of a mount object.\<close>

definition dry_run_path_cmp :: "string \<Rightarrow> string \<Rightarrow> int" where
  "dry_run_path_cmp a b = cmp_str (Some a) (Some b)"

definition dry_run_bind_rule_cmp :: "bind_rule \<Rightarrow> bind_rule \<Rightarrow> int" where
  "dry_run_bind_rule_cmp a b = cmp_then (cmp_str (Some (b_source a)) (Some (b_source b)))
     (cmp_then (cmp_str (Some (b_target a)) (Some (b_target b)))
       (of_bool (b_read_only a > b_read_only b) - of_bool (b_read_only a < b_read_only b)))"

fun attach_cmp :: "string list \<Rightarrow> string list \<Rightarrow> int" where
  "attach_cmp (a # as) (b # bs) = cmp_then (cmp_str (Some a) (Some b)) (attach_cmp as bs)"
| "attach_cmp as bs = of_bool (length as > length bs) - of_bool (length as < length bs)"

definition dry_run_mount_object_cmp :: "object_rule \<Rightarrow> object_rule \<Rightarrow> int" where
  "dry_run_mount_object_cmp a b = cmp_then (cmp_str (Some (o_name a)) (Some (o_name b)))
     (cmp_then (cmp_str (Some (o_fs_type a)) (Some (o_fs_type b)))
       (cmp_then (cmp_u64 (o_attrs a) (o_attrs b)) (attach_cmp (o_attach a) (o_attach b))))"

definition dry_run_seccomp_cmp :: "int \<Rightarrow> int \<Rightarrow> int" where
  "dry_run_seccomp_cmp a b = of_bool (a > b) - of_bool (a < b)"

subsection \<open>Sorting\<close>

fun qsort_insert :: "('a \<Rightarrow> 'a \<Rightarrow> int) \<Rightarrow> 'a \<Rightarrow> 'a list \<Rightarrow> 'a list" where
  "qsort_insert cmp x [] = [x]"
| "qsort_insert cmp x (y # ys) = (if cmp x y \<le> 0 then x # y # ys else y # qsort_insert cmp x ys)"

definition qsort :: "('a \<Rightarrow> 'a \<Rightarrow> int) \<Rightarrow> 'a list \<Rightarrow> 'a list" where
  "qsort cmp xs = foldr (qsort_insert cmp) xs []"

definition dry_run_sorted :: "ir \<Rightarrow> ir" where
  "dry_run_sorted ir = ir\<lparr>
     fs_layers := map (\<lambda>l. l\<lparr>l_rules := qsort dry_run_fs_rule_cmp (l_rules l)\<rparr>) (fs_layers ir),
     net_rules := qsort dry_run_net_rule_cmp (net_rules ir),
     broker_open_read := qsort dry_run_path_cmp (broker_open_read ir),
     broker_open_write := qsort dry_run_path_cmp (broker_open_write ir),
     broker_scratch := qsort dry_run_path_cmp (broker_scratch ir),
     broker_export := qsort dry_run_path_cmp (broker_export ir),
     broker_mount_tmpfs := qsort dry_run_path_cmp (broker_mount_tmpfs ir),
     broker_mount_bind := qsort dry_run_bind_rule_cmp (broker_mount_bind ir),
     broker_mount_object := qsort dry_run_mount_object_cmp
       (map (\<lambda>r. r\<lparr>o_attach := qsort dry_run_path_cmp (o_attach r)\<rparr>) (broker_mount_object ir)),
     mount_tmpfs := qsort dry_run_path_cmp (mount_tmpfs ir),
     mount_bind := qsort dry_run_bind_rule_cmp (mount_bind ir),
     mount_proc := qsort dry_run_path_cmp (mount_proc ir),
     seccomp_deny := qsort dry_run_seccomp_cmp (seccomp_deny ir)\<rparr>"

subsection \<open>Output\<close>

definition dry_run_emit_open_rules :: "string \<Rightarrow> string list \<Rightarrow> string" where
  "dry_run_emit_open_rules name rules = concat (map (\<lambda>p. line (''broker.'' @ name @ '' path='' @ dry_run_string p)) rules)"

definition dry_run_emit_mount_rules :: "string \<Rightarrow> string list \<Rightarrow> string" where
  "dry_run_emit_mount_rules name rules = concat (map (\<lambda>p. line (''mount.'' @ name @ '' path='' @ dry_run_string p)) rules)"

definition bool_digit :: "bool \<Rightarrow> string" where
  "bool_digit b = (if b then ''1'' else ''0'')"

definition dry_run_emit_bind_rules :: "string \<Rightarrow> bind_rule list \<Rightarrow> string" where
  "dry_run_emit_bind_rules prefix rules = concat (map (\<lambda>r. line (prefix @ '' source='' @ dry_run_string (b_source r) @
     '' target='' @ dry_run_string (b_target r) @ '' ro='' @ bool_digit (b_read_only r))) rules)"

definition hex64 :: "u64 \<Rightarrow> string" where
  "hex64 x = ''0x'' @ hex_nat (unat x)"

definition emit_fs_layer :: "nat \<Rightarrow> fs_layer \<Rightarrow> string" where
  "emit_fs_layer i l = line (''fs.layer['' @ dec_nat i @ ''] handled='' @ hex64 (l_handled l)) @
     concat (map (\<lambda>r. line (''fs.rule path='' @ dry_run_string (r_path r) @ '' allowed='' @ hex64 (r_allowed r))) (l_rules l))"

definition emit_net :: "ir \<Rightarrow> string" where
  "emit_net ir = line (''net.handled='' @ hex64 (net_handled ir)) @
     concat (map (\<lambda>r. line (''net.rule port='' @ dec_nat (unat (n_port r)) @ '' allowed='' @ hex64 (n_allowed r))) (net_rules ir))"

definition emit_object :: "object_rule \<Rightarrow> string" where
  "emit_object r = concat (map (\<lambda>p. line (''broker.mount_object name='' @ dry_run_string (o_name r) @
     '' fs_type='' @ dry_run_string (o_fs_type r) @ '' attach='' @ dry_run_string p @ '' attrs='' @ hex64 (o_attrs r))) (o_attach r))"

definition emit_runtime :: "string \<Rightarrow> string option \<Rightarrow> string" where
  "emit_runtime name value = line (''runtime.'' @ name @ ''='' @ (case value of None \<Rightarrow> ''<unset>'' | Some s \<Rightarrow> dry_run_string s))"

text \<open>What is printed of a sorted policy, and the dry run itself: the policy as sorted, and its text.\<close>

definition dry_run_text :: "ir \<Rightarrow> string" where
  "dry_run_text ir = line ''landlockd dry-run v1'' @
     concat (map (\<lambda>i. emit_fs_layer i (fs_layers ir ! i)) [0..<length (fs_layers ir)]) @
     emit_net ir @
     dry_run_emit_open_rules ''open_read'' (broker_open_read ir) @
     dry_run_emit_open_rules ''open_write'' (broker_open_write ir) @
     dry_run_emit_open_rules ''scratch'' (broker_scratch ir) @
     dry_run_emit_open_rules ''export'' (broker_export ir) @
     dry_run_emit_open_rules ''mount_tmpfs'' (broker_mount_tmpfs ir) @
     dry_run_emit_bind_rules ''broker.mount_bind'' (broker_mount_bind ir) @
     concat (map emit_object (broker_mount_object ir)) @
     dry_run_emit_mount_rules ''tmpfs'' (mount_tmpfs ir) @
     dry_run_emit_bind_rules ''mount.bind'' (mount_bind ir) @
     dry_run_emit_mount_rules ''proc'' (mount_proc ir) @
     emit_runtime ''root'' (runtime_root ir) @
     emit_runtime ''cwd'' (runtime_cwd ir) @
     line (''seccomp.enabled='' @ bool_digit (seccomp_enabled ir) @ '' errno='' @ dec_nat (unat (seccomp_errno ir))) @
     concat (map (\<lambda>nr. line (''seccomp.deny syscall='' @ dec nr)) (seccomp_deny ir))"

definition dry_run :: "ir \<Rightarrow> ir \<times> string" where
  "dry_run ir = (let ir = dry_run_sorted ir in (ir, dry_run_text ir))"

subsection \<open>Sorting does not depend on the order of the input\<close>

text \<open>
  What a comparator must be for the result of sorting to be determined by the elements alone: a
  linear order in which only equal elements compare as equal. Then every routine that returns a
  sorted permutation returns the same list, so nothing more has to be known of \<open>qsort\<close>.
\<close>

locale qsort_order =
  fixes cmp :: "'a \<Rightarrow> 'a \<Rightarrow> int"
  assumes cmp_eq: "cmp x y = 0 \<longleftrightarrow> x = y"
    and cmp_flip: "cmp y x < 0 \<longleftrightarrow> 0 < cmp x y"
    and cmp_trans: "cmp x y \<le> 0 \<Longrightarrow> cmp y z \<le> 0 \<Longrightarrow> cmp x z \<le> 0"
begin

lemma cmp_total: "cmp x y \<le> 0 \<or> cmp y x \<le> 0"
  using cmp_flip[of x y] by linarith

lemma cmp_antisym: "cmp x y \<le> 0 \<Longrightarrow> cmp y x \<le> 0 \<Longrightarrow> x = y"
  using cmp_flip[of x y] cmp_eq[of x y] by linarith

lemma mset_insert: "mset (qsort_insert cmp x xs) = add_mset x (mset xs)"
  by (induction xs) auto

lemma mset_qsort: "mset (qsort cmp xs) = mset xs"
  by (induction xs) (auto simp: qsort_def mset_insert)

lemma insert_sorted:
  "sorted_wrt (\<lambda>x y. cmp x y \<le> 0) xs \<Longrightarrow> sorted_wrt (\<lambda>x y. cmp x y \<le> 0) (qsort_insert cmp x xs)"
proof (induction xs)
  case (Cons y ys)
  have "set (qsort_insert cmp x ys) = insert x (set ys)" using arg_cong[OF mset_insert, of set_mset x ys] by simp
  then show ?case using Cons cmp_total[of x y] by (auto intro: cmp_trans)
qed simp

lemma qsort_sorted: "sorted_wrt (\<lambda>x y. cmp x y \<le> 0) (qsort cmp xs)"
  by (induction xs) (simp_all add: qsort_def insert_sorted)

lemma sorted_unique:
  "sorted_wrt (\<lambda>x y. cmp x y \<le> 0) xs \<Longrightarrow> sorted_wrt (\<lambda>x y. cmp x y \<le> 0) ys \<Longrightarrow> mset xs = mset ys \<Longrightarrow> xs = ys"
proof (induction xs arbitrary: ys)
  case (Cons x xs)
  then obtain y zs where ys: "ys = y # zs" by (cases ys) auto
  have "set (x # xs) = set (y # zs)" using Cons.prems(3) ys by (metis set_mset_mset)
  then have "x = y \<or> y \<in> set xs \<and> x \<in> set zs" by auto
  then have "x = y" using Cons.prems(1,2) ys cmp_antisym[of x y] by auto
  with Cons ys show ?case by simp
qed simp

text \<open>Any sorted permutation is the result.\<close>

lemma qsort_unique: "sorted_wrt (\<lambda>x y. cmp x y \<le> 0) ys \<Longrightarrow> mset ys = mset xs \<Longrightarrow> ys = qsort cmp xs"
  using sorted_unique[OF _ qsort_sorted] mset_qsort by metis

lemma qsort_perm: "mset xs = mset ys \<Longrightarrow> qsort cmp xs = qsort cmp ys"
  using qsort_unique[OF qsort_sorted] mset_qsort by metis

end

text \<open>How the comparators are made: numbers, one field after another, and element by element.\<close>

lemma number_order: "qsort_order (\<lambda>(a :: 'a :: linorder) b. of_bool (a > b) - of_bool (a < b))"
  by unfold_locales (auto split: if_splits simp: of_bool_def)

lemma field_order:
  assumes c: "qsort_order c" and d: "qsort_order d" and inj: "\<And>x y. f x = f y \<Longrightarrow> g x = g y \<Longrightarrow> x = y"
  shows "qsort_order (\<lambda>a b. cmp_then (c (f a) (f b)) (d (g a) (g b)))"
proof -
  note eq = qsort_order.cmp_eq[OF c] qsort_order.cmp_eq[OF d]
  note flip = qsort_order.cmp_flip[OF c] qsort_order.cmp_flip[OF d]
  note trans = qsort_order.cmp_trans[OF c] qsort_order.cmp_trans[OF d]
  show ?thesis
  proof
    fix x y z
    show "cmp_then (c (f x) (f y)) (d (g x) (g y)) = 0 \<longleftrightarrow> x = y"
      using inj[of x y] by (auto simp: cmp_then_def eq)
    show "cmp_then (c (f y) (f x)) (d (g y) (g x)) < 0 \<longleftrightarrow> 0 < cmp_then (c (f x) (f y)) (d (g x) (g y))"
      by (auto simp: cmp_then_def eq flip)
    show "cmp_then (c (f x) (f z)) (d (g x) (g z)) \<le> 0"
      if "cmp_then (c (f x) (f y)) (d (g x) (g y)) \<le> 0" "cmp_then (c (f y) (f z)) (d (g y) (g z)) \<le> 0"
    proof (cases "f x = f y \<or> f y = f z")
      case True
      then show ?thesis using that trans(2)[of "g x" "g y" "g z"] by (auto simp: cmp_then_def eq split: if_splits)
    next
      case False
      then have "c (f x) (f y) \<le> 0" "c (f y) (f z) \<le> 0" using that by (auto simp: cmp_then_def eq split: if_splits)
      moreover from this False have "f x \<noteq> f z" using qsort_order.cmp_antisym[OF c] by metis
      ultimately show ?thesis using trans(1)[of "f x" "f y" "f z"] by (simp add: cmp_then_def eq)
    qed
  qed
qed

fun lex_cmp :: "('a \<Rightarrow> 'a \<Rightarrow> int) \<Rightarrow> 'a list \<Rightarrow> 'a list \<Rightarrow> int" where
  "lex_cmp c [] [] = 0"
| "lex_cmp c [] (y # ys) = -1"
| "lex_cmp c (x # xs) [] = 1"
| "lex_cmp c (x # xs) (y # ys) = cmp_then (c x y) (lex_cmp c xs ys)"

lemma list_order:
  assumes c: "qsort_order c"
  shows "qsort_order (lex_cmp c)"
proof
  note eq = qsort_order.cmp_eq[OF c] and flip = qsort_order.cmp_flip[OF c]
  fix xs ys zs
  show "lex_cmp c xs ys = 0 \<longleftrightarrow> xs = ys"
    by (induction xs ys rule: list_induct2') (auto simp: cmp_then_def eq)
  show "lex_cmp c ys xs < 0 \<longleftrightarrow> 0 < lex_cmp c xs ys"
    by (induction xs ys rule: list_induct2') (auto simp: cmp_then_def eq flip)
  show "lex_cmp c xs ys \<le> 0 \<Longrightarrow> lex_cmp c ys zs \<le> 0 \<Longrightarrow> lex_cmp c xs zs \<le> 0"
  proof (induction xs arbitrary: ys zs)
    case Nil
    then show ?case by (cases zs) auto
  next
    case (Cons x xs)
    then obtain y ys' where ys: "ys = y # ys'" by (cases ys) auto
    with Cons.prems(2) obtain z zs' where zs: "zs = z # zs'" by (cases zs) auto
    show ?case
    proof (cases "x = y \<or> y = z")
      case True
      then show ?thesis using Cons.prems Cons.IH[of ys' zs'] ys zs by (auto simp: cmp_then_def eq split: if_splits)
    next
      case False
      then have "c x y \<le> 0" "c y z \<le> 0" using Cons.prems ys zs by (auto simp: cmp_then_def eq split: if_splits)
      moreover from this False have "x \<noteq> z" using qsort_order.cmp_antisym[OF c] by metis
      ultimately show ?thesis using qsort_order.cmp_trans[OF c, of x y z] zs by (simp add: cmp_then_def eq)
    qed
  qed
qed

text \<open>The comparators of the dry run.\<close>

lemma strcmp_lex: "strcmp xs ys = lex_cmp (\<lambda>a b. of_bool ((of_char a :: nat) > of_char b) - of_bool ((of_char a :: nat) < of_char b)) xs ys"
  by (induction xs ys rule: strcmp.induct) (auto simp: cmp_then_def)

lemma attach_lex: "attach_cmp as bs = lex_cmp strcmp as bs"
  by (induction as bs rule: list_induct2') (simp_all add: cmp_str_def)

lemma char_order: "qsort_order (\<lambda>a b. of_bool ((of_char a :: nat) > of_char b) - of_bool ((of_char a :: nat) < of_char b))"
proof -
  have "(of_char a :: nat) = of_char b \<Longrightarrow> a = b" for a b by simp
  then show ?thesis by unfold_locales (auto split: if_splits simp: of_bool_def)
qed

interpretation path_order: qsort_order dry_run_path_cmp
proof -
  have "dry_run_path_cmp = lex_cmp (\<lambda>a b. of_bool ((of_char a :: nat) > of_char b) - of_bool ((of_char a :: nat) < of_char b))"
    by (simp add: fun_eq_iff dry_run_path_cmp_def cmp_str_def strcmp_lex)
  with list_order[OF char_order] show "qsort_order dry_run_path_cmp" by simp
qed

interpretation seccomp_order: qsort_order dry_run_seccomp_cmp
  using number_order[where 'a = int] unfolding dry_run_seccomp_cmp_def[abs_def] .

lemma u64_order: "qsort_order cmp_u64"
  using number_order[where 'a = u64] unfolding cmp_u64_def[abs_def] .

lemma str_order: "qsort_order (\<lambda>a b. cmp_str (Some a) (Some b))"
  using path_order.qsort_order_axioms unfolding dry_run_path_cmp_def[abs_def] .

interpretation fs_order: qsort_order dry_run_fs_rule_cmp
  unfolding dry_run_fs_rule_cmp_def[abs_def] by (rule field_order[OF str_order u64_order]) simp

interpretation net_order: qsort_order dry_run_net_rule_cmp
  unfolding dry_run_net_rule_cmp_def[abs_def] by (rule field_order[OF number_order u64_order]) simp

interpretation bind_order: qsort_order dry_run_bind_rule_cmp
proof -
  have "qsort_order (\<lambda>a b. cmp_then (cmp_str (Some (fst a)) (Some (fst b))) (of_bool (snd a > snd b) - of_bool (snd a < (snd b :: bool))))"
    by (rule field_order[OF str_order number_order]) (simp add: prod_eq_iff)
  note order = field_order[OF str_order this, of b_source "\<lambda>r. (b_target r, b_read_only r)", unfolded fst_conv snd_conv]
  show "qsort_order dry_run_bind_rule_cmp" unfolding dry_run_bind_rule_cmp_def[abs_def] by (rule order) simp
qed

interpretation object_order: qsort_order dry_run_mount_object_cmp
proof -
  have attach: "qsort_order attach_cmp"
    using list_order[OF str_order] unfolding attach_lex[abs_def] by (simp add: cmp_str_def)
  have "qsort_order (\<lambda>a b. cmp_then (cmp_u64 (fst a) (fst b)) (attach_cmp (snd a) (snd b)))"
    by (rule field_order[OF u64_order attach]) (simp add: prod_eq_iff)
  note order = field_order[OF str_order this, of fst snd]
  have "qsort_order (\<lambda>a b. cmp_then (cmp_str (Some (fst a)) (Some (fst b)))
      (cmp_then (cmp_u64 (fst (snd a)) (fst (snd b))) (attach_cmp (snd (snd a)) (snd (snd b)))))"
    by (rule order) (simp add: prod_eq_iff)
  note order = field_order[OF str_order this, of o_name "\<lambda>r. (o_fs_type r, o_attrs r, o_attach r)", unfolded fst_conv snd_conv]
  show "qsort_order dry_run_mount_object_cmp" unfolding dry_run_mount_object_cmp_def[abs_def] by (rule order) simp
qed

text \<open>Two policies with the same rules, listed in any order; the layers keep theirs.\<close>

definition object_key :: "object_rule \<Rightarrow> string \<times> string \<times> u64 \<times> string multiset" where
  "object_key r = (o_name r, o_fs_type r, o_attrs r, mset (o_attach r))"

definition same_rules :: "ir \<Rightarrow> ir \<Rightarrow> bool" where
  "same_rules i j \<longleftrightarrow>
     map (\<lambda>l. (l_handled l, mset (l_rules l))) (fs_layers i) = map (\<lambda>l. (l_handled l, mset (l_rules l))) (fs_layers j) \<and>
     net_handled i = net_handled j \<and> mset (net_rules i) = mset (net_rules j) \<and>
     mset (broker_open_read i) = mset (broker_open_read j) \<and> mset (broker_open_write i) = mset (broker_open_write j) \<and>
     mset (broker_scratch i) = mset (broker_scratch j) \<and> mset (broker_export i) = mset (broker_export j) \<and>
     mset (broker_mount_tmpfs i) = mset (broker_mount_tmpfs j) \<and> mset (broker_mount_bind i) = mset (broker_mount_bind j) \<and>
     mset (map object_key (broker_mount_object i)) = mset (map object_key (broker_mount_object j)) \<and>
     mset (mount_tmpfs i) = mset (mount_tmpfs j) \<and> mset (mount_bind i) = mset (mount_bind j) \<and>
     mset (mount_proc i) = mset (mount_proc j) \<and> runtime_root i = runtime_root j \<and> runtime_cwd i = runtime_cwd j \<and>
     seccomp_enabled i = seccomp_enabled j \<and> seccomp_errno i = seccomp_errno j \<and> mset (seccomp_deny i) = mset (seccomp_deny j)"

lemma mset_map_key:
  assumes "\<And>x y. key x = key y \<Longrightarrow> f x = f y" "mset (map key xs) = mset (map key ys)"
  shows "mset (map f xs) = mset (map f ys)"
proof -
  let ?h = "\<lambda>k. f (SOME x. key x = k)"
  have "f x = ?h (key x)" for x by (rule assms(1)) (metis (mono_tags, lifting) someI)
  then have "mset (map f zs) = image_mset ?h (mset (map key zs))" for zs by (simp add: multiset.map_comp comp_def flip: mset_map)
  with assms(2) show ?thesis by simp
qed

lemma objects_sorted:
  assumes "mset (map object_key rs) = mset (map object_key ss)"
  shows "qsort dry_run_mount_object_cmp (map (\<lambda>r. r\<lparr>o_attach := qsort dry_run_path_cmp (o_attach r)\<rparr>) rs) =
    qsort dry_run_mount_object_cmp (map (\<lambda>r. r\<lparr>o_attach := qsort dry_run_path_cmp (o_attach r)\<rparr>) ss)"
proof (rule object_order.qsort_perm, rule mset_map_key[OF _ assms])
  fix r s :: object_rule
  assume "object_key r = object_key s"
  then show "r\<lparr>o_attach := qsort dry_run_path_cmp (o_attach r)\<rparr> = s\<lparr>o_attach := qsort dry_run_path_cmp (o_attach s)\<rparr>"
    using path_order.qsort_perm[of "o_attach r" "o_attach s"] by (simp add: object_key_def)
qed

lemma layers_sorted:
  assumes "map (\<lambda>l. (l_handled l, mset (l_rules l))) ls = map (\<lambda>l. (l_handled l, mset (l_rules l))) ms"
  shows "map (\<lambda>l. l\<lparr>l_rules := qsort dry_run_fs_rule_cmp (l_rules l)\<rparr>) ls =
    map (\<lambda>l. l\<lparr>l_rules := qsort dry_run_fs_rule_cmp (l_rules l)\<rparr>) (ms :: fs_layer list)"
  using assms
proof (induction ls arbitrary: ms)
  case (Cons l ls)
  then obtain m ms' where "ms = m # ms'" by (cases ms) auto
  with Cons show ?case using fs_order.qsort_perm[of "l_rules l" "l_rules m"] by simp
qed simp

text \<open>C33: The dry run prints the same text for two policies that have the same rules in any order: the order
  in which a policy file lists its rules, within a layer, among the mount objects or among their
  attach paths, does not show. This holds whichever sorting routine the C library uses.\<close>

theorem dry_run_order_independent:
  assumes "same_rules i j"
  shows "snd (dry_run i) = snd (dry_run j)"
proof -
  have same: "net_handled i = net_handled j" "runtime_root i = runtime_root j" "runtime_cwd i = runtime_cwd j"
    "seccomp_enabled i = seccomp_enabled j" "seccomp_errno i = seccomp_errno j"
    using assms by (simp_all add: same_rules_def)
  have lists: "qsort dry_run_net_rule_cmp (net_rules i) = qsort dry_run_net_rule_cmp (net_rules j)"
    "qsort dry_run_path_cmp (broker_open_read i) = qsort dry_run_path_cmp (broker_open_read j)"
    "qsort dry_run_path_cmp (broker_open_write i) = qsort dry_run_path_cmp (broker_open_write j)"
    "qsort dry_run_path_cmp (broker_scratch i) = qsort dry_run_path_cmp (broker_scratch j)"
    "qsort dry_run_path_cmp (broker_export i) = qsort dry_run_path_cmp (broker_export j)"
    "qsort dry_run_path_cmp (broker_mount_tmpfs i) = qsort dry_run_path_cmp (broker_mount_tmpfs j)"
    "qsort dry_run_bind_rule_cmp (broker_mount_bind i) = qsort dry_run_bind_rule_cmp (broker_mount_bind j)"
    "qsort dry_run_path_cmp (mount_tmpfs i) = qsort dry_run_path_cmp (mount_tmpfs j)"
    "qsort dry_run_bind_rule_cmp (mount_bind i) = qsort dry_run_bind_rule_cmp (mount_bind j)"
    "qsort dry_run_path_cmp (mount_proc i) = qsort dry_run_path_cmp (mount_proc j)"
    "qsort dry_run_seccomp_cmp (seccomp_deny i) = qsort dry_run_seccomp_cmp (seccomp_deny j)"
    by (rule path_order.qsort_perm net_order.qsort_perm bind_order.qsort_perm seccomp_order.qsort_perm;
        use assms in \<open>simp only: same_rules_def\<close>)+
  have layers: "map (\<lambda>l. l\<lparr>l_rules := qsort dry_run_fs_rule_cmp (l_rules l)\<rparr>) (fs_layers i) =
      map (\<lambda>l. l\<lparr>l_rules := qsort dry_run_fs_rule_cmp (l_rules l)\<rparr>) (fs_layers j)"
    by (rule layers_sorted) (use assms in \<open>simp only: same_rules_def\<close>)
  have objects: "qsort dry_run_mount_object_cmp (map (\<lambda>r. r\<lparr>o_attach := qsort dry_run_path_cmp (o_attach r)\<rparr>) (broker_mount_object i)) =
      qsort dry_run_mount_object_cmp (map (\<lambda>r. r\<lparr>o_attach := qsort dry_run_path_cmp (o_attach r)\<rparr>) (broker_mount_object j))"
    by (rule objects_sorted) (use assms in \<open>simp only: same_rules_def\<close>)
  have sel: "dry_run_text (dry_run_sorted k) = dry_run_text (dry_run_sorted k\<lparr>net_enabled := False, broker_addfd := []\<rparr>)" for k
    by (simp add: dry_run_text_def emit_net_def)
  have "dry_run_sorted i\<lparr>net_enabled := False, broker_addfd := []\<rparr> = dry_run_sorted j\<lparr>net_enabled := False, broker_addfd := []\<rparr>"
    by (rule ir.equality) (simp_all only: dry_run_sorted_def lists layers objects ir.select_convs ir.update_convs, simp_all add: same)
  then show ?thesis unfolding dry_run_def Let_def snd_conv by (metis sel)
qed

theorem dry_run_order_independent_witness:
  "snd (dry_run (ir_init\<lparr>mount_proc := [''/b'', ''/a'', ''/b''], seccomp_deny := [3, 1]\<rparr>)) =
   snd (dry_run (ir_init\<lparr>mount_proc := [''/b'', ''/b'', ''/a''], seccomp_deny := [1, 3]\<rparr>))"
  by (rule dry_run_order_independent) (simp add: same_rules_def ir_init_def)

end
