(* ===== verification/Daemon_Safety.thy ===== *)
theory Daemon_Safety
  imports Daemon
begin

text \<open>
  For whom the daemon works (\<open>Daemon\<close>). It serves after its own process has been hardened, and for a
  peer of another user it does nothing but refuse: it reads no byte of the request, looks at no
  file, and starts no process. Nothing is assumed of the kernel.
\<close>

subsection \<open>Work\<close>

text \<open>Calls that take no connection and execute programs only in children.\<close>

definition working :: "sysevent \<Rightarrow> bool" where
  "working e \<longleftrightarrow> routine e \<or> (\<exists>p a. e = InChild (Host (Execvp p a)))"

lemma routine_working: "calls (\<lambda>_. routine) f R \<Longrightarrow> calls (\<lambda>_. working) f R"
  by (erule calls_weaken) (simp add: working_def)

lemma plain_working: "calls (\<lambda>_. plain) f R \<Longrightarrow> calls (\<lambda>_. working) f R"
  by (rule routine_working, rule plain_routine)

lemma working_sys: "routine e \<Longrightarrow> calls (\<lambda>_. working) (sys K e) (\<lambda>_. True)" "routine e \<Longrightarrow> calls (\<lambda>_. working) (sysd K e) (\<lambda>_. True)"
  by (intro routine_working routine_sys; simp)+

lemma working_am: "calls E (run_am f) (\<lambda>_. True)"
  by (intro calls_run_am[OF ensures_True] TrueI)

lemmas working_steps = calls_seq calls_if calls_option working_sys working_am calls_errno calls_return TrueI

text \<open>A condition that does not look at the history can be checked after any history.\<close>

lemma granted_always: "all_granted (\<lambda>_. E) g es \<longleftrightarrow> list_all (\<lambda>x. E (fst x)) es"
  by (induction es arbitrary: g) simp_all

lemma calls_of_traced: "traced (\<lambda>_. E) [] f (\<lambda>_ _. True) \<Longrightarrow> calls (\<lambda>_. E) f (\<lambda>_. True)"
  unfolding calls_def traced_def by (fastforce simp: granted_always split: prod.splits)

lemma working_run: "calls (\<lambda>_. working) (run_policy_ir v ir label argv) (\<lambda>_. True)"
  by (rule calls_of_traced, rule traced_weaken[OF granted_run]) (auto simp: run_granted_def working_def)

lemma working_run_loaded: "calls (\<lambda>_. working) (run_policy_ir_loaded v i label argv) (\<lambda>_. True)"
  unfolding run_policy_ir_loaded_def by (intro working_steps working_run)

lemma routine_write_all: "calls (\<lambda>_. routine) (write_all n K fd s) (\<lambda>_. True)"
  by (induction n arbitrary: s) (auto intro!: routine_steps)

text \<open>Loading a policy executes the helper, in a child, with the policy file as its only argument.\<close>

lemma calls_helper_child:
  assumes "\<And>e. routine e \<Longrightarrow> E (InChild e)" "\<And>p. E (InChild (Host (Execvp p [p, f])))"
  shows "calls (\<lambda>_ e. E (InChild e)) (helper_child n K hp f outp errp execp) (\<lambda>_. True)"
proof -
  have routine: "calls (\<lambda>_ e. E (InChild e)) c (\<lambda>_. True)" if "calls (\<lambda>_. routine) c (\<lambda>_. True)" for c :: "'b io"
    using that by (rule calls_weaken) (rule assms(1))
  have exec: "calls (\<lambda>_ e. E (InChild e)) (sys K (Host (Execvp hp [hp, f]))) (\<lambda>_. True)"
    by (intro calls_sys assms(2) TrueI)
  show ?thesis
    unfolding helper_child_def
    by (intro calls_seq calls_if calls_errno calls_return exec routine[OF routine_closes(1)] routine[OF routine_write_all]
        routine[OF routine_sys(1)] TrueI) simp_all
qed

lemma calls_load_file:
  assumes "\<And>e. routine e \<Longrightarrow> E e" "\<And>p. E (InChild (Host (Execvp p [p, f])))"
  shows "calls (\<lambda>_. E) (policy_load_file n K c_path rust_path (Some f) i) (\<lambda>_. True)"
proof -
  have routine: "calls (\<lambda>_. E) c (\<lambda>_. True)" if "calls (\<lambda>_. routine) c (\<lambda>_. True)" for c :: "'b io"
    using that by (rule calls_weaken) (rule assms(1))
  have child: "calls (\<lambda>_. E) (run_child (helper_child n K hp f outp errp execp)) (\<lambda>_. True)" for hp outp errp execp
    unfolding calls_def
    by (intro allI traced_child, rule traced_mono, rule calls_helper_child[of E f, unfolded calls_def, THEN spec])
      (auto intro: assms)
  have read: "calls (\<lambda>_. routine) (read_helper n K i outp errp execp s) (\<lambda>_. True)" for outp errp execp s
    unfolding read_helper_def close_and_fail_def
    by (intro routine_steps calls_read_fd calls_append_fd calls_run_am[OF ensures_True] routine_closes(1)) simp_all
  have path: "calls (\<lambda>_. routine) (policy_helper_path K c_path rust_path) (\<lambda>_. True)" by (rule calls_helper_path) simp_all
  show ?thesis
    unfolding policy_load_file_def pipe_def close_and_fail_def option.sel
    by (intro calls_seq calls_if calls_option calls_errno calls_return TrueI child routine[OF read] routine[OF routine_closes(1)]
        routine[OF plain_routine[OF plain_waitpid]] routine[OF path] routine[OF routine_sys(1)] routine[OF routine_sys(2)]) simp_all
qed

lemma working_load_file: "calls (\<lambda>_. working) (policy_load_file n K c_path rust_path (Some f) i) (\<lambda>_. True)"
  by (rule calls_load_file) (auto simp: working_def)

lemma routine_read_all: "calls (\<lambda>_. routine) (daemon_read_all n K fd len) (\<lambda>_. True)"
  by (induction n arbitrary: len) (auto intro!: routine_steps calls_read_fd)

lemma routine_audits:
  "calls (\<lambda>_. routine) (daemon_audit_request v c p n) (\<lambda>_. True)"
  "calls (\<lambda>_. routine) (daemon_audit_listener v e s m) (\<lambda>_. True)"
  "calls (\<lambda>_. routine) (daemon_audit_peer v u q d) (\<lambda>_. True)"
  unfolding daemon_audit_request_def daemon_audit_listener_def daemon_audit_peer_def
  by (intro plain_routine[OF plain_own_event] plain_routine[OF plain.calls_audit])+

lemma routine_responses:
  "calls (\<lambda>_. routine) (daemon_send_response v fd s e) (\<lambda>_. True)"
  "calls (\<lambda>_. routine) (daemon_send_status_response v fd st) (\<lambda>_. True)"
  unfolding daemon_send_response_def daemon_send_status_response_def daemon_write_all_def by (rule routine_write_all)+

lemma routine_read_args: "calls (\<lambda>_. routine) (read_args n K fd k total_bytes) (\<lambda>_. True)"
  by (induction k arbitrary: total_bytes) (auto simp: Let_def intro!: routine_steps working_am routine_read_all)

lemmas working_audits = routine_audits[THEN routine_working]
lemmas working_responses = routine_responses[THEN routine_working]
lemmas working_read_all = routine_working[OF routine_read_all]
lemmas working_read_args = routine_working[OF routine_read_args]

lemma working_load_entry: "calls (\<lambda>_. working) (cache_load_entry v c_path rust_path f s) (\<lambda>_. True)"
  unfolding cache_load_entry_def by (intro working_steps working_load_file)

text \<open>A lookup in the cache leaves the user of the daemon alone.\<close>

lemma working_get_policy:
  "calls (\<lambda>_. working) (cache_get_policy v c_path rust_path f st) (\<lambda>r. d_uid (snd r) = d_uid st)"
proof -
  have evict: "d_uid (cache_evict_tail st) = d_uid st" by (simp add: cache_evict_tail_def)
  show ?thesis
    unfolding cache_get_policy_def cache_search_def Let_def
    by (intro working_steps working_load_entry) (simp_all add: evict)
qed

lemma working_run_request:
  "calls (\<lambda>_. working) (run_request v c_path rust_path fd argc f argv st) (\<lambda>r. d_uid (snd r) = d_uid st)"
  unfolding run_request_def
  by (rule calls_seq[OF working_audits(1)], rule calls_bind, rule calls_mono[OF working_get_policy])
    (auto split: option.split intro!: working_steps working_responses working_run_loaded)

lemma working_handle_run:
  "calls (\<lambda>_. working) (daemon_handle_run v c_path rust_path fd hdr st) (\<lambda>r. d_uid (snd r) = d_uid st)"
proof -
  have args: "calls (\<lambda>_. working) (case a of Inl e \<Rightarrow> do { rc \<leftarrow> daemon_send_response v fd 1 e; State_Monad.return (rc, st) }
     | Inr argv \<Rightarrow> run_request v c_path rust_path fd argc f argv st) (\<lambda>r. d_uid (snd r) = d_uid st)" for a argc f
    by (cases a) (auto intro!: working_steps working_responses working_run_request)
  show ?thesis
    unfolding daemon_handle_run_def Let_def
    by (intro working_steps working_responses working_read_all working_read_args args) simp_all
qed

subsection \<open>Whom the daemon serves\<close>

text \<open>The user of the connection being served, as the kernel named it, and the daemon's own.\<close>

definition peer_step :: "sysevent \<times> reply \<Rightarrow> int option \<Rightarrow> int option" where
  "peer_step x p = (case fst x of
     Host c \<Rightarrow> (case c of Accept fd \<Rightarrow> None
       | PeerCred fd \<Rightarrow> (case snd x of Done n d \<Rightarrow> Some (uint (get32 4 d)) | Fail e \<Rightarrow> None)
       | _ \<Rightarrow> p)
   | _ \<Rightarrow> p)"

definition current_peer :: "history \<Rightarrow> int option" where
  "current_peer g = fold peer_step g None"

definition own_uid :: "history \<Rightarrow> int option" where
  "own_uid g = (case g of [] \<Rightarrow> None | x # _ \<Rightarrow>
     (case snd x of Done n d \<Rightarrow> if fst x = Host Getuid then Some (int n) else None | Fail e \<Rightarrow> None))"

definition serves :: "history \<Rightarrow> bool" where
  "serves g \<longleftrightarrow> current_peer g \<noteq> None \<and> current_peer g = own_uid g"

definition hardened_in :: "history \<Rightarrow> bool" where
  "hardened_in g \<longleftrightarrow> (\<exists>k. hardened_as daemon_denied k \<and> within k g)"

text \<open>What the daemon does whoever its peer is. The one message it sends is the refusal with EPERM.\<close>

definition refusal :: string where
  "refusal = put_response \<lparr>p_magic = DAEMON_MAGIC, p_version = DAEMON_VERSION, p_status = 1, p_error_value = 1\<rparr>"

definition front :: "env \<Rightarrow> sysevent \<Rightarrow> bool" where
  "front v e \<longleftrightarrow> e \<in> {Timestamp, Host Getuid, Host Getpid} \<or> (\<exists>k. e = Getenv k) \<or> (\<exists>fd. e = Close fd) \<or>
     (\<exists>p. e = Host (Unlink p)) \<or> hardening_call e \<or>
     (\<exists>fd s. e = Write fd s \<and> (e_diag v = Some fd \<or> (\<exists>u. refusal = u @ s)))"

text \<open>Connections are taken once the process is hardened; anything else is done for a peer of the same user.\<close>

definition daemon_granted :: "env \<Rightarrow> history \<Rightarrow> sysevent \<Rightarrow> bool" where
  "daemon_granted v g e \<longleftrightarrow> front v e \<or> (\<exists>fd. e = Host (Accept fd)) \<and> hardened_in g \<or>
     (\<exists>fd. e = Host (PeerCred fd)) \<or> serves g \<and> working e"

interpretation daemon: audited "daemon_granted v" "e_diag v" for v
  by unfold_locales (simp_all add: daemon_granted_def front_def)

text \<open>Work does not change whom the daemon serves.\<close>

definition worked :: "history \<Rightarrow> history \<Rightarrow> bool" where
  "worked g g' \<longleftrightarrow> (\<exists>es. g' = g @ es \<and> list_all (\<lambda>x. working (fst x)) es)"

lemma working_peer:
  assumes "working (fst x)"
  shows "peer_step x p = p"
proof (cases "fst x")
  case (Host c)
  with assms show ?thesis by (cases c) (simp_all add: working_def peer_step_def)
qed (simp_all add: peer_step_def)

lemma worked_peer: "worked g g' \<Longrightarrow> current_peer g' = current_peer g"
proof -
  have "list_all (\<lambda>x. working (fst x)) es \<Longrightarrow> fold peer_step es p = p" for es p
    by (induction es arbitrary: p) (auto simp: working_peer)
  then show "worked g g' \<Longrightarrow> current_peer g' = current_peer g" by (auto simp: worked_def current_peer_def)
qed

lemma own_uid_append: "g \<noteq> [] \<Longrightarrow> own_uid (g @ es) = own_uid g"
  by (cases g) (simp_all add: own_uid_def)

lemma serves_nonempty: "serves g \<Longrightarrow> g \<noteq> []"
  by (auto simp: serves_def own_uid_def)

lemma serves_worked: "serves g \<Longrightarrow> worked g g' \<Longrightarrow> serves g'"
proof -
  assume s: "serves g" and w: "worked g g'"
  then have "own_uid g' = own_uid g" using own_uid_append[OF serves_nonempty] by (auto simp: worked_def)
  with s worked_peer[OF w] show "serves g'" unfolding serves_def by metis
qed

lemma worked_refl: "worked g g"
  by (simp add: worked_def)

lemma worked_trans: "worked g g' \<Longrightarrow> worked g' g'' \<Longrightarrow> worked g g''"
  by (auto simp: worked_def)

lemma traced_worked: "calls (\<lambda>_. working) f R \<Longrightarrow> traced (\<lambda>_. working) g f (\<lambda>a g'. worked g g' \<and> R a)"
  unfolding calls_def traced_def worked_def by (fastforce simp: granted_always split: prod.splits)

lemma granted_worked:
  "serves g \<Longrightarrow> list_all (\<lambda>x. working (fst x)) es \<Longrightarrow> all_granted (daemon_granted v) g es"
proof (induction es arbitrary: g)
  case (Cons x es)
  have "serves (g @ [x])" using Cons.prems by (intro serves_worked[OF Cons.prems(1)]) (auto simp: worked_def)
  with Cons show ?case by (simp add: daemon_granted_def)
qed simp

text \<open>Work for a peer that may be served, and work that is done for anyone.\<close>

lemma traced_work:
  assumes "serves g" "calls (\<lambda>_. working) f R" "\<And>a g'. worked g g' \<Longrightarrow> R a \<Longrightarrow> Q a g'"
  shows "traced (daemon_granted v) g f Q"
proof (rule tracedI)
  fix w
  obtain a w' where f: "run_state f w = (a, w')" by fastforce
  obtain es where es: "w_trace w' = w_trace w @ es" "all_granted (\<lambda>_. working) g es" "worked g (g @ es)" "R a"
    using tracedD[OF traced_worked[OF assms(2)] f, of g] by blast
  from es(2) have "all_granted (daemon_granted v) g es" by (simp add: granted_always granted_worked[OF assms(1)])
  with es assms(3) show "\<exists>es. w_trace (snd (run_state f w)) = w_trace w @ es \<and> all_granted (daemon_granted v) g es \<and>
      Q (fst (run_state f w)) (g @ es)" unfolding f by auto
qed

lemma traced_front:
  assumes "calls (daemon_granted v) f (\<lambda>_. True)" "calls (\<lambda>_. working) f (\<lambda>_. True)" "\<And>a g'. worked g g' \<Longrightarrow> Q a g'"
  shows "traced (daemon_granted v) g f Q"
  by (rule traced_mono[OF traced_meet[OF assms(1)[unfolded calls_def, THEN spec] traced_worked[OF assms(2)]]])
    (simp add: assms(3))

lemma front_write_all:
  assumes "\<exists>u. refusal = u @ s"
  shows "calls (daemon_granted v) (daemon_write_all n K fd s) (\<lambda>_. True)"
  unfolding daemon_write_all_def
  using assms
proof (induction n arbitrary: s)
  case (Suc n)
  have "\<exists>u. refusal = u @ drop k s" for k
  proof -
    from Suc.prems obtain u where "refusal = u @ s" by blast
    then have "refusal = (u @ take k s) @ drop k s" by simp
    then show ?thesis by blast
  qed
  moreover have "calls (daemon_granted v) (sys K (Write fd s)) (\<lambda>_. True)"
    using Suc.prems by (intro calls_sys) (auto simp: daemon_granted_def front_def)
  ultimately show ?case
    unfolding write_all.simps by (intro calls_if calls_seq calls_errno calls_return Suc TrueI)
qed (simp add: io_calls)

lemma front_own_event: "calls (daemon_granted v) (audit_own_event v event fs) (\<lambda>_. True)"
proof (cases "e_diag v = None")
  case True
  show ?thesis
    unfolding audit_own_event_def True put_fields_None audit_begin_def audit_end_def
    by (auto intro!: io_calls simp: daemon_granted_def front_def)
next
  case False
  show ?thesis
    unfolding audit_own_event_def
    by (intro calls_bind calls_mono[OF daemon.calls_begin[OF False]] calls_sys calls_mono[OF daemon.calls_put_fields]
        calls_mono[OF daemon.calls_end[OF False]] calls_return TrueI) (simp_all add: daemon_granted_def front_def)
qed

lemma front_audits:
  "calls (daemon_granted v) (daemon_audit_listener v e s m) (\<lambda>_. True)"
  "calls (daemon_granted v) (daemon_audit_peer v u q d) (\<lambda>_. True)"
  unfolding daemon_audit_listener_def daemon_audit_peer_def by (intro front_own_event daemon.calls_audit)+

lemma front_close: "calls (daemon_granted v) (sys K (Close fd)) (\<lambda>_. True)"
  by (intro calls_sys) (simp_all add: daemon_granted_def front_def)

lemma front_refusal: "calls (daemon_granted v) (daemon_send_response v fd 1 EPERM) (\<lambda>_. True)"
  unfolding daemon_send_response_def by (rule front_write_all) (simp add: refusal_def)

lemmas anyone =
  traced_front[OF front_audits(1) working_audits(2)] traced_front[OF front_audits(2) working_audits(3)]
  traced_front[OF front_close working_sys(1)] traced_front[OF front_refusal working_responses(1)]

text \<open>Later in the run of a daemon whose user is \<open>d_uid st\<close>.\<close>

definition running :: "daemon_state \<Rightarrow> history \<Rightarrow> bool" where
  "running st g \<longleftrightarrow> g \<noteq> [] \<and> own_uid g = (if d_uid st < 0 then None else Some (d_uid st)) \<and> hardened_in g"

lemma running_append: "running st g \<Longrightarrow> running st (g @ es)"
  using within_append by (fastforce simp: running_def own_uid_append hardened_in_def)

lemma running_worked: "running st g \<Longrightarrow> worked g g' \<Longrightarrow> running st g'"
  unfolding worked_def using running_append by blast

lemma running_uid: "running st g \<Longrightarrow> d_uid st' = d_uid st \<Longrightarrow> running st' g"
  by (simp add: running_def)

lemma serves_peer:
  assumes "running st g" "uint (get32 4 d) = d_uid st"
  shows "serves (g @ [(Host (PeerCred fd), Done n d)])"
proof -
  have "own_uid g = Some (d_uid st)"
    using assms uint_ge_0[of "get32 4 d"] by (simp add: running_def)
  then show ?thesis
    using assms own_uid_append[of g] by (simp add: running_def serves_def current_peer_def peer_step_def)
qed

lemma traced_peer:
  assumes "running st g"
  shows "traced (daemon_granted v) g (daemon_peer_authorized v fd st) (\<lambda>r g'. running st g' \<and> (r < 0 \<or> r = 0 \<or> serves g'))"
proof -
  let ?Q = "\<lambda>(r :: int) g'. running st g' \<and> (r < 0 \<or> r = 0 \<or> serves g')"
  have seen: "traced (daemon_granted v) (g @ [(Host (PeerCred fd), Done n d)])
      (if uint (get32 4 d) \<noteq> d_uid st then do { daemon_audit_peer v u q ''deny''; set_errno EPERM; State_Monad.return 0 }
       else do { daemon_audit_peer v u q ''allow''; State_Monad.return 1 }) ?Q" for n d u q
    by (intro traced_if traced_bind anyone traced_set_errno traced_return)
      (use running_worked[OF running_append[OF assms]] serves_worked[OF serves_peer[OF assms]] in auto)
  show ?thesis
    unfolding daemon_peer_authorized_def Let_def
  proof (rule traced_bind, rule traced_sysd, goal_cases)
    case (2 n d)
    then show ?case using seen[of n d] by simp
  qed (auto intro!: traced_return running_append assms simp: daemon_granted_def)
qed

lemma working_hang_up: "d_uid st' = u \<Longrightarrow> calls (\<lambda>_. working) (hang_up K fd stop st') (\<lambda>r. d_uid (snd r) = u)"
  unfolding hang_up_def by (intro working_steps) simp_all

lemma working_command: "calls (\<lambda>_. working) (daemon_command v c_path rust_path fd st) (\<lambda>r. d_uid (snd r) = d_uid st)"
  unfolding daemon_command_def refuse_client_def Let_def
  by (intro calls_bind[OF calls_mono[OF working_handle_run]] calls_if calls_seq working_hang_up working_read_all
      working_responses working_audits) simp_all

lemma traced_hang_up:
  assumes "running st g" "d_uid st' = d_uid st"
  shows "traced (daemon_granted v) g (hang_up K fd stop st') (\<lambda>r g'. running st g' \<and> d_uid (snd r) = d_uid st)"
  unfolding hang_up_def
  by (rule traced_bind, rule anyone(3), simp, rule traced_return) (simp add: assms(2) running_worked[OF assms(1)])

lemma traced_refuse:
  assumes "running st g"
  shows "traced (daemon_granted v) g (refuse_client v fd EPERM st) (\<lambda>r g'. running st g' \<and> d_uid (snd r) = d_uid st)"
  unfolding refuse_client_def
  by (rule traced_bind, rule anyone(4), rule traced_hang_up[OF running_worked[OF assms] refl])

lemma traced_client:
  assumes "running st g"
  shows "traced (daemon_granted v) g (daemon_client v c_path rust_path fd st)
    (\<lambda>r g'. running st g' \<and> d_uid (snd r) = d_uid st)"
proof -
  have "traced (daemon_granted v) g' (if r < 0 then hang_up (e_kernel v) fd False st
      else if r = 0 then refuse_client v fd EPERM st else daemon_command v c_path rust_path fd st)
      (\<lambda>r g'. running st g' \<and> d_uid (snd r) = d_uid st)" if g': "running st g'" "r < 0 \<or> r = 0 \<or> serves g'" for r g'
  proof (intro traced_if traced_hang_up[OF g'(1) refl] traced_refuse[OF g'(1)])
    assume "\<not> r < 0" "r \<noteq> 0"
    with g'(2) have "serves g'" by blast
    then show "traced (daemon_granted v) g' (daemon_command v c_path rust_path fd st) (\<lambda>r g'. running st g' \<and> d_uid (snd r) = d_uid st)"
      by (rule traced_work[OF _ working_command]) (simp add: running_worked[OF g'(1)])
  qed
  then show ?thesis
    unfolding daemon_client_def by (intro traced_bind) (rule traced_mono[OF traced_peer[OF assms]], blast)
qed

lemma traced_serve:
  "running st g \<Longrightarrow> traced (daemon_granted v) g (serve_clients n v c_path rust_path listen_fd st) (\<lambda>_ _. True)"
proof (induction n arbitrary: st g)
  case (Suc n)
  have acc: "daemon_granted v g (Host (Accept listen_fd))" using Suc.prems by (simp add: daemon_granted_def running_def)
  have client: "traced (daemon_granted v) g' (do {
       r \<leftarrow> daemon_client v c_path rust_path fd st;
       if fst r then State_Monad.return (True, snd r)
       else serve_clients n v c_path rust_path listen_fd (snd r) }) (\<lambda>_ _. True)" if "running st g'" for g' fd
    using that
    by (intro traced_bind traced_mono[OF traced_client] traced_if traced_return Suc.IH TrueI) (auto intro: running_uid)
  show ?case
    unfolding serve_clients.simps
    by (intro traced_bind traced_sys acc traced_if traced_get_errno traced_return Suc.IH client running_append Suc.prems TrueI)
qed (simp add: traced_return)

subsection \<open>The whole daemon\<close>

lemma wp_daemon_hardening:
  "wp (seccomp_apply_daemon_hardening K) (\<lambda>rc w'. \<forall>es. w_trace w' = w_trace w @ es \<longrightarrow>
     (if rc < 0 then True else hardened_as daemon_denied es)) w"
proof -
  obtain p where p: "plan_add_all plan_local daemon_denied = Inr p" "plan_count p = length daemon_denied"
    "\<And>rest nr. verdict (deny_filter 1 p) rest nr = Some (if nr \<in> word_of_int ` set daemon_denied
       then SECCOMP_RET_ERRNO OR ucast (1 :: u16) else SECCOMP_RET_ALLOW)"
    by (rule hardening_plan[of daemon_denied 1]) (auto simp: daemon_denied_def kernel_attack_syscalls_def MAX_EXCEPTIONS_def)
  have a: "add_daemon_hardening_syscalls plan_local = Inr p"
    using p(1) by (simp add: add_daemon_hardening_syscalls_def daemon_denied_def kernel_attack_syscalls_def)
  have c: "0 < plan_count p" "plan_count p \<le> MAX_EXCEPTIONS"
    using p(2) by (auto simp: daemon_denied_def kernel_attack_syscalls_def MAX_EXCEPTIONS_def)
  show ?thesis
    using c p(3)
    by (simp add: seccomp_apply_daemon_hardening_def landlockd_set_no_new_privs_def seccomp_install_denylist_def of_res_def a
        io_wp hardened_as_def split: reply.splits)
qed

lemma front_hardening: "calls (daemon_granted v) (seccomp_apply_daemon_hardening K) (\<lambda>_. True)"
  unfolding seccomp_apply_daemon_hardening_def landlockd_set_no_new_privs_def seccomp_install_denylist_def of_res_def
  by (auto intro!: io_calls simp: daemon_granted_def front_def hardening_call_def split: sum.split failure.split)

lemma traced_hardening:
  "traced (daemon_granted v) g (seccomp_apply_daemon_hardening K)
     (\<lambda>rc g'. \<exists>es. g' = g @ es \<and> (if rc < 0 then True else hardened_as daemon_denied es))"
  by (rule traced_of_wp[OF front_hardening wp_daemon_hardening])

lemma front_unlink: "calls (daemon_granted v) (unlink_socket K b l) (\<lambda>_. True)"
  unfolding unlink_socket_def
  by (intro calls_if calls_seq calls_sys calls_return TrueI) (simp_all add: daemon_granted_def front_def)

lemma daemon_granted_run:
  "traced (daemon_granted v) [] (daemon_serve_listener n v c_path rust_path listen_fd label unlink_on_exit) (\<lambda>_ _. True)"
proof -
  have finish: "traced (daemon_granted v) g f (\<lambda>_ _. True)" if "calls (daemon_granted v) f (\<lambda>_. True)" for g and f :: "'b io"
    by (rule traced_calls[OF that]) simp
  have serve: "traced (daemon_granted v) g (do {
       rc \<leftarrow> seccomp_apply_daemon_hardening (e_kernel v);
       if rc < 0 then do {
         _ \<leftarrow> sys (e_kernel v) (Close listen_fd);
         unlink_socket (e_kernel v) unlink_on_exit label;
         State_Monad.return (Some (1, initial_state uid)) }
       else do {
         r \<leftarrow> serve_clients n v c_path rust_path listen_fd (initial_state uid);
         if \<not> fst r then State_Monad.return None
         else do {
           _ \<leftarrow> sys (e_kernel v) (Close listen_fd);
           unlink_socket (e_kernel v) unlink_on_exit label;
           daemon_audit_listener v ''daemon.exit'' label None;
           State_Monad.return (Some (0, cache_cleanup (snd r))) } } }) (\<lambda>_ _. True)"
    if "g \<noteq> []" "own_uid g = (if uid < 0 then None else Some uid)" for g uid
  proof (rule traced_bind, rule traced_mono[OF traced_hardening], elim exE conjE, goal_cases)
    case (1 rc g' es)
    have "running (initial_state uid) g'" if "\<not> rc < 0"
      using that 1 \<open>g \<noteq> []\<close> \<open>own_uid g = (if uid < 0 then None else Some uid)\<close> own_uid_append[of g es]
      by (simp add: running_def initial_state_def hardened_in_def within_def) (metis append_Nil2)
    then show ?case
      by (intro traced_if traced_bind traced_mono[OF traced_serve] traced_return TrueI
          finish[OF calls_seq[OF front_close calls_seq[OF front_unlink calls_seq[OF front_audits(1) calls_return]]]]
          finish[OF calls_seq[OF front_close calls_seq[OF front_unlink calls_return]]])
  qed
  show ?thesis
    unfolding daemon_serve_listener_def Let_def
    by (intro traced_bind traced_sys anyone serve) (auto simp: daemon_granted_def front_def worked_def own_uid_def)
qed


end
