(* ===== verification/Daemon_Cache.thy ===== *)
theory Daemon_Cache
  imports Daemon_Safety
begin

text \<open>
  The daemon's policy cache (\<open>Daemon\<close>): which states it can be in, and what a lookup returns.
\<close>

subsection \<open>Results of a computation\<close>

text \<open>\<open>gives f R\<close>: whatever the kernel answers and whichever allocations fail, the result of \<open>f\<close> satisfies \<open>R\<close>.\<close>

definition gives :: "'a io \<Rightarrow> ('a \<Rightarrow> bool) \<Rightarrow> bool" where
  "gives f R \<longleftrightarrow> (\<forall>w. R (fst (run_state f w)))"

named_theorems io_gives \<open>introduction rules for \<open>gives\<close>\<close>

lemma givesD: "gives f R \<Longrightarrow> run_state f w = (a, w') \<Longrightarrow> R a"
  unfolding gives_def by (metis fst_conv)

lemma gives_mono: "gives f P \<Longrightarrow> (\<And>a. P a \<Longrightarrow> R a) \<Longrightarrow> gives f R"
  unfolding gives_def by blast

lemma gives_True: "gives f (\<lambda>_. True)"
  by (simp add: gives_def)

lemma gives_return [io_gives]: "R a \<Longrightarrow> gives (State_Monad.return a) R"
  by (simp add: gives_def)

lemma gives_bind: "gives f P \<Longrightarrow> (\<And>a. P a \<Longrightarrow> gives (h a) R) \<Longrightarrow> gives (State_Monad.bind f h) R"
  unfolding gives_def by (simp add: split_beta)

lemma gives_then [io_gives]: "(\<And>a. gives (h a) R) \<Longrightarrow> gives (State_Monad.bind f h) R"
  by (rule gives_bind[OF gives_True])

lemma gives_if [io_gives]: "(b \<Longrightarrow> gives f R) \<Longrightarrow> (\<not> b \<Longrightarrow> gives h R) \<Longrightarrow> gives (if b then f else h) R"
  by simp

lemma gives_option [io_gives]:
  "(x = None \<Longrightarrow> gives f R) \<Longrightarrow> (\<And>a. x = Some a \<Longrightarrow> gives (h a) R) \<Longrightarrow>
   gives (case x of None \<Rightarrow> f | Some a \<Rightarrow> h a) R"
  by (cases x) simp_all

lemma gives_run_am: "ensures f P \<Longrightarrow> gives (run_am f) (\<lambda>r. case r of None \<Rightarrow> True | Some a \<Rightarrow> P a)"
  by (auto simp: gives_def run_am_def ensures_def split: prod.splits sum.splits failure.splits)

text \<open>A policy the loader accepts is one the wire reader accepted.\<close>

lemma close_and_fail_gives: "gives (close_and_fail K fds i) (\<lambda>l. fst l < 0)"
  unfolding close_and_fail_def by (intro io_gives) simp

lemma fail_gives: "gives (do { rc \<leftarrow> fail_with e; State_Monad.return (rc, i :: ir) }) (\<lambda>l. fst l < 0 \<or> ir_trusted (snd l))"
  by (simp add: gives_def fail_with_def set_errno_def)

lemma read_helper_gives: "gives (read_helper n K ir_init outp errp execp s) (\<lambda>l. fst l < 0 \<or> ir_trusted (snd l))"
  unfolding read_helper_def
  by (intro gives_bind[OF gives_run_am[OF load_wire_trusted]] gives_if gives_return fail_gives
      gives_mono[OF close_and_fail_gives] gives_option gives_then | simp)+

lemma load_file_gives:
  "gives (policy_load_file n K c_path rust_path f ir_init) (\<lambda>l. fst l < 0 \<or> ir_trusted (snd l))"
  unfolding policy_load_file_def
  by (intro gives_if gives_option gives_return fail_gives read_helper_gives
      gives_mono[OF close_and_fail_gives] gives_then | simp)+

subsection \<open>The invariant\<close>

text \<open>The files that have a live entry.\<close>

definition cached_files :: "cache_entry list \<Rightarrow> string list" where
  "cached_files es = concat (map (\<lambda>e. case c_file e of None \<Rightarrow> [] | Some f \<Rightarrow> [f]) es)"

definition entry_ok :: "cache_entry \<Rightarrow> bool" where
  "entry_ok e \<longleftrightarrow> (c_file e = None \<or> ir_trusted (c_ir e))"

definition cache_ok :: "daemon_state \<Rightarrow> bool" where
  "cache_ok st \<longleftrightarrow> length (d_cache st) = d_entries st \<and> d_entries st \<le> MAX_CACHE_ENTRIES \<and>
     distinct (cached_files (d_cache st)) \<and> list_all entry_ok (d_cache st)"

lemma cached_files_simps [simp]:
  "cached_files [] = []"
  "cached_files (e # es) = (case c_file e of None \<Rightarrow> [] | Some f \<Rightarrow> [f]) @ cached_files es"
  "cached_files (es @ fs) = cached_files es @ cached_files fs"
  by (simp_all add: cached_files_def)

lemma cache_find_Some:
  "cache_find f es = Some i \<Longrightarrow> i < length es \<and> c_file (es ! i) = Some f"
  by (induction es arbitrary: i) (auto split: if_splits)

lemma cache_find_None: "cache_find f es = None \<Longrightarrow> f \<notin> set (cached_files es)"
  by (induction es) (auto split: if_splits option.splits)

lemma cached_files_update:
  assumes "i < length es" "c_file (es ! i) = Some f"
  shows "cached_files (es[i := e]) = cached_files (take i es) @ cached_files [e] @ cached_files (drop (Suc i) es)"
    and "cached_files es = cached_files (take i es) @ [f] @ cached_files (drop (Suc i) es)"
proof -
  show "cached_files (es[i := e]) = cached_files (take i es) @ cached_files [e] @ cached_files (drop (Suc i) es)"
    using assms(1) by (simp add: upd_conv_take_nth_drop)
  have "cached_files es = cached_files (take i es @ es ! i # drop (Suc i) es)" using assms(1) by (simp add: id_take_nth_drop[symmetric])
  then show "cached_files es = cached_files (take i es) @ [f] @ cached_files (drop (Suc i) es)" using assms(2) by simp
qed

lemma update_ok:
  assumes "cache_ok st" "cache_find f (d_cache st) = Some i" "c_file e = None \<or> c_file e = Some f" "entry_ok e"
  shows "cache_ok (st\<lparr>d_cache := (d_cache st)[i := e]\<rparr>)"
proof -
  have i: "i < length (d_cache st)" "c_file (d_cache st ! i) = Some f" using cache_find_Some[OF assms(2)] by auto
  from cached_files_update(1)[OF this, of e] cached_files_update(2)[OF this] assms(1,3) have "distinct (cached_files ((d_cache st)[i := e]))"
    by (auto simp: cache_ok_def)
  moreover have "list_all entry_ok ((d_cache st)[i := e])"
    using assms(1,4) set_update_subset_insert[of "d_cache st" i e] by (auto simp: cache_ok_def list_all_iff)
  ultimately show ?thesis using assms(1) by (simp add: cache_ok_def)
qed

lemma evict_ok: "cache_ok st \<Longrightarrow> cache_ok (cache_evict_tail st)"
  and evict_room: "cache_ok st \<Longrightarrow> d_entries (cache_evict_tail st) < MAX_CACHE_ENTRIES"
  and evict_files: "set (cached_files (d_cache (cache_evict_tail st))) \<subseteq> set (cached_files (d_cache st))"
  by (cases "d_cache st" rule: rev_cases; auto simp: cache_evict_tail_def cache_ok_def MAX_CACHE_ENTRIES_def)+

lemma insert_ok:
  assumes "cache_ok st" "cache_find f (d_cache st) = None" "c_file e = Some f" "entry_ok e"
  shows "cache_ok (cache_evict_tail st
    \<lparr>d_cache := e # d_cache (cache_evict_tail st), d_entries := d_entries (cache_evict_tail st) + 1\<rparr>)"
  using evict_ok[OF assms(1)] evict_room[OF assms(1)] evict_files[of st] cache_find_None[OF assms(2)] assms(3,4)
  by (auto simp: cache_ok_def)

lemma counters_ok [simp]:
  "cache_ok (st\<lparr>d_hits := h\<rparr>) = cache_ok st" "cache_ok (st\<lparr>d_misses := m\<rparr>) = cache_ok st"
  by (simp_all add: cache_ok_def)

lemma initial_ok: "cache_ok (initial_state uid)"
  by (simp add: cache_ok_def initial_state_def)

subsection \<open>Lookups\<close>

text \<open>The policy \<open>i\<close> is the one the cache now holds for \<open>f\<close>, and is as fresh as the file was when the lookup
  asked for it.\<close>

definition cached_as :: "string \<Rightarrow> ir \<Rightarrow> daemon_state \<Rightarrow> history \<Rightarrow> bool" where
  "cached_as f i st g \<longleftrightarrow> (\<exists>n d rest e. g = (Stat f, Done n d) # rest \<and> e \<in> set (d_cache st) \<and>
     c_file e = Some f \<and> c_stamp e = stamp_of d \<and> c_ir e = i)"

definition lookup_ok :: "string \<Rightarrow> daemon_state \<Rightarrow> ir option \<times> daemon_state \<Rightarrow> history \<Rightarrow> bool" where
  "lookup_ok f st r g \<longleftrightarrow> cache_ok (snd r) \<and> d_uid (snd r) = d_uid st \<and> (case fst r of
     None \<Rightarrow> d_hits (snd r) = d_hits st \<and> d_misses (snd r) = d_misses st
   | Some i \<Rightarrow> ir_trusted i \<and> cached_as f i (snd r) g \<and>
       (length g = 1 \<and> cached_as f i st g \<and> snd r = st\<lparr>d_hits := d_hits st + 1\<rparr> \<or>
        d_hits (snd r) = d_hits st \<and> d_misses (snd r) = d_misses st + 1))"

lemma load_entry_gives:
  assumes "is_cstr f"
  shows "gives (cache_load_entry v c_path rust_path f s)
     (\<lambda>r. case r of None \<Rightarrow> True | Some e \<Rightarrow> c_file e = Some f \<and> c_stamp e = s \<and> ir_trusted (c_ir e))"
proof -
  have "ensures (strdup f) (\<lambda>x. x = f)" using assms by (auto simp: strdup_def intro!: am_rule)
  then show ?thesis
    unfolding cache_load_entry_def
    by (intro gives_bind[OF load_file_gives] gives_if gives_return gives_bind[OF gives_run_am])
      (auto split: option.splits)
qed

lemma traced_load_entry:
  assumes "is_cstr f"
    and "\<And>g'. \<exists>es. g' = g @ es \<Longrightarrow> Q None g'"
    and "\<And>e g'. \<exists>es. g' = g @ es \<Longrightarrow> c_file e = Some f \<Longrightarrow> c_stamp e = s \<Longrightarrow> ir_trusted (c_ir e) \<Longrightarrow> Q (Some e) g'"
  shows "traced (\<lambda>_ _. True) g (cache_load_entry v c_path rust_path f s) Q"
proof (rule tracedI)
  fix w
  obtain r w' where r: "run_state (cache_load_entry v c_path rust_path f s) w = (r, w')" by fastforce
  obtain es where es: "w_trace w' = w_trace w @ es"
    using tracedD[OF traced_worked[OF working_load_entry] r, of g] by metis
  have "all_granted (\<lambda>_ _. True) g es" for g by (induction es arbitrary: g) simp_all
  moreover have "Q r (g @ es)"
    using givesD[OF load_entry_gives[OF assms(1)] r] by (cases r) (auto intro: assms(2,3))
  ultimately show "\<exists>es. w_trace (snd (run_state (cache_load_entry v c_path rust_path f s) w)) = w_trace w @ es \<and>
      all_granted (\<lambda>_ _. True) g es \<and> Q (fst (run_state (cache_load_entry v c_path rust_path f s) w)) (g @ es)"
    using es r by auto
qed

lemma entry_reset_ok: "entry_ok (cache_entry_reset e)" "c_file (cache_entry_reset e) = None"
  by (simp_all add: entry_ok_def cache_entry_reset_def)

lemma evict_counters [simp]:
  "d_uid (cache_evict_tail st) = d_uid st" "d_hits (cache_evict_tail st) = d_hits st" "d_misses (cache_evict_tail st) = d_misses st"
  by (simp_all add: cache_evict_tail_def)

lemma lookup_hit:
  assumes "cache_ok st" "cache_find f (d_cache st) = Some i" "cache_stat_matches (d_cache st ! i) (stamp_of d)"
  shows "lookup_ok f st (Some (c_ir (d_cache st ! i)), st\<lparr>d_hits := d_hits st + 1\<rparr>) [(Stat f, Done n d)]"
proof -
  let ?e = "d_cache st ! i"
  have e: "?e \<in> set (d_cache st)" "c_file ?e = Some f" using cache_find_Some[OF assms(2)] by auto
  with assms(1) have "ir_trusted (c_ir ?e)" by (auto simp: cache_ok_def entry_ok_def list_all_iff)
  with e assms show ?thesis by (auto simp: lookup_ok_def cached_as_def cache_stat_matches_def)
qed

lemma lookup_reload:
  assumes "cache_ok st" "cache_find f (d_cache st) = Some i" "c_file e = Some f" "c_stamp e = stamp_of d" "ir_trusted (c_ir e)"
  shows "lookup_ok f st (Some (c_ir e), st\<lparr>d_cache := (d_cache st)[i := e], d_misses := d_misses st + 1\<rparr>)
    ((Stat f, Done n d) # es)"
  using update_ok[OF assms(1,2), of e] assms cache_find_Some[OF assms(2)] set_update_memI[of i "d_cache st" e]
  by (auto simp: lookup_ok_def cached_as_def entry_ok_def)

lemma lookup_load:
  assumes "cache_ok st" "cache_find f (d_cache st) = None" "c_file e = Some f" "c_stamp e = stamp_of d" "ir_trusted (c_ir e)"
  shows "lookup_ok f st (Some (c_ir e), cache_evict_tail st\<lparr>d_cache := e # d_cache (cache_evict_tail st),
     d_entries := Suc (d_entries (cache_evict_tail st)), d_misses := d_misses st + 1\<rparr>) ((Stat f, Done n d) # es)"
  using insert_ok[OF assms(1,2), of e] assms by (auto simp: lookup_ok_def cached_as_def entry_ok_def)

lemma lookup_failed:
  assumes "cache_ok st"
  shows "lookup_ok f st (None, st) g" "lookup_ok f st (None, cache_evict_tail st) g"
    and "cache_find f (d_cache st) = Some i \<Longrightarrow> lookup_ok f st (None, st\<lparr>d_cache := (d_cache st)[i := cache_entry_reset e]\<rparr>) g"
  using assms evict_ok[OF assms] update_ok[OF assms _ _ entry_reset_ok(1), of f i e]
  by (simp_all add: lookup_ok_def entry_reset_ok)

lemma get_policy_lookup:
  assumes "cache_ok st" "is_cstr f"
  shows "traced (\<lambda>_ _. True) [] (cache_get_policy v c_path rust_path f st) (lookup_ok f st)"
proof -
  have found: "traced (\<lambda>_ _. True) [(Stat f, Done n d)] (cache_search v c_path rust_path f (stamp_of d) st) (lookup_ok f st)" for n d
    unfolding cache_search_def Let_def
    by (cases "cache_find f (d_cache st)")
      (auto intro!: traced_if traced_bind traced_return traced_load_entry[OF assms(2)] traced_run_am[OF ensures_True]
        lookup_failed[OF assms(1)] lookup_hit[OF assms(1)] lookup_reload[OF assms(1)] lookup_load[OF assms(1)])
  show ?thesis
    unfolding cache_get_policy_def
    by (intro traced_bind traced_sysd) (auto intro!: found traced_return lookup_failed[OF assms(1)])
qed



subsection \<open>The server\<close>

lemma get_policy_ok: "cache_ok st \<Longrightarrow> is_cstr f \<Longrightarrow> gives (cache_get_policy v c_path rust_path f st) (\<lambda>r. cache_ok (snd r))"
  unfolding gives_def
proof
  fix w
  assume ok: "cache_ok st" "is_cstr f"
  obtain r w' where r: "run_state (cache_get_policy v c_path rust_path f st) w = (r, w')" by fastforce
  from tracedD[OF get_policy_lookup[OF ok] r]
  show "cache_ok (snd (fst (run_state (cache_get_policy v c_path rust_path f st) w)))" by (auto simp: lookup_ok_def r)
qed

lemma run_request_ok:
  "cache_ok st \<Longrightarrow> is_cstr f \<Longrightarrow> gives (run_request v c_path rust_path fd argc f argv st) (\<lambda>r. cache_ok (snd r))"
  unfolding run_request_def
  by (rule gives_then, rule gives_bind[OF get_policy_ok]) (auto intro!: io_gives split: option.split)

lemma handle_run_ok: "cache_ok st \<Longrightarrow> gives (daemon_handle_run v c_path rust_path fd hdr st) (\<lambda>r. cache_ok (snd r))"
proof -
  assume st: "cache_ok st"
  have args: "gives (case a of Inl e \<Rightarrow> do { rc \<leftarrow> daemon_send_response v fd 1 e; State_Monad.return (rc, st) }
     | Inr argv \<Rightarrow> run_request v c_path rust_path fd argc (cstr f) argv st) (\<lambda>r. cache_ok (snd r))" for a argc f
    using st by (cases a) (auto intro!: io_gives run_request_ok)
  show ?thesis
    unfolding daemon_handle_run_def Let_def by (intro gives_if gives_then args gives_return) (simp_all add: st)
qed

lemma client_ok: "cache_ok st \<Longrightarrow> gives (daemon_client v c_path rust_path fd st) (\<lambda>r. cache_ok (snd r))"
  unfolding daemon_client_def daemon_command_def refuse_client_def hang_up_def Let_def
  by (intro gives_if gives_bind[OF handle_run_ok] gives_return gives_then) simp_all

lemma serve_ok: "cache_ok st \<Longrightarrow> gives (serve_clients n v c_path rust_path listen_fd st) (\<lambda>r. cache_ok (snd r))"
proof (induction n arbitrary: st)
  case (Suc n)
  then show ?case
    unfolding serve_clients.simps
    by (intro gives_if gives_bind[OF client_ok] gives_return gives_then Suc.IH) simp_all
qed (simp add: gives_return)

text \<open>C11: However many clients the daemon serves, and whatever they, the kernel and the allocator do, its
  cache never holds more than sixteen entries, the counter of entries is their number, no file has
  two live entries, and every live entry holds a trusted policy.\<close>

theorem daemon_cache_invariant:
  "wp (serve_clients n v c_path rust_path listen_fd (initial_state uid)) (\<lambda>r _. cache_ok (snd r)) w"
  using serve_ok[OF initial_ok, of n v c_path rust_path listen_fd uid] by (simp add: wp_def gives_def split_beta)

end
