(* ===== verification/Daemon_Protocol.thy ===== *)
theory Daemon_Protocol
  imports Daemon_Cache
begin

text \<open>
  The protocol between the client and the daemon (\<open>Daemon\<close>): the sizes both sides accept, and that a
  request arrives as it was sent when the connection delivers the bytes that were written.
\<close>

subsection \<open>Fields\<close>

lemma length_put [simp]: "length (put32 x) = 4" "length (put64 y) = 8"
  by (simp_all add: put32_def put64_def)

lemma put32_get: "get32 0 (put32 x @ s) = x"
  by (simp add: get32_def put32_def)

lemma get32_skip: "length s = n \<Longrightarrow> n \<le> off \<Longrightarrow> get32 off (s @ t) = get32 (off - n) t"
  by (simp add: get32_def)

lemma length_put_header [simp]: "length (put_header h) = 20"
  by (simp add: put_header_def)

lemma put_header_get: "get_header (put_header h) = h"
  using put32_get[of _ "[]"] by (simp add: put_header_def get_header_def get32_skip put32_get)

subsection \<open>Sizes\<close>

definition arg_bytes :: "string \<Rightarrow> string" where
  "arg_bytes a = put32 (word_of_nat (length a)) @ a"

definition args_size :: "string list \<Rightarrow> nat" where
  "args_size argv = sum_list (map (\<lambda>a. 4 + length a) argv)"

definition arg_ok :: "string \<Rightarrow> bool" where
  "arg_ok a \<longleftrightarrow> 0 < length a \<and> length a \<le> 65535"

lemma length_arg_bytes: "length (concat (map arg_bytes argv)) = args_size argv"
  by (induction argv) (simp_all add: arg_bytes_def args_size_def)

lemma limits: "unat MAX_ARG_LEN = 65535" "unat MAX_REQUEST_BYTES = 1048576" "unat MAX_ARGS = 128" "unat MAX_POLICY_LEN = 16384"
  by (simp_all add: MAX_ARG_LEN_def MAX_REQUEST_BYTES_def MAX_ARGS_def MAX_POLICY_LEN_def)

lemma unat_small: "n < 2 ^ 32 \<Longrightarrow> unat (word_of_nat n :: u32) = n"
  by (simp add: unat_of_nat)

lemma unat_add_small: "unat a + unat b < 2 ^ 32 \<Longrightarrow> unat (a + b :: u32) = unat a + unat b"
  by (simp add: unat_word_ariths)

lemma args_total_sound:
  assumes "args_total t argv = Some t'" "unat t \<le> 1048576" "list_all (\<lambda>a. length a < 2 ^ 32) argv"
  shows "unat t' = unat t + args_size argv \<and> unat t' \<le> 1048576 \<and> list_all arg_ok argv"
  using assms
proof (induction argv arbitrary: t)
  case (Cons a argv)
  let ?len = "word_of_nat (length a) :: u32"
  have len: "unat ?len = length a" using Cons.prems(3) by (simp add: unat_small)
  have a: "?len \<noteq> 0" "?len \<le> MAX_ARG_LEN" "t + (4 + ?len) \<le> MAX_REQUEST_BYTES" "args_total (t + (4 + ?len)) argv = Some t'"
    using Cons.prems(1) by (auto simp: Let_def not_less split: if_splits)
  have ok: "arg_ok a" using a(1,2) len by (auto simp: arg_ok_def word_le_nat_alt limits intro: ccontr)
  have "unat (4 + ?len) = 4 + length a" using ok len unat_add_small[of 4 ?len] by (simp add: arg_ok_def)
  then have total: "unat (t + (4 + ?len)) = unat t + (4 + length a)"
    using ok Cons.prems(2) unat_add_small[of t "4 + ?len"] by (simp add: arg_ok_def)
  then show ?case
    using Cons.IH[OF a(4)] a(3) Cons.prems(3) ok by (auto simp: word_le_nat_alt limits args_size_def)
qed (simp add: args_size_def)

lemma run_sizes_sound:
  assumes "run_sizes_ok f argv" "list_all (\<lambda>a. length a < 2 ^ 32) (f # argv)" "length argv < 2 ^ 32"
  shows "0 < length f \<and> length f \<le> 16384 \<and> 0 < length argv \<and> length argv \<le> 128 \<and> list_all arg_ok argv \<and>
    length f + args_size argv \<le> 1048576"
proof -
  obtain t where t: "args_total 0 argv = Some t" "word_of_nat (length argv) \<noteq> (0 :: u32)" "word_of_nat (length argv) \<le> MAX_ARGS"
    "word_of_nat (length f) \<noteq> (0 :: u32)" "word_of_nat (length f) \<le> MAX_POLICY_LEN" "t + word_of_nat (length f) \<le> MAX_REQUEST_BYTES"
    using assms(1) by (auto simp: run_sizes_ok_def Let_def split: option.splits)
  have n: "unat (word_of_nat (length argv) :: u32) = length argv" "unat (word_of_nat (length f) :: u32) = length f"
    using assms(2,3) by (simp_all add: unat_small)
  have args: "unat t = args_size argv" "unat t \<le> 1048576" "list_all arg_ok argv"
    using args_total_sound[OF t(1)] assms(2) by auto
  have f: "0 < length f" "length f \<le> 16384" "0 < length argv" "length argv \<le> 128"
    using t n by (auto simp: word_le_nat_alt limits)
  moreover have "length f + args_size argv \<le> 1048576"
    using t(6) unat_add_small[of t "word_of_nat (length f)"] f n args by (simp add: word_le_nat_alt limits)
  ultimately show ?thesis using args by simp
qed

subsection \<open>Reading a stream\<close>

text \<open>Reads of the descriptor hand out the bytes of the stream in order, in pieces of any size.\<close>

definition delivers :: "kernel \<Rightarrow> int \<Rightarrow> string \<Rightarrow> bool" where
  "delivers K fd s \<longleftrightarrow> (\<forall>h n. taken h fd < length s \<longrightarrow> 0 < n \<longrightarrow>
     (\<exists>m. 0 < m \<and> m \<le> n \<and> K h (Host (Read fd n)) = Done m (take m (drop (taken h fd) s))))"

definition positioned :: "int \<Rightarrow> nat \<Rightarrow> world \<Rightarrow> bool" where
  "positioned fd k w \<longleftrightarrow> w_alloc w = [] \<and> taken (w_trace w) fd = k"

lemma wp_read_all:
  assumes "delivers K fd s"
  shows "positioned fd k w \<Longrightarrow> k + len \<le> length s \<Longrightarrow> len \<le> n \<Longrightarrow>
    wp (daemon_read_all n K fd len) (\<lambda>r w'. r = (0, take len (drop k s)) \<and> positioned fd (k + len) w') w"
proof (induction n arbitrary: k len w)
  case (Suc n)
  show ?case
  proof (cases "len = 0")
    case False
    let ?h = "w_trace w"
    have "taken ?h fd < length s" using Suc.prems False by (simp add: positioned_def)
    then obtain m where m: "0 < m" "m \<le> len" "K ?h (Host (Read fd len)) = Done m (take m (drop k s))"
      using assms False Suc.prems(1) unfolding delivers_def positioned_def by (metis gr0I)
    have got: "take len (take m (drop k s)) = take m (drop k s)" "length (take m (drop k s)) = m"
      using m Suc.prems(2) by (simp_all add: min_def) linarith
    let ?w = "w\<lparr>w_trace := ?h @ [(Host (Read fd len), Done m (take m (drop k s)))]\<rparr>"
    have "positioned fd (k + m) ?w" using Suc.prems(1) got by (simp add: positioned_def)
    from Suc.IH[OF this, of "len - m"] Suc.prems m have
      "wp (daemon_read_all n K fd (len - m)) (\<lambda>r w'. r = (0, take (len - m) (drop (k + m) s)) \<and> positioned fd (k + len) w') ?w"
      by simp
    then have "wp (daemon_read_all n K fd (len - m)) (\<lambda>r w'. fst r = 0 \<and> take m (drop k s) @ snd r = take len (drop k s) \<and>
        positioned fd (k + len) w') ?w"
      using m(2) take_add[of m "len - m" "drop k s"] by (elim wp_mono) (simp add: add.commute)
    then show ?thesis
      using False m got by (simp add: read_fd_def io_wp wp_return_fun)
  qed (use Suc.prems in \<open>simp add: io_wp\<close>)
qed (simp add: io_wp)

text \<open>A computation with one outcome can be skipped.\<close>

lemma skip_step:
  assumes "wp f (\<lambda>a w'. a = x \<and> P w') w" "\<And>w'. P w' \<Longrightarrow> \<exists>w''. R w'' \<and> run_state (h x) w' = run_state g w''"
  shows "\<exists>w''. R w'' \<and> run_state (State_Monad.bind f h) w = run_state g w''"
  using assms by (auto simp: wp_def split: prod.splits)

lemma wp_alloc_ok: "positioned fd k w \<Longrightarrow> wp (run_am allocM) (\<lambda>a w'. a = Some () \<and> positioned fd k w') w"
  by (simp add: io_wp allocM_def positioned_def split: list.splits prod.splits)

lemma wp_step: "wp f (\<lambda>a w'. a = x \<and> P w') w \<Longrightarrow> (\<And>w'. P w' \<Longrightarrow> wp (h x) Q w') \<Longrightarrow> wp (State_Monad.bind f h) Q w"
  unfolding wp_bind by (erule wp_mono) auto

lemma wp_read_args:
  assumes "delivers K fd s" "length s \<le> n"
  shows "positioned fd k w \<Longrightarrow> drop k s = concat (map arg_bytes argv) \<Longrightarrow> list_all arg_ok argv \<Longrightarrow> list_all is_cstr argv \<Longrightarrow>
    unat t + args_size argv \<le> 1048576 \<Longrightarrow>
    wp (read_args n K fd (length argv) t) (\<lambda>r w'. r = Inr argv \<and> positioned fd (k + args_size argv) w') w"
proof (induction argv arbitrary: k w t)
  case (Cons a argv)
  let ?len = "word_of_nat (length a) :: u32"
  have s: "drop k s = put32 ?len @ a @ concat (map arg_bytes argv)" using Cons.prems(2) by (simp add: arg_bytes_def[of a])
  then have "length s - k = 4 + length a + args_size argv" by (metis length_drop length_append length_put(1) length_arg_bytes add.assoc)
  then have fit: "k + 4 + length a \<le> length s" by simp
  have parts: "take 4 (drop k s) = put32 ?len" "take (length a) (drop (k + 4) s) = a"
      "drop (k + 4 + length a) s = concat (map arg_bytes argv)"
  proof -
    have "drop (k + 4) s = drop 4 (drop k s)" "drop (k + 4 + length a) s = drop (length a) (drop 4 (drop k s))"
      by (simp_all add: ac_simps)
    then show "take 4 (drop k s) = put32 ?len" "take (length a) (drop (k + 4) s) = a"
      "drop (k + 4 + length a) s = concat (map arg_bytes argv)" unfolding s by simp_all
  qed
  have a: "arg_ok a" "is_cstr a" "list_all arg_ok argv" "list_all is_cstr argv" using Cons.prems by simp_all
  then have len: "unat ?len = length a" "?len \<noteq> 0" by (auto simp: arg_ok_def unat_small unat_eq_0[symmetric])
  have total: "unat (t + 4) = unat t + 4" "unat (t + 4 + ?len) = unat t + 4 + length a"
    using Cons.prems(5) len unat_add_small[of t 4] unat_add_small[of "t + 4" ?len] by (simp_all add: args_size_def)
  have guard: "\<not> (?len = 0 \<or> ?len > MAX_ARG_LEN \<or> t + 4 > MAX_REQUEST_BYTES \<or> t + 4 + ?len > MAX_REQUEST_BYTES)"
    using a len total Cons.prems(5) by (simp add: word_less_nat_alt limits arg_ok_def args_size_def)
  have rest: "wp (read_args n K fd (length argv) (t + 4 + ?len))
      (\<lambda>r w'. r = Inr argv \<and> positioned fd (k + args_size (a # argv)) w') w'" if "positioned fd (k + 4 + length a) w'" for w'
    using Cons.IH[OF that parts(3) a(3,4), of "t + 4 + ?len"] Cons.prems(5) total by (simp add: args_size_def add.assoc)
  have 1: "wp (daemon_read_all n K fd 4) (\<lambda>r w'. r = (0, put32 ?len) \<and> positioned fd (k + 4) w') w"
    using wp_read_all[OF assms(1) Cons.prems(1), of 4 n] fit assms(2) parts(1) by simp
  have 2: "wp (daemon_read_all n K fd (unat ?len)) (\<lambda>r w'. r = (0, a) \<and> positioned fd (k + 4 + length a) w') w'"
    if "positioned fd (k + 4) w'" for w'
    using wp_read_all[OF assms(1) that, of "length a" n] fit assms(2) parts(2) unfolding len(1) by simp
  show ?case
  proof (simp only: length_Cons read_args.simps, rule wp_step[OF 1], goal_cases)
    case (1 w1)
    show ?case
      by (simp add: Let_def put32_get[of _ "[]", simplified] guard[simplified])
        (rule wp_step[OF wp_alloc_ok[OF 1]], simp, rule wp_step[OF 2], assumption,
          simp add: a(2), rule wp_step[OF rest], assumption, simp add: io_wp a(2))
  qed
qed (simp add: io_wp args_size_def)

subsection \<open>Sending\<close>

lemma write_all_sends:
  "run_state (write_all n K fd s) w = (0, w') \<Longrightarrow> \<exists>es. w_trace w' = w_trace w @ es \<and> concat (map written es) = s"
proof (induction n arbitrary: s w)
  case (Suc n)
  show ?case
  proof (cases "s = []")
    case False
    show ?thesis
    proof (cases "K (w_trace w) (Write fd s)")
      case (Done m d)
      with Suc.prems False obtain es where "w_trace w' = (w_trace w @ [(Write fd s, Done m d)]) @ es" "concat (map written es) = drop m s"
        using Suc.IH[of "drop m s" "w\<lparr>w_trace := w_trace w @ [(Write fd s, Done m d)]\<rparr>"] by (auto simp: sys_def sysd_def Let_def)
      then show ?thesis by (intro exI[of _ "(Write fd s, Done m d) # es"]) simp
    next
      case (Fail e)
      with Suc.prems False have "e = EINTR"
        by (auto simp: sys_def sysd_def Let_def get_errno_def split: if_splits)
      with Suc.prems False Fail obtain es where "w_trace w' = (w_trace w @ [(Write fd s, Fail e)]) @ es" "concat (map written es) = s"
        using Suc.IH[of s "w\<lparr>w_trace := w_trace w @ [(Write fd s, Fail e)], w_errno := e\<rparr>"]
        by (auto simp: sys_def sysd_def Let_def get_errno_def)
      then show ?thesis by (intro exI[of _ "(Write fd s, Fail e) # es"]) simp
    qed
  qed (use Suc.prems in auto)
qed (auto split: if_splits)

lemma write_all_result: "fst (run_state (write_all n K fd s) w) \<in> {0, -1}"
proof (induction n arbitrary: s w)
  case (Suc n)
  then show ?case
    by (cases "K (w_trace w) (Write fd s)") (auto simp: sys_def sysd_def Let_def get_errno_def)
qed simp

lemma write_parts_sends:
  "run_state (write_parts v fd parts) w = (0, w') \<Longrightarrow>
     \<exists>es. w_trace w' = w_trace w @ es \<and> concat (map written es) = concat parts"
proof (induction parts arbitrary: w)
  case (Cons s parts)
  let ?f = "daemon_write_all (e_fuel v) (e_kernel v) fd"
  obtain r w1 where f: "run_state (?f s) w = (r, w1)" by fastforce
  have "r = 0 \<or> r = -1" using write_all_result[of "e_fuel v" "e_kernel v" fd s w] f by (simp add: daemon_write_all_def)
  with Cons.prems f have r: "r = 0" "run_state (write_parts v fd parts) w1 = (0, w')"
    by (auto simp: write_parts_def split: if_splits)
  from write_all_sends[OF f[unfolded daemon_write_all_def r(1)]] Cons.IH[OF r(2)] obtain es1 es2 where
    "w_trace w1 = w_trace w @ es1" "concat (map written es1) = s"
    "w_trace w' = w_trace w1 @ es2" "concat (map written es2) = concat parts" by blast
  then show ?case by (intro exI[of _ "es1 @ es2"]) simp
qed (simp add: write_parts_def)

subsection \<open>The round trip\<close>

lemma run_parts_bytes:
  "concat (run_parts f argv) = put_header (run_header f argv) @ f @ concat (map arg_bytes argv)"
proof -
  have "concat (concat (map (\<lambda>a. [put32 (word_of_nat (length a)), a]) argv)) = concat (map arg_bytes argv)"
    by (induction argv) (simp_all add: arg_bytes_def)
  then show ?thesis by (simp add: run_parts_def)
qed

lemma handle_run_reads:
  assumes "delivers K fd s" "length s \<le> e_fuel v" "e_kernel v = K" "positioned fd 20 w"
    and s: "drop 20 s = f @ concat (map arg_bytes argv)" and c: "is_cstr f" "list_all is_cstr argv"
    and n: "0 < length f" "length f \<le> 16384" "0 < length argv" "length argv \<le> 128" "list_all arg_ok argv"
      "length f + args_size argv \<le> 1048576"
  shows "\<exists>w'. positioned fd (length s) w' \<and> run_state (daemon_handle_run v c_path rust_path fd (run_header f argv) st) w =
    run_state (run_request v c_path rust_path fd (word_of_nat (length argv)) f argv st) w'"
proof -
  let ?f = "word_of_nat (length f) :: u32" and ?n = "word_of_nat (length argv) :: u32"
  have u: "unat ?f = length f" "unat ?n = length argv" using n by (simp_all add: unat_small)
  have guard: "\<not> (?n = 0 \<or> ?n > MAX_ARGS \<or> ?f = 0 \<or> ?f > MAX_POLICY_LEN)"
    using u n by (auto simp: word_less_nat_alt limits unat_eq_0[symmetric])
  have len: "length s = 20 + length f + args_size argv"
    using arg_cong[OF s, of length] n(1) by (simp add: length_arg_bytes, linarith)
  have s2: "drop (20 + length f) s = concat (map arg_bytes argv)" using arg_cong[OF s, of "drop (length f)"] by (simp add: add.commute)
  have read: "wp (daemon_read_all (e_fuel v) K fd (length f)) (\<lambda>r w'. r = (0, f) \<and> positioned fd (20 + length f) w') w'"
    if "positioned fd 20 w'" for w'
    using wp_read_all[OF assms(1) that, of "length f" "e_fuel v"] s len assms(2) by simp
  have args: "wp (read_args (e_fuel v) K fd (length argv) ?f) (\<lambda>r w'. r = Inr argv \<and> positioned fd (length s) w') w'"
    if "positioned fd (20 + length f) w'" for w'
    using wp_read_args[OF assms(1,2) that s2 n(5) c(2), of ?f] u n(6) len by simp
  show ?thesis
    unfolding daemon_handle_run_def Let_def assms(3) run_header_def request_header.simps if_not_P[OF guard] u
    by (rule skip_step[OF wp_alloc_ok[OF assms(4)]], simp only: option.distinct if_False,
        rule skip_step[OF read], assumption, simp only: fst_conv snd_conv less_irrefl if_False,
        rule skip_step[OF wp_alloc_ok], assumption, simp only: option.distinct if_False,
        rule skip_step[OF args], assumption, simp only: sum.case cstr_idem[OF c(1)]) blast
qed

text \<open>C9: A request survives the connection. If the client, its own size checks passed, has written a run
  request completely, and the daemon's end of the connection delivers the bytes written, in pieces of
  any size, then the daemon handles the connection exactly as a request to run the client's argument
  vector under the client's policy file.\<close>

theorem run_request_roundtrip:
  assumes "run_sizes_ok f argv" "list_all (\<lambda>a. length a < 2 ^ 32) (f # argv)" "length argv < 2 ^ 32" "list_all is_cstr (f # argv)"
    and sent: "run_state (write_parts u ufd (run_parts f argv)) uw = (0, uw')" "w_trace uw' = w_trace uw @ es"
    and delivered: "delivers (e_kernel v) fd (concat (map written es))"
    and "length (concat (map written es)) \<le> e_fuel v" "positioned fd 0 w"
  shows "\<exists>w'. positioned fd (length (concat (map written es))) w' \<and>
    run_state (daemon_command v c_path rust_path fd st) w =
    run_state (do {
      r \<leftarrow> run_request v c_path rust_path fd (word_of_nat (length argv)) f argv st;
      hang_up (e_kernel v) fd False (snd r) }) w'"
proof -
  let ?s = "concat (map written es)"
  have s: "?s = put_header (run_header f argv) @ f @ concat (map arg_bytes argv)"
    using write_parts_sends[OF sent(1)] sent(2) run_parts_bytes[of f argv] by auto
  have n: "0 < length f" "length f \<le> 16384" "0 < length argv" "length argv \<le> 128" "list_all arg_ok argv"
      "length f + args_size argv \<le> 1048576"
    using run_sizes_sound[OF assms(1-3)] by simp_all
  have c: "is_cstr f" "list_all is_cstr argv" using assms(4) by simp_all
  have drop: "drop 20 ?s = f @ concat (map arg_bytes argv)" unfolding s by simp
  have hdr: "wp (daemon_read_all (e_fuel v) (e_kernel v) fd 20)
      (\<lambda>r w'. r = (0, put_header (run_header f argv)) \<and> positioned fd 20 w') w"
    using wp_read_all[OF delivered assms(9), of 20 "e_fuel v"] assms(8) unfolding s by simp
  have h: "h_magic (run_header f argv) = DAEMON_MAGIC" "h_version (run_header f argv) = DAEMON_VERSION"
      "h_command (run_header f argv) = CMD_RUN"
    by (simp_all add: run_header_def)
  obtain w1 where w1: "positioned fd 20 w1"
      "run_state (daemon_read_all (e_fuel v) (e_kernel v) fd 20) w = ((0, put_header (run_header f argv)), w1)"
    using hdr by (auto simp: wp_def split: prod.splits)
  obtain w' where w': "positioned fd (length ?s) w'"
    "run_state (daemon_handle_run v c_path rust_path fd (run_header f argv) st) w1 =
     run_state (run_request v c_path rust_path fd (word_of_nat (length argv)) f argv st) w'"
    using handle_run_reads[OF delivered assms(8) refl w1(1) drop c n] by blast
  then show ?thesis
    by (intro exI[of _ w']) (simp add: daemon_command_def Let_def w1(2) put_header_get h)
qed

text \<open>A client whose writes are taken whole and a connection that hands out what it is asked for.\<close>

definition client_env :: env where
  "client_env = \<lparr>e_kernel = (\<lambda>h e. case e of Write fd s \<Rightarrow> Done (length s) [] | _ \<Rightarrow> Done 0 []), e_fuel = 1,
     e_diag = None, e_listener = 0\<rparr>"

definition server_env :: "string \<Rightarrow> env" where
  "server_env s = \<lparr>e_kernel = (\<lambda>h e. case e of
       Host (Read fd n) \<Rightarrow> (let m = min n (length s - taken h fd) in Done m (take m (drop (taken h fd) s)))
     | _ \<Rightarrow> Fail ENOENT), e_fuel = length s, e_diag = None, e_listener = 0\<rparr>"

lemma client_writes:
  "[] \<notin> set parts \<Longrightarrow> run_state (write_parts client_env fd parts) w =
     (0, w\<lparr>w_trace := w_trace w @ map (\<lambda>s. (Write fd s, Done (length s) [])) parts\<rparr>)"
proof (induction parts arbitrary: w)
  case (Cons s parts)
  have fuel: "e_fuel client_env = Suc 0" by (simp add: client_env_def)
  have "run_state (daemon_write_all (e_fuel client_env) (e_kernel client_env) fd s) w =
      (0, w\<lparr>w_trace := w_trace w @ [(Write fd s, Done (length s) [])]\<rparr>)"
    using Cons.prems by (cases "s = []") (simp_all add: daemon_write_all_def fuel sys_def sysd_def Let_def client_env_def[THEN arg_cong[of _ _ e_kernel]])
  with Cons show ?case by (simp add: write_parts_def)
qed (simp add: write_parts_def)

lemma server_delivers: "delivers (e_kernel (server_env s)) fd s"
  unfolding delivers_def
proof (intro allI impI)
  fix h and n :: nat
  assume "taken h fd < length s" "0 < n"
  then show "\<exists>m. 0 < m \<and> m \<le> n \<and> e_kernel (server_env s) h (Host (Read fd n)) = Done m (take m (drop (taken h fd) s))"
    by (intro exI[of _ "min n (length s - taken h fd)"]) (simp add: server_env_def Let_def)
qed

lemma writes_bytes: "concat (map written (map (\<lambda>s. (Write fd s, Done (length s) [])) parts)) = concat parts"
  by (induction parts) simp_all

theorem run_request_roundtrip_witness:
  "\<exists>w'. positioned 4 34 w' \<and>
    run_state (daemon_command (server_env (concat (run_parts ''/p'' [''ls'', ''-l'']))) ''c'' ''rs'' 4 (initial_state 0)) quiet_world =
    run_state (do {
      r \<leftarrow> run_request (server_env (concat (run_parts ''/p'' [''ls'', ''-l'']))) ''c'' ''rs'' 4
        (word_of_nat (length [''ls'', ''-l''])) ''/p'' [''ls'', ''-l''] (initial_state 0);
      hang_up (e_kernel (server_env (concat (run_parts ''/p'' [''ls'', ''-l''])))) 4 False (snd r) }) w'"
proof -
  let ?argv = "[''ls'', ''-l'']"
  let ?parts = "run_parts ''/p'' ?argv"
  have ne: "[] \<notin> set ?parts"
    using length_put_header[of "run_header ''/p'' ?argv"] length_put(1)[of 2]
    by (auto simp: run_parts_def simp del: length_put length_put_header)
  have len: "length (concat ?parts) = 34" by (simp add: run_parts_bytes arg_bytes_def)
  have ok: "run_sizes_ok ''/p'' ?argv"
    by (simp add: run_sizes_ok_def MAX_ARG_LEN_def MAX_REQUEST_BYTES_def MAX_ARGS_def MAX_POLICY_LEN_def)
  have cs: "list_all is_cstr (''/p'' # ?argv)" by (simp add: NUL_def)
  have w: "w_trace (quiet_world\<lparr>w_trace := w_trace quiet_world @ es\<rparr>) = w_trace quiet_world @ es" for es by simp
  have p: "positioned 4 0 quiet_world" by (simp add: positioned_def quiet_world_def)
  have fuel: "length (concat ?parts) \<le> e_fuel (server_env (concat ?parts))" by (simp add: server_env_def)
  have small: "list_all (\<lambda>a. length a < 2 ^ 32) (''/p'' # ?argv)" "length ?argv < 2 ^ 32" by simp_all
  show ?thesis
    using run_request_roundtrip[of "''/p''" ?argv client_env 3 quiet_world _ _ "server_env (concat ?parts)" 4 quiet_world
        "''c''" "''rs''" "initial_state 0", OF ok small cs client_writes[OF ne] w, unfolded writes_bytes,
        OF server_delivers fuel p, unfolded len] .
qed

end
