(* ===== verification/Daemon_Confinement.thy ===== *)
theory Daemon_Confinement
  imports Daemon_Cache
begin

text \<open>
  How the daemon runs what its clients ask for (\<open>Daemon\<close>): every program but the policy helper is executed
  in a child that is confined as the runner promises (\<open>Confinement\<close>), under a policy of the cache or a
  fresh one, and these are trusted (\<open>Daemon_Cache\<close>).
\<close>

subsection \<open>Runs inside a longer run\<close>

lemma confined_later:
  assumes "confined i h"
  shows "confined i (g @ h)"
proof -
  have w: "within es h \<Longrightarrow> within es (g @ h)" for es unfolding within_def by (metis append.assoc)
  have d: "done_in h e \<Longrightarrow> done_in (g @ h) e" "gave h e l \<Longrightarrow> gave (g @ h) e l" for e l by simp_all
  have n: "denied h err nr \<Longrightarrow> denied (g @ h) err nr" "notified h nr \<Longrightarrow> notified (g @ h) nr" for err nr
    unfolding denied_def notified_def using d by (blast, fastforce)
  show ?thesis using assms w d(1) n unfolding confined_def by meson
qed

lemma traced_shift:
  assumes "traced E [] f (\<lambda>_ _. True)" "\<And>h e. E h e \<Longrightarrow> F (g @ h) e"
  shows "traced F g f (\<lambda>_ _. True)"
proof -
  have "all_granted E h es \<Longrightarrow> all_granted F (g @ h) es" for h es
    by (induction es arbitrary: h) (use assms(2) in fastforce)+
  from this[of "[]"] assms(1) show ?thesis unfolding traced_def by (fastforce split: prod.splits)
qed

lemma traced_both:
  assumes "traced E g f (\<lambda>_ _. True)" "traced F g f (\<lambda>_ _. True)"
  shows "traced (\<lambda>g e. E g e \<and> F g e) g f (\<lambda>_ _. True)"
proof -
  have "all_granted E h es \<Longrightarrow> all_granted F h es \<Longrightarrow> all_granted (\<lambda>g e. E g e \<and> F g e) h es" for h es
    by (induction es arbitrary: h) auto
  with assms show ?thesis unfolding traced_def case_prod_beta by (metis same_append_eq)
qed

lemma calls_gives: "calls E f (\<lambda>_. True) \<Longrightarrow> gives f R \<Longrightarrow> calls E f R"
  unfolding calls_def traced_def gives_def case_prod_beta by blast

lemma calls_traced: "(\<And>g. traced E g f (\<lambda>_ _. True)) \<Longrightarrow> calls E f (\<lambda>_. True)"
  unfolding calls_def traced_def by (simp add: case_prod_beta)

lemma gives_traced: "traced E [] f (\<lambda>a g. R a) \<Longrightarrow> gives f R"
  unfolding gives_def traced_def case_prod_beta by blast

subsection \<open>The daemon\<close>

definition daemon_launches :: "history \<Rightarrow> sysevent \<Rightarrow> bool" where
  "daemon_launches g e \<longleftrightarrow> routine e \<or> (\<exists>fd. e = Host (Accept fd)) \<or> (\<exists>fd. e = Host (PeerCred fd)) \<or>
     (\<exists>p f. e = InChild (Host (Execvp p [p, f]))) \<or>
     (\<exists>i argv. e = InChild (Host (Execvp (hd argv) argv)) \<and> ir_trusted i \<and> confined i g)"

lemma launches_routine: "calls (\<lambda>_. routine) f R \<Longrightarrow> calls daemon_launches f R"
  by (erule calls_weaken) (simp add: daemon_launches_def)

lemma launches_load_file: "calls daemon_launches (policy_load_file n K c_path rust_path (Some f) i) (\<lambda>_. True)"
proof -
  have "calls (\<lambda>_ e. routine e \<or> (\<exists>p f. e = InChild (Host (Execvp p [p, f])))) (policy_load_file n K c_path rust_path (Some f) i) (\<lambda>_. True)"
    by (rule calls_load_file) auto
  then show ?thesis by (rule calls_weaken) (auto simp: daemon_launches_def)
qed

lemma launches_get_policy:
  assumes "cache_ok st" "is_cstr f"
  shows "calls daemon_launches (cache_get_policy v c_path rust_path f st)
    (\<lambda>r. cache_ok (snd r) \<and> (case fst r of None \<Rightarrow> True | Some i \<Rightarrow> ir_trusted i))"
proof (rule calls_gives)
  show "calls daemon_launches (cache_get_policy v c_path rust_path f st) (\<lambda>_. True)"
    unfolding cache_get_policy_def cache_search_def cache_load_entry_def Let_def
    by (intro calls_seq calls_if calls_option calls_return launches_load_file working_am TrueI launches_routine[OF routine_sys(2)]) simp_all
  show "gives (cache_get_policy v c_path rust_path f st) (\<lambda>r. cache_ok (snd r) \<and> (case fst r of None \<Rightarrow> True | Some i \<Rightarrow> ir_trusted i))"
    by (rule gives_traced, rule traced_mono[OF get_policy_lookup[OF assms]]) (auto simp: lookup_ok_def split: option.splits)
qed

lemma launches_run: "ir_trusted i \<Longrightarrow> calls daemon_launches (run_policy_ir_loaded v (Some i) label argv) (\<lambda>_. True)"
proof -
  assume "ir_trusted i"
  then have "calls daemon_launches (run_policy_ir v i label argv) (\<lambda>_. True)" for label argv
    by (intro calls_traced traced_shift[OF granted_run]) (auto simp: run_granted_def daemon_launches_def intro: confined_later)
  then show ?thesis
    unfolding run_policy_ir_loaded_def by (intro calls_if calls_seq calls_errno calls_return TrueI) simp_all
qed

lemma launches_run_request:
  "cache_ok st \<Longrightarrow> is_cstr f \<Longrightarrow> calls daemon_launches (run_request v c_path rust_path fd argc f argv st) (\<lambda>r. cache_ok (snd r))"
  unfolding run_request_def
  by (rule calls_seq[OF launches_routine[OF routine_audits(1)]], rule calls_bind, rule calls_mono[OF launches_get_policy])
    (auto split: option.splits intro!: calls_seq calls_errno calls_return launches_run launches_routine[OF routine_responses(1)])

lemma launches_handle_run:
  assumes "cache_ok st"
  shows "calls daemon_launches (daemon_handle_run v c_path rust_path fd hdr st) (\<lambda>r. cache_ok (snd r))"
proof -
  have args: "calls daemon_launches (case a of Inl e \<Rightarrow> do { rc \<leftarrow> daemon_send_response v fd 1 e; State_Monad.return (rc, st) }
     | Inr argv \<Rightarrow> run_request v c_path rust_path fd argc (cstr f) argv st) (\<lambda>r. cache_ok (snd r))" for a argc f
    using assms by (cases a) (auto intro!: calls_seq calls_return launches_routine[OF routine_responses(1)] launches_run_request)
  show ?thesis
    unfolding daemon_handle_run_def Let_def
    by (intro calls_seq calls_if calls_return calls_errno working_am launches_routine[OF routine_responses(1)]
        launches_routine[OF routine_read_all] launches_routine[OF routine_read_args] args) (simp_all add: assms)
qed

lemma launches_client:
  assumes "cache_ok st"
  shows "calls daemon_launches (daemon_client v c_path rust_path fd st) (\<lambda>r. cache_ok (snd r))"
proof -
  have close: "calls daemon_launches (sys K (Close fd)) (\<lambda>_. True)" for K fd by (intro launches_routine[OF routine_sys(1)]) simp
  have peer: "calls daemon_launches (daemon_peer_authorized v fd st) (\<lambda>_. True)"
    unfolding daemon_peer_authorized_def Let_def
    by (intro calls_seq calls_sysd calls_if calls_return calls_errno launches_routine[OF routine_audits(3)])
      (simp_all add: daemon_launches_def)
  show ?thesis
    unfolding daemon_client_def daemon_command_def refuse_client_def hang_up_def Let_def
    by (intro calls_seq[OF peer] calls_seq[OF close] calls_bind[OF calls_mono[OF launches_handle_run]] calls_if calls_return
        calls_seq[OF launches_routine[OF routine_read_all]] calls_seq[OF launches_routine[OF routine_responses(1)]]
        calls_seq[OF launches_routine[OF routine_responses(2)]] calls_seq[OF launches_routine[OF routine_audits(1)]])
      (simp_all add: assms)
qed

lemma launches_serve: "cache_ok st \<Longrightarrow> calls daemon_launches (serve_clients n v c_path rust_path listen_fd st) (\<lambda>_. True)"
proof (induction n arbitrary: st)
  case (Suc n)
  have acc: "calls daemon_launches (sys K (Host (Accept listen_fd))) (\<lambda>_. True)" for K
    by (intro calls_sys) (simp_all add: daemon_launches_def)
  show ?case
    unfolding serve_clients.simps
    by (intro calls_seq[OF acc] calls_if calls_seq[OF calls_errno(1)] calls_bind[OF calls_mono[OF launches_client]] calls_return Suc TrueI)
qed (simp add: calls_return)

lemma launches_run_daemon:
  "calls daemon_launches (daemon_serve_listener n v c_path rust_path listen_fd label unlink_on_exit) (\<lambda>_. True)"
proof -
  have harden: "calls daemon_launches (seccomp_apply_daemon_hardening K) (\<lambda>_. True)" for K
    by (rule launches_routine)
      (auto intro!: io_calls simp: seccomp_apply_daemon_hardening_def landlockd_set_no_new_privs_def seccomp_install_denylist_def of_res_def
        split: sum.split failure.split)
  show ?thesis
    unfolding daemon_serve_listener_def unlink_socket_def Let_def
    by (intro calls_seq calls_if calls_return TrueI harden launches_serve initial_ok
        launches_routine[OF routine_audits(2)] launches_routine[OF routine_sys(1)]) simp_all
qed


end
