(* ===== verification/CLI.thy ===== *)
theory CLI
  imports CLI_Parse Dry_Run Daemon_Protocol Daemon_Confinement
begin

text \<open>
  The command line program (\<open>src/src/landlockd_cli.c\<close>): where a named policy is looked for, the dry run
  and its status, the verbs, and the direct mode, which runs a command under one Landlock ruleset.
  The standard error stream is descriptor 2. Of what goes there the event lines and the usage are
  modelled, as \<open>Stderr\<close>; error messages for people are left out. \<open>Raise s\<close> stands for
  \<open>signal(s, SIG_DFL); raise(s);\<close>. \<open>share_dir\<close> is the policy directory configured at build time.
\<close>

subsection \<open>Named policies\<close>

definition cli_policy_name_valid :: "string option \<Rightarrow> bool" where
  "cli_policy_name_valid name = (case name of None \<Rightarrow> False
     | Some n \<Rightarrow> n \<noteq> [] \<and> n \<noteq> ''.'' \<and> n \<noteq> ''..'' \<and> list_all (\<lambda>c. c \<noteq> CHR ''/'') n)"

definition cli_join_policy_candidate :: "string \<Rightarrow> string \<Rightarrow> string option io" where
  "cli_join_policy_candidate dir name = (if dir = [] \<or> name = [] then do { set_errno EINVAL; State_Monad.return None }
     else do {
       a \<leftarrow> run_am allocM;
       State_Monad.return (if a = None then None else Some (dir @ ''/'' @ name @ ''.toml'')) })"

text \<open>\<open>candidate = join(dir, name); if (candidate == NULL) return NULL; if (access(candidate, R_OK) == 0) return
  candidate;\<close> and the rest.\<close>

definition try_dir :: "kernel \<Rightarrow> string \<Rightarrow> string \<Rightarrow> string option io \<Rightarrow> string option io" where
  "try_dir K dir name rest = do {
     candidate \<leftarrow> cli_join_policy_candidate dir name;
     case candidate of None \<Rightarrow> State_Monad.return None
     | Some c \<Rightarrow> do {
         r \<leftarrow> sys K (Host (Access c));
         if r = 0 then State_Monad.return (Some c) else rest } }"

text \<open>The directories of a search path, from the cursor on.\<close>

function search_dirs :: "kernel \<Rightarrow> string \<Rightarrow> string \<Rightarrow> string option io" where
  "search_dirs K cursor name = (let dir = takeWhile (\<lambda>c. c \<noteq> CHR '':'') cursor; sep = dropWhile (\<lambda>c. c \<noteq> CHR '':'') cursor;
       next = (if sep = [] then do { set_errno ENOENT; State_Monad.return None } else search_dirs K (tl sep) name) in
     if cursor = [] then do { set_errno ENOENT; State_Monad.return None }
     else if dir = [] then next
     else do {
       a \<leftarrow> run_am allocM;
       if a = None then State_Monad.return None else try_dir K dir name next })"
  by auto
termination
proof (relation "measure (\<lambda>(K, cursor, name). length cursor)", goal_cases)
  case (2 K cursor name dir sep)
  then have "sep \<noteq> []" "length sep \<le> length cursor" by (simp_all add: length_dropWhile_le)
  then show ?case by (cases sep) simp_all
qed simp

declare search_dirs.simps [simp del]

definition cli_find_policy_in_search_path :: "kernel \<Rightarrow> string option \<Rightarrow> string \<Rightarrow> string option io" where
  "cli_find_policy_in_search_path K dirs name =
     (if dirs = None \<or> dirs = Some [] then State_Monad.return None else search_dirs K (the dirs) name)"

text \<open>A directory below one named by the environment, which takes an allocation.\<close>

definition try_below :: "kernel \<Rightarrow> string \<Rightarrow> string \<Rightarrow> string \<Rightarrow> string option io \<Rightarrow> string option io" where
  "try_below K base sub name rest = do {
     a \<leftarrow> run_am allocM;
     if a = None then State_Monad.return None else try_dir K (base @ sub) name rest }"

definition given :: "string option \<Rightarrow> bool" where
  "given s \<longleftrightarrow> s \<noteq> None \<and> s \<noteq> Some []"

definition system_policy :: "kernel \<Rightarrow> string \<Rightarrow> string \<Rightarrow> string option io" where
  "system_policy K share_dir name = do {
     sysdir \<leftarrow> getenv K ''LANDLOCKD_POLICY_SYSTEM_DIR'';
     try_dir K (if given sysdir then the sysdir else share_dir) name
       (try_dir K ''/etc/landlockd/policies'' name (do { set_errno ENOENT; State_Monad.return None })) }"

definition user_policy :: "kernel \<Rightarrow> string \<Rightarrow> string option io \<Rightarrow> string option io" where
  "user_policy K name rest = do {
     xdg_config_home \<leftarrow> getenv K ''XDG_CONFIG_HOME'';
     if given xdg_config_home then try_below K (the xdg_config_home) ''/landlockd/policies'' name rest
     else do {
       home \<leftarrow> getenv K ''HOME'';
       if given home then try_below K (the home) ''/.config/landlockd/policies'' name rest else rest } }"

definition cli_resolve_named_policy :: "kernel \<Rightarrow> string \<Rightarrow> string option \<Rightarrow> string option io" where
  "cli_resolve_named_policy K share_dir name = (if \<not> cli_policy_name_valid name then do { set_errno EINVAL; State_Monad.return None }
     else do {
       search_path \<leftarrow> getenv K ''LANDLOCKD_POLICY_PATH'';
       candidate \<leftarrow> cli_find_policy_in_search_path K search_path (the name);
       e \<leftarrow> get_errno;
       if candidate \<noteq> None then State_Monad.return candidate
       else if given search_path \<and> e \<noteq> ENOENT then State_Monad.return None
       else user_policy K (the name) (system_policy K share_dir (the name)) })"

subsection \<open>Usage and events\<close>

definition usage_lines :: "string list" where
  "usage_lines = [
     ''Usage: landlockd --help'',
     ''       landlockd --ro PATH [--ro PATH ...] [--notify SYSCALL_NR ...] -- command [args...]'',
     ''       landlockd lint --policy NAME'',
     ''       landlockd lint --policy-file POLICY.toml'',
     ''       landlockd serve --socket PATH'',
     ''       landlockd serve --systemd'',
     ''       landlockd status --socket PATH'',
     ''       landlockd stop --socket PATH'',
     ''       landlockd run --policy NAME [--preflight] -- command [args...]'',
     ''       landlockd run --policy NAME --dry-run -- command [args...]'',
     ''       landlockd run --policy-file POLICY.toml [--preflight|--dry-run]'',
     ''       landlockd run --socket PATH --policy-file POLICY.toml -- command [args...]'',
     ''       landlockd run --socket PATH --policy NAME -- command [args...]'',
     ''       landlockd run --policy-file POLICY.toml [--preflight|--dry-run] -- command [args...]'',
     '''',
     ''Notes:'',
     ''  --policy NAME resolves through LANDLOCKD_POLICY_PATH, then user config, then the installed policy set, then /etc.'',
     ''  LANDLOCKD_POLICY_SYSTEM_DIR overrides the installed policy directory.'',
     ''  serve --systemd consumes one inherited Unix listener from socket activation.'',
     ''  status --socket PATH prints daemon protocol and policy-cache counters.'',
     ''  Policy-driven run supports Landlock filesystem rules, Landlock network rules,'',
     ''  declarative seccomp deny/errno filters, per-run tmpfs/bind/proc mounts,'',
     ''  runtime root/cwd control, and brokered host-file and mount operations.'',
     ''  The legacy --ro/--notify path remains available for direct one-shot use.'']"

definition usage_text :: string where
  "usage_text = concat (map line usage_lines)"

definition cli_emit_event :: "kernel \<Rightarrow> string \<Rightarrow> unit io" where
  "cli_emit_event K text = do { _ \<leftarrow> sys K (Stderr (line (''event '' @ text))); State_Monad.return () }"

subsection \<open>The verbs that take a policy\<close>

definition cli_dry_run_requires_seccomp_probe :: "ir \<Rightarrow> bool" where
  "cli_dry_run_requires_seccomp_probe ir \<longleftrightarrow> seccomp_enabled ir \<or> broker_open_read ir \<noteq> [] \<or> broker_open_write ir \<noteq> [] \<or>
     broker_scratch ir \<noteq> [] \<or> broker_export ir \<noteq> [] \<or> broker_mount_tmpfs ir \<noteq> [] \<or> broker_mount_bind ir \<noteq> [] \<or>
     broker_mount_object ir \<noteq> []"

definition print_lines :: "kernel \<Rightarrow> string list \<Rightarrow> unit io" where
  "print_lines K ls = do { _ \<leftarrow> sys K (Host (Stdout (concat (map line ls)))); State_Monad.return () }"

text \<open>\<open>seccomp_unsupported\<close>, with the result of the probe and its report.\<close>

definition seccomp_unsupported :: "kernel \<Rightarrow> ir \<Rightarrow> preflight_report \<Rightarrow> (int \<times> bool \<times> preflight_report) io" where
  "seccomp_unsupported K ir rep = (if cli_dry_run_requires_seccomp_probe ir then do {
       r \<leftarrow> landlockd_preflight_probe_seccomp_user_notif K (Some rep);
       State_Monad.return (fst r, \<not> seccomp_user_notif_supported (the (snd r)), the (snd r)) }
     else State_Monad.return (0, False, rep))"

definition cli_dry_run_status :: "kernel \<Rightarrow> ir \<Rightarrow> int io" where
  "cli_dry_run_status K ir = do {
     p \<leftarrow> landlockd_preflight_run K PREFLIGHT_ABI_FLOOR (Some preflight_zero);
     if fst p < 0 then State_Monad.return 1
     else let rep = the (snd p);
            net_unsupported = (net_enabled ir \<and> (probe_errno rep = ENOSYS \<or> probe_errno rep = EOPNOTSUPP \<or> abi_version rep < 4)) in do {
       s \<leftarrow> seccomp_unsupported K ir rep;
       if fst s < 0 then State_Monad.return 1
       else if net_unsupported then do {
         print_lines K [''feature.degraded name=net required_abi=4 actual_abi='' @ dec (abi_version rep),
           ''dry-run.status=fail reason=net-unsupported''];
         State_Monad.return 2 }
       else if fst (snd s) then do {
         print_lines K [''feature.degraded name=seccomp_user_notif probe_errno='' @ dec (seccomp_probe_errno (snd (snd s))),
           ''dry-run.status=fail reason=seccomp-unsupported''];
         State_Monad.return 2 }
       else do { print_lines K [''dry-run.status=ok'']; State_Monad.return 0 } } }"

text \<open>\<open>lint\<close>, \<open>--preflight\<close> and \<open>--dry-run\<close> only load the policy.\<close>

definition inspect_policy :: "env \<Rightarrow> string \<Rightarrow> string \<Rightarrow> cli_options \<Rightarrow> string \<Rightarrow> int io" where
  "inspect_policy v c_path rust_path opts policy_file = (let K = e_kernel v in do {
     l \<leftarrow> policy_load_file (e_fuel v) K c_path rust_path (Some policy_file) ir_init;
     if fst l < 0 then State_Monad.return 1
     else if opt_dry_run opts then do {
       _ \<leftarrow> sys K (Host (Stdout (snd (dry_run (snd l)))));
       cli_dry_run_status K (fst (dry_run (snd l))) }
     else State_Monad.return 0 })"

definition run_policy_command :: "env \<Rightarrow> string \<Rightarrow> string \<Rightarrow> string \<Rightarrow> string list \<Rightarrow> int io" where
  "run_policy_command v c_path rust_path policy_file argv = do {
     r \<leftarrow> run_policy_file_wait_status v c_path rust_path (Some policy_file) argv;
     case snd r of
       Some (Signaled sig) \<Rightarrow> do { _ \<leftarrow> sys (e_kernel v) (Host (Raise sig)); State_Monad.return (128 + int sig) }
     | _ \<Rightarrow> State_Monad.return (fst r) }"

definition cli_run_policy_verb :: "env \<Rightarrow> string \<Rightarrow> string \<Rightarrow> string \<Rightarrow> cli_options \<Rightarrow> int io" where
  "cli_run_policy_verb v c_path rust_path share_dir opts = do {
     policy_file \<leftarrow> (if opt_policy_file opts = None then cli_resolve_named_policy (e_kernel v) share_dir (opt_policy_name opts)
       else State_Monad.return (opt_policy_file opts));
     case policy_file of None \<Rightarrow> State_Monad.return 1
     | Some f \<Rightarrow>
         if opt_verb opts = VERB_LINT \<or> opt_preflight_only opts \<or> opt_dry_run opts then inspect_policy v c_path rust_path opts f
         else if opt_socket_path opts \<noteq> None then daemon_run v (the (opt_socket_path opts)) f (the (opt_command_argv opts))
         else run_policy_command v c_path rust_path f (the (opt_command_argv opts)) }"

subsection \<open>The direct mode\<close>

definition cli_handled_access_fs :: u64 where
  "cli_handled_access_fs = LANDLOCK_ACCESS_FS_WRITE_FILE OR LANDLOCK_ACCESS_FS_READ_FILE OR LANDLOCK_ACCESS_FS_READ_DIR OR LANDLOCK_ACCESS_FS_REMOVE_DIR OR
     LANDLOCK_ACCESS_FS_REMOVE_FILE OR LANDLOCK_ACCESS_FS_MAKE_CHAR OR LANDLOCK_ACCESS_FS_MAKE_DIR OR LANDLOCK_ACCESS_FS_MAKE_REG OR LANDLOCK_ACCESS_FS_MAKE_SOCK OR
     LANDLOCK_ACCESS_FS_MAKE_FIFO OR LANDLOCK_ACCESS_FS_MAKE_BLOCK OR LANDLOCK_ACCESS_FS_MAKE_SYM OR LANDLOCK_ACCESS_FS_REFER OR LANDLOCK_ACCESS_FS_TRUNCATE OR
     LANDLOCK_ACCESS_FS_IOCTL_DEV"

definition ro_access :: u64 where
  "ro_access = LANDLOCK_ACCESS_FS_READ_FILE OR LANDLOCK_ACCESS_FS_READ_DIR"

text \<open>\<open>saved_errno = errno; ...; landlockd_cli_emit_event(..., saved_errno); return 1;\<close> with the descriptors to close.\<close>

definition preflight_fail :: "kernel \<Rightarrow> int list \<Rightarrow> string \<Rightarrow> unit io" where
  "preflight_fail K fds reason = do {
     saved_errno \<leftarrow> get_errno;
     closes K fds;
     set_errno saved_errno;
     cli_emit_event K (''preflight.fail reason='' @ reason @ '' errno='' @ dec saved_errno) }"

text \<open>The checks before anything is created; \<open>False\<close>: the program ends with 1.\<close>

definition direct_notify_ok :: "kernel \<Rightarrow> preflight_report \<Rightarrow> cli_options \<Rightarrow> bool io" where
  "direct_notify_ok K rep opts = (if opt_notify_syscalls opts = [] then State_Monad.return True
     else do {
       s \<leftarrow> landlockd_preflight_probe_seccomp_user_notif K (Some rep);
       if fst s < 0 then do { preflight_fail K [] ''seccomp-user-notif''; State_Monad.return False }
       else if \<not> seccomp_user_notif_supported (the (snd s)) then do {
         cli_emit_event K (''preflight.fail reason=seccomp-user-notif errno='' @ dec (seccomp_probe_errno (the (snd s))));
         State_Monad.return False }
       else State_Monad.return True })"

definition direct_preflight :: "kernel \<Rightarrow> cli_options \<Rightarrow> bool io" where
  "direct_preflight K opts = do {
     p \<leftarrow> landlockd_preflight_run K PREFLIGHT_ABI_FLOOR (Some preflight_zero);
     let rep = the (snd p);
     if fst p < 0 then do { preflight_fail K [] ''probe''; State_Monad.return False }
     else if probe_errno rep = ENOSYS \<or> probe_errno rep = EOPNOTSUPP then do {
       cli_emit_event K (''preflight.fail reason=unsupported errno='' @ dec (probe_errno rep));
       State_Monad.return False }
     else if \<not> meets_abi_floor rep then do {
       cli_emit_event K (''preflight.fail reason=abi-floor abi='' @ dec (abi_version rep) @ '' floor='' @ dec (required_abi_floor rep));
       State_Monad.return False }
     else direct_notify_ok K rep opts }"

fun add_ro_rules :: "kernel \<Rightarrow> int \<Rightarrow> string list \<Rightarrow> bool io" where
  "add_ro_rules K ruleset_fd [] = State_Monad.return True"
| "add_ro_rules K ruleset_fd (path # paths) = do {
     parent_fd \<leftarrow> sys K (Open path O_PATH_CLOEXEC);
     if parent_fd < 0 then do { preflight_fail K [ruleset_fd] ''ro-open''; State_Monad.return False }
     else do {
       rc \<leftarrow> landlock_add_fs_rule K ruleset_fd (Some (ro_access, parent_fd)) 0;
       if rc < 0 then do { preflight_fail K [parent_fd, ruleset_fd] ''add-rule''; State_Monad.return False }
       else do { _ \<leftarrow> sys K (Close parent_fd); add_ro_rules K ruleset_fd paths } } }"

text \<open>The child: restrict, then execute. -1: the child ends with 1.\<close>

definition direct_restrict :: "kernel \<Rightarrow> cli_options \<Rightarrow> int \<Rightarrow> int io" where
  "direct_restrict K opts ruleset_fd = (if opt_notify_syscalls opts = [] then landlockd_apply_sandbox K ruleset_fd 0
     else (case cli_build_seccomp_plan opts of
       Inl e \<Rightarrow> State_Monad.return (-1)
     | Inr plan \<Rightarrow> do {
         r \<leftarrow> landlockd_apply_sandbox_with_seccomp K ruleset_fd (Some plan) (Some (-1));
         if fst r < 0 then State_Monad.return (-1)
         else do {
           c \<leftarrow> (if the (snd r) \<ge> 0 then sys K (Close (the (snd r))) else State_Monad.return 0);
           if c < 0 then State_Monad.return (-1)
           else sys K (Close ruleset_fd) } }))"

definition direct_child :: "kernel \<Rightarrow> cli_options \<Rightarrow> int \<Rightarrow> int io" where
  "direct_child K opts ruleset_fd = (let command = the (opt_command_argv opts) in do {
     rc \<leftarrow> direct_restrict K opts ruleset_fd;
     if rc < 0 then State_Monad.return 1
     else do {
       r \<leftarrow> sys K (Host (Execvp (hd command) command));
       State_Monad.return (if r < 0 then 127 else r) } })"

definition direct_wait :: "env \<Rightarrow> int \<Rightarrow> int \<Rightarrow> int \<Rightarrow> int io" where
  "direct_wait v ruleset_fd pid code = (let K = e_kernel v in do {
     status \<leftarrow> waitpid_retry (e_fuel v) K pid code;
     _ \<leftarrow> sys K (Close ruleset_fd);
     case status of None \<Rightarrow> State_Monad.return 1
     | Some (Exited c) \<Rightarrow> do { cli_emit_event K (''child.exit status='' @ dec c); State_Monad.return c }
     | Some (Signaled sig) \<Rightarrow> do {
         cli_emit_event K (''child.signal signal='' @ dec (int sig));
         _ \<leftarrow> sys K (Host (Raise sig));
         State_Monad.return (128 + int sig) } })"

definition direct_launch :: "env \<Rightarrow> cli_options \<Rightarrow> int \<Rightarrow> int io" where
  "direct_launch v opts ruleset_fd = (let K = e_kernel v in do {
     pid \<leftarrow> sys K Fork;
     if pid < 0 then do { preflight_fail K [ruleset_fd] ''fork''; State_Monad.return 1 }
     else do {
       code \<leftarrow> run_child (direct_child K opts ruleset_fd);
       direct_wait v ruleset_fd pid code } })"

definition cli_direct :: "env \<Rightarrow> cli_options \<Rightarrow> int io" where
  "cli_direct v opts = (let K = e_kernel v in do {
     ok \<leftarrow> direct_preflight K opts;
     if \<not> ok then State_Monad.return 1
     else do {
     r \<leftarrow> landlock_create_fs_ruleset K cli_handled_access_fs None;
     let ruleset_fd = fst r;
     if ruleset_fd < 0 then do { preflight_fail K [] ''ruleset-create''; State_Monad.return 1 }
     else do {
     ok \<leftarrow> add_ro_rules K ruleset_fd (opt_ro_paths opts);
     if \<not> ok then State_Monad.return 1 else direct_launch v opts ruleset_fd } } })"

subsection \<open>The program\<close>

text \<open>\<open>landlockd_cli_main\<close>; \<open>None\<close>: the daemon is still serving when the fuel \<open>n\<close> ran out.\<close>

definition cli_dispatch :: "nat \<Rightarrow> env \<Rightarrow> string \<Rightarrow> string \<Rightarrow> string \<Rightarrow> cli_options \<Rightarrow> int option io" where
  "cli_dispatch n v c_path rust_path share_dir opts = (let K = e_kernel v; socket_path = the (opt_socket_path opts);
       result = (\<lambda>f. do { r \<leftarrow> f; State_Monad.return (Some (r :: int)) }) in
     if opt_show_help opts then do { _ \<leftarrow> sys K (Host (Stdout usage_text)); State_Monad.return (Some 0) }
     else case opt_verb opts of
       VERB_SERVE \<Rightarrow> if opt_systemd opts then daemon_serve_systemd n v c_path rust_path
         else daemon_serve n v c_path rust_path socket_path
     | VERB_STOP \<Rightarrow> result (daemon_stop v socket_path)
     | VERB_STATUS \<Rightarrow> result (daemon_status v socket_path)
     | VERB_RUN \<Rightarrow> result (cli_run_policy_verb v c_path rust_path share_dir opts)
     | VERB_LINT \<Rightarrow> result (cli_run_policy_verb v c_path rust_path share_dir opts)
     | VERB_NONE \<Rightarrow> result (cli_direct v opts))"

definition cli_main :: "nat \<Rightarrow> env \<Rightarrow> string \<Rightarrow> string \<Rightarrow> string \<Rightarrow> string list \<Rightarrow> int option io" where
  "cli_main n v c_path rust_path share_dir argv = (let v = v\<lparr>e_diag := Some 2\<rparr> in do {
     opts \<leftarrow> run_am (cli_parse argv);
     case opts of None \<Rightarrow> do { _ \<leftarrow> sys (e_kernel v) (Stderr usage_text); State_Monad.return (Some 1) }
     | Some opts \<Rightarrow> cli_dispatch n v c_path rust_path share_dir opts })"

end
