(* ===== verification/CLI_Spec.thy ===== *)
theory CLI_Spec
  imports CLI
begin

text \<open>
  What the command line program promises (\<open>CLI\<close>): a named policy is the first readable file of the
  documented search order, and the direct mode executes its command only in a child under the
  ruleset and the filter that the options ask for.
\<close>

subsection \<open>The search order\<close>

text \<open>The directories of a search path.\<close>

fun split_colon :: "string \<Rightarrow> string list" where
  "split_colon [] = [[]]"
| "split_colon (c # cs) = (if c = CHR '':'' then [] # split_colon cs
     else (case split_colon cs of [] \<Rightarrow> [[c]] | d # ds \<Rightarrow> (c # d) # ds))"

definition path_dirs :: "(string \<Rightarrow> string option) \<Rightarrow> string list" where
  "path_dirs ev = (case ev ''LANDLOCKD_POLICY_PATH'' of None \<Rightarrow> [] | Some s \<Rightarrow> filter (\<lambda>d. d \<noteq> []) (split_colon s))"

definition user_dirs :: "(string \<Rightarrow> string option) \<Rightarrow> string list" where
  "user_dirs ev = (if given (ev ''XDG_CONFIG_HOME'') then [the (ev ''XDG_CONFIG_HOME'') @ ''/landlockd/policies'']
     else if given (ev ''HOME'') then [the (ev ''HOME'') @ ''/.config/landlockd/policies''] else [])"

definition system_dirs :: "(string \<Rightarrow> string option) \<Rightarrow> string \<Rightarrow> string list" where
  "system_dirs ev share_dir =
     [if given (ev ''LANDLOCKD_POLICY_SYSTEM_DIR'') then the (ev ''LANDLOCKD_POLICY_SYSTEM_DIR'') else share_dir,
      ''/etc/landlockd/policies'']"

definition policy_dirs :: "(string \<Rightarrow> string option) \<Rightarrow> string \<Rightarrow> string list" where
  "policy_dirs ev share_dir = path_dirs ev @ user_dirs ev @ system_dirs ev share_dir"

definition candidates :: "string list \<Rightarrow> string \<Rightarrow> string list" where
  "candidates dirs name = map (\<lambda>d. d @ ''/'' @ name @ ''.toml'') dirs"

text \<open>An environment and a file system that do not change while the policy is looked for.\<close>

definition settled :: "kernel \<Rightarrow> (string \<Rightarrow> string option) \<Rightarrow> (string \<Rightarrow> bool) \<Rightarrow> bool" where
  "settled K ev readable \<longleftrightarrow>
     (\<forall>h k. case ev k of None \<Rightarrow> \<exists>e. K h (Getenv k) = Fail e | Some s \<Rightarrow> is_cstr s \<and> (\<exists>n. K h (Getenv k) = Done n s)) \<and>
     (\<forall>h p. if readable p then \<exists>d. K h (Host (Access p)) = Done 0 d else \<exists>e. K h (Host (Access p)) = Fail e)"

lemma split_colon_first:
  "split_colon s = takeWhile (\<lambda>c. c \<noteq> CHR '':'') s #
     (case dropWhile (\<lambda>c. c \<noteq> CHR '':'') s of [] \<Rightarrow> [] | c # rest \<Rightarrow> split_colon rest)"
  by (induction s) auto

lemma wp_getenv:
  assumes "settled K ev readable" "w_alloc w = []" "\<And>w'. w_alloc w' = [] \<Longrightarrow> Q (ev k) w'"
  shows "wp (getenv K k) Q w"
proof -
  have "case ev k of None \<Rightarrow> \<exists>e. K (w_trace w) (Getenv k) = Fail e | Some s \<Rightarrow> is_cstr s \<and> (\<exists>n. K (w_trace w) (Getenv k) = Done n s)"
    using assms(1) by (simp add: settled_def)
  then show ?thesis
    using assms(2) assms(3)[of "w\<lparr>w_trace := w_trace w @ [(Getenv k, r)]\<rparr>" for r]
      assms(3)[of "w\<lparr>w_trace := w_trace w @ [(Getenv k, Fail e)], w_errno := e\<rparr>" for e]
    by (cases "ev k") (auto simp: getenv_def io_wp)
qed

lemma wp_alloc: "w_alloc w = [] \<Longrightarrow> wp (run_am allocM) Q w = Q (Some ()) w"
  by (cases w) (simp add: io_wp allocM_def)

text \<open>One directory, then the rest of the search.\<close>

lemma wp_try_dir:
  assumes "settled K ev readable" "w_alloc w = []" "dir \<noteq> []" "name \<noteq> []"
    and rest: "\<And>w'. w_alloc w' = [] \<Longrightarrow> wp rest (\<lambda>r w'. r = find readable (candidates dirs name) \<and> (r = None \<longrightarrow> P w')) w'"
  shows "wp (try_dir K dir name rest) (\<lambda>r w'. r = find readable (candidates (dir # dirs) name) \<and> (r = None \<longrightarrow> P w')) w"
proof -
  let ?c = "dir @ ''/'' @ name @ ''.toml''"
  have "if readable ?c then \<exists>d. K (w_trace w) (Host (Access ?c)) = Done 0 d else \<exists>e. K (w_trace w) (Host (Access ?c)) = Fail e"
    using assms(1) unfolding settled_def by blast
  then show ?thesis
    using assms(2-4) rest
    by (auto simp: try_dir_def cli_join_policy_candidate_def wp_bind wp_alloc wp_return wp_sys candidates_def split: if_splits)
qed

lemma wp_search_dirs:
  "settled K ev readable \<Longrightarrow> name \<noteq> [] \<Longrightarrow> w_alloc w = [] \<Longrightarrow> wp (search_dirs K s name)
    (\<lambda>r w'. r = find readable (candidates (filter (\<lambda>d. d \<noteq> []) (split_colon s)) name) \<and>
      (r = None \<longrightarrow> w_alloc w' = [] \<and> w_errno w' = ENOENT)) w"
proof (induction K s name arbitrary: w rule: search_dirs.induct)
  case (1 K s name)
  let ?dir = "takeWhile (\<lambda>c. c \<noteq> CHR '':'') s" and ?sep = "dropWhile (\<lambda>c. c \<noteq> CHR '':'') s"
  let ?rest = "case ?sep of [] \<Rightarrow> [] | c # rest \<Rightarrow> filter (\<lambda>d. d \<noteq> []) (split_colon rest)"
  let ?next = "if ?sep = [] then do { set_errno ENOENT; State_Monad.return None } else search_dirs K (tl ?sep) name"
  have dirs: "filter (\<lambda>d. d \<noteq> []) (split_colon s) = (if ?dir = [] then [] else [?dir]) @ ?rest"
    by (subst split_colon_first) (cases ?sep; simp del: dropWhile_eq_Nil_conv)
  have more: "wp ?next (\<lambda>r w'. r = find readable (candidates ?rest name) \<and> (r = None \<longrightarrow> w_alloc w' = [] \<and> w_errno w' = ENOENT)) w'"
    if "w_alloc w' = []" for w'
    using "1.IH"[OF refl refl _ "1.prems"(1,2) that] that by (cases ?sep) (simp_all add: io_wp candidates_def del: dropWhile_eq_Nil_conv)
  let ?Q = "\<lambda>r w'. r = find readable (candidates ((if ?dir = [] then [] else [?dir]) @ ?rest) name) \<and>
      (r = None \<longrightarrow> w_alloc w' = [] \<and> w_errno w' = ENOENT)"
  consider "s = []" | "s \<noteq> []" "?dir = []" | "s \<noteq> []" "?dir \<noteq> []" by blast
  then have "wp (search_dirs K s name) ?Q w"
  proof cases
    case 1
    then show ?thesis using \<open>w_alloc w = []\<close> by (simp add: search_dirs.simps[of K "[]"] io_wp candidates_def)
  next
    case 2
    show ?thesis
      unfolding search_dirs.simps[of K s] Let_def if_not_P[OF 2(1)] if_P[OF 2(2)] append_Nil by (rule more[OF "1.prems"(3)])
  next
    case 3
    show ?thesis
      unfolding search_dirs.simps[of K s] Let_def if_not_P[OF 3(1)] if_not_P[OF 3(2)] wp_bind wp_alloc[OF "1.prems"(3)]
        if_not_P[OF option.distinct(2)] append.simps
      by (rule wp_try_dir[OF "1.prems"(1,3) 3(2) "1.prems"(2) more])
  qed
  then show ?case unfolding dirs .
qed

lemma find_append: "find P (xs @ ys) = (case find P xs of None \<Rightarrow> find P ys | Some x \<Rightarrow> Some x)"
  by (induction xs) simp_all

lemma candidates_append: "candidates (ds @ es) name = candidates ds name @ candidates es name"
  by (simp add: candidates_def)

lemma wp_system_policy:
  assumes K: "settled K ev readable" "w_alloc w = []" "share_dir \<noteq> []" "name \<noteq> []"
  shows "wp (system_policy K share_dir name)
    (\<lambda>r w'. r = find readable (candidates (system_dirs ev share_dir) name) \<and> (r = None \<longrightarrow> True)) w"
proof -
  let ?dir = "if given (ev ''LANDLOCKD_POLICY_SYSTEM_DIR'') then the (ev ''LANDLOCKD_POLICY_SYSTEM_DIR'') else share_dir"
  have last: "wp (do { set_errno ENOENT; State_Monad.return None })
      (\<lambda>r w'. r = find readable (candidates [] name) \<and> (r = None \<longrightarrow> True)) w'" for w'
    by (simp add: io_wp candidates_def)
  have etc: "wp (try_dir K ''/etc/landlockd/policies'' name (do { set_errno ENOENT; State_Monad.return None }))
      (\<lambda>r w'. r = find readable (candidates [''/etc/landlockd/policies''] name) \<and> (r = None \<longrightarrow> True)) w'" if "w_alloc w' = []" for w'
    by (rule wp_try_dir[OF K(1) that _ K(4) last]) simp
  have "?dir \<noteq> []" using K(3) by (auto simp: given_def)
  from wp_try_dir[OF K(1) _ this K(4) etc] show ?thesis
    unfolding system_policy_def system_dirs_def wp_bind by (rule wp_getenv[OF K(1,2)])
qed

lemma wp_user_policy:
  assumes K: "settled K ev readable" "w_alloc w = []" "name \<noteq> []"
    and rest: "\<And>w'. w_alloc w' = [] \<Longrightarrow> wp rest (\<lambda>r w'. r = find readable (candidates dirs name) \<and> (r = None \<longrightarrow> True)) w'"
  shows "wp (user_policy K name rest) (\<lambda>r w'. r = find readable (candidates (user_dirs ev @ dirs) name) \<and> (r = None \<longrightarrow> True)) w"
proof -
  have below: "wp (try_below K base sub name rest) (\<lambda>r w'. r = find readable (candidates ((base @ sub) # dirs) name) \<and> (r = None \<longrightarrow> True)) w'"
    if "w_alloc w' = []" "sub \<noteq> []" for w' base sub
    unfolding try_below_def wp_bind wp_alloc[OF that(1)]
    using wp_try_dir[OF K(1) that(1) _ K(3) rest, of "base @ sub"] that(2) by simp
  show ?thesis
    unfolding user_policy_def user_dirs_def wp_bind
    using below rest by (intro wp_getenv[OF K(1,2)]) (auto simp: wp_bind intro!: wp_getenv[OF K(1)])
qed

lemma wp_search_path:
  assumes "settled K ev readable" "w_alloc w = []" "name \<noteq> []"
  shows "wp (cli_find_policy_in_search_path K (ev ''LANDLOCKD_POLICY_PATH'') name)
    (\<lambda>r w'. r = find readable (candidates (path_dirs ev) name) \<and>
      (r = None \<longrightarrow> w_alloc w' = [] \<and> (given (ev ''LANDLOCKD_POLICY_PATH'') \<longrightarrow> w_errno w' = ENOENT))) w"
  using wp_search_dirs[OF assms(1,3,2)] assms(2)
  by (cases "ev ''LANDLOCKD_POLICY_PATH''")
    (auto simp: cli_find_policy_in_search_path_def io_wp given_def candidates_def path_dirs_def elim!: wp_mono)

text \<open>The search path decides, unless it has no readable candidate.\<close>

lemma find_policy_dirs:
  "find readable (candidates (policy_dirs ev share_dir) name) =
    (case find readable (candidates (path_dirs ev) name) of
       None \<Rightarrow> find readable (candidates (user_dirs ev @ system_dirs ev share_dir) name) | Some c \<Rightarrow> Some c)"
  by (simp only: policy_dirs_def candidates_append[of "path_dirs ev"] find_append)

lemma wp_after_path:
  assumes K: "settled K ev readable" "share_dir \<noteq> []" "name \<noteq> []"
    and r: "r = find readable (candidates (path_dirs ev) name)"
      "r = None \<longrightarrow> w_alloc w = [] \<and> (given (ev ''LANDLOCKD_POLICY_PATH'') \<longrightarrow> w_errno w = ENOENT)"
  shows "wp (do {
      e \<leftarrow> get_errno;
      if r \<noteq> None then State_Monad.return r
      else if given (ev ''LANDLOCKD_POLICY_PATH'') \<and> e \<noteq> ENOENT then State_Monad.return None
      else user_policy K name (system_policy K share_dir name) })
    (\<lambda>r w'. r = find readable (candidates (policy_dirs ev share_dir) name)) w"
proof (cases r)
  case None
  with r have w: "w_alloc w = []" "\<not> (given (ev ''LANDLOCKD_POLICY_PATH'') \<and> w_errno w \<noteq> ENOENT)"
    "find readable (candidates (path_dirs ev) name) = None" by auto
  from wp_user_policy[OF K(1) w(1) K(3) wp_system_policy[OF K(1) _ K(2,3)]]
  have "wp (user_policy K name (system_policy K share_dir name))
      (\<lambda>r w'. r = find readable (candidates (policy_dirs ev share_dir) name)) w"
    by (rule wp_mono) (assumption, simp add: find_policy_dirs w(3))
  with None w(2) show ?thesis by (auto simp: wp_bind wp_get_errno)
qed (use r(1) in \<open>simp add: find_policy_dirs wp_bind wp_get_errno wp_return\<close>)

lemma wp_resolve:
  assumes K: "settled K ev readable" "w_alloc w = []" "share_dir \<noteq> []" and valid: "cli_policy_name_valid (Some name)"
  shows "wp (cli_resolve_named_policy K share_dir (Some name))
    (\<lambda>r w'. r = find readable (candidates (policy_dirs ev share_dir) name)) w"
proof -
  have name: "name \<noteq> []" using valid by (simp add: cli_policy_name_valid_def)
  have invalid: "\<not> \<not> cli_policy_name_valid (Some name)" using valid by simp
  show ?thesis
    unfolding cli_resolve_named_policy_def if_not_P[OF invalid] option.sel wp_bind[of "getenv K x" for x]
      wp_bind[of "cli_find_policy_in_search_path K x y" for x y]
    by (rule wp_getenv[OF K(1,2)], rule wp_mono, rule wp_search_path[OF K(1) _ name], assumption,
        elim conjE, rule wp_after_path[OF K(1,3) name])
qed

text \<open>C32: A policy given by name is looked for in the documented order: the directories of
  LANDLOCKD_POLICY_PATH, then those of the user's configuration, then the system directory, then /etc. The
  result is the first candidate that can be read, and a candidate is always the file \<open>name.toml\<close> directly
  in one of these directories: a name that is empty, \<open>.\<close>, \<open>..\<close> or has a slash finds nothing.\<close>

theorem named_policy_first_match:
  assumes "settled K ev readable" "w_alloc w = []" "share_dir \<noteq> []"
  shows "fst (run_state (cli_resolve_named_policy K share_dir (Some name)) w) =
    (if cli_policy_name_valid (Some name) then find readable (candidates (policy_dirs ev share_dir) name) else None)"
proof (cases "cli_policy_name_valid (Some name)")
  case True
  with wp_resolve[OF assms True] show ?thesis by (simp add: wp_def split: prod.splits)
qed (simp add: cli_resolve_named_policy_def set_errno_def)

text \<open>A user with a search path of two directories; only the second has the policy.\<close>

definition sample_environment :: "string \<Rightarrow> string option" where
  "sample_environment k = (if k = ''LANDLOCKD_POLICY_PATH'' then Some ''/a::/b'' else if k = ''HOME'' then Some ''/h'' else None)"

definition sample_files :: kernel where
  "sample_files h e = (case e of
     Getenv k \<Rightarrow> (case sample_environment k of None \<Rightarrow> Fail 0 | Some s \<Rightarrow> Done 0 s)
   | Host (Access p) \<Rightarrow> (if p \<in> {''/b/web.toml'', ''/h/.config/landlockd/policies/web.toml''} then Done 0 [] else Fail ENOENT)
   | _ \<Rightarrow> Fail ENOENT)"

theorem named_policy_first_match_witness:
  "fst (run_state (cli_resolve_named_policy sample_files ''/usr/share'' (Some ''web'')) quiet_world) = Some ''/b/web.toml''"
proof -
  let ?readable = "\<lambda>p. p \<in> {''/b/web.toml'', ''/h/.config/landlockd/policies/web.toml''}"
  have "settled sample_files sample_environment ?readable"
    by (auto simp: settled_def sample_files_def sample_environment_def NUL_def split: option.splits if_splits)
  from named_policy_first_match[OF this, of quiet_world "''/usr/share''" "''web''"] show ?thesis
    by (simp add: quiet_world_def cli_policy_name_valid_def candidates_def policy_dirs_def path_dirs_def user_dirs_def system_dirs_def
        sample_environment_def)
qed

subsection \<open>The direct mode\<close>

text \<open>Before the command is executed its process is under the ruleset: created for the rights the direct
  mode handles, with one read-only rule for each path; and the listed calls go to a notification filter.\<close>

definition direct_confined :: "cli_options \<Rightarrow> history \<Rightarrow> bool" where
  "direct_confined opts g \<longleftrightarrow>
     (\<exists>fd es. layer_events [(cli_handled_access_fs, map (\<lambda>p. (p, ro_access)) (opt_ro_paths opts))] [fd] es \<and> within es g \<and>
       done_in g (InChild (LandlockRestrictSelf fd 0)) \<and> done_in g (InChild (Prctl PR_SET_NO_NEW_PRIVS 1))) \<and>
     (\<forall>nr \<in> set (opt_notify_syscalls opts). \<exists>prog.
       done_in g (InChild (SeccompSetModeFilter SECCOMP_FILTER_FLAG_NEW_LISTENER prog)) \<and>
       (\<forall>rest. verdict prog rest (word_of_int nr) = Some SECCOMP_RET_USER_NOTIF))"

definition direct_granted :: "cli_options \<Rightarrow> history \<Rightarrow> sysevent \<Rightarrow> bool" where
  "direct_granted opts g e \<longleftrightarrow> routine e \<or>
     e = InChild (Host (Execvp (hd (the (opt_command_argv opts))) (the (opt_command_argv opts)))) \<and> direct_confined opts g"

lemma direct_routine: "calls (\<lambda>_. routine) f R \<Longrightarrow> calls (direct_granted opts) f R"
  by (erule calls_weaken) (simp add: direct_granted_def)

lemma routine_event: "calls (\<lambda>_. routine) (cli_emit_event K text) (\<lambda>_. True)"
  unfolding cli_emit_event_def by (intro routine_steps) simp

lemma routine_preflight_fail: "calls (\<lambda>_. routine) (preflight_fail K fds reason) (\<lambda>_. True)"
  unfolding preflight_fail_def by (intro routine_steps routine_closes routine_event)

lemma routine_probes:
  "calls (\<lambda>_. routine) (landlockd_preflight_run K floor out) (\<lambda>_. True)"
  "calls (\<lambda>_. routine) (landlockd_preflight_probe_seccomp_user_notif K out) (\<lambda>_. True)"
  unfolding landlockd_preflight_run_def landlock_probe_abi_def landlockd_preflight_probe_seccomp_user_notif_def Let_def
  by (intro routine_steps; simp)+

lemma routine_direct_preflight: "calls (\<lambda>_. routine) (direct_preflight K opts) (\<lambda>_. True)"
  unfolding direct_preflight_def direct_notify_ok_def Let_def
  by (intro routine_steps routine_probes routine_preflight_fail routine_event)

lemma routine_ro_rules: "calls (\<lambda>_. routine) (add_ro_rules K fd paths) (\<lambda>_. True)"
  by (induction paths) (auto intro!: routine_steps routine_add_fs_rule routine_preflight_fail)

lemma wp_ro_rules:
  "wp (add_ro_rules K fd paths) (\<lambda>ok w'. ok \<longrightarrow> (\<exists>es. w_trace w' = w_trace w @ es \<and>
     rule_events fd (map (\<lambda>p. (p, ro_access)) paths) es)) w"
proof (induction paths arbitrary: w)
  case (Cons p paths)
  have ro: "ro_access \<noteq> 0" by (simp add: ro_access_def LANDLOCK_ACCESS_FS_READ_FILE_def LANDLOCK_ACCESS_FS_READ_DIR_def)
  have failed: "wp f (\<lambda>_. wp (State_Monad.return False) (\<lambda>ok w'. ok \<longrightarrow> P w')) w'" for f :: "unit io" and P w'
    by (simp add: wp_return_fun wp_def split_beta)
  show ?case
    unfolding add_ro_rules.simps
    using ro
    by (auto simp: io_wp plain_call_def split: reply.splits intro!: failed wp_mono[OF Cons.IH])
qed (simp add: io_wp)

lemma traced_create:
  "traced (direct_granted opts) g (landlock_create_fs_ruleset K handled None) (\<lambda>r g'. \<exists>es. g' = g @ es \<and>
     (fst r < 0 \<or> (\<forall>rules es2. rule_events (fst r) rules es2 \<longrightarrow> layer_events [(handled, rules)] [fst r] (es @ es2))))"
proof (rule traced_of_wp[OF direct_routine[OF routine_create(1)]], rule wp_mono[OF create_fs_ruleset_null[where x = 0]], goal_cases)
  case (1 w r w')
  show ?case
  proof (cases "fst r < 0")
    case False
    with 1 obtain abi d fd d' eff where r: "0 < abi" "eff = handled AND fs_access_mask_for_abi (int abi)" "eff \<noteq> 0" "fst r = int fd"
      "w_trace w' = w_trace w @ [(abi_probe, Done abi d), (LandlockCreateRuleset
        (Some \<lparr>handled_access_fs = eff, handled_access_net = 0, scoped = 0\<rparr>) 8 0, Done fd d')]" by auto
    show ?thesis
    proof (intro allI impI disjI2)
      fix es rules es2
      assume es: "w_trace w' = w_trace w @ es" and e2: "rule_events (fst r) rules es2"
      have "es = [(abi_probe, Done abi d), (LandlockCreateRuleset
        (Some \<lparr>handled_access_fs = eff, handled_access_net = 0, scoped = 0\<rparr>) 8 0, Done fd d')]" using es r(5) by simp
      with r(1-4) e2 show "layer_events [(handled, rules)] [fst r] (es @ es2)"
        unfolding layer_events.simps by (intro exI[of _ abi] exI[of _ d] exI[of _ fd] exI[of _ d'] exI[of _ "[]"] exI[of _ es2] exI[of _ eff]) simp
    qed
  qed simp
qed

lemma traced_rules:
  "traced (direct_granted opts) g (add_ro_rules K fd paths) (\<lambda>ok g'. \<exists>es. g' = g @ es \<and>
     (\<not> ok \<or> rule_events fd (map (\<lambda>p. (p, ro_access)) paths) es))"
  by (rule traced_of_wp[OF direct_routine[OF routine_ro_rules]], rule wp_mono[OF wp_ro_rules]) auto

text \<open>What the child has done before it executes the command.\<close>

definition child_restricted :: "cli_options \<Rightarrow> int \<Rightarrow> history \<Rightarrow> bool" where
  "child_restricted opts fd h \<longleftrightarrow> enforced [fd] h \<and> (\<forall>nr \<in> set (opt_notify_syscalls opts). \<exists>prog.
     done_in h (SeccompSetModeFilter SECCOMP_FILTER_FLAG_NEW_LISTENER prog) \<and>
     (\<forall>rest. verdict prog rest (word_of_int nr) = Some SECCOMP_RET_USER_NOTIF))"

lemma child_restricted_mono: "child_restricted opts fd g \<Longrightarrow> set g \<subseteq> set h \<Longrightarrow> child_restricted opts fd h"
  unfolding child_restricted_def using enforced_mono done_in_mono by meson

lemma plan_notifies:
  assumes "cli_build_seccomp_plan opts = Inr plan" "opt_notify_syscalls opts \<noteq> []"
    and "enforced [fd] h" "done_in h (SeccompSetModeFilter SECCOMP_FILTER_FLAG_NEW_LISTENER (notify_filter plan))"
  shows "child_restricted opts fd h"
proof -
  have p: "plan_add_all plan_local (opt_notify_syscalls opts) = Inr plan" using assms(1) by (simp add: cli_build_seccomp_plan_def)
  show ?thesis
    unfolding child_restricted_def
    using assms(3,4) plan_option_given[OF p] notify.verdict_emit[of plan] by (auto simp: plan_option_def split: if_splits)
qed

lemma traced_sandbox_seccomp:
  assumes "plan_count plan > 0"
    and "\<And>l g'. set g \<subseteq> set g' \<Longrightarrow> enforced [fd] g' \<Longrightarrow>
      done_in g' (SeccompSetModeFilter SECCOMP_FILTER_FLAG_NEW_LISTENER (notify_filter plan)) \<Longrightarrow> Q (0, Some l) g'"
    and "\<And>rc l g'. rc < 0 \<Longrightarrow> Q (rc, l) g'"
  shows "traced (\<lambda>_. routine) g (landlockd_apply_sandbox_with_seccomp K fd (Some plan) (Some (-1))) Q"
proof -
  have install: "traced (\<lambda>_. routine) g1 (seccomp_install K (Some plan)) R"
    if "\<And>l g'. set g1 \<subseteq> set g' \<Longrightarrow> done_in g' (SeccompSetModeFilter SECCOMP_FILTER_FLAG_NEW_LISTENER (notify_filter plan)) \<Longrightarrow>
      0 \<le> l \<Longrightarrow> R l g'" "\<And>g'. R (-1) g'" for g1 R
    unfolding seccomp_install_def by (intro io_traced) (auto intro!: that traced_return traced_if traced_bind traced_sys traced_fail_with)
  have nnp: "traced (\<lambda>_. routine) g1 (landlockd_set_no_new_privs K) R" if "\<And>rc g'. set g1 \<subseteq> set g' \<Longrightarrow> R rc g'" for g1 R
    unfolding landlockd_set_no_new_privs_def by (intro io_traced) (auto intro!: that)
  have close: "traced (\<lambda>_. routine) g1 (sys K (Close c)) R" if "\<And>rc g'. R rc g'" for g1 R c
    by (intro traced_sys) (auto intro!: that)
  show ?thesis
    unfolding landlockd_apply_sandbox_with_seccomp_def Let_def option.case option.map
    using assms(1)
    by (intro traced_if traced_bind traced_fail_with traced_return nnp install traced_apply_sandbox close traced_get_errno traced_set_errno)
      (auto intro!: assms(2) intro: assms(3) done_in_mono)
qed

lemma traced_direct_restrict:
  assumes "\<And>rc g'. child_restricted opts fd g' \<Longrightarrow> Q rc g'" "\<And>rc g'. rc < 0 \<Longrightarrow> Q rc g'"
  shows "traced (\<lambda>_. routine) g (direct_restrict K opts fd) Q"
proof (cases "opt_notify_syscalls opts = []")
  case True
  show ?thesis
    unfolding direct_restrict_def if_P[OF True]
    by (rule traced_apply_sandbox) (rule assms(1), simp add: True child_restricted_def, rule assms(2), simp)
next
  case notify: False
  show ?thesis
  proof (cases "cli_build_seccomp_plan opts")
    case (Inl e)
    then show ?thesis unfolding direct_restrict_def if_not_P[OF notify] Inl sum.case by (intro traced_return assms) simp
  next
    case (Inr plan)
    have "plan_count plan > 0"
      using Inr notify plan_add_all_ok[of plan_local "opt_notify_syscalls opts" plan] by (auto simp: cli_build_seccomp_plan_def)
    note sandbox = traced_sandbox_seccomp[OF this]
    have closing: "traced (\<lambda>_. routine) g1 (do {
           c \<leftarrow> (if l \<ge> 0 then sys K (Close l) else State_Monad.return 0);
           if c < 0 then State_Monad.return (-1) else sys K (Close fd) }) Q" if "child_restricted opts fd g1" for g1 l
      by (intro traced_bind traced_if traced_sys traced_return)
        (auto intro!: assms(1) child_restricted_mono[OF that] traced_if traced_sys traced_return)
    show ?thesis
      unfolding direct_restrict_def if_not_P[OF notify] Inr sum.case
    proof (rule traced_bind, rule sandbox, goal_cases)
      case (1 l g')
      then show ?case using closing[OF plan_notifies[OF Inr notify 1(2,3)], of l] by (cases "0 \<le> l") simp_all
    qed (simp add: traced_return assms(2))
  qed
qed

lemma traced_direct_child:
  "traced (\<lambda>h e. routine e \<or> e = Host (Execvp (hd (the (opt_command_argv opts))) (the (opt_command_argv opts))) \<and> child_restricted opts fd h)
     [] (direct_child K opts fd) (\<lambda>_ _. True)" (is "traced ?E _ _ _")
proof -
  have restrict: "traced ?E g (direct_restrict K opts fd) Q"
    if "\<And>rc g'. child_restricted opts fd g' \<Longrightarrow> Q rc g'" "\<And>rc g'. rc < 0 \<Longrightarrow> Q rc g'" for g Q
    by (rule traced_weaken[OF traced_direct_restrict[OF that]]) simp_all
  show ?thesis
    unfolding direct_child_def Let_def
    by (rule traced_bind, rule restrict) (auto intro!: traced_if traced_bind traced_sys traced_return)
qed

lemma restricted_direct_confined:
  assumes "layer_events [(cli_handled_access_fs, map (\<lambda>p. (p, ro_access)) (opt_ro_paths opts))] [fd] es" "within es g"
    and "child_restricted opts fd h"
  shows "direct_confined opts (g @ in_child h)"
proof -
  have "within es (g @ in_child h)" using assms(2) by (rule within_append)
  with assms(1,3) show ?thesis unfolding direct_confined_def child_restricted_def enforced_def by fastforce
qed

lemma direct_rest: "calls (\<lambda>_. routine) f (\<lambda>_. True) \<Longrightarrow> traced (direct_granted opts) g f (\<lambda>_ _. True)"
  by (rule traced_calls[OF direct_routine]) simp_all

lemma routine_failed: "calls (\<lambda>_. routine) (do { preflight_fail K fds reason; State_Monad.return (1 :: int) }) (\<lambda>_. True)"
  by (intro routine_steps routine_preflight_fail)

lemma routine_direct_wait: "calls (\<lambda>_. routine) (direct_wait v fd pid code) (\<lambda>_. True)"
  unfolding direct_wait_def Let_def
  by (intro calls_seq plain_routine[OF plain_waitpid] routine_sys) (auto split: option.split wait_status.split intro!: routine_steps routine_event)

lemma traced_launch:
  assumes "layer_events [(cli_handled_access_fs, map (\<lambda>p. (p, ro_access)) (opt_ro_paths opts))] [fd] es" "within es g"
  shows "traced (direct_granted opts) g (direct_launch v opts fd) (\<lambda>_ _. True)"
proof -
  have "traced (direct_granted opts) g' (run_child (direct_child (e_kernel v) opts fd))
      (\<lambda>code g'. traced (direct_granted opts) g' (direct_wait v fd pid code) (\<lambda>_ _. True))" if "within es g'" for g' pid
    by (rule traced_child, rule traced_weaken[OF traced_direct_child])
      (auto simp: direct_granted_def intro!: restricted_direct_confined[OF assms(1) that] direct_rest[OF routine_direct_wait])
  then show ?thesis
    unfolding direct_launch_def Let_def
    by (intro traced_bind traced_sys traced_if direct_rest[OF routine_failed]) (auto simp: direct_granted_def intro!: within_append[OF assms(2)])
qed

text \<open>From the created ruleset on.\<close>

lemma traced_created:
  assumes created: "\<And>rules es2. rule_events fd rules es2 \<Longrightarrow> layer_events [(cli_handled_access_fs, rules)] [fd] (es @ es2)"
  shows "traced (direct_granted opts) (g @ es) (do {
     ok \<leftarrow> add_ro_rules K fd (opt_ro_paths opts);
     if \<not> ok then State_Monad.return 1 else direct_launch v opts fd }) (\<lambda>_ _. True)"
proof (rule traced_bind, rule traced_mono[OF traced_rules], elim exE conjE, goal_cases)
  case (1 ok g' es2)
  have "within (es @ es2) g'" unfolding within_def 1(1) by (intro exI[of _ g] exI[of _ "[]"]) simp
  note after = traced_launch[OF created this]
  show ?case using 1(2) by (cases ok) (auto intro: after traced_return)
qed

lemma direct_granted_run: "traced (direct_granted opts) [] (cli_direct v opts) (\<lambda>_ _. True)"
  unfolding cli_direct_def Let_def
  by (rule traced_bind, rule traced_calls[OF direct_routine[OF routine_direct_preflight]], rule traced_if, intro traced_return TrueI,
      rule traced_bind, rule traced_mono[OF traced_create], elim exE conjE, hypsubst, rule traced_if, rule direct_rest[OF routine_failed])
    (rule traced_created, blast)

text \<open>C8: Whatever the kernel answers, the direct mode executes nothing but the command of its command line, in a
  child, and only after that child is under a ruleset that handles the rights of the direct mode and
  allows reading files and directories below exactly the given paths, with no_new_privs set, and after
  every listed system call has been put under a notification filter.\<close>

theorem direct_runs_confined: "traced (direct_granted opts) [] (cli_direct v opts) (\<lambda>_ _. True)"
  by (rule direct_granted_run)

subsection \<open>Running under a policy\<close>

text \<open>The policy helper may be executed, and the command once its process is confined under a trusted policy.\<close>

definition verb_granted :: "cli_options \<Rightarrow> history \<Rightarrow> sysevent \<Rightarrow> bool" where
  "verb_granted opts g e \<longleftrightarrow> routine e \<or> (\<exists>p f. e = InChild (Host (Execvp p [p, f]))) \<or>
     e = InChild (Host (Execvp (hd (the (opt_command_argv opts))) (the (opt_command_argv opts)))) \<and>
     opt_verb opts = VERB_RUN \<and> \<not> opt_dry_run opts \<and> \<not> opt_preflight_only opts \<and> opt_socket_path opts = None \<and>
     (\<exists>i. ir_trusted i \<and> confined i g)"

lemma verb_routine: "calls (\<lambda>_. routine) f R \<Longrightarrow> calls (verb_granted opts) f R"
  by (erule calls_weaken) (simp add: verb_granted_def)

lemma verb_load: "calls (verb_granted opts) (policy_load_file n K c_path rust_path (Some f) i) (\<lambda>_. True)"
proof -
  have "calls (\<lambda>_ e. routine e \<or> (\<exists>p f. e = InChild (Host (Execvp p [p, f])))) (policy_load_file n K c_path rust_path (Some f) i) (\<lambda>_. True)"
    by (rule calls_load_file) auto
  then show ?thesis by (rule calls_weaken) (auto simp: verb_granted_def)
qed

lemma routine_resolve: "calls (\<lambda>_. routine) (cli_resolve_named_policy K share_dir name) (\<lambda>_. True)"
proof -
  have am: "calls (\<lambda>_. routine) (run_am f) (\<lambda>_. True)" for f :: "'b am" by (intro calls_run_am[OF ensures_True] TrueI)
  have dir: "calls (\<lambda>_. routine) (try_dir K d n rest) (\<lambda>_. True)" if "calls (\<lambda>_. routine) rest (\<lambda>_. True)" for d n rest
    unfolding try_dir_def cli_join_policy_candidate_def by (intro routine_steps am that) simp
  have env: "calls (\<lambda>_. routine) (getenv K k) (\<lambda>_. True)" for k unfolding getenv_def by (intro routine_steps) simp
  have search: "calls (\<lambda>_. routine) (search_dirs K s n) (\<lambda>_. True)" for s n
  proof (induction K s n rule: search_dirs.induct)
    case (1 K s n)
    have dir: "calls (\<lambda>_. routine) (try_dir K d n rest) (\<lambda>_. True)" if "calls (\<lambda>_. routine) rest (\<lambda>_. True)" for d n rest
      unfolding try_dir_def cli_join_policy_candidate_def by (intro routine_steps am that) simp
    show ?case unfolding search_dirs.simps[of K s] Let_def by (intro routine_steps am dir "1.IH") simp_all
  qed
  show ?thesis
    unfolding cli_resolve_named_policy_def cli_find_policy_in_search_path_def user_policy_def system_policy_def try_below_def
    by (intro routine_steps am dir env search)
qed

lemma routine_exchange: "calls (\<lambda>_. routine) (daemon_exchange v fd parts len) (\<lambda>_. True)"
  unfolding daemon_exchange_def write_parts_def daemon_write_all_def Let_def
  by (intro routine_steps calls_each_or_fail routine_write_all routine_read_all; simp)

lemma routine_daemon_run: "calls (\<lambda>_. routine) (daemon_run v s f argv) (\<lambda>_. True)"
  unfolding daemon_run_def daemon_connect_def take_response_def Let_def by (intro routine_steps routine_exchange; simp)

lemma verb_inspect: "calls (verb_granted opts) (inspect_policy v c_path rust_path opts' f) (\<lambda>_. True)"
proof -
  have status: "calls (\<lambda>_. routine) (cli_dry_run_status K i) (\<lambda>_. True)" for K i
    unfolding cli_dry_run_status_def seccomp_unsupported_def print_lines_def Let_def by (intro routine_steps routine_probes) simp_all
  show ?thesis
    unfolding inspect_policy_def Let_def
    by (intro calls_seq calls_if calls_return verb_load verb_routine[OF status] verb_routine[OF routine_sys(1)] TrueI) simp
qed

lemma traced_command:
  assumes "opt_verb opts = VERB_RUN" "\<not> opt_dry_run opts" "\<not> opt_preflight_only opts" "opt_socket_path opts = None"
  shows "traced (verb_granted opts) g (run_policy_command v c_path rust_path f (the (opt_command_argv opts))) (\<lambda>_ _. True)"
proof -
  let ?argv = "the (opt_command_argv opts)"
  have run: "traced (verb_granted opts) g' (run_policy_ir v i label ?argv) (\<lambda>_ _. True)" if "ir_trusted i" for g' i label
    by (rule traced_shift[OF granted_run]) (use assms that confined_later in \<open>auto simp: run_granted_def verb_granted_def\<close>)
  have wait: "traced (verb_granted opts) g (run_policy_file_wait_status v c_path rust_path (Some f) ?argv) (\<lambda>_ _. True)"
    unfolding run_policy_file_wait_status_def
    by (intro traced_if traced_bind traced_set_errno traced_return TrueI traced_calls[OF calls_gives[OF verb_load load_file_gives]] run) auto
  have "calls (verb_granted opts) (case s of Some (Signaled sig) \<Rightarrow> do { _ \<leftarrow> sys (e_kernel v) (Host (Raise sig)); State_Monad.return (128 + int sig) }
     | _ \<Rightarrow> State_Monad.return rc) (\<lambda>_. True)" for s rc
    by (auto split: option.split wait_status.split intro!: calls_seq calls_return verb_routine[OF routine_sys(1)])
  then show ?thesis
    unfolding run_policy_command_def by (intro traced_bind traced_mono[OF wait] traced_calls) simp_all
qed

lemma traced_policy_verb: "opt_verb opts = VERB_RUN \<or> opt_verb opts = VERB_LINT \<Longrightarrow>
  traced (verb_granted opts) g (cli_run_policy_verb v c_path rust_path share_dir opts) (\<lambda>_ _. True)"
proof -
  assume verb: "opt_verb opts = VERB_RUN \<or> opt_verb opts = VERB_LINT"
  have calls: "traced (verb_granted opts) g' f (\<lambda>_ _. True)" if "calls (verb_granted opts) f (\<lambda>_. True)" for g' and f :: "'b io"
    by (rule traced_calls[OF that]) simp
  have rest: "traced (verb_granted opts) g' (if opt_verb opts = VERB_LINT \<or> opt_preflight_only opts \<or> opt_dry_run opts
      then inspect_policy v c_path rust_path opts f
      else if opt_socket_path opts \<noteq> None then daemon_run v (the (opt_socket_path opts)) f (the (opt_command_argv opts))
      else run_policy_command v c_path rust_path f (the (opt_command_argv opts))) (\<lambda>_ _. True)" for g' f
    using verb by (intro traced_if calls[OF verb_inspect] calls[OF verb_routine[OF routine_daemon_run]] traced_command) auto
  have pick: "calls (verb_granted opts) (if opt_policy_file opts = None then cli_resolve_named_policy (e_kernel v) share_dir (opt_policy_name opts)
      else State_Monad.return (opt_policy_file opts)) (\<lambda>_. True)"
    by (intro calls_if calls_return verb_routine[OF routine_resolve] TrueI)
  show ?thesis
    unfolding cli_run_policy_verb_def
    by (rule traced_bind, rule traced_calls[OF pick], intro traced_option traced_return TrueI rest)
qed

lemma routine_daemon_asks:
  "calls (\<lambda>_. routine) (daemon_stop v s) (\<lambda>_. True)" "calls (\<lambda>_. routine) (daemon_status v s) (\<lambda>_. True)"
  unfolding daemon_stop_def daemon_status_def take_status_response_def daemon_connect_def take_response_def Let_def
  by (intro routine_steps routine_exchange; simp)+

subsection \<open>The daemon\<close>

text \<open>Once the listening socket is there the daemon does what \<open>Daemon_Safety\<close> and \<open>Daemon_Confinement\<close> grant it
  from its start on.\<close>

definition serve_granted :: "env \<Rightarrow> history \<Rightarrow> sysevent \<Rightarrow> bool" where
  "serve_granted v g e \<longleftrightarrow> routine e \<or> (\<exists>g0 h. g = g0 @ h \<and> daemon_granted v h e \<and> daemon_launches h e)"

lemma serve_routine: "calls (\<lambda>_. routine) f R \<Longrightarrow> calls (serve_granted v) f R"
  by (erule calls_weaken) (simp add: serve_granted_def)

lemma routine_listen: "calls (\<lambda>_. routine) (daemon_listen_path K s) (\<lambda>_. True)"
  unfolding daemon_listen_path_def or_fail_def fail_with_def by (intro routine_steps) simp_all

lemma routine_systemd: "calls (\<lambda>_. routine) (daemon_get_systemd_listener K n) (\<lambda>_. True)"
proof -
  have env: "calls (\<lambda>_. routine) (parse_uint_env K k) (\<lambda>_. True)" for k
    unfolding parse_uint_env_def getenv_def by (auto intro!: routine_steps split: option.split)
  show ?thesis
    unfolding daemon_get_systemd_listener_def accepting_def daemon_describe_listener_def Let_def
    by (intro routine_steps env) simp_all
qed

lemma traced_listener: "traced (serve_granted v) g (daemon_serve_listener n v c_path rust_path fd label b) (\<lambda>_ _. True)"
  by (rule traced_shift[OF traced_both[OF daemon_granted_run traced_calls[OF launches_run_daemon]]]) (auto simp: serve_granted_def)

lemma traced_serve_verb:
  "traced (serve_granted v) g (daemon_serve n v c_path rust_path s) (\<lambda>_ _. True)"
  "traced (serve_granted v) g (daemon_serve_systemd n v c_path rust_path) (\<lambda>_ _. True)"
  unfolding daemon_serve_def daemon_serve_systemd_def
  by (intro traced_bind[OF traced_calls[OF serve_routine[OF routine_listen]]] traced_bind[OF traced_calls[OF serve_routine[OF routine_systemd]]]
      traced_if traced_option traced_bind[OF traced_mono[OF traced_listener]] traced_return TrueI)+

subsection \<open>Every verb\<close>

definition cli_granted :: "env \<Rightarrow> cli_options \<Rightarrow> history \<Rightarrow> sysevent \<Rightarrow> bool" where
  "cli_granted v opts g e = (case opt_verb opts of
     VERB_NONE \<Rightarrow> direct_granted opts g e
   | VERB_RUN \<Rightarrow> verb_granted opts g e
   | VERB_LINT \<Rightarrow> verb_granted opts g e
   | VERB_SERVE \<Rightarrow> serve_granted v g e
   | VERB_STATUS \<Rightarrow> routine e
   | VERB_STOP \<Rightarrow> routine e)"

lemma cli_granted_routine: "routine e \<Longrightarrow> cli_granted v opts g e"
  by (cases "opt_verb opts") (simp_all add: cli_granted_def direct_granted_def verb_granted_def serve_granted_def)

lemma traced_verbs: "traced (cli_granted v opts) [] (cli_dispatch n v c_path rust_path share_dir opts) (\<lambda>_ _. True)"
proof -
  have result: "traced E [] (do { r \<leftarrow> f; State_Monad.return (Some r) }) (\<lambda>_ _. True)" if "traced E [] f (\<lambda>_ _. True)"
    for E and f :: "int io"
    by (rule traced_bind, rule traced_mono[OF that], rule traced_return) simp
  have usage: "traced (cli_granted v opts) [] (do { _ \<leftarrow> sys (e_kernel v) (Host (Stdout usage_text)); State_Monad.return (Some 0) }) (\<lambda>_ _. True)"
    by (intro traced_bind traced_sys traced_return cli_granted_routine TrueI) simp
  have asks: "traced (\<lambda>_. routine) [] f (\<lambda>_ _. True)" if "calls (\<lambda>_. routine) f (\<lambda>_. True)" for f :: "int io"
    by (rule traced_calls[OF that]) simp
  show ?thesis
  proof (cases "opt_show_help opts")
    case True
    with usage show ?thesis by (simp add: cli_dispatch_def)
  next
    case False
    have "cli_granted v opts = (case opt_verb opts of VERB_NONE \<Rightarrow> direct_granted opts | VERB_RUN \<Rightarrow> verb_granted opts
      | VERB_LINT \<Rightarrow> verb_granted opts | VERB_SERVE \<Rightarrow> serve_granted v | VERB_STATUS \<Rightarrow> (\<lambda>_. routine) | VERB_STOP \<Rightarrow> (\<lambda>_. routine))"
      by (rule ext, rule ext) (simp add: cli_granted_def split: cli_verb.split)
    then show ?thesis
      unfolding cli_dispatch_def Let_def if_not_P[OF False]
      by (cases "opt_verb opts")
        (auto intro!: result traced_if direct_granted_run traced_policy_verb traced_serve_verb asks routine_daemon_asks)
  qed
qed

end
