(* ===== verification/Toml_Value.thy ===== *)
theory Toml_Value
  imports Audit_Log
begin

text \<open>
  Values of TOML documents (\<open>src/subprojects/tomlc99/toml.c\<close>): UTF-8, the normalisation of quoted strings
  and the conversions \<open>toml_rtos\<close>, \<open>toml_rtob\<close>, \<open>toml_rtoi\<close>, \<open>toml_rtod\<close> and \<open>toml_rtots\<close>. Memory comes from the
  allocator of \<open>Prelude\<close>. Of an error the kind and the line are kept, not the message. The floating-point
  number that \<open>strtod\<close> makes of a text is a parameter: \<open>None\<close> when \<open>strtod\<close> does not read the whole text or
  reports a range error.
\<close>

subsection \<open>Errors\<close>

text \<open>\<open>BadValue\<close> is the -1 of a conversion. \<open>Crash\<close> stands for a NULL pointer followed or an assertion violated,
  \<open>NoFuel\<close> for a recursion cut short.\<close>

datatype toml_error = OutOfMemory | Internal | Syntax nat | BadKey nat | KeyExists nat | Forbid nat | BadValue | Crash | NoFuel

type_synonym 'a tm = "alloc \<Rightarrow> (toml_error + 'a) \<times> alloc"

definition returnT :: "'a \<Rightarrow> 'a tm" where
  "returnT a = (\<lambda>m. (Inr a, m))"

definition failT :: "toml_error \<Rightarrow> 'a tm" where
  "failT e = (\<lambda>m. (Inl e, m))"

definition bindT :: "'a tm \<Rightarrow> ('a \<Rightarrow> 'b tm) \<Rightarrow> 'b tm" where
  "bindT f g = (\<lambda>m. case f m of (Inl e, m') \<Rightarrow> (Inl e, m') | (Inr a, m') \<Rightarrow> g a m')"

text \<open>An allocation, and what its failure is reported as.\<close>

definition allocT :: "toml_error \<Rightarrow> unit tm" where
  "allocT e = (\<lambda>m. case m of [] \<Rightarrow> (Inr (), []) | b # bs \<Rightarrow> (if b then Inr () else Inl e, bs))"

definition liftT :: "toml_error + 'a \<Rightarrow> 'a tm" where
  "liftT r = (\<lambda>m. (r, m))"

subsection \<open>Characters\<close>

abbreviation (input) NL :: char where "NL \<equiv> CHR 0x0A"
abbreviation (input) CR :: char where "CR \<equiv> CHR 0x0D"
abbreviation (input) HT :: char where "HT \<equiv> CHR 0x09"
abbreviation (input) SP :: char where "SP \<equiv> CHR 0x20"
abbreviation (input) DQ :: char where "DQ \<equiv> CHR 0x22"
abbreviation (input) SQ :: char where "SQ \<equiv> CHR 0x27"
abbreviation (input) BS :: char where "BS \<equiv> CHR 0x5C"

text \<open>\<open>s[i]\<close> of a C string; its end reads as NUL.\<close>

definition char_at :: "string \<Rightarrow> nat \<Rightarrow> char" where
  "char_at s i = (if i < length s then s ! i else NUL)"

definition is_upper :: "char \<Rightarrow> bool" where
  "is_upper c \<longleftrightarrow> 65 \<le> (of_char c :: nat) \<and> (of_char c :: nat) \<le> 90"

definition is_lower :: "char \<Rightarrow> bool" where
  "is_lower c \<longleftrightarrow> 97 \<le> (of_char c :: nat) \<and> (of_char c :: nat) \<le> 122"

definition is_alnum :: "char \<Rightarrow> bool" where
  "is_alnum c \<longleftrightarrow> is_digit c \<or> is_upper c \<or> is_lower c"

definition is_white :: "char \<Rightarrow> bool" where
  "is_white c \<longleftrightarrow> c \<in> set [SP, HT, NL, CHR 0x0B, CHR 0x0C, CR]"

text \<open>The hexadecimal digits of an escape: capital letters only.\<close>

definition is_hex :: "char \<Rightarrow> bool" where
  "is_hex c \<longleftrightarrow> is_digit c \<or> 65 \<le> (of_char c :: nat) \<and> (of_char c :: nat) \<le> 70"

definition hex_digit_value :: "char \<Rightarrow> nat" where
  "hex_digit_value c = (if is_digit c then of_char c - 48 else of_char c - 55)"

subsection \<open>UTF-8\<close>

definition byte :: "int \<Rightarrow> char" where
  "byte x = char_of x"

definition byte_at :: "string \<Rightarrow> nat \<Rightarrow> int" where
  "byte_at s i = of_char (char_at s i)"

text \<open>\<open>k\<close> continuation bytes.\<close>

fun utf8_tail :: "nat \<Rightarrow> string \<Rightarrow> int \<Rightarrow> int option" where
  "utf8_tail 0 s v = Some v"
| "utf8_tail (Suc k) s v = (let i = byte_at s 0 in
     if drop_bit 6 i \<noteq> 0x2 then None else utf8_tail k (drop 1 s) (push_bit 6 v OR (i AND 0x3f)))"

definition toml_utf8_to_ucs :: "string \<Rightarrow> int \<Rightarrow> (int \<times> nat) option" where
  "toml_utf8_to_ucs orig len = (let i = byte_at orig 0;
       sequence = (\<lambda>n mask. if len < int n then None
         else map_option (\<lambda>v. (v, n)) (utf8_tail (n - 1) (drop 1 orig) (i AND mask))) in
     if drop_bit 7 i = 0 then (if len < 1 then None else Some (i, 1))
     else if drop_bit 5 i = 0x6 then sequence 2 0x1f
     else if drop_bit 4 i = 0xE then sequence 3 0x0F
     else if drop_bit 3 i = 0x1E then sequence 4 0x07
     else if drop_bit 2 i = 0x3E then sequence 5 0x03
     else if drop_bit 1 i = 0x7e then sequence 6 0x01
     else None)"

definition toml_ucs_to_utf8 :: "int \<Rightarrow> string option" where
  "toml_ucs_to_utf8 code = (let tail = (\<lambda>k. byte (0x80 OR (drop_bit k code AND 0x3f))) in
     if 0xd800 \<le> code \<and> code \<le> 0xdfff then None
     else if 0xfffe \<le> code \<and> code \<le> 0xffff then None
     else if code < 0 then None
     else if code \<le> 0x7F then Some [byte code]
     else if code \<le> 0x000007FF then Some [byte (0xc0 OR drop_bit 6 code), tail 0]
     else if code \<le> 0x0000FFFF then Some [byte (0xe0 OR drop_bit 12 code), tail 6, tail 0]
     else if code \<le> 0x001FFFFF then Some [byte (0xf0 OR drop_bit 18 code), tail 12, tail 6, tail 0]
     else if code \<le> 0x03FFFFFF then Some [byte (0xf8 OR drop_bit 24 code), tail 18, tail 12, tail 6, tail 0]
     else if code \<le> 0x7FFFFFFF then Some [byte (0xfc OR drop_bit 30 code), tail 24, tail 18, tail 12, tail 6, tail 0]
     else None)"

subsection \<open>Quoted strings\<close>

text \<open>The buffer of \<open>bufmax\<close> bytes that a string of \<open>off\<close> bytes is being written to has at least ten to spare.\<close>

definition room :: "toml_error \<Rightarrow> nat \<Rightarrow> nat \<Rightarrow> nat tm" where
  "room e off bufmax = (if off + 10 \<ge> bufmax then bindT (allocT e) (\<lambda>_. returnT (bufmax + 50)) else returnT bufmax)"

definition bad_char :: "bool \<Rightarrow> char \<Rightarrow> bool" where
  "bad_char multiline c \<longleftrightarrow> (let ch = (of_char c :: nat) in
     (ch \<le> 0x08 \<or> 0x0a \<le> ch \<and> ch \<le> 0x1f \<or> ch = 0x7f) \<and> \<not> (multiline \<and> (c = CR \<or> c = NL)))"

fun norm_lit_str :: "toml_error \<Rightarrow> bool \<Rightarrow> string \<Rightarrow> nat \<Rightarrow> string \<Rightarrow> string tm" where
  "norm_lit_str e multiline [] bufmax dst = bindT (room e (length dst) bufmax) (\<lambda>bufmax. returnT dst)"
| "norm_lit_str e multiline (c # sp) bufmax dst = bindT (room e (length dst) bufmax) (\<lambda>bufmax.
     if bad_char multiline c then failT e else norm_lit_str e multiline sp bufmax (dst @ [c]))"

definition escape_value :: "char \<Rightarrow> char option" where
  "escape_value c = (if c = CHR ''b'' then Some (CHR 0x08) else if c = CHR ''t'' then Some HT
     else if c = CHR ''n'' then Some NL else if c = CHR ''f'' then Some (CHR 0x0C)
     else if c = CHR ''r'' then Some CR else if c = DQ then Some DQ else if c = BS then Some BS else None)"

definition is_blank :: "char \<Rightarrow> bool" where
  "is_blank c \<longleftrightarrow> c = SP \<or> c = HT \<or> c = CR"

text \<open>\<open>s[strspn(s, " \t\r")] == '\n'\<close>\<close>

definition ends_line :: "string \<Rightarrow> bool" where
  "ends_line s \<longleftrightarrow> take 1 (dropWhile is_blank s) = [NL]"

definition hex_number :: "string \<Rightarrow> int" where
  "hex_number s = int (foldl (\<lambda>n c. 16 * n + hex_digit_value c) 0 s)"

text \<open>The character after the source is the closing quote, so neither look-ahead goes beyond the source.\<close>

function norm_basic_str :: "toml_error \<Rightarrow> bool \<Rightarrow> string \<Rightarrow> nat \<Rightarrow> string \<Rightarrow> string tm" where
  "norm_basic_str e multiline src bufmax dst = bindT (room e (length dst) bufmax) (\<lambda>bufmax.
     case src of [] \<Rightarrow> returnT dst
     | c # sp \<Rightarrow>
       if c \<noteq> BS then (if bad_char multiline c then failT e else norm_basic_str e multiline sp bufmax (dst @ [c]))
       else if multiline \<and> ends_line sp then
         norm_basic_str e multiline (dropWhile (\<lambda>c. is_blank c \<or> c = NL) sp) bufmax dst
       else (case sp of [] \<Rightarrow> failT e
         | ch # sp \<Rightarrow>
           if ch = CHR ''u'' \<or> ch = CHR ''U'' then
             (let nhex = (if ch = CHR ''u'' then 4 else 8) in
              if length sp < nhex \<or> \<not> list_all is_hex (take nhex sp) then failT e
              else (case toml_ucs_to_utf8 (hex_number (take nhex sp)) of None \<Rightarrow> failT e
                | Some b \<Rightarrow> norm_basic_str e multiline (drop nhex sp) bufmax (dst @ b)))
           else (case escape_value ch of None \<Rightarrow> failT e
             | Some ch \<Rightarrow> norm_basic_str e multiline sp bufmax (dst @ [ch]))))"
  by pat_completeness auto
termination
  by (relation "measure (\<lambda>(e, multiline, src, bufmax, dst). length src)")
    (auto simp: less_Suc_eq_le length_dropWhile_le)

declare norm_basic_str.simps [simp del]

subsection \<open>Conversions\<close>

definition body_of :: "nat \<Rightarrow> string \<Rightarrow> string" where
  "body_of q s = take (length s - 2 * q) (drop q s)"

text \<open>The newline right after an opening triple quote is not part of the string.\<close>

definition skip_newline :: "string \<Rightarrow> string" where
  "skip_newline s = (if char_at s 0 = NL then drop 1 s else if char_at s 0 = CR \<and> char_at s 1 = NL then drop 2 s else s)"

definition toml_rtos :: "string option \<Rightarrow> string tm" where
  "toml_rtos src = (case src of None \<Rightarrow> failT BadValue
     | Some s \<Rightarrow>
       let q = char_at s 0; srclen = length s;
           norm = (\<lambda>multiline body. if q = SQ then norm_lit_str BadValue multiline body 0 []
             else norm_basic_str BadValue multiline body 0 []) in
       if \<not> (q = SQ \<or> q = DQ) then failT BadValue
       else if q = char_at s 1 \<and> q = char_at s 2 then
         (if \<not> (6 \<le> srclen \<and> drop (srclen - 3) s = [q, q, q]) then failT BadValue
          else norm True (skip_newline (body_of 3 s)))
       else if \<not> (2 \<le> srclen \<and> drop (srclen - 1) s = [q]) then failT BadValue
       else norm False (body_of 1 s))"

definition toml_rtob :: "string option \<Rightarrow> bool option" where
  "toml_rtob src = (case src of None \<Rightarrow> None
     | Some s \<Rightarrow> if s = ''true'' then Some True else if s = ''false'' then Some False else None)"

text \<open>The copy of a number into a buffer of \<open>n\<close> bytes, without its underscores.\<close>

fun copy_number :: "string \<Rightarrow> nat \<Rightarrow> string option" where
  "copy_number [] n = (if n = 0 then None else Some [])"
| "copy_number (c # s) n = (if n = 0 then None
     else if c = CHR ''_'' then (if s = [] \<or> hd s = CHR ''_'' then None else copy_number s n)
     else map_option ((#) c) (copy_number s (n - 1)))"

definition split_sign :: "string \<Rightarrow> string \<times> string" where
  "split_sign s = (if char_at s 0 = CHR ''+'' \<or> char_at s 0 = CHR ''-'' then (take 1 s, drop 1 s) else ([], s))"

text \<open>\<open>strtoll\<close>: the number, what is left at \<open>endp\<close>, and whether it is out of range.\<close>

definition base_digit :: "nat \<Rightarrow> char \<Rightarrow> nat option" where
  "base_digit base c = (let v = (if is_digit c then of_char c - 48 else if is_upper c then of_char c - 55
       else if is_lower c then of_char c - 87 else 36) in if v < base then Some v else None)"

definition base_prefix :: "nat \<Rightarrow> string \<Rightarrow> nat \<times> string" where
  "base_prefix base s = (if (base = 0 \<or> base = 16) \<and> char_at s 0 = CHR ''0'' \<and> char_at s 1 \<in> set ''xX'' \<and>
       base_digit 16 (char_at s 2) \<noteq> None then (16, drop 2 s)
     else (if base \<noteq> 0 then base else if char_at s 0 = CHR ''0'' then 8 else 10, s))"

definition strtoll :: "string \<Rightarrow> nat \<Rightarrow> int \<times> string \<times> bool" where
  "strtoll s base = (let (sign, t) = split_sign (dropWhile is_white s); (base, t) = base_prefix base t;
       digits = takeWhile (\<lambda>c. base_digit base c \<noteq> None) t;
       n = int (foldl (\<lambda>n c. base * n + the (base_digit base c)) 0 digits); v = (if sign = ''-'' then - n else n) in
     if digits = [] then (0, s, False)
     else if v < - (2 ^ 63) then (- (2 ^ 63), drop (length digits) t, True)
     else if v > 2 ^ 63 - 1 then (2 ^ 63 - 1, drop (length digits) t, True)
     else (v, drop (length digits) t, False))"

definition rtoi_digits :: "string \<Rightarrow> string \<Rightarrow> nat \<Rightarrow> int option" where
  "rtoi_digits sign s base = (case copy_number s (100 - length sign) of None \<Rightarrow> None
     | Some buf \<Rightarrow> (case strtoll (sign @ buf) base of (v, endp, erange) \<Rightarrow> if erange \<or> endp \<noteq> [] then None else Some v))"

definition toml_rtoi :: "string option \<Rightarrow> int option" where
  "toml_rtoi src = (case src of None \<Rightarrow> None
     | Some s \<Rightarrow> (case split_sign s of (sign, s) \<Rightarrow>
         if char_at s 0 = CHR ''_'' then None
         else if char_at s 0 = CHR ''0'' then
           (let c = char_at s 1 in
            if c = CHR ''x'' then rtoi_digits sign (drop 2 s) 16
            else if c = CHR ''o'' then rtoi_digits sign (drop 2 s) 8
            else if c = CHR ''b'' then rtoi_digits sign (drop 2 s) 2
            else if c = NUL then Some 0 else None)
         else rtoi_digits sign s 0))"

text \<open>\<open>dot == s || !isdigit(dot[-1]) || !isdigit(dot[1])\<close> for the first dot.\<close>

definition bad_dot :: "string \<Rightarrow> bool" where
  "bad_dot s \<longleftrightarrow> (let i = length (takeWhile (\<lambda>c. c \<noteq> CHR ''.'') s) in
     i < length s \<and> (i = 0 \<or> \<not> is_digit (char_at s (i - 1)) \<or> \<not> is_digit (char_at s (i + 1))))"

definition toml_rtod_ex :: "(string \<Rightarrow> 'd option) \<Rightarrow> string option \<Rightarrow> nat \<Rightarrow> 'd option" where
  "toml_rtod_ex strtod src buflen = (case src of None \<Rightarrow> None
     | Some s \<Rightarrow> (case split_sign s of (sign, s) \<Rightarrow>
         if char_at s 0 = CHR ''_'' then None
         else if bad_dot s then None
         else if char_at s 0 = CHR ''0'' \<and> char_at s 1 \<noteq> NUL \<and> char_at s 1 \<notin> set ''eE.'' then None
         else (case copy_number s (buflen - length sign) of None \<Rightarrow> None | Some buf \<Rightarrow> strtod (sign @ buf))))"

definition toml_rtod :: "(string \<Rightarrow> 'd option) \<Rightarrow> string option \<Rightarrow> 'd option" where
  "toml_rtod strtod src = toml_rtod_ex strtod src 100"

subsection \<open>Dates and times\<close>

definition scan_digits :: "string \<Rightarrow> nat \<Rightarrow> nat option" where
  "scan_digits p n = (if n \<le> length p \<and> list_all is_digit (take n p) then Some (digits_value (take n p)) else None)"

text \<open>Three numbers of the given widths with a separator in between.\<close>

definition scan_three :: "nat \<Rightarrow> char \<Rightarrow> string \<Rightarrow> (nat \<times> nat \<times> nat) option" where
  "scan_three n sep p = (case scan_digits p n of None \<Rightarrow> None | Some a \<Rightarrow>
     if char_at p n \<noteq> sep then None else (case scan_digits (drop (n + 1) p) 2 of None \<Rightarrow> None | Some b \<Rightarrow>
     if char_at p (n + 3) \<noteq> sep then None else (case scan_digits (drop (n + 4) p) 2 of None \<Rightarrow> None | Some c \<Rightarrow> Some (a, b, c))))"

definition scan_date :: "string \<Rightarrow> (nat \<times> nat \<times> nat) option" where
  "scan_date p = scan_three 4 (CHR ''-'') p"

definition scan_time :: "string \<Rightarrow> (nat \<times> nat \<times> nat) option" where
  "scan_time p = scan_three 2 (CHR '':'') p"

record toml_timestamp =
  ts_date :: "(nat \<times> nat \<times> nat) option"
  ts_time :: "(nat \<times> nat \<times> nat) option"
  ts_millisec :: "nat option"
  ts_z :: "string option"

fun parse_millisec :: "string \<Rightarrow> nat \<Rightarrow> nat \<times> string" where
  "parse_millisec [] unit = (0, [])"
| "parse_millisec (c # p) unit = (if is_digit c then
     (case parse_millisec p (unit div 10) of (ret, endp) \<Rightarrow> ((of_char c - 48) * unit + ret, endp)) else (0, c # p))"

text \<open>The offset of a time zone: \<open>None\<close> is the -1 of a bad one.\<close>

definition two_digits :: "string \<Rightarrow> bool" where
  "two_digits p \<longleftrightarrow> is_digit (char_at p 0) \<and> is_digit (char_at p 1)"

definition scan_zone :: "string \<Rightarrow> (string option \<times> string) option" where
  "scan_zone p = (let c = char_at p 0 in
     if p = [] then Some (None, [])
     else if c = CHR ''Z'' \<or> c = CHR ''z'' then Some (Some ''Z'', drop 1 p)
     else if c = CHR ''+'' \<or> c = CHR ''-'' then
       (if \<not> two_digits (drop 1 p) then None
        else if char_at p 3 = CHR '':'' then (if \<not> two_digits (drop 4 p) then None else Some (Some (take 6 p), drop 6 p))
        else Some (Some (take 3 p), drop 3 p))
     else Some (Some [], p))"

definition rtots_time :: "toml_timestamp \<Rightarrow> string \<Rightarrow> (toml_timestamp \<times> string) option" where
  "rtots_time ts p = (case scan_time p of None \<Rightarrow> Some (ts, p)
     | Some hms \<Rightarrow>
       let ts = ts\<lparr>ts_time := Some hms\<rparr>; p = drop 8 p;
           (ts, p) = (if char_at p 0 = CHR ''.'' then
             (case parse_millisec (drop 1 p) 100 of (ms, qq) \<Rightarrow> (ts\<lparr>ts_millisec := Some ms\<rparr>, qq)) else (ts, p)) in
       map_option (\<lambda>(z, p). (ts\<lparr>ts_z := z\<rparr>, p)) (scan_zone p))"

definition toml_rtots :: "string option \<Rightarrow> toml_timestamp option" where
  "toml_rtots src = (case src of None \<Rightarrow> None
     | Some p \<Rightarrow>
       let ts = \<lparr>ts_date = None, ts_time = None, ts_millisec = None, ts_z = None\<rparr>; date = scan_date p;
           p' = (if date = None then p else drop 10 p); sep = (date \<noteq> None \<and> p' \<noteq> []) in
       if sep \<and> char_at p' 0 \<notin> set ''Tt '' then None
       else (case rtots_time (ts\<lparr>ts_date := date\<rparr>) (if sep then drop 1 p' else p') of None \<Rightarrow> None
         | Some (ts, p) \<Rightarrow> if p \<noteq> [] then None else if sep \<and> ts_time ts = None then None else Some ts))"

definition valtype :: "(string \<Rightarrow> 'd option) \<Rightarrow> string \<Rightarrow> char" where
  "valtype strtod val = (if char_at val 0 = SQ \<or> char_at val 0 = DQ then CHR ''s''
     else if toml_rtob (Some val) \<noteq> None then CHR ''b''
     else if toml_rtoi (Some val) \<noteq> None then CHR ''i''
     else if toml_rtod strtod (Some val) \<noteq> None then CHR ''d''
     else (case toml_rtots (Some val) of
       Some ts \<Rightarrow> if ts_date ts \<noteq> None \<and> ts_time ts \<noteq> None then CHR ''T'' else if ts_date ts \<noteq> None then CHR ''D'' else CHR ''t''
     | None \<Rightarrow> CHR ''u''))"

end
