(* ===== verification/Toml_Lexer.thy ===== *)
theory Toml_Lexer
  imports Toml_Value
begin

text \<open>
  The tokens of a TOML text (\<open>src/subprojects/tomlc99/toml.c\<close>). The text \<open>conf\<close> is a C string; a pointer into it is
  an index. A scanner looks at the rest of the text from a pointer on and returns the length of the
  token.
\<close>

subsection \<open>Tokens\<close>

datatype tokentype = INVALID | DOT | COMMA | EQUAL | LBRACE | RBRACE | NEWLINE | LBRACKET | RBRACKET | STRING

record token =
  tk_tok :: tokentype
  tk_line :: nat
  tk_ptr :: nat
  tk_len :: nat
  tk_eof :: bool

definition set_token :: "tokentype \<Rightarrow> nat \<Rightarrow> nat \<Rightarrow> nat \<Rightarrow> token" where
  "set_token tok lineno ptr len = \<lparr>tk_tok = tok, tk_line = lineno, tk_ptr = ptr, tk_len = len, tk_eof = False\<rparr>"

definition set_eof :: "string \<Rightarrow> nat \<Rightarrow> token" where
  "set_eof conf lineno = (set_token NEWLINE lineno (length conf) 0)\<lparr>tk_eof := True\<rparr>"

subsection \<open>Strings\<close>

definition triple :: "char \<Rightarrow> string \<Rightarrow> bool" where
  "triple q s \<longleftrightarrow> take 3 s = [q, q, q]"

text \<open>Where the closing triple quote of a literal and of a basic string starts; one after a backslash does
  not count. More quotes belong to the string.\<close>

fun find_triple :: "string \<Rightarrow> nat option" where
  "find_triple [] = None"
| "find_triple (c # s) = (if triple SQ (c # s) then Some 0 else map_option Suc (find_triple s))"

fun find_basic_triple :: "char \<Rightarrow> string \<Rightarrow> nat option" where
  "find_basic_triple prev [] = None"
| "find_basic_triple prev (c # s) =
     (if triple DQ (c # s) \<and> prev \<noteq> BS then Some 0 else map_option Suc (find_basic_triple c s))"

definition more_quotes :: "char \<Rightarrow> string \<Rightarrow> nat" where
  "more_quotes q s = length (takeWhile (\<lambda>c. c = q) s)"

text \<open>The escapes in the first \<open>n\<close> characters of a multi-line string.\<close>

definition plain_escape :: "char \<Rightarrow> bool" where
  "plain_escape c \<longleftrightarrow> c \<in> set ''btnfr'' \<or> c = DQ \<or> c = BS"

fun check_escapes :: "nat \<Rightarrow> string \<Rightarrow> bool \<Rightarrow> nat \<Rightarrow> bool" where
  "check_escapes 0 p escape hexreq \<longleftrightarrow> \<not> escape \<and> hexreq = 0"
| "check_escapes (Suc n) p escape hexreq \<longleftrightarrow> (let c = char_at p 0; rest = drop 1 p in
     if escape then
       (if plain_escape c then check_escapes n rest False hexreq
        else if c = CHR ''u'' then check_escapes n rest False 4
        else if c = CHR ''U'' then check_escapes n rest False 8
        else if ends_line p then check_escapes n rest False hexreq
        else False)
     else if hexreq \<noteq> 0 then (if is_hex c then check_escapes n rest False (hexreq - 1) else False)
     else check_escapes n rest (c = BS) 0)"

text \<open>A basic string on one line; \<open>n\<close> counts the characters up to its closing quote.\<close>

fun scan_basic :: "string \<Rightarrow> bool \<Rightarrow> nat \<Rightarrow> nat \<Rightarrow> nat option" where
  "scan_basic [] escape hexreq n = None"
| "scan_basic (c # p) escape hexreq n = (
     if escape then
       (if plain_escape c then scan_basic p False hexreq (n + 1)
        else if c = CHR ''u'' then scan_basic p False 4 (n + 1)
        else if c = CHR ''U'' then scan_basic p False 8 (n + 1)
        else None)
     else if hexreq \<noteq> 0 then (if is_hex c then scan_basic p False (hexreq - 1) (n + 1) else None)
     else if c = BS then scan_basic p True 0 (n + 1)
     else if c = SQ then (if take 2 p = [SQ, SQ] then None else scan_basic p False 0 (n + 1))
     else if c = NL then None
     else if c = DQ then Some n
     else scan_basic p False 0 (n + 1))"

definition bare_char :: "bool \<Rightarrow> char \<Rightarrow> bool" where
  "bare_char dotisspecial c \<longleftrightarrow> \<not> (c = CHR ''.'' \<and> dotisspecial) \<and> (is_upper c \<or> is_lower c \<or> is_digit c \<or> c \<in> set ''+-_.'')"

definition date_char :: "char \<Rightarrow> bool" where
  "date_char c \<longleftrightarrow> is_digit c \<or> c \<in> set ''.:+-Tt Zz''"

text \<open>The length of the string, date, time or bare word that \<open>p\<close> starts with.\<close>

definition scan_string :: "nat \<Rightarrow> bool \<Rightarrow> string \<Rightarrow> toml_error + nat" where
  "scan_string lineno dotisspecial p = (
     if triple SQ p then (case find_triple (drop 3 p) of None \<Rightarrow> Inl (Syntax lineno)
       | Some k \<Rightarrow> Inr (3 + k + more_quotes SQ (drop (k + 6) p) + 3))
     else if triple DQ p then (case find_basic_triple DQ (drop 3 p) of None \<Rightarrow> Inl (Syntax lineno)
       | Some k \<Rightarrow> let n = k + more_quotes DQ (drop (k + 6) p) in
           if check_escapes n (drop 3 p) False 0 then Inr (3 + n + 3) else Inl (Syntax lineno))
     else if char_at p 0 = SQ then (let n = length (takeWhile (\<lambda>c. c \<noteq> NL \<and> c \<noteq> SQ) (drop 1 p)) in
       if char_at p (n + 1) = SQ then Inr (n + 2) else Inl (Syntax lineno))
     else if char_at p 0 = DQ then (case scan_basic (drop 1 p) False 0 0 of None \<Rightarrow> Inl (Syntax lineno)
       | Some n \<Rightarrow> Inr (n + 2))
     else if scan_date p \<noteq> None \<or> scan_time p \<noteq> None then
       Inr (length (dropWhile (\<lambda>c. c = SP) (rev (takeWhile date_char p))))
     else Inr (length (takeWhile (bare_char dotisspecial) p)))"

subsection \<open>The next token\<close>

text \<open>How many characters white space and comments take; a comment ends before the end of its line.\<close>

fun skip_blanks :: "bool \<Rightarrow> string \<Rightarrow> nat" where
  "skip_blanks comment [] = 0"
| "skip_blanks comment (c # p) = (
     if comment then (if c = NL then 0 else Suc (skip_blanks True p))
     else if c = CHR ''#'' then Suc (skip_blanks True p)
     else if is_blank c then Suc (skip_blanks False p)
     else 0)"

definition punctuation :: "bool \<Rightarrow> char \<Rightarrow> tokentype option" where
  "punctuation dotisspecial c = (if dotisspecial \<and> c = CHR ''.'' then Some DOT
     else if c = CHR '','' then Some COMMA else if c = CHR ''='' then Some EQUAL
     else if c = CHR ''{'' then Some LBRACE else if c = CHR ''}'' then Some RBRACE
     else if c = CHR ''['' then Some LBRACKET else if c = CHR '']'' then Some RBRACKET
     else if c = NL then Some NEWLINE else None)"

definition next_token :: "string \<Rightarrow> bool \<Rightarrow> token \<Rightarrow> toml_error + token" where
  "next_token conf dotisspecial tok = (let start = drop (tk_ptr tok) conf;
       lineno = tk_line tok + length (filter (\<lambda>c. c = NL) (take (tk_len tok) start));
       rest = drop (tk_len tok) start; k = skip_blanks False rest;
       ptr = tk_ptr tok + tk_len tok + k; p = drop k rest in
     case p of [] \<Rightarrow> Inr (set_eof conf lineno)
     | c # _ \<Rightarrow> (case punctuation dotisspecial c of
         Some t \<Rightarrow> Inr (set_token t lineno ptr 1)
       | None \<Rightarrow> (case scan_string lineno dotisspecial p of Inl e \<Rightarrow> Inl e
         | Inr len \<Rightarrow> Inr (set_token STRING lineno ptr len))))"

definition eat_token :: "string \<Rightarrow> tokentype \<Rightarrow> bool \<Rightarrow> token \<Rightarrow> toml_error + token" where
  "eat_token conf typ isdotspecial tok = (if tk_tok tok \<noteq> typ then Inl Internal else next_token conf isdotspecial tok)"

text \<open>The characters of a token.\<close>

definition token_text :: "string \<Rightarrow> token \<Rightarrow> string" where
  "token_text conf tok = take (tk_len tok) (drop (tk_ptr tok) conf)"

end
