(* ===== verification/Toml_Parser.thy ===== *)
theory Toml_Parser
  imports Toml_Lexer
begin

text \<open>
  The TOML parser (\<open>src/subprojects/tomlc99/toml.c\<close>). A table holds its plain values, arrays and sub-tables in
  three lists, in the order of their creation; values are kept as the text they were written with. The
  parser's context is passed along: the current token, the root table and, for the pointer \<open>curtab\<close>, the
  path to the current table. A function that fills in a table or an array returns it. Recursion carries
  fuel.
\<close>

subsection \<open>Documents\<close>

datatype toml_tab = Tab (t_key: "string option") (t_implicit: bool) (t_readonly: bool)
    (t_kvals: "(string \<times> string) list") (t_arrs: "toml_arr list") (t_tabs: "toml_tab list")
  and toml_arr = Arr (a_key: "string option") (a_kind: char) (a_type: char) (a_items: "toml_elem list")
  and toml_elem = ElVal char string | ElArr toml_arr | ElTab toml_tab

definition new_tab :: "string option \<Rightarrow> toml_tab" where
  "new_tab key = Tab key False False [] [] []"

definition set_implicit :: "bool \<Rightarrow> toml_tab \<Rightarrow> toml_tab" where
  "set_implicit b t = Tab (t_key t) b (t_readonly t) (t_kvals t) (t_arrs t) (t_tabs t)"

definition set_readonly :: "toml_tab \<Rightarrow> toml_tab" where
  "set_readonly t = Tab (t_key t) (t_implicit t) True (t_kvals t) (t_arrs t) (t_tabs t)"

definition set_kvals :: "(string \<times> string) list \<Rightarrow> toml_tab \<Rightarrow> toml_tab" where
  "set_kvals kvs t = Tab (t_key t) (t_implicit t) (t_readonly t) kvs (t_arrs t) (t_tabs t)"

definition set_arrs :: "toml_arr list \<Rightarrow> toml_tab \<Rightarrow> toml_tab" where
  "set_arrs as t = Tab (t_key t) (t_implicit t) (t_readonly t) (t_kvals t) as (t_tabs t)"

definition set_tabs :: "toml_tab list \<Rightarrow> toml_tab \<Rightarrow> toml_tab" where
  "set_tabs ts t = Tab (t_key t) (t_implicit t) (t_readonly t) (t_kvals t) (t_arrs t) ts"

definition set_items :: "toml_elem list \<Rightarrow> toml_arr \<Rightarrow> toml_arr" where
  "set_items es a = Arr (a_key a) (a_kind a) (a_type a) es"

subsection \<open>Keys\<close>

definition normalize_key :: "string \<Rightarrow> token \<Rightarrow> string tm" where
  "normalize_key conf strtok = (let sp = drop (tk_ptr strtok) conf; len = tk_len strtok; ch = char_at sp 0 in
     if ch = SQ \<or> ch = DQ then
       (let multiline = (char_at sp 1 = ch \<and> char_at sp 2 = ch); q = (if multiline then 3 else 1);
            body = take (len - 2 * q) (drop q sp) in
        bindT (if ch = SQ then bindT (allocT OutOfMemory) (\<lambda>_. returnT body)
               else norm_basic_str (Syntax (tk_line strtok)) multiline body 0 []) (\<lambda>ret.
        if NL \<in> set (cstr ret) then failT (BadKey (tk_line strtok)) else returnT (cstr ret)))
     else if \<not> list_all (\<lambda>k. is_alnum k \<or> k = CHR ''_'' \<or> k = CHR ''-'') (take len sp) then failT (BadKey (tk_line strtok))
     else bindT (allocT OutOfMemory) (\<lambda>_. returnT (take len sp)))"

fun find_index :: "('a \<Rightarrow> bool) \<Rightarrow> 'a list \<Rightarrow> nat option" where
  "find_index P [] = None"
| "find_index P (x # xs) = (if P x then Some 0 else map_option Suc (find_index P xs))"

definition key_val :: "toml_tab \<Rightarrow> string \<Rightarrow> nat option" where
  "key_val t k = find_index (\<lambda>kv. fst kv = k) (t_kvals t)"

definition key_arr :: "toml_tab \<Rightarrow> string \<Rightarrow> nat option" where
  "key_arr t k = find_index (\<lambda>a. a_key a = Some k) (t_arrs t)"

definition key_tab :: "toml_tab \<Rightarrow> string \<Rightarrow> nat option" where
  "key_tab t k = find_index (\<lambda>s. t_key s = Some k) (t_tabs t)"

datatype found = NotFound | IsVal nat | IsArr nat | IsTab nat

definition check_key :: "toml_tab \<Rightarrow> string \<Rightarrow> found" where
  "check_key t k = (case key_val t k of Some i \<Rightarrow> IsVal i
     | None \<Rightarrow> (case key_arr t k of Some i \<Rightarrow> IsArr i
       | None \<Rightarrow> (case key_tab t k of Some i \<Rightarrow> IsTab i | None \<Rightarrow> NotFound)))"

text \<open>Two allocations: the longer array of pointers and the new object.\<close>

definition two_allocs :: "unit tm" where
  "two_allocs = bindT (allocT OutOfMemory) (\<lambda>_. allocT OutOfMemory)"

text \<open>\<open>create_keyval_in_table\<close>, with the copy of the value.\<close>

definition create_keyval_in_table :: "string \<Rightarrow> toml_tab \<Rightarrow> token \<Rightarrow> string \<Rightarrow> toml_tab tm" where
  "create_keyval_in_table conf tab keytok val = bindT (normalize_key conf keytok) (\<lambda>newkey.
     if check_key tab newkey \<noteq> NotFound then failT (KeyExists (tk_line keytok))
     else bindT two_allocs (\<lambda>_. bindT (allocT OutOfMemory) (\<lambda>_.
       returnT (set_kvals (t_kvals tab @ [(newkey, val)]) tab))))"

text \<open>The table with the new one in it, and where that is.\<close>

definition create_keytable_in_table :: "string \<Rightarrow> toml_tab \<Rightarrow> token \<Rightarrow> (toml_tab \<times> nat) tm" where
  "create_keytable_in_table conf tab keytok = bindT (normalize_key conf keytok) (\<lambda>newkey.
     case check_key tab newkey of
       NotFound \<Rightarrow> bindT two_allocs (\<lambda>_. returnT (set_tabs (t_tabs tab @ [new_tab (Some newkey)]) tab, length (t_tabs tab)))
     | IsTab i \<Rightarrow> if t_implicit (t_tabs tab ! i)
         then returnT (set_tabs ((t_tabs tab)[i := set_implicit False (t_tabs tab ! i)]) tab, i)
         else failT (KeyExists (tk_line keytok))
     | _ \<Rightarrow> failT (KeyExists (tk_line keytok)))"

definition create_keyarray_in_table :: "string \<Rightarrow> toml_tab \<Rightarrow> token \<Rightarrow> char \<Rightarrow> (toml_tab \<times> nat) tm" where
  "create_keyarray_in_table conf tab keytok kind = bindT (normalize_key conf keytok) (\<lambda>newkey.
     if check_key tab newkey \<noteq> NotFound then failT (KeyExists (tk_line keytok))
     else bindT two_allocs (\<lambda>_.
       returnT (set_arrs (t_arrs tab @ [Arr (Some newkey) kind NUL []]) tab, length (t_arrs tab))))"

subsection \<open>Values\<close>

function skip_newlines :: "string \<Rightarrow> bool \<Rightarrow> token \<Rightarrow> toml_error + token" where
  "skip_newlines conf isdotspecial tok = (if tk_tok tok \<noteq> NEWLINE then Inr tok
     else (case next_token conf isdotspecial tok of Inl e \<Rightarrow> Inl e
       | Inr tok' \<Rightarrow> if tk_eof tok' then Inr tok'
           else if tk_ptr tok < tk_ptr tok' \<and> tk_ptr tok' \<le> length conf then skip_newlines conf isdotspecial tok'
           else Inl NoFuel))"
  by pat_completeness auto
termination
  by (relation "measure (\<lambda>(conf, isdotspecial, tok). length conf - tk_ptr tok)") auto

declare skip_newlines.simps [simp del]

text \<open>The kind of an array once it has one more item of a kind.\<close>

definition add_kind :: "char \<Rightarrow> toml_arr \<Rightarrow> toml_arr" where
  "add_kind k a = Arr (a_key a) (if a_kind a = NUL then k else if a_kind a \<noteq> k then CHR ''m'' else a_kind a) (a_type a) (a_items a)"

text \<open>\<open>create_value_in_array\<close> and what is done with the new item.\<close>

definition add_value :: "(string \<Rightarrow> 'd option) \<Rightarrow> string \<Rightarrow> toml_arr \<Rightarrow> toml_arr tm" where
  "add_value strtod val a = bindT two_allocs (\<lambda>_. let vt = valtype strtod val; items = a_items a @ [ElVal vt val] in
     returnT (Arr (a_key a) (a_kind a)
       (if length items = 1 then vt else if a_type a \<noteq> vt then CHR ''m'' else a_type a) items))"

function (sequential) parse_keyval :: "nat \<Rightarrow> (string \<Rightarrow> 'd option) \<Rightarrow> string \<Rightarrow> token \<Rightarrow> toml_tab \<Rightarrow> (token \<times> toml_tab) tm"
  and parse_array :: "nat \<Rightarrow> (string \<Rightarrow> 'd option) \<Rightarrow> string \<Rightarrow> token \<Rightarrow> toml_arr \<Rightarrow> (token \<times> toml_arr) tm"
  and array_items :: "nat \<Rightarrow> (string \<Rightarrow> 'd option) \<Rightarrow> string \<Rightarrow> token \<Rightarrow> toml_arr \<Rightarrow> (token \<times> toml_arr) tm"
  and parse_inline_table :: "nat \<Rightarrow> (string \<Rightarrow> 'd option) \<Rightarrow> string \<Rightarrow> token \<Rightarrow> toml_tab \<Rightarrow> (token \<times> toml_tab) tm"
  and inline_entries :: "nat \<Rightarrow> (string \<Rightarrow> 'd option) \<Rightarrow> string \<Rightarrow> token \<Rightarrow> toml_tab \<Rightarrow> (token \<times> toml_tab) tm"
where
  "parse_keyval 0 strtod conf tok tab = failT NoFuel"
| "parse_keyval (Suc n) strtod conf tok tab = (
     if t_readonly tab then failT (Forbid (tk_line tok))
     else bindT (liftT (eat_token conf STRING True tok)) (\<lambda>tok1.
     if tk_tok tok1 = DOT then
       bindT (normalize_key conf tok) (\<lambda>subtabstr.
       bindT (case key_tab tab subtabstr of Some i \<Rightarrow> returnT (tab, i)
         | None \<Rightarrow> create_keytable_in_table conf tab tok) (\<lambda>(tab, i).
       bindT (liftT (next_token conf True tok1)) (\<lambda>tok2.
       bindT (parse_keyval n strtod conf tok2 (t_tabs tab ! i)) (\<lambda>(tok3, subtab).
       returnT (tok3, set_tabs ((t_tabs tab)[i := subtab]) tab)))))
     else if tk_tok tok1 \<noteq> EQUAL then failT (Syntax (tk_line tok1))
     else bindT (liftT (next_token conf False tok1)) (\<lambda>tok2.
       if tk_tok tok2 = STRING then bindT (create_keyval_in_table conf tab tok (token_text conf tok2)) (\<lambda>tab.
           bindT (liftT (next_token conf True tok2)) (\<lambda>tok3. returnT (tok3, tab)))
       else if tk_tok tok2 = LBRACKET then bindT (create_keyarray_in_table conf tab tok NUL) (\<lambda>(tab, i).
           bindT (parse_array n strtod conf tok2 (t_arrs tab ! i)) (\<lambda>(tok3, arr).
           returnT (tok3, set_arrs ((t_arrs tab)[i := arr]) tab)))
       else if tk_tok tok2 = LBRACE then bindT (create_keytable_in_table conf tab tok) (\<lambda>(tab, i).
           bindT (parse_inline_table n strtod conf tok2 (t_tabs tab ! i)) (\<lambda>(tok3, nxttab).
           returnT (tok3, set_tabs ((t_tabs tab)[i := nxttab]) tab)))
       else failT (Syntax (tk_line tok2)))))"
| "parse_array 0 strtod conf tok a = failT NoFuel"
| "parse_array (Suc n) strtod conf tok a =
     bindT (liftT (eat_token conf LBRACKET False tok)) (\<lambda>tok1.
     bindT (array_items n strtod conf tok1 a) (\<lambda>(tok2, a).
     bindT (liftT (eat_token conf RBRACKET True tok2)) (\<lambda>tok3. returnT (tok3, a))))"
| "array_items 0 strtod conf tok a = failT NoFuel"
| "array_items (Suc n) strtod conf tok a =
     bindT (liftT (skip_newlines conf False tok)) (\<lambda>tok1.
     if tk_tok tok1 = RBRACKET then returnT (tok1, a)
     else bindT (
       if tk_tok tok1 = STRING then bindT (add_value strtod (token_text conf tok1) (add_kind (CHR ''v'') a)) (\<lambda>a.
           bindT (liftT (eat_token conf STRING False tok1)) (\<lambda>tok2. returnT (tok2, a)))
       else if tk_tok tok1 = LBRACKET then bindT two_allocs (\<lambda>_.
           bindT (parse_array n strtod conf tok1 (Arr None NUL NUL [])) (\<lambda>(tok2, subarr).
           returnT (tok2, set_items (a_items a @ [ElArr subarr]) (add_kind (CHR ''a'') a))))
       else if tk_tok tok1 = LBRACE then bindT two_allocs (\<lambda>_.
           bindT (parse_inline_table n strtod conf tok1 (new_tab None)) (\<lambda>(tok2, subtab).
           returnT (tok2, set_items (a_items a @ [ElTab subtab]) (add_kind (CHR ''t'') a))))
       else failT (Syntax (tk_line tok1))) (\<lambda>(tok2, a).
     bindT (liftT (skip_newlines conf False tok2)) (\<lambda>tok3.
     if tk_tok tok3 = COMMA then
       bindT (liftT (eat_token conf COMMA False tok3)) (\<lambda>tok4. array_items n strtod conf tok4 a)
     else returnT (tok3, a))))"
| "parse_inline_table 0 strtod conf tok tab = failT NoFuel"
| "parse_inline_table (Suc n) strtod conf tok tab =
     bindT (liftT (eat_token conf LBRACE True tok)) (\<lambda>tok1.
     bindT (inline_entries n strtod conf tok1 tab) (\<lambda>(tok2, tab).
     bindT (liftT (eat_token conf RBRACE True tok2)) (\<lambda>tok3. returnT (tok3, set_readonly tab))))"
| "inline_entries 0 strtod conf tok tab = failT NoFuel"
| "inline_entries (Suc n) strtod conf tok tab = (
     if tk_tok tok = NEWLINE then failT (Syntax (tk_line tok))
     else if tk_tok tok = RBRACE then returnT (tok, tab)
     else if tk_tok tok \<noteq> STRING then failT (Syntax (tk_line tok))
     else bindT (parse_keyval n strtod conf tok tab) (\<lambda>(tok1, tab).
       if tk_tok tok1 = NEWLINE then failT (Syntax (tk_line tok1))
       else if tk_tok tok1 = COMMA then
         bindT (liftT (eat_token conf COMMA True tok1)) (\<lambda>tok2. inline_entries n strtod conf tok2 tab)
       else returnT (tok1, tab)))"
  by pat_completeness auto
termination
  by (relation "measure (\<lambda>x. case x of Inl (Inl (n, _)) \<Rightarrow> n | Inl (Inr (n, _)) \<Rightarrow> n | Inr (Inl (n, _)) \<Rightarrow> n
      | Inr (Inr (Inl (n, _))) \<Rightarrow> n | Inr (Inr (Inr (n, _))) \<Rightarrow> n)") auto

declare parse_keyval.simps [simp del] parse_array.simps [simp del] array_items.simps [simp del]
  parse_inline_table.simps [simp del] inline_entries.simps [simp del]

subsection \<open>Tables and arrays of tables\<close>

text \<open>A pointer to a table of the document: the way to it from the root.\<close>

datatype step = InTab nat | InArr nat nat

fun at_path :: "step list \<Rightarrow> toml_tab \<Rightarrow> toml_tab" where
  "at_path [] t = t"
| "at_path (InTab i # p) t = at_path p (t_tabs t ! i)"
| "at_path (InArr i j # p) t = (case a_items (t_arrs t ! i) ! j of ElTab s \<Rightarrow> at_path p s | _ \<Rightarrow> t)"

fun put_path :: "step list \<Rightarrow> toml_tab \<Rightarrow> toml_tab \<Rightarrow> toml_tab" where
  "put_path [] new t = new"
| "put_path (InTab i # p) new t = set_tabs ((t_tabs t)[i := put_path p new (t_tabs t ! i)]) t"
| "put_path (InArr i j # p) new t = (let a = t_arrs t ! i in case a_items a ! j of
     ElTab s \<Rightarrow> set_arrs ((t_arrs t)[i := set_items ((a_items a)[j := ElTab (put_path p new s)]) a]) t
   | _ \<Rightarrow> t)"

text \<open>The keys of a selector, at most \<open>k\<close> of them.\<close>

fun fill_tabpath :: "nat \<Rightarrow> string \<Rightarrow> nat \<Rightarrow> token \<Rightarrow> ((string \<times> token) list \<times> token) tm" where
  "fill_tabpath 0 conf lineno tok = failT (Syntax lineno)"
| "fill_tabpath (Suc k) conf lineno tok = (
     if tk_tok tok \<noteq> STRING then failT (Syntax lineno)
     else bindT (normalize_key conf tok) (\<lambda>key.
     bindT (liftT (next_token conf True tok)) (\<lambda>tok1.
     if tk_tok tok1 = RBRACKET then returnT ([(key, tok)], tok1)
     else if tk_tok tok1 \<noteq> DOT then failT (Syntax lineno)
     else bindT (liftT (next_token conf True tok1)) (\<lambda>tok2.
       bindT (fill_tabpath k conf lineno tok2) (\<lambda>(tpath, tok3). returnT ((key, tok) # tpath, tok3))))))"

text \<open>Down the path from a table, creating what is missing: the table afterwards and the way.\<close>

fun walk_tabpath :: "(string \<times> token) list \<Rightarrow> toml_tab \<Rightarrow> (toml_tab \<times> step list) tm" where
  "walk_tabpath [] curtab = returnT (curtab, [])"
| "walk_tabpath ((key, tok) # tpath) curtab = (case check_key curtab key of
     IsTab i \<Rightarrow> bindT (walk_tabpath tpath (t_tabs curtab ! i)) (\<lambda>(nexttab, p).
       returnT (set_tabs ((t_tabs curtab)[i := nexttab]) curtab, InTab i # p))
   | IsArr i \<Rightarrow> (let nextarr = t_arrs curtab ! i; items = a_items nextarr in
       if a_kind nextarr \<noteq> CHR ''t'' then failT Internal
       else if items = [] then failT Internal
       else (case last items of
         ElTab nexttab \<Rightarrow> bindT (walk_tabpath tpath nexttab) (\<lambda>(nexttab, p).
           returnT (set_arrs ((t_arrs curtab)[i := set_items (butlast items @ [ElTab nexttab]) nextarr]) curtab,
             InArr i (length items - 1) # p))
       | _ \<Rightarrow> failT Crash))
   | IsVal i \<Rightarrow> failT (KeyExists (tk_line tok))
   | NotFound \<Rightarrow> bindT two_allocs (\<lambda>_. bindT (allocT OutOfMemory) (\<lambda>_.
       bindT (walk_tabpath tpath (set_implicit True (new_tab (Some key)))) (\<lambda>(nexttab, p).
       returnT (set_tabs (t_tabs curtab @ [nexttab]) curtab, InTab (length (t_tabs curtab)) # p)))))"

text \<open>\<open>[z]\<close> and \<open>[[z]]\<close> in the table that the rest of the selector leads to.\<close>

definition select_table :: "string \<Rightarrow> token \<Rightarrow> toml_tab \<Rightarrow> (toml_tab \<times> step) tm" where
  "select_table conf z curtab = bindT (create_keytable_in_table conf curtab z) (\<lambda>(curtab, i). returnT (curtab, InTab i))"

definition select_array :: "string \<Rightarrow> token \<Rightarrow> toml_tab \<Rightarrow> (toml_tab \<times> step) tm" where
  "select_array conf z curtab = bindT (normalize_key conf z) (\<lambda>zstr.
     bindT (case key_arr curtab zstr of Some i \<Rightarrow> returnT (curtab, i)
       | None \<Rightarrow> create_keyarray_in_table conf curtab z (CHR ''t'')) (\<lambda>(curtab, i). let arr = t_arrs curtab ! i in
     if a_kind arr \<noteq> CHR ''t'' then failT (Syntax (tk_line z))
     else bindT two_allocs (\<lambda>_. bindT (allocT OutOfMemory) (\<lambda>_.
       returnT (set_arrs ((t_arrs curtab)[i := set_items (a_items arr @ [ElTab (new_tab (Some ''__anon__''))]) arr]) curtab,
         InArr i (length (a_items arr)))))))"

definition doubled :: "string \<Rightarrow> token \<Rightarrow> char \<Rightarrow> bool" where
  "doubled conf tok c \<longleftrightarrow> tk_ptr tok + 1 < length conf \<and> conf ! (tk_ptr tok + 1) = c"

text \<open>The end of the line of a selector.\<close>

definition close_select :: "string \<Rightarrow> bool \<Rightarrow> token \<Rightarrow> toml_error + token" where
  "close_select conf llb tok = (
     if tk_tok tok \<noteq> RBRACKET then Inl (Syntax (tk_line tok))
     else if llb \<and> \<not> doubled conf tok (CHR '']'') then Inl (Syntax (tk_line tok))
     else (case (if llb then eat_token conf RBRACKET True tok else Inr tok) of Inl e \<Rightarrow> Inl e
       | Inr tok1 \<Rightarrow> (case eat_token conf RBRACKET True tok1 of Inl e \<Rightarrow> Inl e
         | Inr tok2 \<Rightarrow> if tk_tok tok2 \<noteq> NEWLINE then Inl (Syntax (tk_line tok2)) else Inr tok2)))"

definition parse_select :: "string \<Rightarrow> token \<Rightarrow> toml_tab \<Rightarrow> (token \<times> toml_tab \<times> step list) tm" where
  "parse_select conf tok root = (let llb = doubled conf tok (CHR ''['') in
     if tk_tok tok \<noteq> LBRACKET then failT Crash
     else bindT (liftT (eat_token conf LBRACKET True tok)) (\<lambda>tok1.
     if llb \<and> tk_tok tok1 \<noteq> LBRACKET then failT Crash
     else bindT (liftT (if llb then eat_token conf LBRACKET True tok1 else Inr tok1)) (\<lambda>tok2.
     bindT (fill_tabpath 10 conf (tk_line tok2) tok2) (\<lambda>(tpath, tok3).
     bindT (walk_tabpath (butlast tpath) root) (\<lambda>(root, p).
     bindT ((if llb then select_array else select_table) conf (snd (last tpath)) (at_path p root)) (\<lambda>(curtab, s).
     bindT (liftT (close_select conf llb tok3)) (\<lambda>tok4.
     returnT (tok4, put_path p curtab root, p @ [s]))))))))"

subsection \<open>The whole text\<close>

text \<open>\<open>n\<close> is the fuel of the values, \<open>k\<close> that of the loop.\<close>

fun parse_lines :: "nat \<Rightarrow> nat \<Rightarrow> (string \<Rightarrow> 'd option) \<Rightarrow> string \<Rightarrow> token \<Rightarrow> toml_tab \<Rightarrow> step list \<Rightarrow> toml_tab tm" where
  "parse_lines 0 n strtod conf tok root curtab = failT NoFuel"
| "parse_lines (Suc k) n strtod conf tok root curtab = (
     if tk_eof tok then returnT root
     else if tk_tok tok = NEWLINE then
       bindT (liftT (next_token conf True tok)) (\<lambda>tok1. parse_lines k n strtod conf tok1 root curtab)
     else if tk_tok tok = STRING then
       bindT (parse_keyval n strtod conf tok (at_path curtab root)) (\<lambda>(tok1, tab).
       if tk_tok tok1 \<noteq> NEWLINE then failT (Syntax (tk_line tok1))
       else bindT (liftT (eat_token conf NEWLINE True tok1)) (\<lambda>tok2.
         parse_lines k n strtod conf tok2 (put_path curtab tab root) curtab))
     else if tk_tok tok = LBRACKET then
       bindT (parse_select conf tok root) (\<lambda>(tok1, root, curtab). parse_lines k n strtod conf tok1 root curtab)
     else failT (Syntax (tk_line tok)))"

definition toml_parse :: "(string \<Rightarrow> 'd option) \<Rightarrow> string \<Rightarrow> toml_tab tm" where
  "toml_parse strtod text = (let conf = cstr text in
     bindT (allocT OutOfMemory) (\<lambda>_.
     parse_lines (length conf + 2) (2 * length conf + 1) strtod conf (set_token NEWLINE 1 0 0) (new_tab None) []))"

text \<open>The contents of a stream, read in chunks of 1000 bytes into a growing buffer; \<open>failed\<close>: an error is
  reported instead of the end of the file.\<close>

function read_stream :: "bool \<Rightarrow> string \<Rightarrow> string \<Rightarrow> string tm" where
  "read_stream failed rest buf = bindT (allocT OutOfMemory) (\<lambda>_.
     if length rest < 1000 then (if failed then failT BadValue else returnT (buf @ rest))
     else read_stream failed (drop 1000 rest) (buf @ take 1000 rest))"
  by pat_completeness auto
termination
  by (relation "measure (\<lambda>(failed, rest, buf). length rest)") auto

declare read_stream.simps [simp del]

definition toml_parse_file :: "(string \<Rightarrow> 'd option) \<Rightarrow> bool \<Rightarrow> string \<Rightarrow> toml_tab tm" where
  "toml_parse_file strtod failed contents = bindT (read_stream failed contents []) (toml_parse strtod)"

subsection \<open>Release\<close>

text \<open>How many blocks \<open>toml_free\<close> hands back: a key, a pointer array that is not empty, a value and the object itself
  are a block each.\<close>

definition present :: "bool \<Rightarrow> nat" where
  "present b = (if b then 1 else 0)"

definition xfree_kval :: "string \<times> string \<Rightarrow> nat" where
  "xfree_kval kv = 3"

fun xfree_tab :: "toml_tab \<Rightarrow> nat" and xfree_arr :: "toml_arr \<Rightarrow> nat" and xfree_item :: "toml_elem \<Rightarrow> nat" where
  "xfree_tab (Tab key implicit ro kvs arrs tabs) = present (key \<noteq> None) +
     sum_list (map xfree_kval kvs) + present (kvs \<noteq> []) + sum_list (map xfree_arr arrs) + present (arrs \<noteq> []) +
     sum_list (map xfree_tab tabs) + present (tabs \<noteq> []) + 1"
| "xfree_arr (Arr key kind type its) = present (key \<noteq> None) + sum_list (map xfree_item its) + present (its \<noteq> []) + 1"
| "xfree_item (ElVal vt val) = 1"
| "xfree_item (ElArr a) = xfree_arr a"
| "xfree_item (ElTab t) = xfree_tab t"

definition toml_free :: "toml_tab \<Rightarrow> nat" where
  "toml_free tab = xfree_tab tab"

subsection \<open>Access to a document\<close>

definition toml_key_in :: "toml_tab \<Rightarrow> nat \<Rightarrow> string option" where
  "toml_key_in tab keyidx = (if keyidx < length (t_kvals tab) then Some (fst (t_kvals tab ! keyidx))
     else let keyidx = keyidx - length (t_kvals tab) in
       if keyidx < length (t_arrs tab) then a_key (t_arrs tab ! keyidx)
       else let keyidx = keyidx - length (t_arrs tab) in
         if keyidx < length (t_tabs tab) then t_key (t_tabs tab ! keyidx) else None)"

definition toml_key_exists :: "toml_tab \<Rightarrow> string \<Rightarrow> bool" where
  "toml_key_exists tab key \<longleftrightarrow> key_val tab key \<noteq> None \<or> key_arr tab key \<noteq> None \<or> key_tab tab key \<noteq> None"

definition toml_raw_in :: "toml_tab \<Rightarrow> string \<Rightarrow> string option" where
  "toml_raw_in tab key = map_option (\<lambda>i. snd (t_kvals tab ! i)) (key_val tab key)"

definition toml_array_in :: "toml_tab \<Rightarrow> string \<Rightarrow> toml_arr option" where
  "toml_array_in tab key = map_option (\<lambda>i. t_arrs tab ! i) (key_arr tab key)"

definition toml_table_in :: "toml_tab \<Rightarrow> string \<Rightarrow> toml_tab option" where
  "toml_table_in tab key = map_option (\<lambda>i. t_tabs tab ! i) (key_tab tab key)"

definition item_at :: "toml_arr \<Rightarrow> int \<Rightarrow> toml_elem option" where
  "item_at a idx = (if 0 \<le> idx \<and> idx < int (length (a_items a)) then Some (a_items a ! nat idx) else None)"

definition toml_raw_at :: "toml_arr \<Rightarrow> int \<Rightarrow> string option" where
  "toml_raw_at a idx = (case item_at a idx of Some (ElVal vt val) \<Rightarrow> Some val | _ \<Rightarrow> None)"

definition toml_array_at :: "toml_arr \<Rightarrow> int \<Rightarrow> toml_arr option" where
  "toml_array_at a idx = (case item_at a idx of Some (ElArr b) \<Rightarrow> Some b | _ \<Rightarrow> None)"

definition toml_table_at :: "toml_arr \<Rightarrow> int \<Rightarrow> toml_tab option" where
  "toml_table_at a idx = (case item_at a idx of Some (ElTab t) \<Rightarrow> Some t | _ \<Rightarrow> None)"

definition toml_array_type :: "toml_arr \<Rightarrow> char" where
  "toml_array_type a = (if a_kind a \<noteq> CHR ''v'' then NUL else if a_items a = [] then NUL else a_type a)"

definition toml_array_nelem :: "toml_arr \<Rightarrow> int" where
  "toml_array_nelem a = int (length (a_items a))"

definition toml_array_kind :: "toml_arr \<Rightarrow> char" where
  "toml_array_kind a = a_kind a"

definition toml_array_key :: "toml_arr \<Rightarrow> string option" where
  "toml_array_key a = a_key a"

definition toml_table_nkval :: "toml_tab \<Rightarrow> int" where
  "toml_table_nkval tab = int (length (t_kvals tab))"

definition toml_table_narr :: "toml_tab \<Rightarrow> int" where
  "toml_table_narr tab = int (length (t_arrs tab))"

definition toml_table_ntab :: "toml_tab \<Rightarrow> int" where
  "toml_table_ntab tab = int (length (t_tabs tab))"

definition toml_table_key :: "toml_tab \<Rightarrow> string option" where
  "toml_table_key tab = t_key tab"

definition toml_string_at :: "toml_arr \<Rightarrow> int \<Rightarrow> string tm" where
  "toml_string_at a idx = toml_rtos (toml_raw_at a idx)"

definition toml_bool_at :: "toml_arr \<Rightarrow> int \<Rightarrow> bool option" where
  "toml_bool_at a idx = toml_rtob (toml_raw_at a idx)"

definition toml_int_at :: "toml_arr \<Rightarrow> int \<Rightarrow> int option" where
  "toml_int_at a idx = toml_rtoi (toml_raw_at a idx)"

definition toml_double_at :: "(string \<Rightarrow> 'd option) \<Rightarrow> toml_arr \<Rightarrow> int \<Rightarrow> 'd option" where
  "toml_double_at strtod a idx = toml_rtod strtod (toml_raw_at a idx)"

text \<open>A timestamp is handed out in memory of its own.\<close>

definition own_timestamp :: "string option \<Rightarrow> toml_timestamp tm" where
  "own_timestamp raw = (case toml_rtots raw of None \<Rightarrow> failT BadValue
     | Some ts \<Rightarrow> bindT (allocT BadValue) (\<lambda>_. returnT ts))"

definition toml_timestamp_at :: "toml_arr \<Rightarrow> int \<Rightarrow> toml_timestamp tm" where
  "toml_timestamp_at a idx = own_timestamp (toml_raw_at a idx)"

definition toml_string_in :: "toml_tab \<Rightarrow> string \<Rightarrow> string tm" where
  "toml_string_in tab key = toml_rtos (toml_raw_in tab key)"

definition toml_bool_in :: "toml_tab \<Rightarrow> string \<Rightarrow> bool option" where
  "toml_bool_in tab key = toml_rtob (toml_raw_in tab key)"

definition toml_int_in :: "toml_tab \<Rightarrow> string \<Rightarrow> int option" where
  "toml_int_in tab key = toml_rtoi (toml_raw_in tab key)"

definition toml_double_in :: "(string \<Rightarrow> 'd option) \<Rightarrow> toml_tab \<Rightarrow> string \<Rightarrow> 'd option" where
  "toml_double_in strtod tab key = toml_rtod strtod (toml_raw_in tab key)"

definition toml_timestamp_in :: "toml_tab \<Rightarrow> string \<Rightarrow> toml_timestamp tm" where
  "toml_timestamp_in tab key = own_timestamp (toml_raw_in tab key)"

end
