(* ===== verification/Toml_Spec.thy ===== *)
theory Toml_Spec
  imports Toml_Parser
begin

text \<open>
  The TOML parser on any text and with any outcome of its allocations: it never follows a NULL pointer,
  violates none of its assertions and always comes to an end within the fuel that \<open>toml_parse\<close> gives; and
  the document it returns is well-formed.
\<close>

subsection \<open>Outcomes\<close>

text \<open>Whatever memory does, the step reports an ordinary error or returns something that satisfies \<open>Q\<close>.\<close>

definition ok :: "'a tm \<Rightarrow> ('a \<Rightarrow> bool) \<Rightarrow> bool" where
  "ok f Q \<longleftrightarrow> (\<forall>m. case fst (f m) of Inl e \<Rightarrow> e \<noteq> Crash \<and> e \<noteq> NoFuel | Inr a \<Rightarrow> Q a)"

definition plain :: "toml_error \<Rightarrow> bool" where
  "plain e \<longleftrightarrow> e \<noteq> Crash \<and> e \<noteq> NoFuel"

lemma plain_simps [simp]:
  "plain OutOfMemory" "plain Internal" "plain (Syntax l)" "plain (BadKey l)" "plain (KeyExists l)" "plain (Forbid l)"
  "plain BadValue"
  by (simp_all add: plain_def)

lemma ok_return [simp, intro]: "ok (returnT a) Q \<longleftrightarrow> Q a"
  by (simp add: ok_def returnT_def)

lemma ok_fail [simp, intro]: "ok (failT e) Q \<longleftrightarrow> plain e"
  by (simp add: ok_def failT_def plain_def)

lemma ok_alloc [simp, intro]: "plain e \<Longrightarrow> ok (allocT e) (\<lambda>_. True)"
  by (auto simp: ok_def allocT_def plain_def split: list.splits)

lemma ok_two_allocs [simp, intro]: "ok two_allocs (\<lambda>_. True)"
  by (auto simp: ok_def two_allocs_def bindT_def allocT_def split: list.splits)

lemma ok_lift: "ok (liftT r) Q \<longleftrightarrow> (case r of Inl e \<Rightarrow> plain e | Inr a \<Rightarrow> Q a)"
  by (simp add: ok_def liftT_def plain_def split: sum.splits)

lemma ok_bind:
  assumes "ok f P" and "\<And>a. P a \<Longrightarrow> ok (g a) Q"
  shows "ok (bindT f g) Q"
  unfolding ok_def
proof
  fix m
  obtain r m' where f: "f m = (r, m')"
    by (cases "f m")
  show "case fst (bindT f g m) of Inl e \<Rightarrow> e \<noteq> Crash \<and> e \<noteq> NoFuel | Inr a \<Rightarrow> Q a"
  proof (cases r)
    case (Inl e)
    then show ?thesis
      using assms(1) f by (auto simp: ok_def bindT_def dest: spec [of _ m])
  next
    case (Inr a)
    then have "P a"
      using assms(1) f by (auto simp: ok_def dest: spec [of _ m])
    with assms(2) [of a] Inr f show ?thesis
      by (auto simp: ok_def bindT_def dest: spec [of _ m'])
  qed
qed

lemma ok_weaken: "ok f P \<Longrightarrow> (\<And>a. P a \<Longrightarrow> Q a) \<Longrightarrow> ok f Q"
  by (fastforce simp: ok_def split: sum.splits)

text \<open>Branches.\<close>

lemma ok_if: "(b \<Longrightarrow> ok f Q) \<Longrightarrow> (\<not> b \<Longrightarrow> ok g Q) \<Longrightarrow> ok (if b then f else g) Q"
  by simp

lemma ok_option: "(x = None \<Longrightarrow> ok f Q) \<Longrightarrow> (\<And>a. x = Some a \<Longrightarrow> ok (g a) Q) \<Longrightarrow> ok (case x of None \<Rightarrow> f | Some a \<Rightarrow> g a) Q"
  by (cases x) auto

lemma ok_list: "(x = [] \<Longrightarrow> ok f Q) \<Longrightarrow> (\<And>a b. x = a # b \<Longrightarrow> ok (g a b) Q) \<Longrightarrow> ok (case x of [] \<Rightarrow> f | a # b \<Rightarrow> g a b) Q"
  by (cases x) auto

lemma ok_let: "(\<And>a. a = x \<Longrightarrow> ok (f a) Q) \<Longrightarrow> ok (let a = x in f a) Q"
  by simp

lemma ok_prod: "(\<And>a b. x = (a, b) \<Longrightarrow> ok (g a b) Q) \<Longrightarrow> ok (case x of (a, b) \<Rightarrow> g a b) Q"
  by (cases x) auto

lemmas ok_branches = ok_if ok_option ok_list ok_let ok_prod

text \<open>Steps whose result does not matter.\<close>

lemma ok_then: "ok f (\<lambda>_. True) \<Longrightarrow> (\<And>a. ok (g a) Q) \<Longrightarrow> ok (bindT f g) Q"
  by (rule ok_bind)

subsection \<open>Tokens\<close>

text \<open>What holds of every token the scanner produces: it lies in the text, only the end of the text is
  empty or else a string, and the end of the text is reported as a line end.\<close>

definition tok_ok :: "string \<Rightarrow> token \<Rightarrow> bool" where
  "tok_ok conf tok \<longleftrightarrow> tk_ptr tok + tk_len tok \<le> length conf \<and> (tk_eof tok \<longrightarrow> tk_tok tok = NEWLINE \<and> tk_ptr tok = length conf) \<and>
     (\<not> tk_eof tok \<longrightarrow> tk_ptr tok < length conf \<and> (tk_tok tok \<noteq> STRING \<longrightarrow> tk_len tok = 1))"

text \<open>A result of the scanner at or after a position.\<close>

definition tok_from :: "string \<Rightarrow> nat \<Rightarrow> token \<Rightarrow> bool" where
  "tok_from conf p tok \<longleftrightarrow> tok_ok conf tok \<and> p \<le> tk_ptr tok"

lemma find_triple_room: "find_triple s = Some k \<Longrightarrow> k + 3 \<le> length s"
proof (induction s arbitrary: k)
  case (Cons c s)
  have "length (take 3 (c # s)) = 3" if "triple SQ (c # s)"
    using that by (simp add: triple_def)
  then show ?case
    using Cons by (fastforce split: if_splits)
qed simp

lemma find_basic_triple_room: "find_basic_triple prev s = Some k \<Longrightarrow> k + 3 \<le> length s"
proof (induction s arbitrary: k prev)
  case (Cons c s)
  have "length (take 3 (c # s)) = 3" if "triple DQ (c # s)"
    using that by (simp add: triple_def)
  then show ?case
    using Cons by (fastforce split: if_splits)
qed simp

lemma more_quotes_le: "more_quotes q s \<le> length s"
  by (simp add: more_quotes_def length_takeWhile_le)

lemma scan_basic_room: "scan_basic s escape hexreq n = Some k \<Longrightarrow> k < n + length s"
  by (induction s escape hexreq n arbitrary: k rule: scan_basic.induct) (fastforce split: if_splits)+

lemma char_at_in: "char_at s i \<noteq> NUL \<Longrightarrow> i < length s"
  by (auto simp: char_at_def split: if_splits)

lemma scan_string_le: "scan_string lineno d p = Inr n \<Longrightarrow> n \<le> length p"
proof -
  have quotes: "3 + k + more_quotes q (drop (k + 6) p) + 3 \<le> length p" if "k + 3 \<le> length (drop 3 p)" for q k
    using that more_quotes_le [of q "drop (k + 6) p"] by simp
  have bare: "length (dropWhile P (rev (takeWhile Q p))) \<le> length p" for P Q
    using length_dropWhile_le [of P "rev (takeWhile Q p)"] length_takeWhile_le [of Q p] by simp
  have closed: "char_at p (Suc k) = SQ \<Longrightarrow> Suc (Suc k) \<le> length p" for k
    using char_at_in [of p "Suc k"] by (simp add: NUL_def)
  show "n \<le> length p" if "scan_string lineno d p = Inr n"
    using that quotes [of _ SQ] quotes [of _ DQ] bare closed
    by (auto simp: scan_string_def Let_def length_takeWhile_le split: if_splits option.splits
        dest!: find_triple_room find_basic_triple_room scan_basic_room)
qed

lemma scan_string_fails: "scan_string lineno d p = Inl e \<Longrightarrow> e = Syntax lineno"
  by (auto simp: scan_string_def Let_def split: if_splits option.splits)

lemma skip_blanks_le: "skip_blanks b s \<le> length s"
  by (induction s arbitrary: b) auto

lemma next_token_ok:
  assumes "tk_ptr tok + tk_len tok \<le> length conf"
  shows "case next_token conf d tok of Inl e \<Rightarrow> plain e | Inr t \<Rightarrow> tok_from conf (tk_ptr tok + tk_len tok) t"
proof -
  define start where "start = drop (tk_ptr tok) conf"
  define rest where "rest = drop (tk_len tok) start"
  define k where "k = skip_blanks False rest"
  have "k \<le> length rest"
    by (simp add: k_def skip_blanks_le)
  moreover have "length rest = length conf - (tk_ptr tok + tk_len tok)"
    by (simp add: rest_def start_def)
  ultimately show ?thesis
    unfolding next_token_def Let_def start_def [symmetric] rest_def [symmetric] k_def [symmetric]
    using assms scan_string_le [of _ d "drop k rest"] scan_string_fails [of _ d "drop k rest"]
    by (cases "drop k rest")
      (fastforce simp: tok_from_def tok_ok_def set_token_def set_eof_def dest: arg_cong [where f = length]
        split: option.splits sum.splits)+
qed

lemma ok_next:
  assumes "tk_ptr tok + tk_len tok \<le> length conf"
  shows "ok (liftT (next_token conf d tok)) (tok_from conf (tk_ptr tok + tk_len tok))"
  using next_token_ok [OF assms, of d] by (simp add: ok_lift)

lemma ok_eat:
  assumes "tk_ptr tok + tk_len tok \<le> length conf"
  shows "ok (liftT (eat_token conf typ d tok)) (\<lambda>t. tk_tok tok = typ \<and> tok_from conf (tk_ptr tok + tk_len tok) t)"
  using next_token_ok [OF assms, of d] by (auto simp: ok_lift eat_token_def split: sum.splits)

lemma tok_from_ok: "tok_from conf p t \<Longrightarrow> tok_ok conf t"
  by (simp add: tok_from_def)

lemma tok_from_mono: "tok_from conf q t \<Longrightarrow> p \<le> q \<Longrightarrow> tok_from conf p t"
  by (simp add: tok_from_def)

lemma tok_from_Suc: "tok_from conf (Suc p) t \<Longrightarrow> tok_from conf p t"
  by (simp add: tok_from_def)

lemma tok_ok_bound: "tok_ok conf t \<Longrightarrow> tk_ptr t + tk_len t \<le> length conf"
  by (simp add: tok_ok_def)

lemma punctuation_len: "tok_ok conf t \<Longrightarrow> tk_tok t \<noteq> STRING \<Longrightarrow> tk_tok t \<noteq> NEWLINE \<Longrightarrow> tk_len t = 1 \<and> tk_ptr t < length conf"
  by (auto simp: tok_ok_def)

lemma skip_newlines_ok:
  "tok_ok conf tok \<Longrightarrow> case skip_newlines conf d tok of Inl e \<Rightarrow> plain e | Inr t \<Rightarrow> tok_from conf (tk_ptr tok) t"
proof (induction conf d tok rule: skip_newlines.induct)
  case (1 conf d tok)
  show ?case
  proof (cases "next_token conf d tok")
    case (Inl e)
    then show ?thesis
      using next_token_ok [OF tok_ok_bound [OF "1.prems"], of d] "1.prems"
      by (simp add: skip_newlines.simps [of conf d tok] tok_from_def)
  next
    case (Inr t)
    then have "tok_from conf (tk_ptr tok + tk_len tok) t"
      using next_token_ok [OF tok_ok_bound [OF "1.prems"], of d] by simp
    moreover from this have "tk_ptr tok < tk_ptr t \<and> tk_ptr t \<le> length conf" if "tk_tok tok = NEWLINE" "\<not> tk_eof t"
      using that "1.prems" by (cases "tk_eof tok") (auto simp: tok_from_def tok_ok_def)
    ultimately show ?thesis
      using "1.prems" "1.IH" [OF _ Inr] Inr
      by (auto simp: skip_newlines.simps [of conf d tok] tok_from_def split: sum.splits)
  qed
qed

lemma ok_skip_newlines: "tok_ok conf tok \<Longrightarrow> ok (liftT (skip_newlines conf d tok)) (tok_from conf (tk_ptr tok))"
  using skip_newlines_ok by (simp add: ok_lift)

subsection \<open>Keys\<close>

lemma ok_room: "plain e \<Longrightarrow> ok (room e off bufmax) (\<lambda>_. True)"
  by (auto simp: room_def intro!: ok_then)

lemma ok_norm_basic: "plain e \<Longrightarrow> ok (norm_basic_str e multiline src bufmax dst) (\<lambda>_. True)"
proof (induction src arbitrary: multiline bufmax dst rule: measure_induct_rule [of length])
  case (less src)
  show ?case
  proof (cases src)
    case Nil
    then show ?thesis
      using less.prems by (subst norm_basic_str.simps) (simp add: ok_then [OF ok_room])
  next
    case (Cons c sp)
    have rest: "ok (norm_basic_str e ml s b d) (\<lambda>_. True)" if "length s \<le> length sp" for ml s b d
      using less that Cons by simp
    have "length (dropWhile P sp) \<le> length sp" for P
      by (rule length_dropWhile_le)
    then show ?thesis
      unfolding Cons Let_def by (subst norm_basic_str.simps)
        (intro ok_then [OF ok_room [OF less.prems]] ok_branches; simp add: less.prems rest)
  qed
qed

lemma ok_normalize_key: "ok (normalize_key conf tok) (\<lambda>_. True)"
  by (auto simp: normalize_key_def Let_def intro!: ok_then ok_norm_basic)

lemma find_index_Some: "find_index P xs = Some i \<Longrightarrow> i < length xs \<and> P (xs ! i)"
  by (induction xs arbitrary: i) (auto split: if_splits)

lemma find_index_None: "find_index P xs = None \<longleftrightarrow> (\<forall>x\<in>set xs. \<not> P x)"
  by (induction xs) auto

subsection \<open>Well-formed documents\<close>

text \<open>The keys of a table, over its values, arrays and sub-tables.\<close>

definition tab_keys :: "toml_tab \<Rightarrow> string option list" where
  "tab_keys t = map (\<lambda>kv. Some (fst kv)) (t_kvals t) @ map a_key (t_arrs t) @ map t_key (t_tabs t)"

fun is_kind :: "char \<Rightarrow> toml_elem \<Rightarrow> bool" where
  "is_kind k (ElVal vt val) \<longleftrightarrow> k = CHR ''v'' \<or> k = CHR ''m''"
| "is_kind k (ElArr a) \<longleftrightarrow> k = CHR ''a'' \<or> k = CHR ''m''"
| "is_kind k (ElTab t) \<longleftrightarrow> k = CHR ''t'' \<or> k = CHR ''m''"

text \<open>Every key is there and used once, and the kind of an array is that of its items.\<close>

fun wf_tab :: "toml_tab \<Rightarrow> bool" and wf_arr :: "toml_arr \<Rightarrow> bool" and wf_elem :: "toml_elem \<Rightarrow> bool" where
  "wf_tab (Tab key implicit ro kvs arrs tabs) \<longleftrightarrow>
     distinct (tab_keys (Tab key implicit ro kvs arrs tabs)) \<and> None \<notin> set (tab_keys (Tab key implicit ro kvs arrs tabs)) \<and>
     list_all wf_arr arrs \<and> list_all wf_tab tabs"
| "wf_arr (Arr key kind type items) \<longleftrightarrow>
     (kind = NUL \<longleftrightarrow> items = []) \<and> list_all (is_kind kind) items \<and> list_all wf_elem items"
| "wf_elem (ElVal vt val) \<longleftrightarrow> True"
| "wf_elem (ElArr a) \<longleftrightarrow> wf_arr a"
| "wf_elem (ElTab t) \<longleftrightarrow> wf_tab t"

lemma wf_tab_iff: "wf_tab t \<longleftrightarrow> distinct (tab_keys t) \<and> None \<notin> set (tab_keys t) \<and>
    list_all wf_arr (t_arrs t) \<and> list_all wf_tab (t_tabs t)"
  by (cases t) simp

lemma wf_arr_iff: "wf_arr a \<longleftrightarrow> (a_kind a = NUL \<longleftrightarrow> a_items a = []) \<and> list_all (is_kind (a_kind a)) (a_items a) \<and>
    list_all wf_elem (a_items a)"
  by (cases a) simp

lemma toml_sel [simp]:
  "t_key (set_tabs ts t) = t_key t" "t_arrs (set_tabs ts t) = t_arrs t" "t_tabs (set_tabs ts t) = ts"
  "t_kvals (set_tabs ts t) = t_kvals t" "t_readonly (set_tabs ts t) = t_readonly t"
  "t_key (set_arrs as t) = t_key t" "t_arrs (set_arrs as t) = as" "t_tabs (set_arrs as t) = t_tabs t"
  "t_kvals (set_arrs as t) = t_kvals t" "t_readonly (set_arrs as t) = t_readonly t"
  "t_key (set_kvals kvs t) = t_key t" "t_arrs (set_kvals kvs t) = t_arrs t" "t_tabs (set_kvals kvs t) = t_tabs t"
  "t_kvals (set_kvals kvs t) = kvs" "t_readonly (set_kvals kvs t) = t_readonly t"
  "t_key (set_implicit b t) = t_key t" "t_arrs (set_implicit b t) = t_arrs t" "t_tabs (set_implicit b t) = t_tabs t"
  "t_kvals (set_implicit b t) = t_kvals t"
  "t_key (set_readonly t) = t_key t" "t_arrs (set_readonly t) = t_arrs t" "t_tabs (set_readonly t) = t_tabs t"
  "t_kvals (set_readonly t) = t_kvals t"
  "t_key (new_tab k) = k" "t_arrs (new_tab k) = []" "t_tabs (new_tab k) = []" "t_kvals (new_tab k) = []"
  "a_key (set_items es a) = a_key a" "a_kind (set_items es a) = a_kind a" "a_items (set_items es a) = es"
  "a_key (add_kind c a) = a_key a" "a_items (add_kind c a) = a_items a"
  by (simp_all add: set_tabs_def set_arrs_def set_kvals_def set_implicit_def set_readonly_def new_tab_def set_items_def add_kind_def)

lemma set_arrs_twice [simp]: "set_arrs as (set_arrs bs t) = set_arrs as t"
  by (simp add: set_arrs_def)

lemma map_update_same: "f y = f (xs ! i) \<Longrightarrow> map f (xs[i := y]) = map f xs"
  by (simp add: map_update) (metis list_update_id map_update)

lemma tab_keys_simps [simp]:
  "tab_keys (set_implicit b t) = tab_keys t" "tab_keys (set_readonly t) = tab_keys t" "tab_keys (new_tab k) = []"
  "t_key s = t_key (t_tabs t ! i) \<Longrightarrow> tab_keys (set_tabs ((t_tabs t)[i := s]) t) = tab_keys t"
  "a_key a = a_key (t_arrs t ! i) \<Longrightarrow> tab_keys (set_arrs ((t_arrs t)[i := a]) t) = tab_keys t"
  by (simp_all add: tab_keys_def map_update_same)

lemma wf_new [simp]: "wf_tab (new_tab k)" "wf_tab (set_implicit b t) \<longleftrightarrow> wf_tab t" "wf_tab (set_readonly t) \<longleftrightarrow> wf_tab t"
  "wf_arr (Arr k NUL ty [])"
  by (simp_all add: wf_tab_iff)

lemma list_all_update: "list_all P xs \<Longrightarrow> P x \<Longrightarrow> list_all P (xs[i := x])"
  by (auto simp: list_all_iff dest: subsetD [OF set_update_subset_insert])

lemma wf_put_tab: "wf_tab t \<Longrightarrow> wf_tab s \<Longrightarrow> t_key s = t_key (t_tabs t ! i) \<Longrightarrow> wf_tab (set_tabs ((t_tabs t)[i := s]) t)"
  by (simp add: wf_tab_iff [of t] wf_tab_iff [of "set_tabs _ t"] list_all_update)

lemma wf_put_arr: "wf_tab t \<Longrightarrow> wf_arr a \<Longrightarrow> a_key a = a_key (t_arrs t ! i) \<Longrightarrow> wf_tab (set_arrs ((t_arrs t)[i := a]) t)"
  by (simp add: wf_tab_iff [of t] wf_tab_iff [of "set_arrs _ t"] list_all_update)

lemma check_key_NotFound: "check_key t k = NotFound \<longleftrightarrow> Some k \<notin> set (tab_keys t)"
proof -
  have "check_key t k = NotFound \<longleftrightarrow> key_val t k = None \<and> key_arr t k = None \<and> key_tab t k = None"
    by (simp add: check_key_def split: option.split)
  also have "\<dots> \<longleftrightarrow> Some k \<notin> set (tab_keys t)"
    by (auto simp: key_val_def key_arr_def key_tab_def find_index_None tab_keys_def image_iff)
  finally show ?thesis .
qed

lemma wf_add:
  assumes "wf_tab t" and "check_key t k = NotFound"
  shows "wf_tab (set_kvals (t_kvals t @ [(k, v)]) t)"
    and "wf_tab s \<Longrightarrow> t_key s = Some k \<Longrightarrow> wf_tab (set_tabs (t_tabs t @ [s]) t)"
    and "wf_arr a \<Longrightarrow> a_key a = Some k \<Longrightarrow> wf_tab (set_arrs (t_arrs t @ [a]) t)"
  using assms unfolding check_key_NotFound wf_tab_iff [of t] wf_tab_iff [of "set_kvals _ t"] wf_tab_iff [of "set_tabs _ t"]
    wf_tab_iff [of "set_arrs _ t"]
  by (auto simp: tab_keys_def)

lemma wf_nth: "wf_tab t \<Longrightarrow> i < length (t_tabs t) \<Longrightarrow> wf_tab (t_tabs t ! i)"
  "wf_tab t \<Longrightarrow> j < length (t_arrs t) \<Longrightarrow> wf_arr (t_arrs t ! j)"
  by (simp_all add: wf_tab_iff [of t] list_all_length)

lemma ok_create_keyval:
  "wf_tab tab \<Longrightarrow> ok (create_keyval_in_table conf tab tok v) (\<lambda>t. wf_tab t \<and> t_key t = t_key tab)"
  unfolding create_keyval_in_table_def
  by (intro ok_then [OF ok_normalize_key] ok_branches ok_then [OF ok_two_allocs] ok_then [OF ok_alloc]) (simp_all add: wf_add)

lemma ok_create_keytable:
  assumes "wf_tab tab"
  shows "ok (create_keytable_in_table conf tab tok) (\<lambda>(t, i). wf_tab t \<and> t_key t = t_key tab \<and> i < length (t_tabs t))"
proof -
  have "ok (case check_key tab k of
       NotFound \<Rightarrow> bindT two_allocs (\<lambda>_. returnT (set_tabs (t_tabs tab @ [new_tab (Some k)]) tab, length (t_tabs tab)))
     | IsTab i \<Rightarrow> if t_implicit (t_tabs tab ! i)
         then returnT (set_tabs ((t_tabs tab)[i := set_implicit False (t_tabs tab ! i)]) tab, i)
         else failT (KeyExists (tk_line tok))
     | _ \<Rightarrow> failT (KeyExists (tk_line tok))) (\<lambda>(t, i). wf_tab t \<and> t_key t = t_key tab \<and> i < length (t_tabs t))" for k
  proof (cases "check_key tab k")
    case NotFound
    with assms show ?thesis
      by (auto intro!: ok_then [OF ok_two_allocs] wf_add)
  next
    case (IsTab i)
    then have "key_tab tab k = Some i"
      by (simp add: check_key_def split: option.splits)
    then have "i < length (t_tabs tab)"
      by (auto simp: key_tab_def dest: find_index_Some)
    with IsTab assms show ?thesis
      by (auto intro!: ok_branches wf_put_tab wf_nth)
  qed simp_all
  then show ?thesis
    unfolding create_keytable_in_table_def by (intro ok_then [OF ok_normalize_key])
qed

text \<open>A new array is the last one and has a key that was not there.\<close>

lemma ok_create_keyarray:
  "ok (create_keyarray_in_table conf tab tok kind) (\<lambda>(t, i). \<exists>k. check_key tab k = NotFound \<and> i = length (t_arrs tab) \<and>
     t = set_arrs (t_arrs tab @ [Arr (Some k) kind NUL []]) tab)"
  unfolding create_keyarray_in_table_def
  by (intro ok_then [OF ok_normalize_key] ok_branches ok_then [OF ok_two_allocs]) auto

subsection \<open>Values\<close>

lemma wf_add_item:
  assumes "wf_arr a" and "wf_elem x" and "is_kind k x" and "k \<noteq> NUL" and "k \<noteq> CHR ''m''"
  shows "wf_arr (set_items (a_items a @ [x]) (add_kind k a))"
proof -
  have "is_kind (CHR ''m'') y" for y
    by (cases y) simp_all
  with assms show ?thesis
    by (auto simp: wf_arr_iff add_kind_def set_items_def NUL_def list_all_iff)
qed

lemma ok_add_value: "wf_arr a \<Longrightarrow> ok (add_value strtod v (add_kind (CHR ''v'') a)) (\<lambda>b. wf_arr b \<and> a_key b = a_key a)"
  using wf_add_item [of a "ElVal (valtype strtod v) v" "CHR ''v''"] unfolding add_value_def
  by (intro ok_then [OF ok_two_allocs]) (simp add: Let_def wf_arr_iff NUL_def)

text \<open>A parser of values, for tokens with less than \<open>b\<close> twice the text still to be read: the token it stops at is
  not before the one it starts at, and what it filled in is well-formed and has the key it had.\<close>

definition value_ok :: "string \<Rightarrow> ('a \<Rightarrow> bool) \<Rightarrow> ('a \<Rightarrow> string option) \<Rightarrow> nat \<Rightarrow> (token \<Rightarrow> 'a \<Rightarrow> (token \<times> 'a) tm) \<Rightarrow> bool" where
  "value_ok conf good key b f \<longleftrightarrow> (\<forall>tok x. tok_ok conf tok \<longrightarrow> 2 * (length conf - tk_ptr tok) < b \<longrightarrow> good x \<longrightarrow>
     ok (f tok x) (\<lambda>(t, y). tok_from conf (tk_ptr tok) t \<and> good y \<and> key y = key x))"

lemma value_okI:
  assumes "\<And>tok x. tok_ok conf tok \<Longrightarrow> 2 * (length conf - tk_ptr tok) < b \<Longrightarrow> good x \<Longrightarrow>
    ok (f tok x) (\<lambda>(t, y). tok_from conf (tk_ptr tok) t \<and> good y \<and> key y = key x)"
  shows "value_ok conf good key b f"
  using assms by (simp add: value_ok_def)

text \<open>One that starts later in the text than a token does.\<close>

lemma value_okD:
  assumes "value_ok conf good key b f" and "tok_from conf p tok" and "2 * (length conf - p) < b" and "good x"
  shows "ok (f tok x) (\<lambda>(t, y). tok_from conf p t \<and> good y \<and> key y = key x)"
proof -
  have "2 * (length conf - tk_ptr tok) < b"
    using assms(2,3) by (auto simp: tok_from_def)
  with assms have "ok (f tok x) (\<lambda>(t, y). tok_from conf (tk_ptr tok) t \<and> good y \<and> key y = key x)"
    by (simp add: value_ok_def tok_from_def)
  then show ?thesis
    by (rule ok_weaken) (use assms(2) in \<open>auto simp: tok_from_def\<close>)
qed

lemma ok_next_from: "tok_from conf p tok \<Longrightarrow> ok (liftT (next_token conf d tok)) (tok_from conf p)"
  by (rule ok_weaken [OF ok_next]) (auto simp: tok_from_def tok_ok_def)

lemma ok_eat_from: "tok_from conf p tok \<Longrightarrow> ok (liftT (eat_token conf typ d tok)) (tok_from conf p)"
  by (rule ok_weaken [OF ok_eat]) (auto simp: tok_from_def tok_ok_def)

lemma ok_skip_from: "tok_from conf p tok \<Longrightarrow> ok (liftT (skip_newlines conf d tok)) (tok_from conf p)"
  by (rule ok_weaken [OF ok_skip_newlines]) (auto simp: tok_from_def)

text \<open>Past a token other than a string or a line end.\<close>

lemma ok_next_past:
  "tok_from conf p tok \<Longrightarrow> tk_tok tok \<noteq> STRING \<Longrightarrow> tk_tok tok \<noteq> NEWLINE \<Longrightarrow>
   ok (liftT (next_token conf d tok)) (\<lambda>t. tok_from conf (Suc p) t \<and> p < length conf)"
  by (rule ok_weaken [OF ok_next]) (auto simp: tok_from_def tok_ok_def)

lemma ok_eat_past:
  "tok_from conf p tok \<Longrightarrow> typ \<noteq> STRING \<Longrightarrow> typ \<noteq> NEWLINE \<Longrightarrow>
   ok (liftT (eat_token conf typ d tok)) (\<lambda>t. tok_from conf (Suc p) t \<and> p < length conf)"
  by (rule ok_weaken [OF ok_eat]) (auto simp: tok_from_def tok_ok_def)

lemma array_step:
  assumes "value_ok conf wf_arr a_key (n - 1) (array_items n strtod conf)"
  shows "value_ok conf wf_arr a_key (Suc n) (parse_array (Suc n) strtod conf)"
proof (rule value_okI)
  fix tok a
  assume tok: "tok_ok conf tok" and fuel: "2 * (length conf - tk_ptr tok) < Suc n" and wf: "wf_arr a"
  have start: "tok_from conf (tk_ptr tok) tok"
    using tok by (simp add: tok_from_def)
  have items: "ok (array_items n strtod conf t a) (\<lambda>(u, b). tok_from conf (Suc (tk_ptr tok)) u \<and> wf_arr b \<and> a_key b = a_key a)"
    if "tok_from conf (Suc (tk_ptr tok)) t \<and> tk_ptr tok < length conf" for t
    using that fuel wf by (intro value_okD [OF assms]) auto
  show "ok (parse_array (Suc n) strtod conf tok a) (\<lambda>(t, y). tok_from conf (tk_ptr tok) t \<and> wf_arr y \<and> a_key y = a_key a)"
    unfolding parse_array.simps
    by (rule ok_bind [OF ok_eat_past [OF start]], simp, simp)
      (auto intro!: ok_bind [OF items] ok_bind [OF ok_eat_from] intro: tok_from_Suc)
qed

lemma inline_step:
  assumes "value_ok conf wf_tab t_key (n - 1) (inline_entries n strtod conf)"
  shows "value_ok conf wf_tab t_key (Suc n) (parse_inline_table (Suc n) strtod conf)"
proof (rule value_okI)
  fix tok tab
  assume tok: "tok_ok conf tok" and fuel: "2 * (length conf - tk_ptr tok) < Suc n" and wf: "wf_tab tab"
  have start: "tok_from conf (tk_ptr tok) tok"
    using tok by (simp add: tok_from_def)
  have items: "ok (inline_entries n strtod conf t tab) (\<lambda>(u, s). tok_from conf (Suc (tk_ptr tok)) u \<and> wf_tab s \<and> t_key s = t_key tab)"
    if "tok_from conf (Suc (tk_ptr tok)) t \<and> tk_ptr tok < length conf" for t
    using that fuel wf by (intro value_okD [OF assms]) auto
  show "ok (parse_inline_table (Suc n) strtod conf tok tab) (\<lambda>(t, y). tok_from conf (tk_ptr tok) t \<and> wf_tab y \<and> t_key y = t_key tab)"
    unfolding parse_inline_table.simps
    by (rule ok_bind [OF ok_eat_past [OF start]], simp, simp)
      (auto intro!: ok_bind [OF items] ok_bind [OF ok_eat_from] intro: tok_from_Suc)
qed

lemma entries_step:
  assumes keyval: "value_ok conf wf_tab t_key n (parse_keyval n strtod conf)"
    and more: "value_ok conf wf_tab t_key (n - 1) (inline_entries n strtod conf)"
  shows "value_ok conf wf_tab t_key n (inline_entries (Suc n) strtod conf)"
proof (rule value_okI)
  fix tok tab
  assume tok: "tok_ok conf tok" and fuel: "2 * (length conf - tk_ptr tok) < n" and wf: "wf_tab tab"
  have start: "tok_from conf (tk_ptr tok) tok"
    using tok by (simp add: tok_from_def)
  have onward: "ok (inline_entries n strtod conf t s) (\<lambda>(u, y). tok_from conf (tk_ptr tok) u \<and> wf_tab y \<and> t_key y = t_key tab)"
    if "tok_from conf (Suc (tk_ptr tok)) t \<and> tk_ptr tok < length conf" "wf_tab s" "t_key s = t_key tab" for t s
    by (rule ok_weaken [OF value_okD [OF more, where p = "Suc (tk_ptr tok)"]]) (use that fuel in \<open>auto intro: tok_from_Suc\<close>)
  show "ok (inline_entries (Suc n) strtod conf tok tab) (\<lambda>(t, y). tok_from conf (tk_ptr tok) t \<and> wf_tab y \<and> t_key y = t_key tab)"
    unfolding inline_entries.simps
    by (intro ok_branches ok_bind [OF value_okD [OF keyval start fuel wf]] ok_bind [OF ok_eat_past])
      (auto simp: start wf intro: onward)
qed

lemma items_step:
  assumes arr: "value_ok conf wf_arr a_key n (parse_array n strtod conf)"
    and tab: "value_ok conf wf_tab t_key n (parse_inline_table n strtod conf)"
    and more: "value_ok conf wf_arr a_key (n - 1) (array_items n strtod conf)"
  shows "value_ok conf wf_arr a_key n (array_items (Suc n) strtod conf)"
proof (rule value_okI)
  fix tok a
  assume tok: "tok_ok conf tok" and fuel: "2 * (length conf - tk_ptr tok) < n" and wf: "wf_arr a"
  let ?p = "tk_ptr tok"
  let ?Q = "\<lambda>(t, b). tok_from conf ?p t \<and> wf_arr b \<and> a_key b = a_key a"
  have start: "tok_from conf ?p tok"
    using tok by (simp add: tok_from_def)
  have onward: "ok (array_items n strtod conf t b) ?Q"
    if "tok_from conf (Suc ?p) t \<and> ?p < length conf" "wf_arr b" "a_key b = a_key a" for t b
    by (rule ok_weaken [OF value_okD [OF more, where p = "Suc (tk_ptr tok)"]]) (use that fuel in \<open>auto intro: tok_from_Suc\<close>)
  have plainval: "ok (bindT (add_value strtod (token_text conf t) (add_kind (CHR ''v'') a)) (\<lambda>a.
      bindT (liftT (eat_token conf STRING False t)) (\<lambda>tok2. returnT (tok2, a)))) ?Q" if "tok_from conf ?p t" for t
    using that wf by (intro ok_bind [OF ok_add_value] ok_bind [OF ok_eat_from]) auto
  have subarr: "ok (bindT two_allocs (\<lambda>_. bindT (parse_array n strtod conf t (Arr None NUL NUL [])) (\<lambda>(tok2, subarr).
      returnT (tok2, set_items (a_items a @ [ElArr subarr]) (add_kind (CHR ''a'') a))))) ?Q" if "tok_from conf ?p t" for t
    by (intro ok_then [OF ok_two_allocs] ok_bind [OF value_okD [OF arr that fuel]])
      (use wf in \<open>auto simp: NUL_def intro!: wf_add_item\<close>)
  have subtab: "ok (bindT two_allocs (\<lambda>_. bindT (parse_inline_table n strtod conf t (new_tab None)) (\<lambda>(tok2, subtab).
      returnT (tok2, set_items (a_items a @ [ElTab subtab]) (add_kind (CHR ''t'') a))))) ?Q" if "tok_from conf ?p t" for t
    by (intro ok_then [OF ok_two_allocs] ok_bind [OF value_okD [OF tab that fuel]])
      (use wf in \<open>auto simp: NUL_def intro!: wf_add_item\<close>)
  have comma: "ok (bindT (liftT (skip_newlines conf False t)) (\<lambda>tok3. if tk_tok tok3 = COMMA then
        bindT (liftT (eat_token conf COMMA False tok3)) (\<lambda>tok4. array_items n strtod conf tok4 b)
      else returnT (tok3, b))) ?Q" if "tok_from conf ?p t" "wf_arr b" "a_key b = a_key a" for t b
    using that by (intro ok_bind [OF ok_skip_from [OF that(1)]] ok_branches ok_bind [OF ok_eat_past] onward) auto
  show "ok (array_items (Suc n) strtod conf tok a) ?Q"
    unfolding array_items.simps
    by (rule ok_bind [OF ok_skip_from [OF start]], rule ok_if, simp add: wf, rule ok_bind [where P = ?Q])
      (intro ok_branches plainval subarr subtab comma; auto)+
qed

text \<open>A value put where the new array or table of \<open>parse_keyval\<close> is.\<close>

lemma ok_into_tab:
  assumes "ok f (\<lambda>(t, s). tok_from conf p t \<and> wf_tab s \<and> t_key s = t_key (t_tabs tab ! i))" and "wf_tab tab"
  shows "ok (bindT f (\<lambda>(tok3, s). returnT (tok3, set_tabs ((t_tabs tab)[i := s]) tab)))
    (\<lambda>(t, s). tok_from conf p t \<and> wf_tab s \<and> t_key s = t_key tab)"
  by (rule ok_bind [OF assms(1)]) (use assms(2) in \<open>auto intro!: wf_put_tab\<close>)

lemma ok_into_arr:
  assumes "ok f (\<lambda>(t, a). tok_from conf p t \<and> wf_arr a \<and> a_key a = a_key (t_arrs tab ! i))" and "wf_tab tab"
  shows "ok (bindT f (\<lambda>(tok3, a). returnT (tok3, set_arrs ((t_arrs tab)[i := a]) tab)))
    (\<lambda>(t, s). tok_from conf p t \<and> wf_tab s \<and> t_key s = t_key tab)"
  by (rule ok_bind [OF assms(1)]) (use assms(2) in \<open>auto intro!: wf_put_arr\<close>)

lemma ok_find_tab:
  assumes "wf_tab tab"
  shows "ok (case key_tab tab k of Some i \<Rightarrow> returnT (tab, i) | None \<Rightarrow> create_keytable_in_table conf tab tok)
    (\<lambda>(t, i). wf_tab t \<and> t_key t = t_key tab \<and> i < length (t_tabs t))"
  by (rule ok_option [OF ok_create_keytable [OF assms]]) (auto simp: assms key_tab_def dest: find_index_Some)

lemma keyval_step:
  assumes keyval: "value_ok conf wf_tab t_key n (parse_keyval n strtod conf)"
    and arr: "value_ok conf wf_arr a_key n (parse_array n strtod conf)"
    and tab: "value_ok conf wf_tab t_key n (parse_inline_table n strtod conf)"
  shows "value_ok conf wf_tab t_key (Suc n) (parse_keyval (Suc n) strtod conf)"
proof (rule value_okI)
  fix tok tab
  assume tok: "tok_ok conf tok" and fuel: "2 * (length conf - tk_ptr tok) < Suc n" and wf: "wf_tab tab"
  let ?p = "tk_ptr tok"
  let ?Q = "\<lambda>(t, s). tok_from conf ?p t \<and> wf_tab s \<and> t_key s = t_key tab"
  have start: "tok_from conf ?p tok"
    using tok by (simp add: tok_from_def)
  have past: "ok f ?Q" if "ok f (\<lambda>(t, s). tok_from conf (Suc ?p) t \<and> wf_tab s \<and> t_key s = t_key s')" "t_key s' = t_key tab" for f s'
    by (rule ok_weaken [OF that(1)]) (use that(2) in \<open>auto intro: tok_from_Suc\<close>)
  have dotted: "ok (bindT (normalize_key conf tok) (\<lambda>k.
      bindT (case key_tab tab k of Some i \<Rightarrow> returnT (tab, i) | None \<Rightarrow> create_keytable_in_table conf tab tok) (\<lambda>(tab, i).
      bindT (liftT (next_token conf True t)) (\<lambda>tok2.
      bindT (parse_keyval n strtod conf tok2 (t_tabs tab ! i)) (\<lambda>(tok3, subtab).
      returnT (tok3, set_tabs ((t_tabs tab)[i := subtab]) tab)))))) ?Q" if "tok_from conf ?p t" "tk_tok t = DOT" for t
    by (rule ok_then [OF ok_normalize_key], rule ok_bind [OF ok_find_tab [OF wf]], rule ok_prod,
        rule ok_bind [OF ok_next_past [OF that(1)]])
      (use that(2) fuel in \<open>auto intro!: past ok_into_tab value_okD [OF keyval] wf_nth\<close>)
  have plainval: "ok (bindT (create_keyval_in_table conf tab tok v) (\<lambda>tab.
      bindT (liftT (next_token conf True t)) (\<lambda>tok3. returnT (tok3, tab)))) ?Q" if "tok_from conf ?p t" for t v
    using that wf by (intro ok_bind [OF ok_create_keyval] ok_bind [OF ok_next_from]) auto
  have array: "ok (bindT (create_keyarray_in_table conf tab tok NUL) (\<lambda>(tab, i).
      bindT (parse_array n strtod conf t (t_arrs tab ! i)) (\<lambda>(tok3, arr).
      returnT (tok3, set_arrs ((t_arrs tab)[i := arr]) tab)))) ?Q"
    if "tok_from conf (Suc ?p) t \<and> ?p < length conf" for t
    by (rule ok_bind [OF ok_create_keyarray], rule ok_prod)
      (use that fuel wf in \<open>auto intro!: past ok_into_arr value_okD [OF arr] wf_add\<close>)
  have table: "ok (bindT (create_keytable_in_table conf tab tok) (\<lambda>(tab, i).
      bindT (parse_inline_table n strtod conf t (t_tabs tab ! i)) (\<lambda>(tok3, nxttab).
      returnT (tok3, set_tabs ((t_tabs tab)[i := nxttab]) tab)))) ?Q"
    if "tok_from conf (Suc ?p) t \<and> ?p < length conf" for t
    by (rule ok_bind [OF ok_create_keytable [OF wf]], rule ok_prod)
      (use that fuel in \<open>auto intro!: past ok_into_tab value_okD [OF tab] wf_nth\<close>)
  show "ok (parse_keyval (Suc n) strtod conf tok tab) ?Q"
    unfolding parse_keyval.simps
    by (rule ok_if, simp, rule ok_bind [OF ok_eat_from [OF start]], rule ok_if, rule dotted, assumption, assumption,
        rule ok_if, simp, rule ok_bind [OF ok_next_past], assumption, simp, simp)
      (intro ok_branches plainval array table; auto intro: tok_from_Suc)+
qed

lemma value_ok_0 [simp]: "value_ok conf good key 0 f"
  by (simp add: value_ok_def)

lemma values_ok:
  "value_ok conf wf_tab t_key n (parse_keyval n strtod conf) \<and> value_ok conf wf_arr a_key n (parse_array n strtod conf) \<and>
   value_ok conf wf_arr a_key (n - 1) (array_items n strtod conf) \<and>
   value_ok conf wf_tab t_key n (parse_inline_table n strtod conf) \<and>
   value_ok conf wf_tab t_key (n - 1) (inline_entries n strtod conf)"
  by (induction n) (auto intro: keyval_step array_step items_step inline_step entries_step)

subsection \<open>Selectors\<close>

text \<open>The way leads to a table.\<close>

fun has_path :: "step list \<Rightarrow> toml_tab \<Rightarrow> bool" where
  "has_path [] t \<longleftrightarrow> True"
| "has_path (InTab i # p) t \<longleftrightarrow> i < length (t_tabs t) \<and> has_path p (t_tabs t ! i)"
| "has_path (InArr i j # p) t \<longleftrightarrow> i < length (t_arrs t) \<and> j < length (a_items (t_arrs t ! i)) \<and>
     (case a_items (t_arrs t ! i) ! j of ElTab s \<Rightarrow> has_path p s | _ \<Rightarrow> False)"

lemma wf_item: "wf_tab t \<Longrightarrow> i < length (t_arrs t) \<Longrightarrow> x \<in> set (a_items (t_arrs t ! i)) \<Longrightarrow> wf_elem x"
  using wf_nth(2) [of t i] by (auto simp: wf_arr_iff list_all_iff)

lemma wf_at_path: "wf_tab t \<Longrightarrow> has_path p t \<Longrightarrow> wf_tab (at_path p t)"
proof (induction p t rule: has_path.induct)
  case (3 i j p t)
  then obtain s where "a_items (t_arrs t ! i) ! j = ElTab s"
    by (auto split: toml_elem.splits)
  with 3 wf_item [of t i "ElTab s"] show ?case
    by (auto simp: in_set_conv_nth)
qed (simp_all add: wf_nth)

lemma wf_put_item:
  assumes "wf_tab t" and "i < length (t_arrs t)" and "j < length (a_items (t_arrs t ! i))"
    and "a_items (t_arrs t ! i) ! j = ElTab s" and "wf_tab s'"
  shows "wf_tab (set_arrs ((t_arrs t)[i := set_items ((a_items (t_arrs t ! i))[j := ElTab s']) (t_arrs t ! i)]) t)"
proof (rule wf_put_arr [OF assms(1)])
  have "wf_arr (t_arrs t ! i)" and "is_kind (a_kind (t_arrs t ! i)) (ElTab s)"
    using wf_nth(2) [OF assms(1,2)] assms(3,4) by (auto simp: wf_arr_iff list_all_length)
  with assms(3,5) show "wf_arr (set_items ((a_items (t_arrs t ! i))[j := ElTab s']) (t_arrs t ! i))"
    by (auto simp: wf_arr_iff intro!: list_all_update)
qed simp

lemma put_path_ok:
  assumes "wf_tab t" and "has_path p t" and "wf_tab new" and "t_key new = t_key (at_path p t)"
  shows "wf_tab (put_path p new t) \<and> t_key (put_path p new t) = t_key t \<and> has_path p (put_path p new t) \<and>
    at_path p (put_path p new t) = new"
  using assms
proof (induction p t rule: has_path.induct)
  case (2 i p t)
  then show ?case
    using wf_nth(1) [of t i] by (auto intro!: wf_put_tab)
next
  case (3 i j p t)
  then obtain s where s: "a_items (t_arrs t ! i) ! j = ElTab s"
    by (auto split: toml_elem.splits)
  with 3 have "wf_tab s"
    using wf_item [of t i "ElTab s"] by (auto simp: in_set_conv_nth)
  with 3 s show ?case
    by (auto simp: Let_def intro!: wf_put_item)
qed simp

lemma path_append [simp]:
  "has_path p t \<Longrightarrow> at_path (p @ q) t = at_path q (at_path p t)"
  "has_path (p @ q) t \<longleftrightarrow> has_path p t \<and> has_path q (at_path p t)"
  by (induction p t rule: has_path.induct) (auto split: toml_elem.splits)

lemma ok_fill_tabpath:
  "tok_from conf p tok \<Longrightarrow> ok (fill_tabpath k conf lineno tok) (\<lambda>(tp, t). tok_from conf p t)"
proof (induction k arbitrary: tok)
  case (Suc k)
  then show ?case
    unfolding fill_tabpath.simps
    by (intro ok_branches ok_then [OF ok_normalize_key] ok_bind [OF ok_next_from] ok_bind [OF Suc.IH]) auto
qed simp

lemma check_key_found:
  "check_key t k = IsTab i \<Longrightarrow> i < length (t_tabs t)" "check_key t k = IsArr j \<Longrightarrow> j < length (t_arrs t)"
  by (auto simp: check_key_def key_val_def key_arr_def key_tab_def dest: find_index_Some split: option.splits)

lemma ok_walk_tabpath:
  "wf_tab t \<Longrightarrow> ok (walk_tabpath tpath t) (\<lambda>(t', p). wf_tab t' \<and> t_key t' = t_key t \<and> has_path p t')"
proof (induction tpath arbitrary: t)
  case (Cons kt tpath)
  obtain k tok where kt: "kt = (k, tok)"
    by (cases kt)
  show ?case
  proof (cases "check_key t k")
    case NotFound
    have "wf_tab (set_implicit True (new_tab (Some k)))"
      by simp
    then show ?thesis
      using NotFound Cons.prems kt
      by (auto intro!: ok_then [OF ok_two_allocs] ok_then [OF ok_alloc] ok_bind [OF Cons.IH] wf_add)
  next
    case (IsArr i)
    note i = check_key_found(2) [OF this]
    show ?thesis
    proof (cases "a_kind (t_arrs t ! i) = CHR ''t'' \<and> a_items (t_arrs t ! i) \<noteq> []")
      case True
      then obtain items x where items: "a_items (t_arrs t ! i) = items @ [x]"
        by (metis append_butlast_last_id)
      with True i Cons.prems have "is_kind (CHR ''t'') x" "wf_elem x"
        using wf_nth(2) [of t i] by (auto simp: wf_arr_iff)
      then obtain s where "x = ElTab s" "wf_tab s"
        by (cases x) auto
      moreover have "wf_tab (set_arrs ((t_arrs t)[i := set_items (items @ [ElTab s']) (t_arrs t ! i)]) t)" if "wf_tab s'" for s'
        using wf_put_item [of t i "length items" s s'] i items that Cons.prems \<open>x = ElTab s\<close> by simp
      ultimately show ?thesis
        using kt IsArr True i items by (auto simp: Let_def intro!: ok_bind [OF Cons.IH])
    qed (use kt IsArr in \<open>auto simp: Let_def\<close>)
  next
    case (IsTab i)
    then show ?thesis
      using kt Cons.prems check_key_found(1) [OF IsTab]
      by (auto intro!: ok_bind [OF Cons.IH] wf_put_tab simp: wf_nth)
  qed (use kt in auto)
qed simp

lemma ok_select_table:
  "wf_tab t \<Longrightarrow> ok (select_table conf z t) (\<lambda>(t', s). wf_tab t' \<and> t_key t' = t_key t \<and> has_path [s] t')"
  unfolding select_table_def by (rule ok_bind [OF ok_create_keytable]) auto

lemma wf_add_tables: "wf_arr a \<or> a_items a = [] \<Longrightarrow> a_kind a = CHR ''t'' \<Longrightarrow> wf_tab s \<Longrightarrow> wf_arr (set_items (a_items a @ [ElTab s]) a)"
  by (auto simp: wf_arr_iff NUL_def)

lemma ok_select_array:
  assumes wf: "wf_tab t"
  shows "ok (select_array conf z t) (\<lambda>(t', s). wf_tab t' \<and> t_key t' = t_key t \<and> has_path [s] t')"
proof -
  let ?Q = "\<lambda>(t', s). wf_tab t' \<and> t_key t' = t_key t \<and> has_path [s] t'"
  define add where "add t i = (let arr = t_arrs t ! i in
     if a_kind arr \<noteq> CHR ''t'' then failT (Syntax (tk_line z))
     else bindT two_allocs (\<lambda>_. bindT (allocT OutOfMemory) (\<lambda>_.
       returnT (set_arrs ((t_arrs t)[i := set_items (a_items arr @ [ElTab (new_tab (Some ''__anon__''))]) arr]) t,
         InArr i (length (a_items arr))))))" for t i
  have there: "ok (add t i) ?Q" if "i < length (t_arrs t)" for i
    unfolding add_def Let_def
    by (intro ok_branches ok_then [OF ok_two_allocs] ok_then [OF ok_alloc])
      (use that wf in \<open>auto intro!: wf_put_arr wf_add_tables simp: wf_nth\<close>)
  have new: "ok (add (set_arrs (t_arrs t @ [Arr (Some k) (CHR ''t'') NUL []]) t) (length (t_arrs t))) ?Q"
    if "check_key t k = NotFound" for k
    using wf_add(3) [OF wf that, of "set_items [ElTab (new_tab (Some ''__anon__''))] (Arr (Some k) (CHR ''t'') NUL [])"]
    unfolding add_def Let_def
    by (intro ok_branches ok_then [OF ok_two_allocs] ok_then [OF ok_alloc]) (auto simp: wf_arr_iff NUL_def)
  have "ok (bindT (case key_arr t k of Some i \<Rightarrow> returnT (t, i) | None \<Rightarrow> create_keyarray_in_table conf t z (CHR ''t''))
      (\<lambda>(t, i). add t i)) ?Q" for k
  proof (cases "key_arr t k")
    case None
    show ?thesis
      unfolding None option.case by (rule ok_bind [OF ok_create_keyarray]) (auto intro: new)
  next
    case (Some i)
    then have "i < length (t_arrs t)"
      by (auto simp: key_arr_def dest: find_index_Some)
    with Some show ?thesis
      by (auto simp: bindT_def returnT_def ok_def dest: there [unfolded ok_def, rule_format])
  qed
  then show ?thesis
    unfolding select_array_def add_def by (intro ok_then [OF ok_normalize_key])
qed

lemma ok_close_select:
  assumes "tok_from conf p tok"
  shows "ok (liftT (close_select conf llb tok)) (\<lambda>t. tok_from conf p t)"
proof -
  have eat: "eat_token conf RBRACKET True t = Inr u \<Longrightarrow> tok_from conf p u" "eat_token conf RBRACKET True t = Inl e \<Longrightarrow> plain e"
    if "tok_from conf p t" for t u e
    using ok_eat_from [OF that, of RBRACKET True] by (simp_all add: ok_lift)
  show ?thesis
    using assms by (cases llb) (auto simp: ok_lift close_select_def split: sum.splits dest: eat)
qed

text \<open>In front of \<open>[[\<close> the scanner finds the second bracket right away.\<close>

lemma next_bracket:
  assumes "tok_ok conf tok" and "tk_tok tok = LBRACKET" and "doubled conf tok (CHR ''['')" and "next_token conf d tok = Inr t"
  shows "tk_tok t = LBRACKET"
proof -
  have len: "tk_len tok = 1"
    using assms(1,2) by (auto simp: tok_ok_def)
  have "drop (tk_len tok) (drop (tk_ptr tok) conf) = CHR ''['' # drop (tk_ptr tok + 2) conf"
    using assms(3) by (simp add: len doubled_def add.commute Cons_nth_drop_Suc [symmetric])
  with assms(4) show ?thesis
    by (auto simp: next_token_def is_blank_def punctuation_def set_token_def)
qed

lemma ok_parse_select:
  assumes tok: "tok_from conf p tok" "tk_tok tok = LBRACKET" and wf: "wf_tab root"
  shows "ok (parse_select conf tok root) (\<lambda>(t, root', path). tok_from conf (Suc p) t \<and> p < length conf \<and> wf_tab root' \<and> has_path path root')"
proof -
  let ?Q = "\<lambda>(t, root', path). tok_from conf (Suc p) t \<and> p < length conf \<and> wf_tab root' \<and> has_path path root'"
  have first: "ok (liftT (eat_token conf LBRACKET True tok))
      (\<lambda>t. (tok_from conf (Suc p) t \<and> p < length conf) \<and> (doubled conf tok (CHR ''['') \<longrightarrow> tk_tok t = LBRACKET))"
    using ok_eat_past [OF tok(1), of LBRACKET True] next_bracket [OF tok_from_ok [OF tok(1)] tok(2)]
    by (auto simp: ok_lift eat_token_def split: sum.splits if_splits)
  have second: "ok (liftT (if llb then eat_token conf LBRACKET True t else Inr t)) (tok_from conf (Suc p))"
    if "tok_from conf (Suc p) t" for llb t
    using ok_eat_from [OF that, of LBRACKET True] that by (auto simp: ok_lift)
  have select: "ok ((if llb then select_array else select_table) conf z t) (\<lambda>(t', s). wf_tab t' \<and> t_key t' = t_key t \<and> has_path [s] t')"
    if "wf_tab t" for llb z t
    using that by (simp add: ok_select_array ok_select_table)
  have rest: "ok (bindT (fill_tabpath 10 conf l t) (\<lambda>(tpath, tok3). bindT (walk_tabpath (butlast tpath) root) (\<lambda>(root, p).
      bindT ((if llb then select_array else select_table) conf (snd (last tpath)) (at_path p root)) (\<lambda>(curtab, s).
      bindT (liftT (close_select conf llb tok3)) (\<lambda>tok4.
      returnT (tok4, put_path p curtab root, p @ [s])))))) ?Q" if "tok_from conf (Suc p) t" "p < length conf" for llb l t
    apply (rule ok_bind [OF ok_fill_tabpath [OF that(1)]], rule ok_prod, rule ok_bind [OF ok_walk_tabpath [OF wf]], rule ok_prod)
    apply (rule ok_bind [OF select], simp add: wf_at_path, rule ok_prod, rule ok_bind [OF ok_close_select], simp)
    using that(2) put_path_ok by simp
  show ?thesis
    unfolding parse_select_def Let_def
    by (rule ok_if, simp add: tok(2), rule ok_bind [OF first], rule ok_if, simp, rule ok_bind [OF second], simp, rule rest) auto
qed

subsection \<open>Whole documents\<close>

lemma ok_eat_newline:
  "tok_from conf p tok \<Longrightarrow> p < length conf \<Longrightarrow> ok (liftT (eat_token conf NEWLINE d tok)) (tok_from conf (Suc p))"
  by (rule ok_weaken [OF ok_eat]) (auto simp: tok_from_def tok_ok_def)

lemma ok_next_line:
  "tok_ok conf tok \<Longrightarrow> \<not> tk_eof tok \<Longrightarrow> tk_tok tok = NEWLINE \<Longrightarrow> ok (liftT (next_token conf d tok)) (tok_from conf (Suc (tk_ptr tok)))"
  by (rule ok_weaken [OF ok_next]) (auto simp: tok_from_def tok_ok_def)

lemma ok_parse_lines:
  assumes "tok_ok conf tok" and "length conf - tk_ptr tok < k" and "2 * length conf < n"
    and "wf_tab root" and "has_path path root"
  shows "ok (parse_lines k n strtod conf tok root path) wf_tab"
  using assms
proof (induction k arbitrary: tok root path)
  case (Suc k)
  let ?p = "tk_ptr tok"
  have start: "tok_from conf ?p tok" and inside: "?p < length conf" if "\<not> tk_eof tok"
    using Suc.prems(1) that by (simp_all add: tok_from_def tok_ok_def)
  have onward: "ok (parse_lines k n strtod conf t r q) wf_tab"
    if "tok_from conf (Suc ?p) t" "?p < length conf" "wf_tab r" "has_path q r" for t r q
    by (rule Suc.IH) (use that Suc.prems(2,3) in \<open>auto simp: tok_from_def\<close>)
  have keyval: "ok (parse_keyval n strtod conf tok (at_path path root))
      (\<lambda>(t, s). tok_from conf ?p t \<and> wf_tab s \<and> t_key s = t_key (at_path path root))" if "\<not> tk_eof tok"
    using values_ok [of conf n strtod] start [OF that] wf_at_path [OF Suc.prems(4,5)] Suc.prems(3)
    by (intro value_okD) auto
  show ?case
    unfolding parse_lines.simps
  proof (intro ok_if)
    assume "\<not> tk_eof tok" "tk_tok tok = NEWLINE"
    then show "ok (bindT (liftT (next_token conf True tok)) (\<lambda>tok1. parse_lines k n strtod conf tok1 root path)) wf_tab"
      using Suc.prems by (intro ok_bind [OF ok_next_line]) (auto simp: inside onward)
  next
    assume tok: "\<not> tk_eof tok"
    show "ok (bindT (parse_keyval n strtod conf tok (at_path path root)) (\<lambda>(tok1, tab).
        if tk_tok tok1 \<noteq> NEWLINE then failT (Syntax (tk_line tok1))
        else bindT (liftT (eat_token conf NEWLINE True tok1)) (\<lambda>tok2.
          parse_lines k n strtod conf tok2 (put_path path tab root) path))) wf_tab"
      by (rule ok_bind [OF keyval [OF tok]], rule ok_prod, rule ok_if, simp, rule ok_bind [OF ok_eat_newline])
        (use put_path_ok [OF Suc.prems(4,5)] inside [OF tok] in \<open>auto intro!: onward\<close>)
  next
    assume "\<not> tk_eof tok" "tk_tok tok = LBRACKET"
    then show "ok (bindT (parse_select conf tok root) (\<lambda>(tok1, root, curtab). parse_lines k n strtod conf tok1 root curtab)) wf_tab"
      using Suc.prems(4) by (intro ok_bind [OF ok_parse_select [OF start]]) (auto intro: onward)
  qed (use Suc.prems in auto)
qed simp

lemma ok_toml_parse: "ok (toml_parse strtod text) wf_tab"
proof -
  have first: "ok (parse_lines (length conf + 2) (2 * length conf + 1) strtod conf (set_token NEWLINE 1 0 0) (new_tab None) []) wf_tab" for conf
  proof -
    have "ok (parse_lines (Suc (length conf)) (2 * length conf + 1) strtod conf t (new_tab None) []) wf_tab"
      if "tok_from conf 0 t" for t
      using that by (intro ok_parse_lines) (auto simp: tok_from_def)
    then show ?thesis
      unfolding add_2_eq_Suc' parse_lines.simps(2) [of "Suc (length conf)"]
      by (intro ok_branches ok_bind [OF ok_next]) (auto simp: set_token_def)
  qed
  show ?thesis
    unfolding toml_parse_def Let_def by (intro ok_then [OF ok_alloc] first) simp
qed

subsection \<open>Properties\<close>


text \<open>C25: Every document the parser returns is well-formed: in each table, at any depth, a key is there once, over the plain
  values, arrays and sub-tables together, and the kind of an array says what all its items are.\<close>

theorem toml_parse_wf:
  "case fst (toml_parse strtod text m) of Inl e \<Rightarrow> True | Inr doc \<Rightarrow> wf_tab doc"
  using ok_toml_parse [of strtod "text"] by (auto simp: ok_def dest: spec [of _ m] split: sum.splits)

end
