(* ===== verification/Toml_Roundtrip.thy ===== *)
theory Toml_Roundtrip
  imports Toml_Spec
begin

text \<open>
  Texts that the TOML parser reads back: any string written as a basic string with its special characters
  escaped, and a document of such strings under bare keys.
\<close>

subsection \<open>Writing strings\<close>

definition hex_char :: "nat \<Rightarrow> char" where
  "hex_char d = char_of (if d < 10 then 48 + d else 55 + d)"

text \<open>Control characters and quotes are written as escapes. The single quote is among them: the scanner
  refuses three of them in a row.\<close>

definition quote_char :: "char \<Rightarrow> string" where
  "quote_char c = (if c = BS then [BS, BS] else if c = DQ \<or> c = SQ \<or> bad_char False c
     then [BS, CHR ''u'', CHR ''0'', CHR ''0'', hex_char (of_char c div 16), hex_char (of_char c mod 16)] else [c])"

definition quote_body :: "string \<Rightarrow> string" where
  "quote_body s = concat (map quote_char s)"

definition quote :: "string \<Rightarrow> string" where
  "quote s = [DQ] @ quote_body s @ [DQ]"

lemma quoted_simps [simp]: "quote_body [] = []" "quote_body (c # s) = quote_char c @ quote_body s"
  by (simp_all add: quote_body_def)

lemma of_char_hex_char: "d < 16 \<Longrightarrow> of_char (hex_char d) = (if d < 10 then 48 + d else 55 + d :: nat)"
  by (auto simp: hex_char_def)

lemma hex_digit_simps [simp]: "d < 16 \<Longrightarrow> is_hex (hex_char d)" "d < 16 \<Longrightarrow> hex_digit_value (hex_char d) = d"
  by (auto simp: is_hex_def hex_digit_value_def is_digit_def of_char_hex_char)

lemma special_small:
  assumes "c = DQ \<or> c = SQ \<or> bad_char False c"
  shows "(of_char c :: nat) < 128"
  using assms by (auto simp: bad_char_def Let_def)

text \<open>The escape gives the character back.\<close>

lemma escape_back:
  assumes "(of_char c :: nat) < 128"
  shows "toml_ucs_to_utf8 (hex_number [CHR ''0'', CHR ''0'', hex_char (of_char c div 16), hex_char (of_char c mod 16)]) = Some [c]"
proof -
  have "hex_number [CHR ''0'', CHR ''0'', hex_char (of_char c div 16), hex_char (of_char c mod 16)] = int (of_char c)"
    using assms by (simp add: hex_number_def) (simp add: hex_digit_value_def is_digit_def)
  moreover have "byte (int (of_char c)) = c"
    by (simp add: byte_def)
  ultimately show ?thesis
    using assms by (simp add: toml_ucs_to_utf8_def Let_def)
qed

lemma scan_quote_char: "scan_basic (quote_char c @ p) False 0 n = scan_basic p False 0 (n + length (quote_char c))"
proof -
  have "is_hex (CHR ''0'')"
    by (simp add: is_hex_def is_digit_def)
  moreover have "of_char c div 16 < (16 :: nat)"
    by (simp add: less_mult_imp_div_less)
  moreover have "c \<noteq> NL" if "\<not> bad_char False c"
    using that by (auto simp: bad_char_def)
  ultimately show ?thesis
    by (auto simp: quote_char_def plain_escape_def)
qed

lemma scan_quoted: "scan_basic (quote_body s @ DQ # rest) False 0 n = Some (n + length (quote_body s))"
  by (induction s arbitrary: n) (simp_all add: scan_quote_char)

lemma quoted_hd: "s \<noteq> [] \<Longrightarrow> \<exists>c p. quote_body s = c # p \<and> c \<noteq> DQ"
  by (cases s) (auto simp: quote_char_def)

lemma scan_quote:
  assumes "take 1 rest \<noteq> [DQ]"
  shows "scan_string lineno d (quote s @ rest) = Inr (length (quote s))"
proof -
  have "\<not> triple DQ (quote s @ rest)"
    using assms quoted_hd [of s] by (cases "s = []"; cases rest) (auto simp: triple_def quote_def numeral_3_eq_3)
  then show ?thesis
    by (simp add: scan_string_def quote_def scan_quoted triple_def char_at_def numeral_3_eq_3)
qed

subsection \<open>Reading strings back\<close>

text \<open>With memory that does not run out.\<close>

lemma allocT_Nil: "allocT e [] = (Inr (), [])"
  by (simp add: allocT_def)

lemma two_allocs_Nil: "two_allocs [] = (Inr (), [])"
  by (simp add: two_allocs_def bindT_def allocT_Nil)

lemma bindT_Inr: "f m = (Inr a, m') \<Longrightarrow> bindT f g m = g a m'"
  by (simp add: bindT_def)

lemma room_Nil: "\<exists>b. room e off bufmax [] = (Inr b, [])"
  by (simp add: room_def bindT_def allocT_Nil returnT_def)

text \<open>One turn of the loop on an escaped and on a plain character.\<close>

lemma norm_turn:
  assumes "room e (length dst) bufmax [] = (Inr b, [])"
  shows "norm_basic_str e False (BS # BS # p) bufmax dst [] = norm_basic_str e False p b (dst @ [BS]) []"
    and "c \<noteq> BS \<Longrightarrow> \<not> bad_char False c \<Longrightarrow>
      norm_basic_str e False (c # p) bufmax dst [] = norm_basic_str e False p b (dst @ [c]) []"
    and "list_all is_hex h \<Longrightarrow> length h = 4 \<Longrightarrow> toml_ucs_to_utf8 (hex_number h) = Some u \<Longrightarrow>
      norm_basic_str e False (BS # CHR ''u'' # h @ p) bufmax dst [] = norm_basic_str e False p b (dst @ u) []"
  using assms by (subst norm_basic_str.simps, simp add: bindT_def escape_value_def Let_def)+

lemma norm_quote_char:
  "\<exists>b. norm_basic_str e False (quote_char c @ p) bufmax dst [] = norm_basic_str e False p b (dst @ [c]) []"
proof -
  obtain b where b: "room e (length dst) bufmax [] = (Inr b, [])"
    using room_Nil by blast
  consider "c = BS" | "c \<noteq> BS" "c = DQ \<or> c = SQ \<or> bad_char False c" | "c \<noteq> BS" "\<not> (c = DQ \<or> c = SQ \<or> bad_char False c)"
    by blast
  then have "norm_basic_str e False (quote_char c @ p) bufmax dst [] = norm_basic_str e False p b (dst @ [c]) []"
  proof cases
    case 2
    let ?h = "[CHR ''0'', CHR ''0'', hex_char (of_char c div 16), hex_char (of_char c mod 16)]"
    have "quote_char c @ p = BS # CHR ''u'' # ?h @ p"
      using 2 by (simp add: quote_char_def)
    moreover have "list_all is_hex ?h"
      by (simp add: less_mult_imp_div_less) (simp add: is_hex_def is_digit_def)
    ultimately show ?thesis
      using norm_turn(3) [OF b _ _ escape_back [OF special_small [OF 2(2)]], of p] by simp
  qed (simp_all add: quote_char_def norm_turn [OF b])
  then show ?thesis ..
qed

lemma norm_quoted: "norm_basic_str e False (quote_body s) bufmax dst [] = (Inr (dst @ s), [])"
proof (induction s arbitrary: bufmax dst)
  case Nil
  obtain b where "room e (length dst) bufmax [] = (Inr b, [])"
    using room_Nil by blast
  then show ?case
    by (simp add: norm_basic_str.simps [of e False "[]"] bindT_Inr returnT_def)
next
  case (Cons c s)
  then show ?case
    using norm_quote_char [of e c "quote_body s" bufmax dst] by auto
qed

lemma rtos_quote: "toml_rtos (Some (quote s)) [] = (Inr s, [])"
proof -
  have "\<not> (DQ = char_at (quote s) 1 \<and> DQ = char_at (quote s) 2)"
    using quoted_hd [of s] by (cases "s = []") (auto simp: quote_def char_at_def NUL_def)
  moreover have "body_of 1 (quote s) = quote_body s" "drop (length (quote s) - 1) (quote s) = [DQ]" "char_at (quote s) 0 = DQ"
    "2 \<le> length (quote s)"
    by (simp_all add: body_of_def quote_def char_at_def)
  ultimately show ?thesis
    by (simp add: toml_rtos_def Let_def norm_quoted) metis
qed

subsection \<open>Documents of strings\<close>

text \<open>A key that needs no quotes and cannot be taken for a date.\<close>

definition bare_key :: "string \<Rightarrow> bool" where
  "bare_key k \<longleftrightarrow> k \<noteq> [] \<and> \<not> is_digit (hd k) \<and> list_all (\<lambda>c. is_alnum c \<or> c = CHR ''_'' \<or> c = CHR ''-'') k"

definition print_line :: "string \<times> string \<Rightarrow> string" where
  "print_line kv = fst kv @ '' = '' @ quote (snd kv) @ [NL]"

definition print_doc :: "(string \<times> string) list \<Rightarrow> string" where
  "print_doc kvs = concat (map print_line kvs)"

text \<open>The token after one that ends where \<open>rest\<close> starts.\<close>

lemma next_token_at:
  assumes "tk_ptr tok + tk_len tok = length pre" and "p = drop (skip_blanks False rest) rest"
  shows "\<exists>l. next_token (pre @ rest) d tok = (case p of [] \<Rightarrow> Inr (set_eof (pre @ rest) l)
     | c # _ \<Rightarrow> (case punctuation d c of
         Some t \<Rightarrow> Inr (set_token t l (length pre + skip_blanks False rest) 1)
       | None \<Rightarrow> (case scan_string l d p of Inl e \<Rightarrow> Inl e
         | Inr len \<Rightarrow> Inr (set_token STRING l (length pre + skip_blanks False rest) len))))"
proof -
  have "drop (tk_len tok) (drop (tk_ptr tok) (pre @ rest)) = rest"
    using assms(1) by (simp add: add.commute)
  then show ?thesis
    by (intro exI [of _ "tk_line tok + length (filter (\<lambda>c. c = NL) (take (tk_len tok) (drop (tk_ptr tok) (pre @ rest))))"])
      (simp only: next_token_def Let_def assms)
qed

lemma bare_char_key: "is_alnum c \<or> c = CHR ''_'' \<or> c = CHR ''-'' \<Longrightarrow> bare_char True c"
  by (auto simp: bare_char_def is_alnum_def is_digit_def is_upper_def is_lower_def)

lemma bare_key_hd:
  assumes "bare_key k"
  obtains c k' where "k = c # k'" "is_alnum c \<or> c = CHR ''_'' \<or> c = CHR ''-''" "\<not> is_digit c"
  using assms by (cases k) (auto simp: bare_key_def)

lemma key_char_plain:
  assumes "is_alnum c \<or> c = CHR ''_'' \<or> c = CHR ''-''"
  shows "c \<noteq> SQ" "c \<noteq> DQ" "\<not> is_blank c" "c \<noteq> CHR ''#''" "punctuation d c = None"
proof -
  have "c \<notin> set [SQ, DQ, SP, HT, CR, NL, CHR ''#'', CHR ''.'', CHR '','', CHR ''='', CHR ''{'', CHR ''}'', CHR ''['', CHR '']'']"
    using assms unfolding set_simps insert_iff empty_iff
    by (intro notI, elim disjE) (simp_all add: is_alnum_def is_digit_def is_upper_def is_lower_def)
  then show "c \<noteq> SQ" "c \<noteq> DQ" "\<not> is_blank c" "c \<noteq> CHR ''#''" "punctuation d c = None"
    by (simp_all add: is_blank_def punctuation_def)
qed

lemma bare_char_ends: "\<not> bare_char True SP" "\<not> bare_char True (CHR ''.'')" "\<not> bare_char True (CHR '']'')"
  by (simp_all add: bare_char_def is_digit_def is_upper_def is_lower_def)

lemma scan_key:
  assumes "bare_key k" and "\<not> bare_char True e"
  shows "scan_string l True (k @ e # p) = Inr (length k)"
proof -
  obtain c k' where k: "k = c # k'" "is_alnum c \<or> c = CHR ''_'' \<or> c = CHR ''-''" "\<not> is_digit c"
    using assms(1) by (rule bare_key_hd)
  have "takeWhile (bare_char True) (k @ e # p) = k"
    using assms by (auto simp: bare_key_def list_all_iff takeWhile_append bare_char_key)
  moreover have "scan_date (k @ p) = None" "scan_time (k @ p) = None" for p
    using k by (simp_all add: scan_date_def scan_time_def scan_three_def scan_digits_def)
  ultimately show ?thesis
    using k key_char_plain [OF k(2)] by (simp add: scan_string_def triple_def char_at_def)
qed

lemma normalize_bare:
  assumes "bare_key k"
  shows "normalize_key (pre @ k @ p) (set_token STRING l (length pre) (length k)) [] = (Inr k, [])"
proof -
  obtain c k' where k: "k = c # k'" "is_alnum c \<or> c = CHR ''_'' \<or> c = CHR ''-''" "\<not> is_digit c"
    using assms by (rule bare_key_hd)
  have "list_all (\<lambda>c. is_alnum c \<or> c = CHR ''_'' \<or> c = CHR ''-'') k"
    using assms by (simp add: bare_key_def)
  then show ?thesis
    using k key_char_plain [OF k(2)]
    by (simp add: normalize_key_def set_token_def Let_def char_at_def bindT_def allocT_Nil returnT_def)
qed

text \<open>The tokens of a line.\<close>

lemma next_equal:
  "tk_ptr tok + tk_len tok = length pre \<Longrightarrow> \<exists>l. next_token (pre @ '' = '' @ p) True tok = Inr (set_token EQUAL l (length pre + 1) 1)"
  using next_token_at [of tok pre "''= '' @ p" "'' = '' @ p" True] by (simp add: is_blank_def punctuation_def)

lemma next_quote:
  assumes "tk_ptr tok + tk_len tok = length pre"
  shows "\<exists>l. next_token (pre @ SP # quote s @ NL # p) False tok = Inr (set_token STRING l (length pre + 1) (length (quote s)))"
proof -
  have "skip_blanks False (SP # quote s @ NL # p) = 1"
    by (simp add: is_blank_def quote_def)
  with scan_quote [of "NL # p" _ False s] next_token_at [OF assms, of "quote s @ NL # p" "SP # quote s @ NL # p" False]
  show ?thesis
    by (simp add: quote_def punctuation_def)
qed

lemma next_newline:
  "tk_ptr tok + tk_len tok = length pre \<Longrightarrow> \<exists>l. next_token (pre @ NL # p) True tok = Inr (set_token NEWLINE l (length pre) 1)"
  using next_token_at [of tok pre "NL # p" "NL # p" True] by (simp add: is_blank_def punctuation_def)

lemma next_key:
  assumes "tk_ptr tok + tk_len tok = length pre" and key: "bare_key k" "\<not> bare_char True e"
  shows "\<exists>l. next_token (pre @ k @ e # p) True tok = Inr (set_token STRING l (length pre) (length k))"
proof -
  obtain c k' where k: "k = c # k'" "is_alnum c \<or> c = CHR ''_'' \<or> c = CHR ''-''"
    using key(1) by (rule bare_key_hd)
  let ?p = "k @ e # p"
  have "skip_blanks False ?p = 0"
    using k key_char_plain [OF k(2)] by simp
  then show ?thesis
    using next_token_at [OF assms(1), of ?p ?p True] scan_key [OF key] k key_char_plain [OF k(2)] by simp
qed

text \<open>The token at the start of a line.\<close>

definition line_token :: "string \<Rightarrow> (string \<times> string) list \<Rightarrow> token \<Rightarrow> bool" where
  "line_token pre kvs tok \<longleftrightarrow> (\<exists>l. tok = (case kvs of [] \<Rightarrow> set_eof pre l | kv # _ \<Rightarrow> set_token STRING l (length pre) (length (fst kv))))"

lemma next_line_token:
  assumes "tk_ptr tok + tk_len tok = length pre" and "\<forall>kv\<in>set kvs. bare_key (fst kv)"
  shows "\<exists>t. next_token (pre @ print_doc kvs) True tok = Inr t \<and> line_token pre kvs t"
proof (cases kvs)
  case Nil
  then show ?thesis
    using next_token_at [OF assms(1), of "[]" "[]" True] by (auto simp: line_token_def print_doc_def)
next
  case (Cons kv rest)
  then have "bare_key (fst kv)"
    using assms(2) by simp
  from next_key [OF assms(1) this bare_char_ends(1), of "CHR ''='' # SP # quote (snd kv) @ NL # print_doc rest"] show ?thesis
    using Cons by (auto simp: line_token_def print_doc_def print_line_def)
qed

lemma parse_keyval_line:
  assumes key: "bare_key k" and new: "check_key tab k = NotFound" and writable: "\<not> t_readonly tab"
  shows "\<exists>l. parse_keyval (Suc n) strtod (pre @ k @ '' = '' @ quote s @ NL # p) (set_token STRING l0 (length pre) (length k)) tab [] =
    (Inr (set_token NEWLINE l (length (pre @ k @ '' = '' @ quote s)) 1, set_kvals (t_kvals tab @ [(k, quote s)]) tab), [])"
proof -
  let ?conf = "pre @ k @ '' = '' @ quote s @ NL # p" and ?key = "set_token STRING l0 (length pre) (length k)"
  obtain l1 where eq: "next_token ?conf True ?key = Inr (set_token EQUAL l1 (length (pre @ k) + 1) 1)"
    using next_equal [of ?key "pre @ k" "quote s @ NL # p"] by (auto simp: set_token_def)
  obtain l2 where val: "next_token ?conf False (set_token EQUAL l1 (length (pre @ k) + 1) 1) =
      Inr (set_token STRING l2 (length (pre @ k @ '' ='') + 1) (length (quote s)))"
    using next_quote [of "set_token EQUAL l1 (length (pre @ k) + 1) 1" "pre @ k @ '' =''" s p] by (auto simp: set_token_def)
  obtain l3 where nl: "next_token ?conf True (set_token STRING l2 (length (pre @ k @ '' ='') + 1) (length (quote s))) =
      Inr (set_token NEWLINE l3 (length (pre @ k @ '' = '' @ quote s)) 1)"
    using next_newline [of "set_token STRING l2 (length (pre @ k @ '' ='') + 1) (length (quote s))" "pre @ k @ '' = '' @ quote s" p]
    by (auto simp: set_token_def)
  have "create_keyval_in_table ?conf tab ?key (quote s) [] = (Inr (set_kvals (t_kvals tab @ [(k, quote s)]) tab), [])"
    using normalize_bare [OF key, of pre "'' = '' @ quote s @ NL # p" l0] new
    by (simp add: create_keyval_in_table_def bindT_def two_allocs_Nil allocT_Nil returnT_def)
  moreover have "token_text ?conf (set_token STRING l2 (length (pre @ k @ '' ='') + 1) (length (quote s))) = quote s"
    by (simp add: token_text_def set_token_def)
  ultimately show ?thesis
    unfolding parse_keyval.simps
    using writable eq val nl by (simp add: bindT_def liftT_def eat_token_def returnT_def) (simp add: set_token_def)
qed

definition quote_all :: "(string \<times> string) list \<Rightarrow> (string \<times> string) list" where
  "quote_all kvs = map (\<lambda>kv. (fst kv, quote (snd kv))) kvs"

lemma set_kvals_same: "set_kvals (t_kvals t) t = t"
  by (simp add: set_kvals_def)

lemma parse_lines_doc:
  assumes "line_token pre kvs tok" and "\<forall>kv\<in>set kvs. bare_key (fst kv)" and "distinct (map fst kvs)"
    and "\<forall>kv\<in>set kvs. Some (fst kv) \<notin> set (tab_keys root)" and "\<not> t_readonly root" and "length kvs < j"
  shows "parse_lines j (Suc n) strtod (pre @ print_doc kvs) tok root [] [] =
    (Inr (set_kvals (t_kvals root @ quote_all kvs) root), [])"
  using assms
proof (induction kvs arbitrary: pre tok root j)
  case Nil
  then obtain j' where "j = Suc j'"
    by (cases j) simp_all
  with Nil show ?case
    by (auto simp: line_token_def set_eof_def set_token_def returnT_def set_kvals_same quote_all_def)
next
  case (Cons kv kvs)
  obtain k s where kv: "kv = (k, s)"
    by (cases kv)
  obtain j' where j: "j = Suc j'"
    using Cons.prems(6) by (cases j) simp_all
  let ?pre = "pre @ k @ '' = '' @ quote s @ [NL]" and ?root = "set_kvals (t_kvals root @ [(k, quote s)]) root"
  have conf: "pre @ print_doc (kv # kvs) = ?pre @ print_doc kvs"
    by (simp add: print_doc_def print_line_def kv)
  obtain l where tok: "tok = set_token STRING l (length pre) (length k)"
    using Cons.prems(1) kv by (auto simp: line_token_def)
  obtain l' where keyval: "parse_keyval (Suc n) strtod (?pre @ print_doc kvs) tok root [] =
      (Inr (set_token NEWLINE l' (length (pre @ k @ '' = '' @ quote s)) 1, ?root), [])"
    using parse_keyval_line [of k root n strtod pre s "print_doc kvs" l] Cons.prems(2,4,5) kv tok
    by (auto simp: check_key_NotFound)
  obtain t where t: "next_token (?pre @ print_doc kvs) True (set_token NEWLINE l' (length (pre @ k @ '' = '' @ quote s)) 1) = Inr t"
      "line_token ?pre kvs t"
    using next_line_token [of "set_token NEWLINE l' (length (pre @ k @ '' = '' @ quote s)) 1" ?pre kvs] Cons.prems(2)
    by (auto simp: set_token_def)
  have "tab_keys ?root = map (\<lambda>kv. Some (fst kv)) (t_kvals root) @ Some k # map a_key (t_arrs root) @ map t_key (t_tabs root)"
    by (simp add: tab_keys_def)
  then have "parse_lines j' (Suc n) strtod (?pre @ print_doc kvs) t ?root [] [] =
      (Inr (set_kvals (t_kvals ?root @ quote_all kvs) ?root), [])"
    using Cons.prems kv j by (intro Cons.IH [OF t(2)]) (auto simp: tab_keys_def)
  moreover have "eat_token (?pre @ print_doc kvs) NEWLINE True (set_token NEWLINE l' (length (pre @ k @ '' = '' @ quote s)) 1) = Inr t"
    using t(1) by (simp add: eat_token_def) (simp add: set_token_def)
  ultimately show ?case
    using keyval unfolding conf j parse_lines.simps
    by (simp add: tok set_token_def bindT_def liftT_def kv quote_all_def) (simp add: set_kvals_def)
qed

lemma quote_char_cstr: "is_cstr (quote_char c)"
proof -
  have "NUL \<noteq> hex_char d" if "d < 16" for d
  proof
    assume "NUL = hex_char d"
    then have "(of_char (hex_char d) :: nat) = of_char NUL"
      by simp
    then show False
      using that by (simp add: of_char_hex_char NUL_def split: if_splits)
  qed
  moreover have "of_char c div 16 < (16 :: nat)"
    by (simp add: less_mult_imp_div_less)
  moreover have "bad_char False NUL"
    by (simp add: bad_char_def NUL_def)
  ultimately show ?thesis
    by (auto simp: quote_char_def is_cstr_def) (simp_all add: NUL_def)
qed

lemma quote_cstr: "is_cstr (quote s)"
  using quote_char_cstr by (induction s) (auto simp: quote_def is_cstr_def NUL_def)

lemma print_line_cstr: "bare_key (fst kv) \<Longrightarrow> is_cstr (print_line kv)"
proof -
  assume "bare_key (fst kv)"
  then have "is_cstr (fst kv)"
    by (auto simp: bare_key_def is_cstr_def list_all_iff is_alnum_def is_digit_def is_upper_def is_lower_def NUL_def)
  with quote_cstr [of "snd kv"] show ?thesis
    by (auto simp: print_line_def is_cstr_def NUL_def)
qed

lemma print_doc_cstr: "\<forall>kv\<in>set kvs. bare_key (fst kv) \<Longrightarrow> cstr (print_doc kvs) = print_doc kvs"
  using print_line_cstr by (fastforce simp: print_doc_def cstr_def is_cstr_def takeWhile_eq_all_conv)

lemma parse_print_doc:
  assumes keys: "\<forall>kv\<in>set kvs. bare_key (fst kv)" "distinct (map fst kvs)"
  shows "toml_parse strtod (print_doc kvs) [] = (Inr (Tab None False False (quote_all kvs) [] []), [])"
proof -
  let ?conf = "print_doc kvs" and ?start = "set_token NEWLINE 1 0 0"
  obtain t where t: "next_token ?conf True ?start = Inr t" "line_token [] kvs t"
    using next_line_token [of ?start "[]" kvs] keys(1) by (auto simp: set_token_def)
  have "length kvs \<le> length ?conf"
    by (induction kvs) (auto simp: print_doc_def print_line_def)
  then have "parse_lines (Suc (length ?conf)) (Suc (2 * length ?conf)) strtod ?conf t (new_tab None) [] [] =
      (Inr (set_kvals (t_kvals (new_tab None) @ quote_all kvs) (new_tab None)), [])"
    using parse_lines_doc [OF t(2) keys, of "new_tab None" "Suc (length ?conf)" "2 * length ?conf" strtod]
    by (simp add: new_tab_def tab_keys_def del: parse_lines.simps)
  then show ?thesis
    using t(1) by (simp add: toml_parse_def Let_def print_doc_cstr [OF keys(1)] bindT_def allocT_Nil liftT_def
        parse_lines.simps(2) [of "Suc (length ?conf)"] set_token_def new_tab_def set_kvals_def del: parse_lines.simps)
qed

lemma find_index_map_of:
  "map_option (\<lambda>i. snd (quote_all kvs ! i)) (find_index (\<lambda>kv. fst kv = k) (quote_all kvs)) = map_option quote (map_of kvs k)"
  by (induction kvs) (auto simp: quote_all_def option.map_comp comp_def)

lemma string_in_doc:
  "toml_string_in (Tab None False False (quote_all kvs) [] []) k [] = (case map_of kvs k of None \<Rightarrow> Inl BadValue | Some s \<Rightarrow> Inr s, [])"
proof -
  have "toml_raw_in (Tab None False False (quote_all kvs) [] []) k = map_option quote (map_of kvs k)"
    by (simp add: toml_raw_in_def key_val_def find_index_map_of)
  then show ?thesis
    by (cases "map_of kvs k") (simp_all add: toml_string_in_def rtos_quote, simp add: toml_rtos_def failT_def)
qed

subsection \<open>Properties\<close>

text \<open>C26: Strings survive: a document of strings under distinct bare keys, each string written with its control
  characters, quotes and backslashes as escapes, is read without an error; looking up a key then gives
  back the very string written under it, and an error for every other key.\<close>

theorem toml_strings_roundtrip:
  assumes "\<forall>kv\<in>set kvs. bare_key (fst kv)" and "distinct (map fst kvs)"
  shows "\<exists>doc. toml_parse strtod (print_doc kvs) [] = (Inr doc, []) \<and>
    (\<forall>k. toml_string_in doc k [] = (case map_of kvs k of None \<Rightarrow> Inl BadValue | Some s \<Rightarrow> Inr s, []))"
  using parse_print_doc [OF assms] string_in_doc by blast

theorem toml_strings_roundtrip_witness:
  "\<exists>doc. toml_parse (\<lambda>_. None :: unit option)
      (print_doc [(''path'', ''/tmp/'' @ [SQ, SQ, SQ, DQ, NL, BS]), (''mode-2'', [])]) [] = (Inr doc, []) \<and>
    (\<forall>k. toml_string_in doc k [] =
      (case map_of [(''path'', ''/tmp/'' @ [SQ, SQ, SQ, DQ, NL, BS]), (''mode-2'', [])] k of None \<Rightarrow> Inl BadValue | Some s \<Rightarrow> Inr s, []))"
  by (rule toml_strings_roundtrip) (simp_all add: bare_key_def is_alnum_def is_digit_def is_lower_def is_upper_def)

end
