(* ===== verification/Toml_Document.thy ===== *)
theory Toml_Document
  imports Toml_Roundtrip Policy_Process
begin

text \<open>
  From the parser's documents to those of the policy loader: \<open>Policy_Loader\<close> is written over a tree that holds
  the converted values, and asks it through functions of its own. Here that tree is made from the
  document of \<open>src/subprojects/tomlc99/toml.c\<close>, the two sets of access functions are shown to agree, and the
  loader is run on the text of a policy.
\<close>

subsection \<open>Converted values\<close>

text \<open>What \<open>toml_rtos\<close>, \<open>toml_rtoi\<close> and \<open>toml_rtob\<close> make of the text of a value.\<close>

definition raw_string :: "string \<Rightarrow> string option" where
  "raw_string val = (case fst (toml_rtos (Some val) []) of Inl e \<Rightarrow> None | Inr s \<Rightarrow> Some s)"

definition raw_of :: "string \<Rightarrow> toml_raw" where
  "raw_of val = (case raw_string val of Some s \<Rightarrow> RString s
     | None \<Rightarrow> (case toml_rtoi (Some val) of Some n \<Rightarrow> RInt n
       | None \<Rightarrow> (case toml_rtob (Some val) of Some b \<Rightarrow> RBool b | None \<Rightarrow> ROther)))"

text \<open>No text is converted in two ways.\<close>

lemma raw_string_quote: "\<not> (char_at val 0 = SQ \<or> char_at val 0 = DQ) \<Longrightarrow> raw_string val = None"
  by (simp add: raw_string_def toml_rtos_def failT_def)

lemma rtoi_quote:
  assumes "c = SQ \<or> c = DQ"
  shows "toml_rtoi (Some (c # s)) = None"
proof -
  have "split_sign (c # t) = ([], c # t)" "base_prefix 0 (c # t) = (10, c # t)" "dropWhile is_white (c # t) = c # t"
    "takeWhile (\<lambda>c. base_digit 10 c \<noteq> None) (c # t) = []" "c \<noteq> CHR ''_''" "c \<noteq> CHR ''0''" for t
    using assms by (elim disjE; simp add: split_sign_def base_prefix_def char_at_def is_white_def base_digit_def
        is_digit_def is_upper_def is_lower_def)+
  then show ?thesis
    by (simp add: toml_rtoi_def rtoi_digits_def strtoll_def char_at_def split: option.split)
qed

lemma rtob_other:
  "toml_rtob (Some val) = Some b \<Longrightarrow> raw_string val = None \<and> toml_rtoi (Some val) = None"
  by (auto simp: toml_rtob_def split: if_splits) code_simp+

lemma raw_of_iff:
  "raw_of val = RString s \<longleftrightarrow> raw_string val = Some s"
  "raw_of val = RInt n \<longleftrightarrow> toml_rtoi (Some val) = Some n"
  "raw_of val = RBool b \<longleftrightarrow> toml_rtob (Some val) = Some b"
proof -
  have "toml_rtoi (Some val) = None" if "raw_string val \<noteq> None"
  proof (cases val)
    case Nil
    with that show ?thesis
      using raw_string_quote [of val] by (simp add: char_at_def NUL_def)
  next
    case (Cons c s)
    with that show ?thesis
      using raw_string_quote [of val] rtoi_quote [of c s] by (cases "c = SQ \<or> c = DQ") (simp_all add: char_at_def)
  qed
  then show "raw_of val = RString s \<longleftrightarrow> raw_string val = Some s"
    "raw_of val = RInt n \<longleftrightarrow> toml_rtoi (Some val) = Some n"
    "raw_of val = RBool b \<longleftrightarrow> toml_rtob (Some val) = Some b"
    using rtob_other [of val] by (auto simp: raw_of_def split: option.splits)
qed

subsection \<open>The loader's tree\<close>

fun doc_tab :: "toml_tab \<Rightarrow> toml_table" and doc_arr :: "toml_arr \<Rightarrow> toml_item list" and doc_elem :: "toml_elem \<Rightarrow> toml_item" where
  "doc_tab (Tab key implicit ro kvs arrs tabs) = Table (map (\<lambda>kv. (fst kv, raw_of (snd kv))) kvs)
     (map (\<lambda>a. (the (a_key a), doc_arr a)) arrs) (map (\<lambda>t. (the (t_key t), doc_tab t)) tabs)"
| "doc_arr (Arr key kind type its) = map doc_elem its"
| "doc_elem (ElVal vt val) = IVal (raw_of val)"
| "doc_elem (ElArr a) = IArr (doc_arr a)"
| "doc_elem (ElTab t) = ITab (doc_tab t)"

lemma doc_tab_sel:
  "kval (doc_tab t) = map (\<lambda>kv. (fst kv, raw_of (snd kv))) (t_kvals t)"
  "arr (doc_tab t) = map (\<lambda>a. (the (a_key a), doc_arr a)) (t_arrs t)"
  "tab (doc_tab t) = map (\<lambda>s. (the (t_key s), doc_tab s)) (t_tabs t)"
  by (cases t; simp)+

lemma doc_arr_items: "doc_arr a = map doc_elem (a_items a)"
  by (cases a) simp

lemma map_of_find:
  "list_all (\<lambda>x. (f x = k) = P x) xs \<Longrightarrow> map_of (map (\<lambda>x. (f x, g x)) xs) k = map_option (\<lambda>i. g (xs ! i)) (find_index P xs)"
  by (induction xs) (auto simp: option.map_comp comp_def)

lemma keys_there:
  assumes "wf_tab t"
  shows "list_all (\<lambda>a. (the (a_key a) = k) = (a_key a = Some k)) (t_arrs t)"
    and "list_all (\<lambda>s. (the (t_key s) = k) = (t_key s = Some k)) (t_tabs t)"
proof -
  have there: "list_all (\<lambda>x. (the (f x) = k) = (f x = Some k)) xs" if "None \<notin> set (map f xs)" for f :: "'a \<Rightarrow> string option" and xs
    using that by (induction xs) auto
  have "None \<notin> set (map a_key (t_arrs t))" "None \<notin> set (map t_key (t_tabs t))"
    using assms by (simp_all add: wf_tab_iff [of t] tab_keys_def)
  from this [THEN there] show "list_all (\<lambda>a. (the (a_key a) = k) = (a_key a = Some k)) (t_arrs t)"
    "list_all (\<lambda>s. (the (t_key s) = k) = (t_key s = Some k)) (t_tabs t)"
    by simp_all
qed

text \<open>A function that is defined on the values of one constructor.\<close>

lemma view_option:
  assumes "\<And>a. r = C a \<longleftrightarrow> x = Some a" and "\<And>a. f (C a) = Some (h a)" and "(\<And>a. r \<noteq> C a) \<Longrightarrow> f r = None"
  shows "f r = map_option h x"
proof (cases x)
  case (Some a)
  then show ?thesis
    using assms(1) [of a] assms(2) [of a] by simp
qed (use assms(1,3) in simp)

lemma raw_views:
  shows raw_view_string: "(case raw_of v of RString s \<Rightarrow> Some (cstr s) | _ \<Rightarrow> None) = map_option cstr (raw_string v)"
    and raw_view_int: "(case raw_of v of RInt n \<Rightarrow> Some n | _ \<Rightarrow> None) = map_option (\<lambda>n. n) (toml_rtoi (Some v))"
    and raw_view_bool: "(case raw_of v of RBool b \<Rightarrow> Some b | _ \<Rightarrow> None) = map_option (\<lambda>b. b) (toml_rtob (Some v))"
  by (rule view_option [OF raw_of_iff(1)] view_option [OF raw_of_iff(2)] view_option [OF raw_of_iff(3)]; simp split: toml_raw.split)+

lemma raw_in_doc_tab: "map_of (kval (doc_tab t)) k = map_option raw_of (toml_raw_in t k)"
  by (simp add: doc_tab_sel map_of_find [of _ k "\<lambda>kv. fst kv = k"] list_all_iff toml_raw_in_def key_val_def option.map_comp comp_def)

lemma raw_string_rtos: "(case fst (toml_rtos v []) of Inl e \<Rightarrow> None | Inr s \<Rightarrow> Some (cstr s)) = map_option cstr (Option.bind v raw_string)"
  by (cases v) (simp_all add: toml_rtos_def failT_def raw_string_def split: sum.split)

lemma conversions_None: "toml_rtoi None = None" "toml_rtob None = None"
  by (simp_all add: toml_rtoi_def toml_rtob_def)

lemma values_in_doc:
  "string_in (doc_tab t) k = (case fst (toml_string_in t k []) of Inl e \<Rightarrow> None | Inr s \<Rightarrow> Some (cstr s))"
  "int_in (doc_tab t) k = toml_int_in t k"
  "bool_in (doc_tab t) k = toml_bool_in t k"
  unfolding string_in_def int_in_def bool_in_def raw_in_doc_tab toml_string_in_def raw_string_rtos toml_int_in_def toml_bool_in_def
  by (cases "toml_raw_in t k"; simp add: raw_views option.map_ident conversions_None)+

lemma containers_in_doc:
  assumes "wf_tab t"
  shows "array_in (doc_tab t) k = map_option doc_arr (toml_array_in t k)"
    and "table_in (doc_tab t) k = map_option doc_tab (toml_table_in t k)"
  by (simp_all add: array_in_def table_in_def doc_tab_sel map_of_find [OF keys_there(1) [OF assms]]
      map_of_find [OF keys_there(2) [OF assms]] toml_array_in_def toml_table_in_def key_arr_def key_tab_def option.map_comp comp_def)

lemma table_keys_doc:
  assumes "wf_tab t"
  shows "map Some (table_keys (doc_tab t)) = tab_keys t"
proof -
  have "Some (the k) = k" if "k \<in> set (tab_keys t)" for k
    using assms that by (cases k) (auto simp: wf_tab_iff)
  then show ?thesis
    by (auto simp: table_keys_def doc_tab_sel tab_keys_def)
qed

lemma key_in_nth: "toml_key_in t i = (if i < length (tab_keys t) then tab_keys t ! i else None)"
  by (auto simp: toml_key_in_def tab_keys_def nth_append Let_def)

lemma key_exists_doc:
  assumes "wf_tab t"
  shows "key_exists (doc_tab t) k \<longleftrightarrow> toml_key_exists t k"
proof -
  have "key_exists (doc_tab t) k \<longleftrightarrow> Some k \<in> set (map Some (table_keys (doc_tab t)))"
    by (auto simp: key_exists_def)
  also have "\<dots> \<longleftrightarrow> check_key t k \<noteq> NotFound"
    by (simp add: table_keys_doc [OF assms] check_key_NotFound)
  also have "\<dots> \<longleftrightarrow> toml_key_exists t k"
    by (simp add: toml_key_exists_def check_key_def split: option.split)
  finally show ?thesis .
qed

lemma items_in_doc:
  assumes "i < length (doc_arr a)"
  shows "string_at (doc_arr a ! i) = (case fst (toml_string_at a (int i) []) of Inl e \<Rightarrow> None | Inr s \<Rightarrow> Some (cstr s))"
    and "table_at (doc_arr a ! i) = map_option doc_tab (toml_table_at a (int i))"
proof -
  have "string_at (IVal r) = (case r of RString s \<Rightarrow> Some (cstr s) | _ \<Rightarrow> None)" for r
    by (cases r) simp_all
  then show "string_at (doc_arr a ! i) = (case fst (toml_string_at a (int i) []) of Inl e \<Rightarrow> None | Inr s \<Rightarrow> Some (cstr s))"
    using assms by (cases "a_items a ! i") (simp_all add: doc_arr_items toml_string_at_def raw_string_rtos toml_raw_at_def item_at_def raw_views)
  show "table_at (doc_arr a ! i) = map_option doc_tab (toml_table_at a (int i))"
    using assms by (cases "a_items a ! i") (simp_all add: doc_arr_items toml_table_at_def item_at_def)
qed

subsection \<open>The text of a policy\<close>

text \<open>A stream is read to its end or not at all.\<close>

lemma ok_read_stream: "ok (read_stream failed rest buf) (\<lambda>s. s = buf @ rest)"
proof (induction failed rest buf rule: read_stream.induct)
  case (1 failed rest buf)
  then show ?case
    unfolding read_stream.simps [of failed rest buf]
    by (intro ok_then [OF ok_alloc] ok_branches) (auto intro!: ok_weaken [OF "1.IH"])
qed

lemma read_stream_Nil: "read_stream False rest buf [] = (Inr (buf @ rest), [])"
proof (induction False rest buf rule: read_stream.induct)
  case (1 rest buf)
  then show ?case
    unfolding read_stream.simps [of False rest buf]
    by (cases "length rest < 1000") (simp_all add: bindT_def allocT_Nil returnT_def)
qed

lemma ok_toml_parse_file: "ok (toml_parse_file strtod failed contents) wf_tab"
  unfolding toml_parse_file_def by (rule ok_bind [OF ok_read_stream ok_toml_parse])

text \<open>The document the loader gets from the contents of a stream.\<close>

definition toml_document :: "(string \<Rightarrow> 'd option) \<Rightarrow> alloc \<Rightarrow> string \<Rightarrow> toml_table option" where
  "toml_document strtod m contents = (case fst (toml_parse_file strtod False contents m) of Inl e \<Rightarrow> None | Inr doc \<Rightarrow> Some (doc_tab doc))"

definition text_describes :: "(string \<Rightarrow> 'd option) \<Rightarrow> alloc \<Rightarrow> string \<Rightarrow> toml_table \<Rightarrow> bool" where
  "text_describes strtod m contents root \<longleftrightarrow>
     (\<exists>doc. fst (toml_parse_file strtod False contents m) = Inr doc \<and> wf_tab doc \<and> root = doc_tab doc)"

interpretation toml: document_source "toml_document strtod m" "text_describes strtod m" for strtod m
proof
  show "text_describes strtod m contents root" if "toml_document strtod m contents = Some root" for contents root
    using that ok_toml_parse_file [of strtod False contents]
    by (auto simp: text_describes_def toml_document_def ok_def dest!: spec [of _ m] split: sum.splits)
qed

subsection \<open>Properties\<close>

text \<open>C27: The loader sees the parser's document as it is: on a well-formed document, what it finds under a key (a
  string, an integer, a boolean, an array, a sub-table), whether a key is there, the keys in their order and
  the items of an array are what the library's access functions return.\<close>

theorem document_refines:
  assumes "wf_tab t"
  shows "string_in (doc_tab t) k = (case fst (toml_string_in t k []) of Inl e \<Rightarrow> None | Inr s \<Rightarrow> Some (cstr s)) \<and>
    int_in (doc_tab t) k = toml_int_in t k \<and> bool_in (doc_tab t) k = toml_bool_in t k \<and>
    array_in (doc_tab t) k = map_option doc_arr (toml_array_in t k) \<and>
    table_in (doc_tab t) k = map_option doc_tab (toml_table_in t k) \<and>
    (key_exists (doc_tab t) k \<longleftrightarrow> toml_key_exists t k) \<and>
    toml_key_in t i = (if i < length (table_keys (doc_tab t)) then Some (table_keys (doc_tab t) ! i) else None) \<and>
    length (doc_arr a) = nat (toml_array_nelem a) \<and>
    (j < length (doc_arr a) \<longrightarrow>
      string_at (doc_arr a ! j) = (case fst (toml_string_at a (int j) []) of Inl e \<Rightarrow> None | Inr s \<Rightarrow> Some (cstr s)) \<and>
      table_at (doc_arr a ! j) = map_option doc_tab (toml_table_at a (int j)))"
proof -
  have "length (table_keys (doc_tab t)) = length (tab_keys t)"
    unfolding table_keys_doc [OF assms, symmetric] by simp
  then have "toml_key_in t i = (if i < length (table_keys (doc_tab t)) then Some (table_keys (doc_tab t) ! i) else None)"
    unfolding key_in_nth table_keys_doc [OF assms, symmetric] by simp
  moreover have "length (doc_arr a) = nat (toml_array_nelem a)"
    by (simp add: doc_arr_items toml_array_nelem_def)
  ultimately show ?thesis
    using values_in_doc [of t k] containers_in_doc [OF assms, of k] key_exists_doc [OF assms, of k] items_in_doc [of j a] by simp
qed

definition sample_tab :: toml_tab where
  "sample_tab = Tab None False False [(''version'', ''1'')]
     [Arr (Some ''deny'') (CHR ''v'') (CHR ''s'') [ElVal (CHR ''s'') (quote ''ptrace'')]] [new_tab (Some ''net'')]"

theorem document_refines_witness:
  "int_in (doc_tab sample_tab) ''version'' = toml_int_in sample_tab ''version'' \<and>
   (key_exists (doc_tab sample_tab) ''version'' \<longleftrightarrow> toml_key_exists sample_tab ''version'') \<and> toml_key_in sample_tab 1 = Some ''deny''"
proof -
  have "wf_tab sample_tab"
    by (simp add: sample_tab_def tab_keys_def wf_tab_iff [of "new_tab _"] NUL_def)
  from document_refines [OF this, of "''version''" 1] show ?thesis
    by (simp add: table_keys_def sample_tab_def)
qed


end
