(* ===== verification/Toml_Policy.thy ===== *)
theory Toml_Policy
  imports Toml_Document
begin

text \<open>
  File-system policies written as TOML: the text that \<open>print_policy\<close> makes of the layers of a policy is parsed
  and loaded back to that policy.
\<close>

subsection \<open>Lists of words\<close>

fun print_items :: "string list \<Rightarrow> string" where
  "print_items [] = '']''"
| "print_items [w] = quote w @ '']''"
| "print_items (w # v # ws) = quote w @ '','' @ print_items (v # ws)"

definition print_array :: "string list \<Rightarrow> string" where
  "print_array ws = ''['' @ print_items ws"

text \<open>An array of strings as the parser builds it.\<close>

definition words :: "string \<Rightarrow> string list \<Rightarrow> toml_arr" where
  "words k ws = (if ws = [] then Arr (Some k) NUL NUL []
     else Arr (Some k) (CHR ''v'') (CHR ''s'') (map (\<lambda>w. ElVal (CHR ''s'') (quote w)) ws))"

lemma add_word: "add_value strtod (quote w) (add_kind (CHR ''v'') (words k ws)) [] = (Inr (words k (ws @ [w])), [])"
proof -
  have "valtype strtod (quote w) = CHR ''s''"
    by (simp add: valtype_def quote_def char_at_def)
  then show ?thesis
    by (cases "ws = []") (simp_all add: add_value_def add_kind_def words_def Let_def bindT_def two_allocs_Nil returnT_def NUL_def)
qed

text \<open>The token of the next item.\<close>

definition item_token :: "nat \<Rightarrow> string list \<Rightarrow> nat \<Rightarrow> token" where
  "item_token l ws p = (case ws of [] \<Rightarrow> set_token RBRACKET l p 1 | w # _ \<Rightarrow> set_token STRING l p (length (quote w)))"

lemma next_item:
  assumes "tk_ptr tok + tk_len tok = length pre"
  shows "\<exists>l. next_token (pre @ print_items ws @ p) False tok = Inr (item_token l ws (length pre))"
proof (cases ws)
  case Nil
  then show ?thesis
    using next_token_at [OF assms, of "'']'' @ p" "'']'' @ p" False] by (simp add: item_token_def is_blank_def punctuation_def)
next
  case (Cons w vs)
  obtain r where r: "print_items ws @ p = quote w @ r" "take 1 r \<noteq> [DQ]"
    using Cons by (cases vs) auto
  have "skip_blanks False (quote w @ r) = 0"
    by (simp add: quote_def is_blank_def)
  with scan_quote [OF r(2)] next_token_at [OF assms, of "quote w @ r" "quote w @ r" False]
  have "\<exists>l. next_token (pre @ quote w @ r) False tok = Inr (set_token STRING l (length pre) (length (quote w)))"
    by (simp add: quote_def punctuation_def)
  then show ?thesis
    using Cons r(1) by (simp add: item_token_def)
qed

lemma next_punctuation:
  assumes "tk_ptr tok + tk_len tok = length pre" and "punctuation d c = Some t" and "\<not> is_blank c" and "c \<noteq> CHR ''#''"
  shows "\<exists>l. next_token (pre @ c # p) d tok = Inr (set_token t l (length pre) 1)"
  using next_token_at [OF assms(1), of "c # p" "c # p" d] assms(2-4) by simp

lemma skip_newlines_same: "tk_tok tok \<noteq> NEWLINE \<Longrightarrow> skip_newlines conf d tok = Inr tok"
  by (simp add: skip_newlines.simps [of conf d tok])

lemma set_token_sel [simp]:
  "tk_tok (set_token t l p n) = t" "tk_line (set_token t l p n) = l" "tk_ptr (set_token t l p n) = p"
  "tk_len (set_token t l p n) = n" "\<not> tk_eof (set_token t l p n)"
  by (simp_all add: set_token_def)

lemma array_items_words:
  assumes "length ws < n"
  shows "\<exists>l'. array_items n strtod (pre @ print_items ws @ p) (item_token l ws (length pre)) (words k vs) [] =
    (Inr (set_token RBRACKET l' (length pre + length (print_items ws) - 1) 1, words k (vs @ ws)), [])"
  using assms
proof (induction ws arbitrary: n pre l vs rule: print_items.induct)
  case 1
  then obtain n' where "n = Suc n'"
    by (cases n) auto
  then show ?case
    by (auto simp: item_token_def array_items.simps bindT_def liftT_def skip_newlines_same returnT_def)
next
  case (2 w)
  then obtain n' where n: "n = Suc n'"
    by (cases n) auto
  let ?conf = "pre @ print_items [w] @ p" and ?tok = "set_token STRING l (length pre) (length (quote w))"
  obtain l1 where t: "next_token ?conf False ?tok = Inr (set_token RBRACKET l1 (length (pre @ quote w)) 1)"
    using next_punctuation [of ?tok "pre @ quote w" False "CHR '']''" RBRACKET p] by (auto simp: punctuation_def is_blank_def)
  have "token_text ?conf ?tok = quote w"
    by (simp add: token_text_def)
  then show ?case
    using t add_word [of strtod w k vs]
    by (auto simp: n item_token_def array_items.simps bindT_def liftT_def skip_newlines_same returnT_def eat_token_def)
next
  case (3 w v ws)
  then obtain n' where n: "n = Suc n'" "length (v # ws) < n'"
    by (cases n) auto
  let ?conf = "pre @ print_items (w # v # ws) @ p" and ?tok = "set_token STRING l (length pre) (length (quote w))"
  let ?pre = "pre @ quote w @ '',''"
  obtain l1 where t: "next_token ?conf False ?tok = Inr (set_token COMMA l1 (length (pre @ quote w)) 1)"
    using next_punctuation [of ?tok "pre @ quote w" False "CHR '',''" COMMA "print_items (v # ws) @ p"]
    by (auto simp: punctuation_def is_blank_def)
  obtain l2 where u: "next_token ?conf False (set_token COMMA l1 (length (pre @ quote w)) 1) = Inr (item_token l2 (v # ws) (length ?pre))"
    using next_item [of "set_token COMMA l1 (length (pre @ quote w)) 1" ?pre "v # ws" p] by auto
  obtain l3 where items: "array_items n' strtod ?conf (item_token l2 (v # ws) (length ?pre)) (words k (vs @ [w])) [] =
      (Inr (set_token RBRACKET l3 (length ?pre + length (print_items (v # ws)) - 1) 1, words k ((vs @ [w]) @ v # ws)), [])"
    using "3.IH" [OF n(2), of ?pre l2 "vs @ [w]"] by auto
  have "token_text ?conf ?tok = quote w"
    by (simp add: token_text_def)
  moreover have "print_items (v # ws) \<noteq> []"
    by (cases ws) auto
  ultimately show ?case
    using t u items add_word [of strtod w k vs]
    by (auto simp: n(1) item_token_def [of l] array_items.simps bindT_def liftT_def skip_newlines_same returnT_def eat_token_def add.assoc)
qed

text \<open>A line with a list of words.\<close>

lemma parse_array_words:
  assumes "length ws < n"
  shows "\<exists>l'. parse_array (Suc n) strtod (pre @ print_array ws @ NL # p) (set_token LBRACKET l (length pre) 1) (words k []) [] =
    (Inr (set_token NEWLINE l' (length (pre @ print_array ws)) 1, words k ws), [])"
proof -
  let ?conf = "pre @ print_array ws @ NL # p" and ?open = "set_token LBRACKET l (length pre) 1"
  obtain l1 where first: "next_token ?conf False ?open = Inr (item_token l1 ws (length (pre @ ''[''))) "
    using next_item [of ?open "pre @ ''[''" ws "NL # p"] by (auto simp: print_array_def)
  obtain l2 where items: "array_items n strtod ?conf (item_token l1 ws (length (pre @ ''[''))) (words k []) [] =
      (Inr (set_token RBRACKET l2 (length (pre @ ''['') + length (print_items ws) - 1) 1, words k ws), [])"
    using array_items_words [OF assms, of strtod "pre @ ''[''" "NL # p" l1 k "[]"] by (auto simp: print_array_def)
  have "print_items ws \<noteq> []"
    by (cases ws rule: print_items.cases) auto
  then obtain l3 where last: "next_token ?conf True (set_token RBRACKET l2 (length (pre @ ''['') + length (print_items ws) - 1) 1) =
      Inr (set_token NEWLINE l3 (length (pre @ print_array ws)) 1)"
    using next_newline [of "set_token RBRACKET l2 (length (pre @ ''['') + length (print_items ws) - 1) 1" "pre @ print_array ws" p]
    by (auto simp: print_array_def)
  show ?thesis
    using first items last by (auto simp: parse_array.simps bindT_def liftT_def eat_token_def returnT_def)
qed

lemma parse_keyval_words:
  assumes key: "bare_key k" and new: "check_key t k = NotFound" and writable: "\<not> t_readonly t" and "length ws < n"
  shows "\<exists>l. parse_keyval (Suc (Suc n)) strtod (pre @ k @ '' = '' @ print_array ws @ NL # p) (set_token STRING l0 (length pre) (length k)) t [] =
    (Inr (set_token NEWLINE l (length (pre @ k @ '' = '' @ print_array ws)) 1, set_arrs (t_arrs t @ [words k ws]) t), [])"
proof -
  let ?conf = "pre @ k @ '' = '' @ print_array ws @ NL # p" and ?key = "set_token STRING l0 (length pre) (length k)"
  obtain l1 where eq: "next_token ?conf True ?key = Inr (set_token EQUAL l1 (length (pre @ k) + 1) 1)"
    using next_equal [of ?key "pre @ k" "print_array ws @ NL # p"] by auto
  obtain l2 where val: "next_token ?conf False (set_token EQUAL l1 (length (pre @ k) + 1) 1) =
      Inr (set_token LBRACKET l2 (length (pre @ k @ '' = '')) 1)"
    using next_token_at [of "set_token EQUAL l1 (length (pre @ k) + 1) 1" "pre @ k @ '' =''"
        "print_array ws @ NL # p" "SP # print_array ws @ NL # p" False]
    by (auto simp: print_array_def is_blank_def punctuation_def)
  obtain l3 where arr: "parse_array (Suc n) strtod ?conf (set_token LBRACKET l2 (length (pre @ k @ '' = '')) 1) (words k []) [] =
      (Inr (set_token NEWLINE l3 (length (pre @ k @ '' = '' @ print_array ws)) 1, words k ws), [])"
    using parse_array_words [OF assms(4), of strtod "pre @ k @ '' = ''" p l2 k] by auto
  have "create_keyarray_in_table ?conf t ?key NUL [] = (Inr (set_arrs (t_arrs t @ [words k []]) t, length (t_arrs t)), [])"
    using normalize_bare [OF key, of pre "'' = '' @ print_array ws @ NL # p" l0] new
    by (simp add: create_keyarray_in_table_def bindT_def two_allocs_Nil returnT_def words_def)
  then show ?thesis
    unfolding parse_keyval.simps
    using writable eq val arr by (auto simp: bindT_def liftT_def eat_token_def returnT_def)
qed

subsection \<open>Lines\<close>

text \<open>The rest of a text, read from the start of a line with a current table, leads to a document.\<close>

definition reads :: "nat \<Rightarrow> (string \<Rightarrow> 'd option) \<Rightarrow> string \<Rightarrow> string \<Rightarrow> toml_tab \<Rightarrow> step list \<Rightarrow> toml_tab \<Rightarrow> bool" where
  "reads n strtod pre rest root path doc \<longleftrightarrow> (\<forall>tok0. tk_ptr tok0 + tk_len tok0 = length pre \<longrightarrow>
     (\<exists>tok. next_token (pre @ rest) True tok0 = Inr tok \<and>
       (\<forall>j. length rest < j \<longrightarrow> parse_lines j n strtod (pre @ rest) tok root path [] = (Inr doc, []))))"

lemma readsI:
  assumes "\<And>tok0. tk_ptr tok0 + tk_len tok0 = length pre \<Longrightarrow> \<exists>tok. next_token (pre @ rest) True tok0 = Inr tok \<and>
    (\<forall>j. length rest \<le> j \<longrightarrow> parse_lines (Suc j) n strtod (pre @ rest) tok root path [] = (Inr doc, []))"
  shows "reads n strtod pre rest root path doc"
  unfolding reads_def
proof (intro allI impI)
  fix tok0 :: token
  assume "tk_ptr tok0 + tk_len tok0 = length pre"
  from assms [OF this] obtain tok where tok: "next_token (pre @ rest) True tok0 = Inr tok"
    and lines: "\<forall>j. length rest \<le> j \<longrightarrow> parse_lines (Suc j) n strtod (pre @ rest) tok root path [] = (Inr doc, [])"
    by blast
  have "parse_lines j n strtod (pre @ rest) tok root path [] = (Inr doc, [])" if "length rest < j" for j
    using lines that by (cases j) auto
  with tok show "\<exists>tok. next_token (pre @ rest) True tok0 = Inr tok \<and>
      (\<forall>j. length rest < j \<longrightarrow> parse_lines j n strtod (pre @ rest) tok root path [] = (Inr doc, []))"
    by blast
qed

lemma readsE:
  assumes "reads n strtod pre rest root path doc" and "tk_ptr tok0 + tk_len tok0 = length pre"
  obtains tok where "next_token (pre @ rest) True tok0 = Inr tok"
    "\<And>j. length rest < j \<Longrightarrow> parse_lines j n strtod (pre @ rest) tok root path [] = (Inr doc, [])"
  using assms unfolding reads_def by blast

lemma reads_end: "reads n strtod pre [] root path root"
proof (rule readsI)
  fix tok0 :: token
  assume "tk_ptr tok0 + tk_len tok0 = length pre"
  then obtain l where "next_token (pre @ []) True tok0 = Inr (set_eof (pre @ []) l)"
    using next_token_at [of tok0 pre "[]" "[]" True] by auto
  then show "\<exists>tok. next_token (pre @ []) True tok0 = Inr tok \<and>
      (\<forall>j. length [] \<le> j \<longrightarrow> parse_lines (Suc j) n strtod (pre @ []) tok root path [] = (Inr root, []))"
    by (simp add: set_eof_def returnT_def)
qed

lemma reads_keyval:
  assumes key: "bare_key k"
    and keyval: "\<And>l0. \<exists>l. parse_keyval n strtod (pre @ k @ '' = '' @ v @ NL # rest) (set_token STRING l0 (length pre) (length k)) (at_path path root) [] =
      (Inr (set_token NEWLINE l (length (pre @ k @ '' = '' @ v)) 1, t), [])"
    and rest: "reads n strtod (pre @ k @ '' = '' @ v @ [NL]) rest (put_path path t root) path doc"
  shows "reads n strtod pre (k @ '' = '' @ v @ NL # rest) root path doc"
proof (rule readsI)
  fix tok0 :: token
  let ?conf = "pre @ k @ '' = '' @ v @ NL # rest"
  assume "tk_ptr tok0 + tk_len tok0 = length pre"
  then obtain l0 where tok: "next_token ?conf True tok0 = Inr (set_token STRING l0 (length pre) (length k))"
    using next_key [OF _ key bare_char_ends(1), of tok0 pre "CHR ''='' # SP # v @ NL # rest"] by auto
  obtain l where line: "parse_keyval n strtod ?conf (set_token STRING l0 (length pre) (length k)) (at_path path root) [] =
      (Inr (set_token NEWLINE l (length (pre @ k @ '' = '' @ v)) 1, t), [])"
    using keyval by blast
  obtain t' where t': "next_token ?conf True (set_token NEWLINE l (length (pre @ k @ '' = '' @ v)) 1) = Inr t'"
    "\<And>j. length rest < j \<Longrightarrow> parse_lines j n strtod ?conf t' (put_path path t root) path [] = (Inr doc, [])"
    by (rule readsE [OF rest, of "set_token NEWLINE l (length (pre @ k @ '' = '' @ v)) 1"]) auto
  have "parse_lines (Suc j) n strtod ?conf (set_token STRING l0 (length pre) (length k)) root path [] = (Inr doc, [])"
    if "length rest < j" for j
    using line t' that by (simp add: bindT_def liftT_def eat_token_def)
  with tok show "\<exists>tok. next_token ?conf True tok0 = Inr tok \<and> (\<forall>j. length (k @ '' = '' @ v @ NL # rest) \<le> j \<longrightarrow>
      parse_lines (Suc j) n strtod ?conf tok root path [] = (Inr doc, []))"
    by auto
qed

subsection \<open>Selectors of arrays of tables\<close>

fun print_keys :: "string list \<Rightarrow> string" where
  "print_keys [] = []"
| "print_keys [k] = k"
| "print_keys (k # l # ks) = k @ ''.'' @ print_keys (l # ks)"

definition print_select :: "string list \<Rightarrow> string" where
  "print_select ks = ''[['' @ print_keys ks @ '']]''"

definition key_token :: "string \<Rightarrow> string \<Rightarrow> string \<times> token \<Rightarrow> bool" where
  "key_token conf k kt \<longleftrightarrow> fst kt = k \<and> (\<exists>pre p l. conf = pre @ k @ p \<and> snd kt = set_token STRING l (length pre) (length k))"

lemma key_tokenI: "key_token (pre @ k @ p) k (k, set_token STRING l (length pre) (length k))"
  by (auto simp: key_token_def)

lemma fill_keys:
  assumes "ks \<noteq> []" and "list_all bare_key ks" and "length ks \<le> m"
  shows "\<exists>tp l. fill_tabpath m (pre @ print_keys ks @ CHR '']'' # p) lineno (set_token STRING l0 (length pre) (length (hd ks))) [] =
      (Inr (tp, set_token RBRACKET l (length (pre @ print_keys ks)) 1), []) \<and>
    list_all2 (key_token (pre @ print_keys ks @ CHR '']'' # p)) ks tp"
  using assms
proof (induction ks arbitrary: m pre l0 rule: print_keys.induct)
  case (2 k)
  then obtain m' where m: "m = Suc m'"
    by (cases m) auto
  let ?conf = "pre @ k @ CHR '']'' # p" and ?tok = "set_token STRING l0 (length pre) (length k)"
  obtain l where "next_token ?conf True ?tok = Inr (set_token RBRACKET l (length (pre @ k)) 1)"
    using next_punctuation [of ?tok "pre @ k" True "CHR '']''" RBRACKET p] by (auto simp: punctuation_def is_blank_def)
  then show ?case
    using 2 normalize_bare [of k pre "CHR '']'' # p" l0] key_tokenI [of pre k "CHR '']'' # p" l0]
    by (auto simp: m bindT_def liftT_def returnT_def)
next
  case (3 k l ks)
  then obtain m' where m: "m = Suc m'" "length (l # ks) \<le> m'"
    by (cases m) auto
  let ?rest = "print_keys (l # ks) @ CHR '']'' # p"
  let ?conf = "pre @ k @ CHR ''.'' # ?rest" and ?tok = "set_token STRING l0 (length pre) (length k)"
  let ?pre = "pre @ k @ ''.''"
  obtain l1 where dot: "next_token ?conf True ?tok = Inr (set_token DOT l1 (length (pre @ k)) 1)"
    using next_punctuation [of ?tok "pre @ k" True "CHR ''.''" DOT ?rest] by (auto simp: punctuation_def is_blank_def)
  obtain e q where q: "?rest = l @ e # q" "\<not> bare_char True e"
    using bare_char_ends by (cases ks) auto
  obtain l2 where key: "next_token ?conf True (set_token DOT l1 (length (pre @ k)) 1) = Inr (set_token STRING l2 (length ?pre) (length l))"
    using next_key [of "set_token DOT l1 (length (pre @ k)) 1" ?pre l e q] 3(3) q by auto
  obtain tp l3 where rest: "fill_tabpath m' ?conf lineno (set_token STRING l2 (length ?pre) (length l)) [] =
      (Inr (tp, set_token RBRACKET l3 (length (?pre @ print_keys (l # ks))) 1), [])" "list_all2 (key_token ?conf) (l # ks) tp"
    using "3.IH" [of m' ?pre l2] 3(3) m(2) by auto
  show ?case
    using 3(3) normalize_bare [of k pre "CHR ''.'' # ?rest" l0] dot key rest key_tokenI [of pre k "CHR ''.'' # ?rest" l0]
    by (auto simp: m(1) bindT_def liftT_def returnT_def)
qed simp

lemma next_bracket_at:
  "tk_ptr tok + tk_len tok = length pre \<Longrightarrow> \<exists>l. next_token (pre @ CHR ''['' # p) True tok = Inr (set_token LBRACKET l (length pre) 1)"
  "tk_ptr tok + tk_len tok = length pre \<Longrightarrow> \<exists>l. next_token (pre @ CHR '']'' # p) True tok = Inr (set_token RBRACKET l (length pre) 1)"
  by (rule next_punctuation; simp add: punctuation_def is_blank_def)+

lemma doubled_at: "doubled (pre @ c # d # p) (set_token t l (length pre) n) e \<longleftrightarrow> d = e"
  by (simp add: doubled_def nth_append)

lemma close_at:
  "\<exists>l'. close_select (pre @ '']]'' @ NL # p) True (set_token RBRACKET l (length pre) 1) = Inr (set_token NEWLINE l' (length pre + 2) 1)"
proof -
  let ?conf = "pre @ '']]'' @ NL # p"
  obtain l1 where "next_token ?conf True (set_token RBRACKET l (length pre) 1) = Inr (set_token RBRACKET l1 (length (pre @ '']'')) 1)"
    using next_bracket_at(2) [of "set_token RBRACKET l (length pre) 1" "pre @ '']''" "NL # p"] by auto
  moreover obtain l2 where "next_token ?conf True (set_token RBRACKET l1 (length (pre @ '']'')) 1) = Inr (set_token NEWLINE l2 (length (pre @ '']]'')) 1)"
    using next_newline [of "set_token RBRACKET l1 (length (pre @ '']'')) 1" "pre @ '']]''" p] by auto
  ultimately show ?thesis
    by (auto simp: close_select_def eat_token_def doubled_at)
qed

lemma parse_select_tables:
  assumes ks: "ks \<noteq> []" "list_all bare_key ks" "length ks \<le> 10"
    and walk: "\<And>tp. map fst tp = butlast ks \<Longrightarrow> walk_tabpath tp root [] = (Inr (root', path), [])"
    and select: "\<And>conf z. key_token conf (last ks) (last ks, z) \<Longrightarrow> select_array conf z (at_path path root') [] = (Inr (cur, s), [])"
  shows "\<exists>l. parse_select (pre @ print_select ks @ NL # p) (set_token LBRACKET l0 (length pre) 1) root [] =
    (Inr (set_token NEWLINE l (length (pre @ print_select ks)) 1, put_path path cur root', path @ [s]), [])"
proof -
  let ?conf = "pre @ print_select ks @ NL # p" and ?pre = "pre @ ''[[''"
  have conf: "?conf = pre @ CHR ''['' # CHR ''['' # print_keys ks @ '']]'' @ NL # p"
    "?conf = ?pre @ print_keys ks @ CHR '']'' # CHR '']'' # NL # p"
    by (simp_all add: print_select_def)
  obtain l1 where first: "next_token ?conf True (set_token LBRACKET l0 (length pre) 1) = Inr (set_token LBRACKET l1 (length pre + 1) 1)"
    using next_bracket_at(1) [of "set_token LBRACKET l0 (length pre) 1" "pre @ ''[''" "print_keys ks @ '']]'' @ NL # p"]
    by (auto simp: conf(1))
  obtain e q where q: "print_keys ks @ CHR '']'' # CHR '']'' # NL # p = hd ks @ e # q" "\<not> bare_char True e"
    using ks(1) bare_char_ends by (cases ks rule: print_keys.cases) auto
  obtain l2 where key: "next_token ?conf True (set_token LBRACKET l1 (length pre + 1) 1) = Inr (set_token STRING l2 (length ?pre) (length (hd ks)))"
  proof -
    have "bare_key (hd ks)"
      using ks(1,2) by (cases ks) auto
    from next_key [of "set_token LBRACKET l1 (length pre + 1) 1" ?pre, OF _ this q(2), of q] that show thesis
      unfolding conf(2) q(1) by auto
  qed
  obtain tp l3 where fill: "fill_tabpath 10 ?conf l2 (set_token STRING l2 (length ?pre) (length (hd ks))) [] =
      (Inr (tp, set_token RBRACKET l3 (length (?pre @ print_keys ks)) 1), [])" "list_all2 (key_token ?conf) ks tp"
    using fill_keys [OF ks, of ?pre "CHR '']'' # NL # p" l2 l2] unfolding conf(2) by auto
  obtain l4 where close: "close_select ?conf True (set_token RBRACKET l3 (length (?pre @ print_keys ks)) 1) =
      Inr (set_token NEWLINE l4 (length (pre @ print_select ks)) 1)"
    using close_at [of "?pre @ print_keys ks" p l3] by (auto simp: print_select_def)
  have tp: "map fst tp = ks" "tp \<noteq> []"
    using fill(2) ks(1) by (auto simp: list_all2_conv_all_nth key_token_def intro: nth_equalityI)
  then have "map fst (butlast tp) = butlast ks" "fst (last tp) = last ks"
    by (auto simp: map_butlast last_map)
  moreover have "key_token ?conf (last ks) (last tp)"
    using fill(2) ks(1) tp(2) by (simp add: list_all2_conv_all_nth last_conv_nth)
  ultimately have "walk_tabpath (butlast tp) root [] = (Inr (root', path), [])"
    "select_array ?conf (snd (last tp)) (at_path path root') [] = (Inr (cur, s), [])"
    using walk [of "butlast tp"] select [of ?conf "snd (last tp)"] by (metis, metis prod.collapse)
  moreover have "doubled ?conf (set_token LBRACKET l0 (length pre) 1) (CHR ''['')"
    unfolding conf(1) doubled_at ..
  ultimately show ?thesis
    using first key fill(1) close by (auto simp: parse_select_def bindT_def liftT_def eat_token_def returnT_def)
qed

abbreviation anon :: toml_tab where
  "anon \<equiv> new_tab (Some ''__anon__'')"

lemma select_array_at:
  assumes "key_token conf k (k, z)" and "bare_key k"
  shows select_first: "check_key t k = NotFound \<Longrightarrow> select_array conf z t [] =
      (Inr (set_arrs (t_arrs t @ [Arr (Some k) (CHR ''t'') NUL [ElTab anon]]) t, InArr (length (t_arrs t)) 0), [])"
    and select_next: "key_arr t k = Some i \<Longrightarrow> a_kind (t_arrs t ! i) = CHR ''t'' \<Longrightarrow> select_array conf z t [] =
      (Inr (set_arrs ((t_arrs t)[i := set_items (a_items (t_arrs t ! i) @ [ElTab anon]) (t_arrs t ! i)]) t,
        InArr i (length (a_items (t_arrs t ! i)))), [])"
proof -
  obtain pre p l where "conf = pre @ k @ p" "z = set_token STRING l (length pre) (length k)"
    using assms(1) by (auto simp: key_token_def)
  then have key: "normalize_key conf z [] = (Inr k, [])"
    using normalize_bare [OF assms(2)] by simp
  show "select_array conf z t [] =
      (Inr (set_arrs (t_arrs t @ [Arr (Some k) (CHR ''t'') NUL [ElTab anon]]) t, InArr (length (t_arrs t)) 0), [])"
    if "check_key t k = NotFound"
  proof -
    have "key_arr t k = None"
      using that by (simp add: check_key_def split: option.splits)
    then show ?thesis
      using key that by (simp add: select_array_def create_keyarray_in_table_def bindT_def two_allocs_Nil allocT_Nil returnT_def
          Let_def set_items_def set_arrs_def)
  qed
  show "select_array conf z t [] =
      (Inr (set_arrs ((t_arrs t)[i := set_items (a_items (t_arrs t ! i) @ [ElTab anon]) (t_arrs t ! i)]) t,
        InArr i (length (a_items (t_arrs t ! i)))), [])" if "key_arr t k = Some i" "a_kind (t_arrs t ! i) = CHR ''t''"
    using key that by (simp add: select_array_def bindT_def two_allocs_Nil allocT_Nil returnT_def Let_def)
qed

lemma reads_select:
  assumes ks: "ks \<noteq> []" "list_all bare_key ks" "length ks \<le> 10"
    and walk: "\<And>tp. map fst tp = butlast ks \<Longrightarrow> walk_tabpath tp root [] = (Inr (root', path), [])"
    and select: "\<And>conf z. key_token conf (last ks) (last ks, z) \<Longrightarrow> select_array conf z (at_path path root') [] = (Inr (cur, s), [])"
    and rest: "reads n strtod (pre @ print_select ks @ [NL]) rest (put_path path cur root') (path @ [s]) doc"
  shows "reads n strtod pre (print_select ks @ NL # rest) root path0 doc"
proof (rule readsI)
  fix tok0 :: token
  let ?conf = "pre @ print_select ks @ NL # rest"
  assume tok0: "tk_ptr tok0 + tk_len tok0 = length pre"
  obtain l0 where tok: "next_token ?conf True tok0 = Inr (set_token LBRACKET l0 (length pre) 1)"
    using next_bracket_at(1) [OF tok0, of "CHR ''['' # print_keys ks @ '']]'' @ NL # rest"] by (auto simp: print_select_def)
  obtain l where line: "parse_select ?conf (set_token LBRACKET l0 (length pre) 1) root [] =
      (Inr (set_token NEWLINE l (length (pre @ print_select ks)) 1, put_path path cur root', path @ [s]), [])"
    using parse_select_tables [OF ks, OF walk select] by blast
  obtain t' where t': "next_token ?conf True (set_token NEWLINE l (length (pre @ print_select ks)) 1) = Inr t'"
    "\<And>j. length rest < j \<Longrightarrow> parse_lines j n strtod ?conf t' (put_path path cur root') (path @ [s]) [] = (Inr doc, [])"
    by (rule readsE [OF rest, of "set_token NEWLINE l (length (pre @ print_select ks)) 1"]) auto
  have "parse_lines (Suc (Suc j)) n strtod ?conf (set_token LBRACKET l0 (length pre) 1) root path0 [] = (Inr doc, [])"
    if "length rest < j" for j
    using line t' that by (simp add: bindT_def liftT_def)
  moreover have "\<exists>i. j = Suc i \<and> length rest < i" if "length (print_select ks @ NL # rest) \<le> j" for j
    using that by (cases j) (auto simp: print_select_def)
  ultimately show "\<exists>tok. next_token ?conf True tok0 = Inr tok \<and> (\<forall>j. length (print_select ks @ NL # rest) \<le> j \<longrightarrow>
      parse_lines (Suc j) n strtod ?conf tok root path0 [] = (Inr doc, []))"
    using tok by blast
qed

subsection \<open>File-system policies\<close>

text \<open>A rule: its path and its access names. A layer: the names it handles and its rules.\<close>

type_synonym text_rule = "string \<times> string list"
type_synonym text_layer = "string list \<times> text_rule list"

definition print_rule :: "text_rule \<Rightarrow> string" where
  "print_rule r = print_select [''fs_layer'', ''rule''] @ NL # ''path'' @ '' = '' @ quote (fst r) @ NL #
     ''allowed_access'' @ '' = '' @ print_array (snd r) @ [NL]"

definition print_layer :: "text_layer \<Rightarrow> string" where
  "print_layer l = print_select [''fs_layer''] @ NL # ''handled_access_fs'' @ '' = '' @ print_array (fst l) @ NL #
     concat (map print_rule (snd l))"

definition print_policy :: "text_layer list \<Rightarrow> string" where
  "print_policy ls = ''version'' @ '' = '' @ ''1'' @ NL # concat (map print_layer ls)"

text \<open>Their documents.\<close>

definition tables_arr :: "string \<Rightarrow> toml_tab list \<Rightarrow> toml_arr list" where
  "tables_arr k ts = (if ts = [] then [] else [Arr (Some k) (CHR ''t'') NUL (map ElTab ts)])"

definition rule_doc :: "text_rule \<Rightarrow> toml_tab" where
  "rule_doc r = Tab (Some ''__anon__'') False False [(''path'', quote (fst r))] [words ''allowed_access'' (snd r)] []"

definition layer_doc :: "string list \<Rightarrow> toml_tab list \<Rightarrow> toml_tab" where
  "layer_doc h rs = Tab (Some ''__anon__'') False False [] (words ''handled_access_fs'' h # tables_arr ''rule'' rs) []"

definition fs_doc :: "toml_tab list \<Rightarrow> toml_tab" where
  "fs_doc ls = Tab None False False [(''version'', ''1'')] (tables_arr ''fs_layer'' ls) []"

lemma tables_select:
  assumes "key_token conf k (k, z)" and "bare_key k"
    and t: "t_arrs t = arrs @ tables_arr k ts" and other: "Some k \<notin> set (map (\<lambda>kv. Some (fst kv)) (t_kvals t) @ map a_key arrs @ map t_key (t_tabs t))"
  shows "select_array conf z t [] = (Inr (set_arrs (arrs @ tables_arr k (ts @ [anon])) t, InArr (length arrs) (length ts)), [])"
proof (cases "ts = []")
  case True
  then have "check_key t k = NotFound"
    using t other by (simp add: check_key_NotFound tab_keys_def tables_arr_def)
  with True t show ?thesis
    by (simp add: select_first [OF assms(1,2)] tables_arr_def)
next
  case False
  have "find_index (\<lambda>a. a_key a = Some k) (arrs @ a # as) = Some (length arrs)"
    if "Some k \<notin> set (map a_key arrs)" "a_key a = Some k" for a as and arrs :: "toml_arr list"
    using that by (induction arrs) auto
  with False t other have "key_arr t k = Some (length arrs)"
    by (simp add: key_arr_def tables_arr_def)
  with False t show ?thesis
    by (simp add: select_next [OF assms(1,2)] tables_arr_def set_items_def)
qed

lemma map_last_item [simp]:
  "(map f xs @ [y]) ! length xs = y" "(map f xs @ [y])[length xs := z] = map f xs @ [z]"
  using nth_append_length [of "map f xs" y "[]"] list_update_length [of "map f xs" y "[]" z] by simp_all

text \<open>The current table of the parser, in a layer and in a rule.\<close>

lemma tables_at:
  "at_path [InArr 0 (length ls)] (fs_doc (ls @ [t])) = t"
  "put_path [InArr 0 (length ls)] s (fs_doc (ls @ [t])) = fs_doc (ls @ [s])"
  "at_path [InArr (Suc 0) (length rs)] (layer_doc h (rs @ [t])) = t"
  "put_path [InArr (Suc 0) (length rs)] s (layer_doc h (rs @ [t])) = layer_doc h (rs @ [s])"
  by (simp_all add: fs_doc_def layer_doc_def tables_arr_def Let_def set_arrs_def set_items_def)

lemma tables_at_rule:
  "at_path [InArr 0 (length ls), InArr (Suc 0) (length rs)] (fs_doc (ls @ [layer_doc h (rs @ [t])])) = t"
  "put_path [InArr 0 (length ls), InArr (Suc 0) (length rs)] s (fs_doc (ls @ [layer_doc h (rs @ [t])])) = fs_doc (ls @ [layer_doc h (rs @ [s])])"
  by (simp_all add: fs_doc_def layer_doc_def tables_arr_def Let_def set_arrs_def set_items_def)

lemma bare_keys [simp]:
  "bare_key ''version''" "bare_key ''fs_layer''" "bare_key ''rule''" "bare_key ''handled_access_fs''" "bare_key ''path''"
  "bare_key ''allowed_access''"
  by (simp_all add: bare_key_def is_alnum_def is_digit_def is_upper_def is_lower_def)

lemma reads_layer_select:
  assumes "reads n strtod (pre @ print_select [''fs_layer''] @ [NL]) rest (fs_doc (ls @ [anon])) [InArr 0 (length ls)] doc"
  shows "reads n strtod pre (print_select [''fs_layer''] @ NL # rest) (fs_doc ls) path doc"
proof (rule reads_select [where root' = "fs_doc ls" and path = "[]" and cur = "fs_doc (ls @ [anon])" and s = "InArr 0 (length ls)"])
  show "walk_tabpath tp (fs_doc ls) [] = (Inr (fs_doc ls, []), [])" if "map fst tp = butlast [''fs_layer'']" for tp
    using that by (simp add: returnT_def)
  show "select_array conf z (at_path [] (fs_doc ls)) [] = (Inr (fs_doc (ls @ [anon]), InArr 0 (length ls)), [])"
    if "key_token conf (last [''fs_layer'']) (last [''fs_layer''], z)" for conf z
    using tables_select [of conf "''fs_layer''" z "fs_doc ls" "[]" ls] that by (simp add: fs_doc_def set_arrs_def)
qed (use assms in auto)

lemma reads_rule_select:
  assumes "reads n strtod (pre @ print_select [''fs_layer'', ''rule''] @ [NL]) rest (fs_doc (ls @ [layer_doc h (rs @ [anon])]))
    [InArr 0 (length ls), InArr (Suc 0) (length rs)] doc"
  shows "reads n strtod pre (print_select [''fs_layer'', ''rule''] @ NL # rest) (fs_doc (ls @ [layer_doc h rs])) path doc"
proof (rule reads_select [where root' = "fs_doc (ls @ [layer_doc h rs])" and path = "[InArr 0 (length ls)]"
      and cur = "layer_doc h (rs @ [anon])" and s = "InArr (Suc 0) (length rs)"])
  show "walk_tabpath tp (fs_doc (ls @ [layer_doc h rs])) [] = (Inr (fs_doc (ls @ [layer_doc h rs]), [InArr 0 (length ls)]), [])"
    if tp: "map fst tp = butlast [''fs_layer'', ''rule'']" for tp
  proof -
    obtain tok where "tp = [(''fs_layer'', tok)]"
      using tp by (cases tp) auto
    then show ?thesis
      by (simp add: fs_doc_def tables_arr_def check_key_def key_val_def key_arr_def Let_def bindT_def returnT_def set_arrs_def set_items_def)
  qed
  show "select_array conf z (at_path [InArr 0 (length ls)] (fs_doc (ls @ [layer_doc h rs]))) [] =
      (Inr (layer_doc h (rs @ [anon]), InArr (Suc 0) (length rs)), [])"
    if "key_token conf (last [''fs_layer'', ''rule'']) (last [''fs_layer'', ''rule''], z)" for conf z
    using tables_select [of conf "''rule''" z "layer_doc h rs" "[words ''handled_access_fs'' h]" rs] that
    unfolding tables_at(1) by (simp add: layer_doc_def set_arrs_def words_def)
  show "reads n strtod (pre @ print_select [''fs_layer'', ''rule''] @ [NL]) rest
      (put_path [InArr 0 (length ls)] (layer_doc h (rs @ [anon])) (fs_doc (ls @ [layer_doc h rs]))) ([InArr 0 (length ls)] @ [InArr (Suc 0) (length rs)]) doc"
    using assms by (simp only: tables_at append.simps)
qed auto

text \<open>The lines under the selectors.\<close>

lemma reads_words:
  assumes "bare_key k" and "check_key (at_path path root) k = NotFound" and "\<not> t_readonly (at_path path root)" and "length ws + 3 \<le> n"
    and "reads n strtod (pre @ k @ '' = '' @ print_array ws @ [NL]) rest
      (put_path path (set_arrs (t_arrs (at_path path root) @ [words k ws]) (at_path path root)) root) path doc"
  shows "reads n strtod pre (k @ '' = '' @ print_array ws @ NL # rest) root path doc"
proof -
  obtain n' where "n = Suc (Suc n')" "length ws < n'"
    using assms(4) by (intro that [of "n - 2"]) auto
  then show ?thesis
    using reads_keyval [OF assms(1) _ assms(5)] parse_keyval_words [OF assms(1-3), of ws n' strtod pre rest] by blast
qed

lemma reads_string:
  assumes "bare_key k" and "check_key (at_path path root) k = NotFound" and "\<not> t_readonly (at_path path root)" and "0 < n"
    and "reads n strtod (pre @ k @ '' = '' @ quote s @ [NL]) rest
      (put_path path (set_kvals (t_kvals (at_path path root) @ [(k, quote s)]) (at_path path root)) root) path doc"
  shows "reads n strtod pre (k @ '' = '' @ quote s @ NL # rest) root path doc"
proof -
  obtain n' where "n = Suc n'"
    using assms(4) by (cases n) auto
  then show ?thesis
    using reads_keyval [OF assms(1) _ assms(5)] parse_keyval_line [OF assms(1-3), of n' strtod pre s rest] by blast
qed

lemma reads_rule:
  assumes n: "length (snd r) + 3 \<le> n"
    and rest: "\<And>path. reads n strtod (pre @ print_rule r) rest (fs_doc (ls @ [layer_doc h (rs @ [rule_doc r])])) path doc"
  shows "reads n strtod pre (print_rule r @ rest) (fs_doc (ls @ [layer_doc h rs])) path doc"
proof -
  let ?path = "[InArr 0 (length ls), InArr (Suc 0) (length rs)]"
  let ?r1 = "Tab (Some ''__anon__'') False False [(''path'', quote (fst r))] [] []"
  have keys: "check_key anon ''path'' = NotFound" "check_key ?r1 ''allowed_access'' = NotFound"
    by (simp_all add: check_key_NotFound) (simp add: tab_keys_def)
  have tabs: "set_kvals (t_kvals anon @ [(''path'', quote (fst r))]) anon = ?r1"
    "set_arrs (t_arrs ?r1 @ [words ''allowed_access'' (snd r)]) ?r1 = rule_doc r" "\<not> t_readonly anon" "\<not> t_readonly ?r1"
    by (simp_all add: set_kvals_def set_arrs_def rule_doc_def new_tab_def)
  let ?p1 = "pre @ print_select [''fs_layer'', ''rule''] @ [NL]"
  let ?p2 = "?p1 @ ''path'' @ '' = '' @ quote (fst r) @ [NL]"
  have "reads n strtod (?p2 @ ''allowed_access'' @ '' = '' @ print_array (snd r) @ [NL]) rest (fs_doc (ls @ [layer_doc h (rs @ [rule_doc r])])) ?path doc"
    using rest by (simp add: print_rule_def)
  then have "reads n strtod ?p2 (''allowed_access'' @ '' = '' @ print_array (snd r) @ NL # rest) (fs_doc (ls @ [layer_doc h (rs @ [?r1])])) ?path doc"
    using reads_words [of "''allowed_access''" ?path "fs_doc (ls @ [layer_doc h (rs @ [?r1])])" "snd r" n strtod ?p2 rest doc]
    unfolding tables_at_rule tabs using keys(2) tabs(4) n by (metis bare_keys(6))
  then have "reads n strtod ?p1 (''path'' @ '' = '' @ quote (fst r) @ NL # ''allowed_access'' @ '' = '' @ print_array (snd r) @ NL # rest)
      (fs_doc (ls @ [layer_doc h (rs @ [anon])])) ?path doc"
    using reads_string [of "''path''" ?path "fs_doc (ls @ [layer_doc h (rs @ [anon])])" n strtod ?p1 "fst r"
        "''allowed_access'' @ '' = '' @ print_array (snd r) @ NL # rest" doc]
    unfolding tables_at_rule tabs using keys(1) tabs(3) n by (metis bare_keys(5) add_is_0 gr0I le_zero_eq zero_neq_numeral)
  from reads_rule_select [OF this] show ?thesis
    by (simp add: print_rule_def)
qed

text \<open>The fuel of values that the lists of a policy need.\<close>

definition lists_fit :: "nat \<Rightarrow> text_layer \<Rightarrow> bool" where
  "lists_fit n l \<longleftrightarrow> length (fst l) + 3 \<le> n \<and> list_all (\<lambda>r. length (snd r) + 3 \<le> n) (snd l)"

lemma reads_rules:
  assumes "list_all (\<lambda>r. length (snd r) + 3 \<le> n) rs"
    and "\<And>path. reads n strtod (pre @ concat (map print_rule rs)) rest (fs_doc (ls @ [layer_doc h (past @ map rule_doc rs)])) path doc"
  shows "reads n strtod pre (concat (map print_rule rs) @ rest) (fs_doc (ls @ [layer_doc h past])) path doc"
  using assms
proof (induction rs arbitrary: pre past path)
  case (Cons r rs)
  have "reads n strtod (pre @ print_rule r) (concat (map print_rule rs) @ rest) (fs_doc (ls @ [layer_doc h (past @ [rule_doc r])])) path doc" for path
    by (rule Cons.IH) (use Cons.prems in simp_all)
  then have "reads n strtod pre (print_rule r @ concat (map print_rule rs) @ rest) (fs_doc (ls @ [layer_doc h past])) path doc"
    by (intro reads_rule) (use Cons.prems in simp_all)
  then show ?case
    by simp
qed simp

definition text_doc :: "text_layer \<Rightarrow> toml_tab" where
  "text_doc l = layer_doc (fst l) (map rule_doc (snd l))"

lemma reads_layer:
  assumes fit: "lists_fit n l"
    and rest: "\<And>path. reads n strtod (pre @ print_layer l) rest (fs_doc (ls @ [text_doc l])) path doc"
  shows "reads n strtod pre (print_layer l @ rest) (fs_doc ls) path doc"
proof -
  let ?path = "[InArr 0 (length ls)]" and ?p1 = "pre @ print_select [''fs_layer''] @ [NL]"
  let ?p2 = "?p1 @ ''handled_access_fs'' @ '' = '' @ print_array (fst l) @ [NL]"
  have key: "check_key anon ''handled_access_fs'' = NotFound"
    by (simp add: check_key_NotFound)
  have tabs: "set_arrs (t_arrs anon @ [words ''handled_access_fs'' (fst l)]) anon = layer_doc (fst l) []" "\<not> t_readonly anon"
    by (simp_all add: set_arrs_def layer_doc_def new_tab_def tables_arr_def)
  have "reads n strtod ?p2 (concat (map print_rule (snd l)) @ rest) (fs_doc (ls @ [layer_doc (fst l) []])) ?path doc"
    using fit rest by (intro reads_rules) (simp_all add: lists_fit_def print_layer_def text_doc_def)
  then have "reads n strtod ?p1 (''handled_access_fs'' @ '' = '' @ print_array (fst l) @ NL # concat (map print_rule (snd l)) @ rest)
      (fs_doc (ls @ [anon])) ?path doc"
    using reads_words [of "''handled_access_fs''" ?path "fs_doc (ls @ [anon])" "fst l" n strtod ?p1 "concat (map print_rule (snd l)) @ rest" doc]
    unfolding tables_at tabs using key tabs(2) fit by (metis bare_keys(4) lists_fit_def)
  from reads_layer_select [OF this] show ?thesis
    by (simp add: print_layer_def)
qed

lemma reads_layers:
  assumes "list_all (lists_fit n) ls" and "\<And>path. reads n strtod (pre @ concat (map print_layer ls)) rest (fs_doc (past @ map text_doc ls)) path doc"
  shows "reads n strtod pre (concat (map print_layer ls) @ rest) (fs_doc past) path doc"
  using assms
proof (induction ls arbitrary: pre past path)
  case (Cons l ls)
  have "reads n strtod (pre @ print_layer l) (concat (map print_layer ls) @ rest) (fs_doc (past @ [text_doc l])) path doc" for path
    by (rule Cons.IH) (use Cons.prems in simp_all)
  then have "reads n strtod pre (print_layer l @ concat (map print_layer ls) @ rest) (fs_doc past) path doc"
    by (intro reads_layer) (use Cons.prems in simp_all)
  then show ?case
    by simp
qed simp

text \<open>The version.\<close>

lemma scan_one: "scan_string l False (CHR ''1'' # NL # p) = Inr 1"
proof -
  have "scan_date (CHR ''1'' # NL # p) = None" "scan_time (CHR ''1'' # NL # p) = None"
    by (auto simp: scan_date_def scan_time_def scan_three_def scan_digits_def is_digit_def numeral_eq_Suc)
  then show ?thesis
    by (simp add: scan_string_def triple_def char_at_def bare_char_def is_digit_def is_upper_def is_lower_def)
qed

lemma parse_keyval_one:
  assumes key: "bare_key k" and new: "check_key t k = NotFound" and writable: "\<not> t_readonly t"
  shows "\<exists>l. parse_keyval (Suc n) strtod (pre @ k @ '' = '' @ ''1'' @ NL # p) (set_token STRING l0 (length pre) (length k)) t [] =
    (Inr (set_token NEWLINE l (length (pre @ k @ '' = '' @ ''1'')) 1, set_kvals (t_kvals t @ [(k, ''1'')]) t), [])"
proof -
  let ?conf = "pre @ k @ '' = '' @ ''1'' @ NL # p" and ?key = "set_token STRING l0 (length pre) (length k)"
  obtain l1 where eq: "next_token ?conf True ?key = Inr (set_token EQUAL l1 (length (pre @ k) + 1) 1)"
    using next_equal [of ?key "pre @ k" "''1'' @ NL # p"] by auto
  obtain l2 where val: "next_token ?conf False (set_token EQUAL l1 (length (pre @ k) + 1) 1) = Inr (set_token STRING l2 (length (pre @ k @ '' = '')) 1)"
    using next_token_at [of "set_token EQUAL l1 (length (pre @ k) + 1) 1" "pre @ k @ '' =''" "''1'' @ NL # p" "'' 1'' @ NL # p" False]
    by (auto simp: is_blank_def punctuation_def scan_one)
  obtain l3 where nl: "next_token ?conf True (set_token STRING l2 (length (pre @ k @ '' = '')) 1) =
      Inr (set_token NEWLINE l3 (length (pre @ k @ '' = '' @ ''1'')) 1)"
    using next_newline [of "set_token STRING l2 (length (pre @ k @ '' = '')) 1" "pre @ k @ '' = '' @ ''1''" p] by auto
  have "create_keyval_in_table ?conf t ?key ''1'' [] = (Inr (set_kvals (t_kvals t @ [(k, ''1'')]) t), [])"
    using normalize_bare [OF key, of pre "'' = '' @ ''1'' @ NL # p" l0] new
    by (simp add: create_keyval_in_table_def bindT_def two_allocs_Nil allocT_Nil returnT_def)
  moreover have "token_text ?conf (set_token STRING l2 (length (pre @ k @ '' = '')) 1) = ''1''"
    by (simp add: token_text_def)
  ultimately show ?thesis
    unfolding parse_keyval.simps
    using eq val nl writable by (auto simp: bindT_def liftT_def eat_token_def returnT_def)
qed

lemma is_cstr_concat: "(\<And>x. x \<in> set xs \<Longrightarrow> is_cstr (f x)) \<Longrightarrow> is_cstr (concat (map f xs))"
  by (induction xs) (auto simp: is_cstr_def)

lemma print_items_cstr: "is_cstr (print_items ws)"
  by (induction ws rule: print_items.induct) (auto simp: quote_cstr, auto simp: is_cstr_def NUL_def)

lemma print_policy_cstr: "is_cstr (print_policy ls)"
proof -
  have "is_cstr (print_rule r)" for r
    by (simp add: print_rule_def print_select_def print_array_def print_items_cstr quote_cstr) (simp add: is_cstr_def NUL_def)
  then have "is_cstr (print_layer l)" for l
    by (simp add: print_layer_def print_select_def print_array_def print_items_cstr is_cstr_concat) (simp add: is_cstr_def NUL_def)
  then show ?thesis
    by (simp add: print_policy_def is_cstr_concat) (simp add: is_cstr_def NUL_def)
qed

lemma length_print_items: "length ws \<le> length (print_items ws)"
  by (induction ws rule: print_items.induct) (auto simp: quote_def)

lemma length_concat_member: "x \<in> set xs \<Longrightarrow> length (f x) \<le> length (concat (map f xs))"
  by (induction xs) auto

lemma lists_fit_policy:
  assumes "l \<in> set ls"
  shows "lists_fit (2 * length (print_policy ls) + 1) l"
proof -
  have "length (print_layer l) + 3 \<le> length (print_policy ls)"
    using length_concat_member [OF assms, of print_layer] by (simp add: print_policy_def)
  moreover have "length (fst l) \<le> length (print_layer l)"
    using length_print_items [of "fst l"] by (simp add: print_layer_def print_array_def)
  moreover have "length (snd r) \<le> length (print_layer l)" if "r \<in> set (snd l)" for r
    using length_concat_member [OF that, of print_rule] length_print_items [of "snd r"]
    by (simp add: print_layer_def print_rule_def print_array_def)
  ultimately show ?thesis
    by (auto simp: lists_fit_def list_all_iff) fastforce
qed

lemma parse_print_policy: "toml_parse strtod (print_policy ls) [] = (Inr (fs_doc (map text_doc ls)), [])"
proof -
  let ?conf = "print_policy ls" and ?start = "set_token NEWLINE 1 0 0" and ?layers = "concat (map print_layer ls)"
  define n where "n = 2 * length ?conf + 1"
  have "list_all (lists_fit n) ls"
    unfolding n_def list_all_iff by (intro ballI lists_fit_policy)
  then have layers: "reads n strtod ([] @ ''version'' @ '' = '' @ ''1'' @ [NL]) (?layers @ []) (fs_doc []) [] (fs_doc (map text_doc ls))"
    by (rule reads_layers) (simp add: reads_end)
  have "set_kvals (t_kvals (new_tab None) @ [(''version'', ''1'')]) (new_tab None) = fs_doc []"
    "check_key (new_tab None) ''version'' = NotFound" "\<not> t_readonly (new_tab None)"
    by (simp_all add: check_key_NotFound) (simp_all add: fs_doc_def tables_arr_def new_tab_def set_kvals_def)
  then have "\<exists>l. parse_keyval n strtod ([] @ ''version'' @ '' = '' @ ''1'' @ NL # ?layers)
      (set_token STRING l0 (length []) (length ''version'')) (at_path [] (new_tab None)) [] =
    (Inr (set_token NEWLINE l (length ([] @ ''version'' @ '' = '' @ ''1'')) 1, fs_doc []), [])" for l0
    using parse_keyval_one [of "''version''" "new_tab None" "2 * length ?conf" strtod "[]" ?layers l0] by (simp add: n_def)
  from reads_keyval [OF bare_keys(1) this, of "fs_doc (map text_doc ls)"] layers
  have "reads n strtod [] ?conf (new_tab None) [] (fs_doc (map text_doc ls))"
    by (simp add: print_policy_def)
  then obtain t where t: "next_token ([] @ ?conf) True ?start = Inr t"
    "\<And>j. length ?conf < j \<Longrightarrow> parse_lines j n strtod ([] @ ?conf) t (new_tab None) [] [] = (Inr (fs_doc (map text_doc ls)), [])"
    by (rule readsE [of _ _ _ _ _ _ _ ?start]) (simp, blast)
  moreover have "cstr ?conf = ?conf"
    by (simp add: print_policy_cstr)
  ultimately show ?thesis
    by (simp add: toml_parse_def Let_def bindT_def allocT_Nil liftT_def n_def parse_lines.simps(2) [of "Suc (length ?conf)"] del: parse_lines.simps)
qed

subsection \<open>What the loader makes of it\<close>

text \<open>The names of an access mask.\<close>

definition names_of :: "u64 \<Rightarrow> string list" where
  "names_of m = map fst (filter (\<lambda>nb. m AND snd nb \<noteq> 0) FS_ACCESS_NAMES)"

definition named :: "u64 \<Rightarrow> bool" where
  "named m \<longleftrightarrow> m \<noteq> 0 \<and> drop_bit 16 m = 0"

definition string_items :: "string list \<Rightarrow> toml_item list" where
  "string_items ws = map (\<lambda>w. IVal (RString w)) ws"

lemma bit_fold_or:
  "bit (fold (\<lambda>nb acc. acc OR snd nb) xs a) k \<longleftrightarrow> bit a k \<or> (\<exists>nb\<in>set xs. bit (snd nb :: u64) k)"
  by (induction xs arbitrary: a) (auto simp: bit_or_iff)

lemma FS_ACCESS_bits: "map snd FS_ACCESS_NAMES = map (\<lambda>i. push_bit i 1) [0..<16]"
  by (simp add: FS_ACCESS_NAMES_def access_bits upt_rec numeral_eq_Suc)

lemma FS_ACCESS_cstr: "list_all (\<lambda>nb. is_cstr (fst nb)) FS_ACCESS_NAMES" "distinct (map fst FS_ACCESS_NAMES)"
  by (simp_all add: FS_ACCESS_NAMES_def NUL_def)

lemma fold_or_named:
  assumes "named m"
  shows "fold (\<lambda>nb acc. acc OR snd nb) (filter (\<lambda>nb. m AND snd nb \<noteq> 0) FS_ACCESS_NAMES) 0 = m"
proof (rule bit_word_eqI)
  fix k
  assume "k < LENGTH(64)"
  have "(\<exists>nb\<in>set FS_ACCESS_NAMES. P (snd nb)) \<longleftrightarrow> (\<exists>i<16. P (push_bit i 1))" for P
  proof -
    have "(\<exists>nb\<in>set FS_ACCESS_NAMES. P (snd nb)) \<longleftrightarrow> (\<exists>b\<in>set (map snd FS_ACCESS_NAMES). P b)"
      by simp
    then show ?thesis
      unfolding FS_ACCESS_bits by auto
  qed
  note table = this
  have "bit (fold (\<lambda>nb acc. acc OR snd nb) (filter (\<lambda>nb. m AND snd nb \<noteq> 0) FS_ACCESS_NAMES) 0) k \<longleftrightarrow>
      (\<exists>nb\<in>set FS_ACCESS_NAMES. m AND snd nb \<noteq> 0 \<and> bit (snd nb) k)"
    by (force simp: bit_fold_or)
  also have "\<dots> \<longleftrightarrow> (\<exists>i<16. m AND push_bit i 1 \<noteq> 0 \<and> bit (push_bit i 1 :: u64) k)"
    by (rule table)
  also have "\<dots> \<longleftrightarrow> k < 16 \<and> bit m k"
    by (auto simp: push_bit_of_1 and_exp_eq_0_iff_not_bit bit_exp_iff)
  also have "\<dots> \<longleftrightarrow> bit m k"
  proof -
    have "\<not> bit m k" if "16 \<le> k"
    proof -
      have "bit (drop_bit 16 m) (k - 16) \<longleftrightarrow> bit m k"
        using that by (simp add: bit_drop_bit_eq)
      with assms show ?thesis
        by (simp add: named_def)
    qed
    then show ?thesis
      by (meson linorder_not_less)
  qed
  finally show "bit (fold (\<lambda>nb acc. acc OR snd nb) (filter (\<lambda>nb. m AND snd nb \<noteq> 0) FS_ACCESS_NAMES) 0) k \<longleftrightarrow> bit m k" .
qed

lemma string_at_items: "is_cstr w \<Longrightarrow> string_at (IVal (RString w)) = Some w"
  by simp

lemma names_known:
  assumes "w \<in> set (names_of m)"
  shows "is_cstr w \<and> map_of FS_ACCESS_NAMES w \<noteq> None"
  using assms FS_ACCESS_cstr(1) by (fastforce simp: names_of_def list_all_iff weak_map_of_SomeI)

lemma access_mask_names:
  assumes "named m"
  shows "access_mask FS_ACCESS_NAMES (string_items (names_of m)) = m"
proof -
  have "fold (\<lambda>it acc. acc OR the (map_of FS_ACCESS_NAMES (the (string_at it)))) (string_items (map fst xs)) a =
      fold (\<lambda>nb acc. acc OR snd nb) xs a" if "set xs \<subseteq> set FS_ACCESS_NAMES" for xs a
    using that
  proof (induction xs arbitrary: a)
    case (Cons nb xs)
    then have "is_cstr (fst nb)" "map_of FS_ACCESS_NAMES (fst nb) = Some (snd nb)"
      using FS_ACCESS_cstr by (auto simp: list_all_iff map_of_eq_Some_iff)
    with Cons show ?case
      by (simp add: string_items_def)
  qed (simp add: string_items_def)
  from this [of "filter (\<lambda>nb. m AND snd nb \<noteq> 0) FS_ACCESS_NAMES" 0] fold_or_named [OF assms] show ?thesis
    by (simp add: access_mask_def names_of_def)
qed

lemma names_of_nonempty: "named m \<Longrightarrow> names_of m \<noteq> []"
  using fold_or_named [of m] by (auto simp: names_of_def named_def)

lemma ok_access_names: "named m \<Longrightarrow> ok_access FS_ACCESS_NAMES (Some (string_items (names_of m)))"
  using names_known [of _ m] names_of_nonempty [of m] by (auto simp: ok_access_def string_items_def list_all_iff)

text \<open>A layer that can be written: its masks have names and its paths are non-empty C strings.\<close>

definition writable_layer :: "fs_layer \<Rightarrow> bool" where
  "writable_layer l \<longleftrightarrow> named (l_handled l) \<and> list_all (\<lambda>r. good_path (r_path r) \<and> named (r_allowed r)) (l_rules l)"

definition rule_text :: "fs_rule \<Rightarrow> text_rule" where
  "rule_text r = (r_path r, names_of (r_allowed r))"

definition layer_text :: "fs_layer \<Rightarrow> text_layer" where
  "layer_text l = (names_of (l_handled l), map rule_text (l_rules l))"

lemma doc_words: "doc_arr (words k ws) = string_items ws"
proof -
  have "raw_of (quote w) = RString w" for w
    by (simp add: raw_of_iff raw_string_def rtos_quote)
  then show ?thesis
    by (simp add: words_def string_items_def)
qed

lemma words_key [simp]: "a_key (words k ws) = Some k"
  by (simp add: words_def)

lemma rule_loads:
  assumes "good_path (r_path r)" and "named (r_allowed r)"
  shows "ok_fs_rule (doc_tab (rule_doc (rule_text r)))" and "fs_rule_of (doc_tab (rule_doc (rule_text r))) = r"
proof -
  let ?t = "doc_tab (rule_doc (rule_text r))"
  have "raw_of (quote w) = RString w" for w
    by (simp add: raw_of_iff raw_string_def rtos_quote)
  then have t: "?t = Table [(''path'', RString (r_path r))] [(''allowed_access'', string_items (names_of (r_allowed r)))] []"
    by (simp add: rule_doc_def rule_text_def doc_words)
  show "ok_fs_rule ?t"
    using assms ok_access_names [OF assms(2)] unfolding t
    by (simp add: ok_fs_rule_def table_has_only_keys_def table_keys_def string_in_def array_in_def nonempty_def good_path_def)
  show "fs_rule_of ?t = r"
    using assms access_mask_names [OF assms(2)] unfolding t
    by (simp add: fs_rule_of_def string_in_def items_def array_in_def good_path_def)
qed

lemma doc_tables_arr: "map (\<lambda>a. (the (a_key a), doc_arr a)) (tables_arr k ts) = (if ts = [] then [] else [(k, map (\<lambda>t. ITab (doc_tab t)) ts)])"
  by (simp add: tables_arr_def)

lemma layer_loads:
  assumes "writable_layer l"
  shows "ok_fs_layer (doc_tab (text_doc (layer_text l)))" and "fs_layer_of (doc_tab (text_doc (layer_text l))) = l"
proof -
  let ?t = "doc_tab (text_doc (layer_text l))" and ?rules = "map (\<lambda>r. doc_tab (rule_doc (rule_text r))) (l_rules l)"
  have rules: "good_path (r_path r)" "named (r_allowed r)" if "r \<in> set (l_rules l)" for r
    using assms that by (auto simp: writable_layer_def list_all_iff)
  have h: "named (l_handled l)"
    using assms by (simp add: writable_layer_def)
  have t: "?t = Table [] ((''handled_access_fs'', string_items (names_of (l_handled l))) #
      (if l_rules l = [] then [] else [(''rule'', map ITab ?rules)])) []"
    by (simp add: text_doc_def layer_doc_def layer_text_def doc_words doc_tables_arr)
  have items: "items ?t ''rule'' = map ITab ?rules" "array_in ?t ''handled_access_fs'' = Some (string_items (names_of (l_handled l)))"
    unfolding t by (simp_all add: items_def array_in_def)
  show "ok_fs_layer ?t"
    using rules rule_loads(1) ok_access_names [OF h] items
    by (auto simp: ok_fs_layer_def ok_tables_def list_all_iff) (auto simp: t table_has_only_keys_def table_keys_def)
  have "map (\<lambda>r. fs_rule_of (doc_tab (rule_doc (rule_text r)))) (l_rules l) = l_rules l"
    using rules rule_loads(2) by (simp add: map_idI)
  then show "fs_layer_of ?t = l"
    using access_mask_names [OF h] items
    by (simp add: fs_layer_of_def tables_def items_def [of ?t "''handled_access_fs''"] comp_def)
qed

lemma policy_loads:
  assumes "list_all writable_layer ls"
  shows "load_root (doc_tab (fs_doc (map text_doc (map layer_text ls)))) ir_init [] = (Inr (ir_init\<lparr>fs_layers := ls\<rparr>), [])"
proof -
  define t where "t = doc_tab (fs_doc (map text_doc (map layer_text ls)))"
  let ?layers = "map (\<lambda>l. doc_tab (text_doc (layer_text l))) ls"
  have "toml_rtoi (Some ''1'') = Some 1"
    by code_simp
  then have "raw_of ''1'' = RInt 1"
    by (simp add: raw_of_iff)
  then have t: "t = Table [(''version'', RInt 1)] (if ls = [] then [] else [(''fs_layer'', map ITab ?layers)]) []"
    by (simp add: t_def fs_doc_def doc_tables_arr)
  have parts: "items t ''fs_layer'' = map ITab ?layers" "int_in t ''version'' = Some 1" "table_in t k = None"
    "table_has_only_keys t [''version'', ''fs_layer'', ''net'', ''broker'', ''mount'', ''runtime'', ''seccomp'']" for k
    unfolding t by (simp_all add: items_def array_in_def int_in_def table_in_def table_has_only_keys_def table_keys_def)
  have "doc_ok t"
    using assms layer_loads(1) by (auto simp: doc_ok_def parts ok_tables_def ok_part_def list_all_iff)
  moreover have "map (\<lambda>l. fs_layer_of (doc_tab (text_doc (layer_text l)))) ls = ls"
    using assms layer_loads(2) by (simp add: map_idI list_all_iff)
  then have "policy_of t = ir_init\<lparr>fs_layers := ls\<rparr>"
    by (simp add: policy_of_def tables_def parts opt_part_def comp_def)
  moreover have "load_root t ir_init [] = (if doc_ok t then Inr (policy_of t) else Inl Stale, [])"
    using accepts_root [of t] load_root_policy [of t] by (auto simp: accepts_def ensures_def split: if_splits)
  ultimately show ?thesis
    by (simp add: t_def)
qed

subsection \<open>Properties\<close>

lemma document_of_policy: "toml_document strtod [] (print_policy ls) = Some (doc_tab (fs_doc (map text_doc ls)))"
  by (simp add: toml_document_def toml_parse_file_def bindT_def read_stream_Nil parse_print_policy)

text \<open>C13: A policy file can be written and read: the TOML text of any file-system policy, whose layers handle and allow
  access rights that have names and whose rules have non-empty paths, in any number and with any characters in the
  paths, is parsed and loaded to exactly that policy.\<close>

theorem policy_text_roundtrip:
  assumes "list_all writable_layer ls"
    and "K (w_trace w) (Fopen p) = Done n (print_policy (map layer_text ls))" and "0 \<le> n" and "w_alloc w = []"
  shows "fst (run_state (load_file_in_process K (toml_document strtod []) (Some p) ir_init) w) = (0, ir_init\<lparr>fs_layers := ls\<rparr>)"
proof -
  have e: "copy_dst_empty ir_init" by (simp add: copy_dst_empty_def ir_init_def)
  have "wp (load_file_in_process K (toml_document strtod []) (Some p) ir_init) (\<lambda>r w'. r = (0, ir_init\<lparr>fs_layers := ls\<rparr>)) w"
    unfolding load_file_in_process_def
    using assms(2-4) policy_loads [OF assms(1)] document_of_policy [of strtod "map layer_text ls"]
    by (simp add: e io_wp wp_opt split: reply.splits option.splits prod.splits sum.splits failure.splits)
  then show ?thesis
    by (simp add: wp_def case_prod_beta)
qed

definition sample_layers :: "fs_layer list" where
  "sample_layers = [\<lparr>l_handled = 0xC, l_rules = [\<lparr>r_path = ''/usr'', r_allowed = 0xC\<rparr>, \<lparr>r_path = ''/o'' @ [SQ, DQ, NL], r_allowed = 4\<rparr>]\<rparr>,
     \<lparr>l_handled = 0x4002, l_rules = []\<rparr>]"

definition file_kernel :: "string \<Rightarrow> kernel" where
  "file_kernel contents h e = (case e of Fopen p \<Rightarrow> Done 3 contents | _ \<Rightarrow> Done 0 [])"

theorem policy_text_roundtrip_witness:
  "fst (run_state (load_file_in_process (file_kernel (print_policy (map layer_text sample_layers))) (toml_document (\<lambda>_. None :: unit option) [])
      (Some ''p.toml'') ir_init) \<lparr>w_errno = 0, w_trace = [], w_alloc = [], w_e2big_warned = False\<rparr>) = (0, ir_init\<lparr>fs_layers := sample_layers\<rparr>)"
proof (rule policy_text_roundtrip [where n = 3])
  show "list_all writable_layer sample_layers"
    by (simp add: sample_layers_def writable_layer_def named_def good_path_def NUL_def)
qed (simp_all add: file_kernel_def)

end
