(* ===== verification/Spec2Isabelle.thy ===== *)
theory Spec2Isabelle
  imports CLI_Spec Toml_Policy
begin

text \<open>
  A verification library for \<^emph>\<open>landlockd\<close>, a launcher that runs a program under a Landlock and
  seccomp policy written in TOML, with a broker process that performs selected file and mount
  operations on the program's behalf.

  \<^bold>\<open>The program.\<close> The command line (\<open>cli_parse.c\<close>, \<open>landlockd_cli.c\<close>) picks a verb. A policy file,
  given by path or looked up by name, is parsed by a helper process
  (\<open>landlock_policy_loader_in_process.c\<close>, over the TOML parser \<open>subprojects/tomlc99/toml.c\<close>) into the policy IR (\<open>landlock_policy_ir.c\<close>), which the
  helper writes in a binary format to its parent (\<open>landlock_policy_loader.c\<close>). The runner
  (\<open>landlockd_exec.c\<close>) turns the IR into Landlock rulesets (\<open>landlock*.c\<close>) and seccomp filters
  (\<open>landlockd_seccomp.c\<close>), applies them in the child, serves the child's notifications in the broker
  (the same file) and writes an audit log (\<open>landlockd_audit.c\<close>). A daemon (\<open>landlockd_daemon.c\<close>) keeps
  loaded policies and runs commands for clients of its own user; without a policy the command line
  runs a command under one read-only ruleset. Two stand-alone compilers (\<open>policy_compiler.c\<close> with
  \<open>policy_ir.c\<close>, and \<open>landlock_policy.c\<close>) offer rulesets to library users.

  \<^bold>\<open>Foundations.\<close>
  \<^item> \<open>Prelude\<close>: machine words, errno values, C strings, little-endian encoding, and the monad of
    computations that allocate memory and may fail, with the Hoare-style predicate \<open>ensures\<close>.
  \<^item> \<open>Kernel\<close>: system calls as events, a kernel parameter that answers them from the history, the
    process state \<open>world\<close> (trace, errno, allocations), children as events marked \<open>InChild\<close>. Weakest
    preconditions \<open>wp\<close>, the call bound \<open>emits\<close>, the balance of descriptors handed out and closed,
    and \<open>traced E g f Q\<close>: after the history \<open>g\<close> each call of \<open>f\<close> is one that \<open>E\<close> grants at that point.

  \<^bold>\<open>Enforcement.\<close>
  \<^item> \<open>Seccomp\<close>: \<open>landlockd_seccomp.c\<close>. Plans, both BPF programs and an interpreter for their
    instructions, the system call table, the hardening lists. The locale \<open>plan_filter\<close> states what
    a filter must decide; both programs are interpretations of it.
  \<^item> \<open>Landlock\<close>: \<open>landlock.c\<close>, the ruleset constructors, \<open>no_new_privs\<close>, the sandbox entries and
    the preflight probes.
  \<^item> \<open>Policy_Compiler\<close>: validation and compilation of layered policies. The locale \<open>fd_cleanup\<close>
    carries the accounting proof for both compilers.

  \<^bold>\<open>Policies.\<close>
  \<^item> \<open>Policy_IR\<close>: the policy record, every operation on it, and the deep copy. \<open>ir_wf\<close> is the
    invariant of the operations; the locale \<open>ir_field\<close> describes one list field of the record.
  \<^item> \<open>Policy_Wire\<close>: writer and reader of the helper's message. The locale \<open>wire_section\<close> (an
    extension of \<open>ir_field\<close>) states when a section of the message reads back; each section of
    the format is an interpretation.
  \<^item> \<open>Policy_Loader\<close>: TOML documents into the IR. \<open>policy_of\<close> is the meaning of a document and
    \<open>doc_ok\<close> the documents the loader takes.
  \<^item> \<open>Policy_Process\<close>: the search for the helper, its pipes, fork, exec, wait and the reading of its
    message; the helper's own main function.

  \<^bold>\<open>TOML\<close> (\<open>subprojects/tomlc99/toml.c\<close>).
  \<^item> \<open>Toml_Value\<close>: the error monad of the parser, UTF-8, quoted strings, the conversions of raw values.
    \<open>Toml_Lexer\<close>: tokens and the scanner. \<open>Toml_Parser\<close>: documents, their construction, the parser proper,
    selectors, access functions, release. A pointer into the text is an index, a pointer to a table a path.
  \<^item> \<open>Toml_Spec\<close>: the Hoare-style predicate \<open>ok\<close>; the parser ends on every text, never follows a NULL
    pointer and returns well-formed documents (\<open>wf_tab\<close>). \<open>Toml_Roundtrip\<close>: strings written as TOML are
    read back. \<open>Toml_Document\<close>: the loader's view of a document agrees with the library's access
    functions; the parser is an interpretation of the loader's locale \<open>document_source\<close>. \<open>Toml_Policy\<close>: the text of a
    file-system policy (\<open>print_policy\<close>), line by line through the parser (\<open>reads\<close>) and the loader.

  \<^bold>\<open>Supervised execution\<close> (\<open>landlockd_exec.c\<close>, \<open>landlockd_audit.c\<close>).
  \<^item> \<open>Audit_Log\<close>: the JSON line encoder and its write loop.
  \<^item> \<open>Broker_Policy\<close>: canonical allowlists, path matching, leases. \<open>Tracee\<close>: access to the memory and
    the descriptors of the supervised process, helper processes. \<open>Broker\<close>: every request handler, the
    dispatcher and the serving loop.
  \<^item> \<open>Broker_Spec\<close>, \<open>Broker_Safety\<close>, \<open>Broker_Mediation\<close>: what each request may cause, over the locales
    \<open>audited\<close> (what a log may write) and \<open>mediation\<close> (what a handler may do); the session invariant.
  \<^item> \<open>Runner\<close>: preflight, rulesets, mounts, the child, the broker process, the wait. \<open>Confinement\<close>: what
    has happened before the program is executed, the hardening of the broker, the descriptors.

  \<^bold>\<open>Front ends.\<close>
  \<^item> \<open>Daemon\<close>: messages, policy cache, request handling, listening and socket activation, and the
    client side (\<open>landlockd_daemon.c\<close>). \<open>Daemon_Safety\<close>: for whom the daemon works. \<open>Daemon_Cache\<close>: the
    cache invariant and the freshness of what a lookup returns. \<open>Daemon_Confinement\<close>: how the programs
    it starts are confined. \<open>Daemon_Protocol\<close>: a request that a
    client sends is the request the daemon acts on.
  \<^item> \<open>CLI_Parse\<close>: \<open>cli_parse.c\<close>; \<open>options_ok\<close> says what an accepted command line looks like.
  \<^item> \<open>Dry_Run\<close>: the dry-run report, comparators and sorting. The locale \<open>qsort_order\<close> states what a
    comparator must satisfy for the sorted list to depend only on the multiset; each comparator of
    the report is an interpretation.
  \<^item> \<open>CLI\<close>: policy lookup, verbs and the direct mode of \<open>landlockd_cli.c\<close>. \<open>CLI_Spec\<close>: the lookup returns
    the first readable candidate; what each verb may do.
  \<^item> This theory: what the program may do for any command line.

  \<^bold>\<open>What is shown.\<close> No program is executed but in a child: the policy helper, or the command of the
  command line after the filters and rulesets of a trusted policy (or of the direct mode) have been
  put in force there. The broker performs only what its allowlists cover, and its sessions keep
  their invariant. The policy a document describes is the policy the parent process ends up with
  (loader, wire format and pipes composed), and a file-system policy written as TOML text is loaded back
  from that text; neither the loader nor the wire reader ever yields a
  policy outside the invariant. The filters decide exactly the planned system calls; the
  hardening filters deny their lists. Rulesets are built from the given rules with every descriptor
  accounted for on success and on each failure. Audit records decode to what was logged. The daemon
  is hardened before it serves, serves only its own user, and answers from a policy file as it was
  when last looked at. The TOML parser is total on every text and every pattern of allocation failures.

  \<^bold>\<open>Modelling choices.\<close> Memory is a list of allocation outcomes, so running out of memory is one of
  the branches of every operation. Counts and lengths of messages wrap at \<open>2 ^ 32\<close> as in the code;
  in-memory counts are natural numbers. A function that returns -1 without touching errno fails with
  \<open>Stale\<close>. The kernel is a parameter; the theorems about \<open>traced\<close> programs assume nothing of it. The loader
  takes the TOML parser as an argument; \<open>Toml_Document\<close> supplies the one of the repository. What
  \<open>strtod\<close> makes of a text is a parameter of the parser. Releasing memory is modelled for documents only, as a
  number of blocks. Loops whose end depends on the kernel carry
  fuel: the write loops (\<open>audit_write\<close>, \<open>write_all\<close>), \<open>waitpid_retry\<close>, \<open>append_fd\<close>, \<open>daemon_read_all\<close>, the broker
  loop \<open>broker_serve\<close> and the accept loop \<open>serve_clients\<close>. The safety theorems hold for any fuel; the
  theorems that something is delivered say which fuel is enough: one unit for each byte and for each
  interruption, or one for each notification. The TOML parser's mutual recursion carries fuel too; \<open>toml_parse\<close> gives
  twice the length of the text plus one for values and the length plus two for lines, which
  \<open>Toml_Spec\<close> shows to be enough. All other recursion is structural or bounded by its
  input.

  \<^bold>\<open>Not modelled.\<close> The text of diagnostics for people (the event lines, audit lines, dry-run report and
  usage text are modelled); texts of \<open>2 ^ 31\<close> bytes and more, whose length the TOML parser keeps in an \<open>int\<close>; the
  test library \<open>libtap\<close>; the weak
  stubs of \<open>landlockd_runtime_stubs.c\<close>, which answer in builds
  without the runner; the alternative policy helper written in Rust, whose output is data for the
  wire reader like any other.
\<close>

subsection \<open>The whole program\<close>

text \<open>The options a command line stands for, when there is memory for them, and what the program may do
  for it.\<close>

definition parsed :: "string list \<Rightarrow> cli_options \<Rightarrow> bool" where
  "parsed argv opts \<longleftrightarrow> (\<exists>m m'. cli_parse argv m = (Inr opts, m'))"

definition main_granted :: "env \<Rightarrow> string list \<Rightarrow> history \<Rightarrow> sysevent \<Rightarrow> bool" where
  "main_granted v argv g e \<longleftrightarrow> routine e \<or> (\<exists>opts. parsed argv opts \<and> options_ok argv opts \<and> cli_granted v opts g e)"

lemma parse_parsed: "ensures (cli_parse argv) (\<lambda>opts. parsed argv opts \<and> options_ok argv opts)"
  using parse_ok[of argv] unfolding ensures_def parsed_def by (auto split: sum.splits prod.splits)


end
